(* ===== verification/Prelude.thy ===== *)
theory Prelude
  imports Main "HOL-Library.Word" "HOL-Library.Multiset"
begin

text \<open>
  Shared vocabulary of the development: the machine types of the C sources, the results of
  code that may abort, and the generic lemmas on words, lists and maps that the component
  theories use.

  A C function that can hit \<^verbatim>\<open>SK_ASSERT\<close> (src/src/api/sk_utils.h), dereference a null
  pointer, touch a freed object or call \<^verbatim>\<open>exit\<close> returns a value of type \<open>'a res\<close>;
  \<open>Inl\<close> carries the reason why the process stops. \<^verbatim>\<open>SK_ASSERT\<close> is active in every build of
  the program, so a failed assertion is an observable outcome and not undefined behaviour.
\<close>

section \<open>Types\<close>

type_synonym size_t = "64 word"
type_synonym u32 = "32 word"
type_synonym u64 = "64 word"
type_synonym u8 = "8 word"

text \<open>Addresses of heap objects (entities, transactions, schedulers, managers).\<close>

type_synonym addr = nat

datatype err =
    Assert      \<comment> \<open>\<^verbatim>\<open>sk_assert_exit\<close>: the process aborts\<close>
  | NullDeref   \<comment> \<open>a null pointer is dereferenced\<close>
  | Freed       \<comment> \<open>an object is used after it was freed\<close>
  | DivZero     \<comment> \<open>a division or remainder by zero\<close>
  | Wild        \<comment> \<open>memory is read as what it is not: the wrong member of a union, a string without end\<close>
  | Exit        \<comment> \<open>the source calls \<^verbatim>\<open>exit(1)\<close>\<close>
  | Fuel        \<comment> \<open>a loop of the model ran out of its bound, which is proved not to happen\<close>

type_synonym 'a res = "err + 'a"

section \<open>Results\<close>

named_theorems res_simps \<open>rewrite rules for results of code that may abort\<close>

definition rbind :: "'a res \<Rightarrow> ('a \<Rightarrow> 'b res) \<Rightarrow> 'b res" where
  "rbind m f = (case m of Inl e \<Rightarrow> Inl e | Inr x \<Rightarrow> f x)"

definition sk_assert :: "bool \<Rightarrow> 'a res \<Rightarrow> 'a res" where
  "sk_assert b k = (if b then k else Inl Assert)"

text \<open>A dereference: the object behind a pointer that may be null.\<close>

definition deref :: "'a option \<Rightarrow> ('a \<Rightarrow> 'b res) \<Rightarrow> 'b res" where
  "deref p k = (case p of None \<Rightarrow> Inl NullDeref | Some x \<Rightarrow> k x)"

text \<open>A use of a heap object that may have been freed.\<close>

definition live :: "'a option \<Rightarrow> ('a \<Rightarrow> 'b res) \<Rightarrow> 'b res" where
  "live p k = (case p of None \<Rightarrow> Inl Freed | Some x \<Rightarrow> k x)"

lemma rbind_simps [simp, res_simps]:
  "rbind (Inl e) f = Inl e" "rbind (Inr x) f = f x"
  by (simp_all add: rbind_def)

lemma rbind_Inr_iff [res_simps]: "rbind m f = Inr y \<longleftrightarrow> (\<exists>x. m = Inr x \<and> f x = Inr y)"
  by (cases m) auto

lemma rbind_split:
  "P (rbind m f) \<longleftrightarrow> (\<forall>e. m = Inl e \<longrightarrow> P (Inl e)) \<and> (\<forall>x. m = Inr x \<longrightarrow> P (f x))"
  by (cases m) auto

lemma rbind_assoc: "rbind (rbind m f) g = rbind m (\<lambda>x. rbind (f x) g)"
  by (cases m) auto

lemma rbind_cong [fundef_cong]:
  "m = m' \<Longrightarrow> (\<And>x. m' = Inr x \<Longrightarrow> f x = g x) \<Longrightarrow> rbind m f = rbind m' g"
  by (cases m') auto

lemma sk_assert_simps [simp, res_simps]:
  "sk_assert True k = k" "sk_assert False k = Inl Assert"
  by (simp_all add: sk_assert_def)

lemma sk_assert_Inr_iff [res_simps]: "sk_assert b k = Inr y \<longleftrightarrow> b \<and> k = Inr y"
  by (simp add: sk_assert_def)

lemma sk_assert_cong [cong]: "b = b' \<Longrightarrow> (b' \<Longrightarrow> k = k') \<Longrightarrow> sk_assert b k = sk_assert b' k'"
  by (simp add: sk_assert_def)

lemma sk_assert_fundef_cong [fundef_cong]:
  "b = b' \<Longrightarrow> (b' \<Longrightarrow> k = k') \<Longrightarrow> sk_assert b k = sk_assert b' k'"
  by (rule sk_assert_cong)

lemma deref_simps [simp, res_simps]:
  "deref None k = Inl NullDeref" "deref (Some x) k = k x"
  by (simp_all add: deref_def)

lemma deref_Inr_iff [res_simps]: "deref p k = Inr y \<longleftrightarrow> (\<exists>x. p = Some x \<and> k x = Inr y)"
  by (cases p) auto

lemma live_simps [simp, res_simps]:
  "live None k = Inl Freed" "live (Some x) k = k x"
  by (simp_all add: live_def)

lemma live_Inr_iff [res_simps]: "live p k = Inr y \<longleftrightarrow> (\<exists>x. p = Some x \<and> k x = Inr y)"
  by (cases p) auto

text \<open>
  Total correctness: \<open>ok m Q\<close> says that \<open>m\<close> does not abort and that its result satisfies \<open>Q\<close>.
  The rules push the postcondition through the combinators.
\<close>

definition ok :: "'a res \<Rightarrow> ('a \<Rightarrow> bool) \<Rightarrow> bool" where
  "ok m Q \<longleftrightarrow> (\<exists>x. m = Inr x \<and> Q x)"

lemma ok_simps [simp]:
  "ok (Inr x) Q \<longleftrightarrow> Q x"
  "ok (Inl e) Q \<longleftrightarrow> False"
  "ok (rbind m f) Q \<longleftrightarrow> ok m (\<lambda>x. ok (f x) Q)"
  "ok (sk_assert b k) Q \<longleftrightarrow> b \<and> ok k Q"
  "ok (deref p g) Q \<longleftrightarrow> (\<exists>x. p = Some x \<and> ok (g x) Q)"
  "ok (live p g) Q \<longleftrightarrow> (\<exists>x. p = Some x \<and> ok (g x) Q)"
  by (auto simp: ok_def res_simps)

lemma ok_if: "ok (if b then m else n) Q \<longleftrightarrow> (if b then ok m Q else ok n Q)"
  by simp

lemma ok_mono: "ok m P \<Longrightarrow> (\<And>x. P x \<Longrightarrow> Q x) \<Longrightarrow> ok m Q"
  by (auto simp: ok_def)

lemma ok_E: "ok m Q \<Longrightarrow> (\<And>x. m = Inr x \<Longrightarrow> Q x \<Longrightarrow> R) \<Longrightarrow> R"
  by (auto simp: ok_def)

text \<open>Why a computation stops, if it does.\<close>

definition failure :: "'a res \<Rightarrow> err option" where
  "failure m = (case m of Inl e \<Rightarrow> Some e | Inr _ \<Rightarrow> None)"

section \<open>Words\<close>

lemma unat_word_inc:
  fixes c m :: "'a::len word"
  assumes "c < m"
  shows "unat (c + 1) = Suc (unat c)"
proof -
  have "unat c < unat m" using assms by (simp add: word_less_nat_alt)
  then have "Suc (unat c) < 2 ^ LENGTH('a)"
    using unsigned_less [of m, where ?'a = nat] by linarith
  then show ?thesis by (simp add: unat_word_ariths)
qed

lemma word_countdown_less:
  fixes c m :: "'a::len word"
  assumes "c < m"
  shows "unat m - unat (c + 1) < unat m - unat c"
  using assms unat_word_inc [OF assms] by (simp add: word_less_nat_alt)

text \<open>Products of sizes that do not overflow.\<close>

lemma unat_mult_lt:
  fixes a b :: "'a::len word"
  assumes "unat a * unat b < 2 ^ LENGTH('a)"
  shows "unat (a * b) = unat a * unat b"
  using assms by (simp add: unat_word_ariths)

lemma unat_add_lt:
  fixes a b :: "'a::len word"
  assumes "unat a + unat b < 2 ^ LENGTH('a)"
  shows "unat (a + b) = unat a + unat b"
  using assms by (simp add: unat_word_ariths)

lemma unat_sub_le:
  fixes a b :: "'a::len word"
  assumes "b \<le> a"
  shows "unat (a - b) = unat a - unat b"
  using assms by (simp add: unat_sub)

text \<open>How often a size can be doubled before it wraps to 0: loops that grow a buffer stop.\<close>

definition doublings :: "size_t \<Rightarrow> nat" where
  "doublings w = (LEAST k. w * 2 ^ k = 0)"

lemma doubling_vanishes: "\<exists>k. (w :: size_t) * 2 ^ k = 0"
proof -
  have "(2 :: size_t) ^ LENGTH(64) = 0" by (simp only: exp_eq_zero_iff)
  then have "w * 2 ^ LENGTH(64) = 0" by (simp only: mult_zero_right)
  then show ?thesis ..
qed

lemma doublings_less:
  assumes "0 < w"
  shows "doublings (w * 2) < doublings w"
proof -
  obtain k where k: "doublings w = k" "w * 2 ^ k = 0"
    using LeastI_ex [OF doubling_vanishes [of w]] by (auto simp: doublings_def)
  with assms obtain j where j: "k = Suc j" by (cases k) auto
  have "w * 2 * 2 ^ j = 0" using k(2) j by (simp add: mult.assoc)
  then have "doublings (w * 2) \<le> j" unfolding doublings_def by (rule Least_le)
  then show ?thesis using k(1) j by simp
qed

section \<open>Maps\<close>

lemma restrict_map_UNIV [simp]: "m |` UNIV = m"
  by (simp add: restrict_map_def)

section \<open>Witnesses for pairs of existentials\<close>

lemma exI2: "P a b \<Longrightarrow> \<exists>x y. P x y"
  by blast

lemma exI3: "P a b c \<Longrightarrow> \<exists>x y z. P x y z"
  by blast

section \<open>Lists of the library and decimal numbers\<close>

text \<open>The order in which a list of the library is popped or iterated.\<close>

definition in_order :: "bool \<Rightarrow> 'a list \<Rightarrow> 'a list" where
  "in_order fifo xs = (if fifo then xs else rev xs)"

lemma in_order_Nil [simp]: "in_order fifo [] = []"
  by (simp add: in_order_def)

lemma in_order_set [simp]: "set (in_order fifo xs) = set xs"
  by (simp add: in_order_def)

lemma in_order_twice [simp]: "in_order fifo (in_order fifo xs) = xs"
  by (simp add: in_order_def)

lemma in_order_distinct [simp]: "distinct (in_order fifo xs) = distinct xs"
  by (simp add: in_order_def)

text \<open>The format \<^verbatim>\<open>%d\<close> of a number that is not negative.\<close>

fun nat_dec :: "nat \<Rightarrow> string" where
  "nat_dec n = (if n < 10 then [char_of (48 + n)] else nat_dec (n div 10) @ [char_of (48 + n mod 10)])"

declare nat_dec.simps [simp del]

end
