(* ===== verification/Fmbuf.thy ===== *)
theory Fmbuf
  imports Prelude
begin

text \<open>
  The ring buffer \<^verbatim>\<open>fmbuf\<close> of the \<^verbatim>\<open>flibs\<close> library. The library is a separate project
  (a git submodule of the repository), so its operations are a parameter of every definition
  that calls them: a record \<open>fmbuf_ops\<close>. What the callers rely on is the locale \<open>fmbuf\<close>.

  A buffer is only ever used with objects of one C type, so its content is a list of objects
  of \<open>u\<close> bytes each: \<open>items b\<close>. The byte counts that the C interface passes are kept as
  \<open>size_t\<close>. \<open>None\<close> as a result of \<open>fmbuf_push\<close>, \<open>fmbuf_pop\<close> and \<open>fmbuf_rawget\<close>
  is the non-zero return code (or the null pointer) that reports that the buffer lacks the
  room or the data; the buffer is then unchanged.
\<close>

record ('b, 'e) fmbuf_ops =
  fmbuf_create :: "size_t \<Rightarrow> 'b"
  fmbuf_size :: "'b \<Rightarrow> size_t"
  fmbuf_used :: "'b \<Rightarrow> size_t"
  fmbuf_free :: "'b \<Rightarrow> size_t"
  fmbuf_push :: "'b \<Rightarrow> 'e list \<Rightarrow> size_t \<Rightarrow> 'b option"
  fmbuf_pop :: "'b \<Rightarrow> size_t \<Rightarrow> ('e list \<times> 'b) option"
  fmbuf_rawget :: "'b \<Rightarrow> size_t \<Rightarrow> 'e list option"
  fmbuf_realloc :: "'b \<Rightarrow> size_t \<Rightarrow> 'b"

locale fmbuf =
  fixes F :: "('b, 'e) fmbuf_ops"
    and u :: size_t
    and items :: "'b \<Rightarrow> 'e list"
    and invar :: "'b \<Rightarrow> bool"
  assumes unit_pos: "0 < u"
    and create: "invar (fmbuf_create F n) \<and> items (fmbuf_create F n) = [] \<and>
        fmbuf_size F (fmbuf_create F n) = n"
    and used: "invar b \<Longrightarrow> unat (fmbuf_used F b) = unat u * length (items b)"
    and used_le_size: "invar b \<Longrightarrow> fmbuf_used F b \<le> fmbuf_size F b"
    and free: "invar b \<Longrightarrow> fmbuf_free F b = fmbuf_size F b - fmbuf_used F b"
    and push_ok: "\<lbrakk>invar b; unat sz = unat u * length xs; sz \<le> fmbuf_free F b\<rbrakk> \<Longrightarrow>
        \<exists>b'. fmbuf_push F b xs sz = Some b' \<and> invar b' \<and> items b' = items b @ xs \<and>
          fmbuf_size F b' = fmbuf_size F b"
    and push_full: "\<lbrakk>invar b; fmbuf_free F b < sz\<rbrakk> \<Longrightarrow> fmbuf_push F b xs sz = None"
    and pop_ok: "\<lbrakk>invar b; unat sz = unat u * k; k \<le> length (items b)\<rbrakk> \<Longrightarrow>
        \<exists>b'. fmbuf_pop F b sz = Some (take k (items b), b') \<and> invar b' \<and>
          items b' = drop k (items b) \<and> fmbuf_size F b' = fmbuf_size F b"
    and pop_short: "\<lbrakk>invar b; fmbuf_used F b < sz\<rbrakk> \<Longrightarrow> fmbuf_pop F b sz = None"
    and rawget_ok: "\<lbrakk>invar b; unat sz = unat u * k; k \<le> length (items b)\<rbrakk> \<Longrightarrow>
        fmbuf_rawget F b sz = Some (take k (items b))"
    and rawget_short: "\<lbrakk>invar b; fmbuf_used F b < sz\<rbrakk> \<Longrightarrow> fmbuf_rawget F b sz = None"
    and realloc: "\<lbrakk>invar b; fmbuf_used F b \<le> n\<rbrakk> \<Longrightarrow>
        invar (fmbuf_realloc F b n) \<and> items (fmbuf_realloc F b n) = items b \<and>
        fmbuf_size F (fmbuf_realloc F b n) = n"
begin

lemmas create_simps [simp] =
  create [THEN conjunct1] create [THEN conjunct2, THEN conjunct1]
  create [THEN conjunct2, THEN conjunct2]

lemmas realloc_simps =
  realloc [THEN conjunct1] realloc [THEN conjunct2, THEN conjunct1]
  realloc [THEN conjunct2, THEN conjunct2]

lemma unat_unit_pos: "0 < unat u"
  using unit_pos by (simp add: word_less_nat_alt)

lemma used_0_iff: "invar b \<Longrightarrow> fmbuf_used F b = 0 \<longleftrightarrow> items b = []"
  using used [of b] unat_unit_pos by (metis length_0_conv mult_eq_0_iff not_less0 unat_eq_zero)

lemma used_nat_le_size: "invar b \<Longrightarrow> unat u * length (items b) \<le> unat (fmbuf_size F b)"
  using used used_le_size by (metis word_le_nat_alt)

text \<open>One object at a time: the way every queue of the program uses its buffers.\<close>

lemma push1:
  assumes "invar b"
  shows "(unat u * Suc (length (items b)) \<le> unat (fmbuf_size F b) \<longrightarrow>
      (\<exists>b'. fmbuf_push F b [e] u = Some b' \<and> invar b' \<and> items b' = items b @ [e] \<and>
          fmbuf_size F b' = fmbuf_size F b)) \<and>
    (unat (fmbuf_size F b) < unat u * Suc (length (items b)) \<longrightarrow> fmbuf_push F b [e] u = None)"
proof -
  have f: "unat (fmbuf_free F b) = unat (fmbuf_size F b) - unat u * length (items b)"
    using assms free used used_le_size by (simp add: unat_sub_le)
  have "unat u * length (items b) \<le> unat (fmbuf_size F b)"
    by (rule used_nat_le_size [OF assms])
  with f show ?thesis
    using push_ok [OF assms, of u "[e]"] push_full [OF assms, of u "[e]"]
    by (auto simp: word_le_nat_alt word_less_nat_alt)
qed

lemma pop1:
  assumes "invar b"
  shows "(case items b of
      [] \<Rightarrow> fmbuf_pop F b u = None \<and> fmbuf_rawget F b u = None
    | x # xs \<Rightarrow> fmbuf_rawget F b u = Some [x] \<and>
        (\<exists>b'. fmbuf_pop F b u = Some ([x], b') \<and> invar b' \<and> items b' = xs \<and>
          fmbuf_size F b' = fmbuf_size F b))"
proof (cases "items b")
  case Nil
  with used_0_iff [OF assms] have "fmbuf_used F b = 0" by simp
  then have "fmbuf_used F b < u" using unit_pos by (simp only:)
  with Nil assms show ?thesis by (simp add: pop_short rawget_short)
next
  case (Cons x xs)
  with assms show ?thesis
    using pop_ok [OF assms, of u 1] rawget_ok [OF assms, of u 1] by simp
qed

end

section \<open>A reference buffer\<close>

text \<open>
  A bounded list of cells satisfies the laws: they are consistent, and the properties of the
  clients can be evaluated on it. The fields are the capacity in bytes and the content.
\<close>

record 'e cellbuf =
  cb_cap :: size_t
  cb_cells :: "'e list"

definition cellbuf_used :: "size_t \<Rightarrow> 'e cellbuf \<Rightarrow> size_t" where
  "cellbuf_used u b = u * of_nat (length (cb_cells b))"

definition cellbuf_invar :: "size_t \<Rightarrow> 'e cellbuf \<Rightarrow> bool" where
  "cellbuf_invar u b \<longleftrightarrow> unat u * length (cb_cells b) \<le> unat (cb_cap b)"

definition cellbuf_ops :: "size_t \<Rightarrow> ('e cellbuf, 'e) fmbuf_ops" where
  "cellbuf_ops u = \<lparr>
     fmbuf_create = (\<lambda>n. \<lparr>cb_cap = n, cb_cells = []\<rparr>),
     fmbuf_size = cb_cap,
     fmbuf_used = cellbuf_used u,
     fmbuf_free = (\<lambda>b. cb_cap b - cellbuf_used u b),
     fmbuf_push = (\<lambda>b xs sz. if sz \<le> cb_cap b - cellbuf_used u b
        then Some (b\<lparr>cb_cells := cb_cells b @ xs\<rparr>) else None),
     fmbuf_pop = (\<lambda>b sz. if sz \<le> cellbuf_used u b
        then Some (take (unat (sz div u)) (cb_cells b),
                   b\<lparr>cb_cells := drop (unat (sz div u)) (cb_cells b)\<rparr>) else None),
     fmbuf_rawget = (\<lambda>b sz. if sz \<le> cellbuf_used u b
        then Some (take (unat (sz div u)) (cb_cells b)) else None),
     fmbuf_realloc = (\<lambda>b n. b\<lparr>cb_cap := n\<rparr>)\<rparr>"

lemma cellbuf_used_nat:
  assumes "cellbuf_invar u b"
  shows "unat (cellbuf_used u b) = unat u * length (cb_cells b)"
proof -
  have le: "unat u * length (cb_cells b) < 2 ^ 64"
    using assms unsigned_less [of "cb_cap b", where ?'a = nat] by (simp add: cellbuf_invar_def)
  show ?thesis
  proof (cases "u = 0")
    case True
    then show ?thesis by (simp add: cellbuf_used_def)
  next
    case False
    then have "1 \<le> unat u" by (simp add: unat_gt_0 Suc_le_eq)
    then have "length (cb_cells b) \<le> unat u * length (cb_cells b)" by simp
    then have "length (cb_cells b) < 2 ^ 64" using le by linarith
    then have "unat (of_nat (length (cb_cells b)) :: 64 word) = length (cb_cells b)"
      by (simp add: unat_of_nat)
    with le show ?thesis by (simp add: cellbuf_used_def unat_mult_lt)
  qed
qed

lemma cellbuf_used_le:
  "cellbuf_invar u b \<Longrightarrow> cellbuf_used u b \<le> cb_cap b"
  using cellbuf_used_nat [of u b] by (simp add: word_le_nat_alt cellbuf_invar_def)

lemma unat_div_unit:
  "\<lbrakk>0 < u; unat sz = unat u * n\<rbrakk> \<Longrightarrow> unat (sz div u) = n" for sz u :: size_t
  by (simp add: unat_div word_less_nat_alt)

lemma fmbuf_cellbuf: "0 < u \<Longrightarrow> fmbuf (cellbuf_ops u) u cb_cells (cellbuf_invar u)"
proof (unfold_locales, goal_cases)
  case (6 b sz xs)
  have "unat (cb_cap b - cellbuf_used u b) = unat (cb_cap b) - unat u * length (cb_cells b)"
    using 6 by (simp add: unat_sub_le cellbuf_used_le cellbuf_used_nat)
  with 6 show ?case
    by (auto simp: cellbuf_ops_def cellbuf_invar_def word_le_nat_alt distrib_left)
next
  case (8 b sz n)
  then have "sz \<le> cellbuf_used u b" by (simp add: word_le_nat_alt cellbuf_used_nat)
  moreover have "unat (sz div u) = n" using 8 by (simp add: unat_div_unit)
  ultimately show ?case using 8
    by (simp add: cellbuf_ops_def cellbuf_invar_def)
       (meson diff_le_self le_trans mult_le_mono2)
next
  case (10 b sz n)
  then have "sz \<le> cellbuf_used u b" by (simp add: word_le_nat_alt cellbuf_used_nat)
  moreover have "unat (sz div u) = n" using 10 by (simp add: unat_div_unit)
  ultimately show ?case using 10 by (simp add: cellbuf_ops_def)
next
  case (12 b n)
  then show ?case by (simp add: cellbuf_ops_def cellbuf_invar_def word_le_nat_alt cellbuf_used_nat)
qed (auto simp: cellbuf_ops_def cellbuf_used_nat cellbuf_used_le cellbuf_invar_def)

text \<open>Buffers of bytes, as the transaction output and the transaction log use them.\<close>

interpretation bytebuf: fmbuf "cellbuf_ops 1" 1 cb_cells "cellbuf_invar 1"
  by (rule fmbuf_cellbuf) simp

end
