(* ===== verification/Sk_Queue.thy ===== *)
theory Sk_Queue
  imports Fmbuf
begin

text \<open>
  The task queue of \<^verbatim>\<open>src/src/common/sk_queue.c\<close>: a bounded queue over \<open>fmbuf\<close> with three
  modes. An exclusive queue hands out one element at a time, a read-write queue hands out
  readers together and a writer alone; the mode decides whether waiting readers overtake
  waiting writers (\<open>SK_QUEUE_RW_PR\<close>, two buffers) or not (\<open>SK_QUEUE_RW_PW\<close>, one buffer).

  The C union \<^verbatim>\<open>data\<close> is the pair \<open>q_mq\<close> (which is both \<^verbatim>\<open>data.mq\<close> and
  \<^verbatim>\<open>data.rw.rmq\<close>, they share their storage) and \<open>q_wmq\<close> (\<^verbatim>\<open>data.rw.wmq\<close>, set in mode
  \<open>SK_QUEUE_RW_PR\<close> only). Elements are opaque; \<open>ty e\<close> is the \<^verbatim>\<open>type\<close> field of the
  \<^verbatim>\<open>sk_queue_elem_base_t\<close> header at the front of every element.
\<close>

section \<open>Data\<close>

datatype sk_queue_mode = SK_QUEUE_EXCLUSIVE | SK_QUEUE_RW_PR | SK_QUEUE_RW_PW

datatype sk_queue_state =
    SK_QUEUE_STATE_INIT | SK_QUEUE_STATE_DESTROY | SK_QUEUE_STATE_IDLE
  | SK_QUEUE_STATE_LOCK | SK_QUEUE_STATE_READ | SK_QUEUE_STATE_WRITE

datatype sk_queue_elem_type =
    SK_QUEUE_ELEM_EXCLUSIVE | SK_QUEUE_ELEM_READ | SK_QUEUE_ELEM_WRITE

record 'b sk_queue =
  q_mode :: sk_queue_mode
  q_state :: sk_queue_state
  q_elem_sz :: size_t
  q_max_slots :: size_t
  q_mq :: 'b
  q_wmq :: "'b option"

text \<open>\<^verbatim>\<open>sizeof(sk_queue_elem_base_t)\<close>: one C enumeration.\<close>

definition elem_base_sz :: size_t where
  "elem_base_sz = 4"

definition SK_QUEUE_DEFAULT_WRITE_SLOTS :: size_t where
  "SK_QUEUE_DEFAULT_WRITE_SLOTS = 1"

section \<open>Operations\<close>

subsection \<open>Growing the buffer\<close>

text \<open>
  \<^verbatim>\<open>while (new_sz > 0) { new_sz *= 2; if (new_sz - used_sz >= need) break; }\<close>: the size is a
  \<^verbatim>\<open>size_t\<close>, so doubling reaches 0 after at most 64 rounds.
\<close>

function get_new_size_loop :: "size_t \<Rightarrow> size_t \<Rightarrow> size_t \<Rightarrow> size_t" where
  "get_new_size_loop new_sz used_sz need =
     (if 0 < new_sz then
        (if need \<le> new_sz * 2 - used_sz then new_sz * 2
         else get_new_size_loop (new_sz * 2) used_sz need)
      else new_sz)"
  by pat_completeness auto

termination
  by (relation "measure (\<lambda>(w, _, _). doublings w)") (auto simp: doublings_less)

declare get_new_size_loop.simps [simp del]

definition get_new_size ::
  "('b, 'e) fmbuf_ops \<Rightarrow> 'b \<Rightarrow> size_t \<Rightarrow> size_t \<Rightarrow> size_t \<Rightarrow> size_t res" where
  "get_new_size F mq new_slots max_slots elem_sz =
     (let curr_sz = fmbuf_size F mq;
          used_sz = fmbuf_used F mq;
          new_sz = get_new_size_loop (if curr_sz \<noteq> 0 then curr_sz else 1) used_sz
                     (new_slots * elem_sz);
          max_buf_sz = max_slots * elem_sz;
          new_sz = (if max_buf_sz < new_sz then max_buf_sz else new_sz)
      in sk_assert (0 < new_sz) (Inr new_sz))"

text \<open>The result pairs the buffer with the C return code (0: pushed, 1: full).\<close>

definition sk_queue_push_buf ::
  "('b, 'e) fmbuf_ops \<Rightarrow> 'b \<Rightarrow> size_t \<Rightarrow> 'e \<Rightarrow> size_t \<Rightarrow> ('b \<times> int) res" where
  "sk_queue_push_buf F mq max_slots elem elem_sz =
     (case fmbuf_push F mq [elem] elem_sz of
        Some mq' \<Rightarrow> Inr (mq', 0)
      | None \<Rightarrow>
          rbind (get_new_size F mq 1 max_slots elem_sz) (\<lambda>new_sz.
            if fmbuf_size F mq = new_sz then Inr (mq, 1)
            else (case fmbuf_push F (fmbuf_realloc F mq new_sz) [elem] elem_sz of
                    Some mq' \<Rightarrow> Inr (mq', 0)
                  | None \<Rightarrow> Inl Assert)))"

subsection \<open>Pulling from one buffer\<close>

text \<open>
  The loop of \<^verbatim>\<open>_sk_queue_pull\<close>. \<open>typ = None\<close> is \<^verbatim>\<open>SK_QUEUE_ELEM_ANY\<close>. The elements
  are written behind the pointer \<^verbatim>\<open>elems\<close>, whose type is \<^verbatim>\<open>sk_queue_elem_base_t*\<close>: the C
  expression \<^verbatim>\<open>elems + pulled_cnt * elem_sz\<close> therefore advances by
  \<open>elem_base_sz * pulled_cnt * elem_sz\<close> bytes. The result lists the writes as pairs of a
  byte offset and an element, so that \<^verbatim>\<open>pulled_cnt\<close> is the length of the list.
\<close>

function sk_queue_pull_buf ::
  "('b, 'e) fmbuf_ops \<Rightarrow> ('e \<Rightarrow> sk_queue_elem_type) \<Rightarrow> 'b \<Rightarrow> sk_queue_elem_type option \<Rightarrow>
   size_t \<Rightarrow> size_t \<Rightarrow> size_t \<Rightarrow> size_t \<Rightarrow> ('b \<times> (size_t \<times> 'e) list) res" where
  "sk_queue_pull_buf F ty mq typ elem_sz base pulled_cnt max_slots =
     (if pulled_cnt < max_slots then
        (case fmbuf_rawget F mq elem_sz of
           None \<Rightarrow> Inr (mq, [])
         | Some peeked \<Rightarrow>
             (if typ \<noteq> None \<and> Some (ty (hd peeked)) \<noteq> typ then Inr (mq, [])
              else (case fmbuf_pop F mq elem_sz of
                      None \<Rightarrow> Inl Assert
                    | Some (popped, mq') \<Rightarrow>
                        rbind (sk_queue_pull_buf F ty mq' typ elem_sz base
                                 (pulled_cnt + 1) max_slots)
                          (\<lambda>(mq'', ws). Inr (mq'',
                             (base + elem_base_sz * (pulled_cnt * elem_sz), hd popped) # ws)))))
      else Inr (mq, []))"
  by pat_completeness auto
termination
  by (relation "measure (\<lambda>(_, _, _, _, _, _, cnt, m). unat m - unat cnt)")
     (auto intro: word_countdown_less)

declare sk_queue_pull_buf.simps [simp del]

subsection \<open>The three modes\<close>

definition sk_queue_push_exlusive ::
  "('b, 'e) fmbuf_ops \<Rightarrow> ('e \<Rightarrow> sk_queue_elem_type) \<Rightarrow> 'b sk_queue \<Rightarrow> 'e \<Rightarrow>
   ('b sk_queue \<times> int) res" where
  "sk_queue_push_exlusive F ty q elem =
     sk_assert (ty elem = SK_QUEUE_ELEM_EXCLUSIVE)
       (rbind (sk_queue_push_buf F (q_mq q) (q_max_slots q) elem (q_elem_sz q))
         (\<lambda>(mq, r). Inr (q\<lparr>q_mq := mq\<rparr>, r)))"

definition sk_queue_pull_exlusive ::
  "('b, 'e) fmbuf_ops \<Rightarrow> 'b sk_queue \<Rightarrow> ('b sk_queue \<times> (size_t \<times> 'e) list) res" where
  "sk_queue_pull_exlusive F q =
     (if q_state q = SK_QUEUE_STATE_LOCK then Inr (q, [])
      else (case fmbuf_pop F (q_mq q) (q_elem_sz q) of
              Some (popped, mq) \<Rightarrow> Inr (q\<lparr>q_mq := mq\<rparr>, [(0, hd popped)])
            | None \<Rightarrow> Inr (q, [])))"

definition sk_queue_push_rw_pw ::
  "('b, 'e) fmbuf_ops \<Rightarrow> ('e \<Rightarrow> sk_queue_elem_type) \<Rightarrow> 'b sk_queue \<Rightarrow> 'e \<Rightarrow>
   ('b sk_queue \<times> int) res" where
  "sk_queue_push_rw_pw F ty q elem =
     sk_assert (ty elem = SK_QUEUE_ELEM_READ \<or> ty elem = SK_QUEUE_ELEM_WRITE)
       (rbind (sk_queue_push_buf F (q_mq q) (q_max_slots q) elem (q_elem_sz q))
         (\<lambda>(mq, r). Inr (q\<lparr>q_mq := mq\<rparr>, r)))"

definition sk_queue_pull_rw_pw ::
  "('b, 'e) fmbuf_ops \<Rightarrow> ('e \<Rightarrow> sk_queue_elem_type) \<Rightarrow> 'b sk_queue \<Rightarrow> size_t \<Rightarrow>
   ('b sk_queue \<times> (size_t \<times> 'e) list) res" where
  "sk_queue_pull_rw_pw F ty q max_slots =
     (let esz = q_elem_sz q in
      case q_state q of
        SK_QUEUE_STATE_IDLE \<Rightarrow>
          rbind (sk_queue_pull_buf F ty (q_mq q) None esz 0 0 1) (\<lambda>(mq, ws).
            (case ws of
               [] \<Rightarrow> Inr (q\<lparr>q_mq := mq\<rparr>, [])
             | (_, e) # _ \<Rightarrow>
                 if max_slots = 1 then Inr (q\<lparr>q_mq := mq\<rparr>, ws)
                 else if ty e = SK_QUEUE_ELEM_WRITE then Inr (q\<lparr>q_mq := mq\<rparr>, ws)
                 else sk_assert (ty e = SK_QUEUE_ELEM_READ)
                   (rbind (sk_queue_pull_buf F ty mq (Some (ty e)) esz
                             (elem_base_sz * (1 * esz)) 0 (max_slots - 1))
                     (\<lambda>(mq', ws'). Inr (q\<lparr>q_mq := mq'\<rparr>, ws @ ws')))))
      | SK_QUEUE_STATE_READ \<Rightarrow>
          rbind (sk_queue_pull_buf F ty (q_mq q) (Some SK_QUEUE_ELEM_READ) esz 0 0 max_slots)
            (\<lambda>(mq, ws). Inr (q\<lparr>q_mq := mq\<rparr>, ws))
      | SK_QUEUE_STATE_WRITE \<Rightarrow> Inr (q, [])
      | _ \<Rightarrow> Inl Assert)"

definition sk_queue_push_rw_pr ::
  "('b, 'e) fmbuf_ops \<Rightarrow> ('e \<Rightarrow> sk_queue_elem_type) \<Rightarrow> 'b sk_queue \<Rightarrow> 'e \<Rightarrow>
   ('b sk_queue \<times> int) res" where
  "sk_queue_push_rw_pr F ty q elem =
     sk_assert (ty elem = SK_QUEUE_ELEM_READ \<or> ty elem = SK_QUEUE_ELEM_WRITE)
       (if ty elem = SK_QUEUE_ELEM_READ then
          rbind (sk_queue_push_buf F (q_mq q) (q_max_slots q) elem (q_elem_sz q))
            (\<lambda>(mq, r). Inr (q\<lparr>q_mq := mq\<rparr>, r))
        else deref (q_wmq q) (\<lambda>wmq.
          rbind (sk_queue_push_buf F wmq (q_max_slots q) elem (q_elem_sz q))
            (\<lambda>(mq, r). Inr (q\<lparr>q_wmq := Some mq\<rparr>, r))))"

definition sk_queue_pull_rw_pr ::
  "('b, 'e) fmbuf_ops \<Rightarrow> ('e \<Rightarrow> sk_queue_elem_type) \<Rightarrow> 'b sk_queue \<Rightarrow> size_t \<Rightarrow>
   ('b sk_queue \<times> (size_t \<times> 'e) list) res" where
  "sk_queue_pull_rw_pr F ty q max_slots =
     (case q_state q of
        SK_QUEUE_STATE_IDLE \<Rightarrow>
          rbind (sk_queue_pull_buf F ty (q_mq q) (Some SK_QUEUE_ELEM_READ)
                   (q_elem_sz q) 0 0 max_slots) (\<lambda>(rmq, ws).
            if ws \<noteq> [] then Inr (q\<lparr>q_mq := rmq\<rparr>, ws)
            else deref (q_wmq q) (\<lambda>wmq.
              rbind (sk_queue_pull_buf F ty wmq (Some SK_QUEUE_ELEM_WRITE)
                       (q_elem_sz q) 0 0 1)
                (\<lambda>(wmq', ws'). Inr (q\<lparr>q_mq := rmq, q_wmq := Some wmq'\<rparr>, ws'))))
      | SK_QUEUE_STATE_READ \<Rightarrow>
          rbind (sk_queue_pull_buf F ty (q_mq q) (Some SK_QUEUE_ELEM_READ)
                   (q_elem_sz q) 0 0 max_slots)
            (\<lambda>(mq, ws). Inr (q\<lparr>q_mq := mq\<rparr>, ws))
      | SK_QUEUE_STATE_WRITE \<Rightarrow> Inr (q, [])
      | _ \<Rightarrow> Inl Assert)"

subsection \<open>Public interface\<close>

text \<open>\<open>Inr None\<close> is the null pointer of a rejected request.\<close>

definition sk_queue_create ::
  "('b, 'e) fmbuf_ops \<Rightarrow> sk_queue_mode \<Rightarrow> size_t \<Rightarrow> size_t \<Rightarrow> size_t \<Rightarrow>
   'b sk_queue option res" where
  "sk_queue_create F mode elem_sz init_slots max_slots =
     (if max_slots = 0 \<or> max_slots < init_slots then Inr None
      else sk_assert (elem_sz * max_slots div max_slots = elem_sz)
        (Inr (Some \<lparr>q_mode = mode, q_state = SK_QUEUE_STATE_IDLE, q_elem_sz = elem_sz,
           q_max_slots = max_slots, q_mq = fmbuf_create F (elem_sz * init_slots),
           q_wmq = (case mode of
              SK_QUEUE_RW_PR \<Rightarrow> Some (fmbuf_create F (elem_sz * SK_QUEUE_DEFAULT_WRITE_SLOTS))
            | _ \<Rightarrow> None)\<rparr>)))"

definition sk_queue_push ::
  "('b, 'e) fmbuf_ops \<Rightarrow> ('e \<Rightarrow> sk_queue_elem_type) \<Rightarrow> 'b sk_queue \<Rightarrow> 'e \<Rightarrow>
   ('b sk_queue \<times> int) res" where
  "sk_queue_push F ty q elem =
     (case q_mode q of
        SK_QUEUE_EXCLUSIVE \<Rightarrow> sk_queue_push_exlusive F ty q elem
      | SK_QUEUE_RW_PR \<Rightarrow> sk_queue_push_rw_pr F ty q elem
      | SK_QUEUE_RW_PW \<Rightarrow> sk_queue_push_rw_pw F ty q elem)"

definition sk_queue_pull ::
  "('b, 'e) fmbuf_ops \<Rightarrow> ('e \<Rightarrow> sk_queue_elem_type) \<Rightarrow> 'b sk_queue \<Rightarrow> size_t \<Rightarrow>
   ('b sk_queue \<times> (size_t \<times> 'e) list) res" where
  "sk_queue_pull F ty q max_slots =
     sk_assert (max_slots \<noteq> 0)
       (let max_pull_slots = (if q_max_slots q < max_slots then q_max_slots q else max_slots)
        in case q_mode q of
             SK_QUEUE_EXCLUSIVE \<Rightarrow> sk_queue_pull_exlusive F q
           | SK_QUEUE_RW_PR \<Rightarrow> sk_queue_pull_rw_pr F ty q max_pull_slots
           | SK_QUEUE_RW_PW \<Rightarrow> sk_queue_pull_rw_pw F ty q max_pull_slots)"

definition sk_queue_setstate :: "'b sk_queue \<Rightarrow> sk_queue_state \<Rightarrow> 'b sk_queue res" where
  "sk_queue_setstate q st =
     (case q_mode q of
        SK_QUEUE_EXCLUSIVE \<Rightarrow>
          sk_assert (st = SK_QUEUE_STATE_IDLE \<or> st = SK_QUEUE_STATE_LOCK)
            (Inr (q\<lparr>q_state := st\<rparr>))
      | _ \<Rightarrow> sk_assert (st \<noteq> SK_QUEUE_STATE_LOCK) (Inr (q\<lparr>q_state := st\<rparr>)))"

definition sk_queue_empty :: "('b, 'e) fmbuf_ops \<Rightarrow> 'b sk_queue \<Rightarrow> bool res" where
  "sk_queue_empty F q =
     (case q_mode q of
        SK_QUEUE_RW_PR \<Rightarrow> deref (q_wmq q) (\<lambda>wmq.
          Inr (fmbuf_used F (q_mq q) = 0 \<and> fmbuf_used F wmq = 0))
      | _ \<Rightarrow> Inr (fmbuf_used F (q_mq q) = 0))"

section \<open>Growth always makes room\<close>

lemma get_new_size_loop_room:
  assumes "0 < w" "used_sz \<le> w" "unat w < 2 ^ 63"
    and "need \<le> used_sz \<or> unat used_sz + unat need \<le> 2 ^ 63"
  shows "unat used_sz + unat need \<le> unat (get_new_size_loop w used_sz need)"
  using assms
proof (induction w used_sz need rule: get_new_size_loop.induct)
  case (1 w used_sz need)
  have w2: "unat (w * 2) = 2 * unat w"
    using "1.prems"(3) by (simp add: unat_word_ariths)
  then have le2: "used_sz \<le> w * 2" using "1.prems"(2) by (simp add: word_le_nat_alt)
  have sub: "unat (w * 2 - used_sz) = 2 * unat w - unat used_sz"
    using le2 w2 by (simp add: unat_sub_le)
  show ?case
  proof (cases "need \<le> w * 2 - used_sz")
    case True
    then have "unat used_sz + unat need \<le> unat (w * 2)"
      using sub w2 le2 by (simp add: word_le_nat_alt)
    then show ?thesis using "1.prems"(1) True by (simp add: get_new_size_loop.simps [of w])
  next
    case False
    then have small: "2 * unat w - unat used_sz < unat need"
      using sub by (simp add: word_le_nat_alt)
    with "1.prems"(2,4) have "unat used_sz + unat need \<le> 2 ^ 63"
      by (auto simp: word_le_nat_alt)
    moreover have "unat (w * 2) < 2 ^ 63" using small w2 calculation le2 by (simp add: word_le_nat_alt)
    moreover have "0 < w * 2" using w2 "1.prems"(1) by (simp add: word_less_nat_alt)
    ultimately have "unat used_sz + unat need \<le> unat (get_new_size_loop (w * 2) used_sz need)"
      using "1.IH" [OF "1.prems"(1) False] le2 by blast
    then show ?thesis using "1.prems"(1) False by (simp add: get_new_size_loop.simps [of w])
  qed
qed

section \<open>One buffer as a bounded list\<close>

text \<open>The writes of a pull, in order: element \<open>i\<close> goes to the offset of slot \<open>cnt + i\<close>.\<close>

primrec pull_writes :: "size_t \<Rightarrow> size_t \<Rightarrow> size_t \<Rightarrow> 'e list \<Rightarrow> (size_t \<times> 'e) list" where
  "pull_writes base cnt u [] = []"
| "pull_writes base cnt u (x # xs) =
     (base + elem_base_sz * (cnt * u), x) # pull_writes base (cnt + 1) u xs"

lemma pull_writes_snd [simp]: "map snd (pull_writes base cnt u xs) = xs"
  by (induction xs arbitrary: cnt) auto

lemma pull_writes_shift:
  "pull_writes (elem_base_sz * u) cnt u xs = pull_writes 0 (cnt + 1) u xs"
  by (induction xs arbitrary: cnt) (auto simp: algebra_simps)

lemma pull_writes_fst:
  "i < length xs \<Longrightarrow> fst (pull_writes base cnt u xs ! i) = base + elem_base_sz * ((cnt + of_nat i) * u)"
  by (induction xs arbitrary: cnt i) (auto simp: nth_Cons algebra_simps split: nat.splits)

lemma pull_writes_Nil_iff [simp]: "pull_writes base cnt u xs = [] \<longleftrightarrow> xs = []"
  by (cases xs) auto

lemma length_pull_writes [simp]: "length (pull_writes base cnt u xs) = length xs"
  by (induction xs arbitrary: cnt) auto

definition pull_match :: "('e \<Rightarrow> sk_queue_elem_type) \<Rightarrow> sk_queue_elem_type option \<Rightarrow> 'e \<Rightarrow> bool" where
  "pull_match ty typ e \<longleftrightarrow> typ = None \<or> Some (ty e) = typ"

context fmbuf
begin

lemma push_buf_grow:
  assumes inv: "invar mq" and max: "0 < max_slots"
    and bound: "unat max_slots * unat u < 2 ^ 63"
    and sz: "unat (fmbuf_size F mq) \<le> unat max_slots * unat u"
    and full: "unat (fmbuf_size F mq) < unat u * Suc (length (items mq))"
  shows "\<exists>n. get_new_size F mq 1 max_slots u = Inr n \<and>
    (if length (items mq) < unat max_slots
     then unat u * Suc (length (items mq)) \<le> unat n \<and> unat n \<le> unat max_slots * unat u
     else n = fmbuf_size F mq)"
proof -
  let ?cur = "if fmbuf_size F mq \<noteq> 0 then fmbuf_size F mq else 1"
  let ?r = "get_new_size_loop ?cur (fmbuf_used F mq) u"
  have maxpos: "0 < unat max_slots" using max by (simp add: word_less_nat_alt)
  have used_nat: "unat (fmbuf_used F mq) = unat u * length (items mq)" by (rule used [OF inv])
  have ule: "unat u \<le> unat max_slots * unat u" using maxpos by simp
  have cur: "0 < ?cur" "fmbuf_used F mq \<le> ?cur" "unat ?cur < 2 ^ 63"
    using used_le_size [OF inv] sz bound
    by (auto simp: word_le_nat_alt word_neq_0_conv [symmetric])
  have alt: "u \<le> fmbuf_used F mq \<or> unat (fmbuf_used F mq) + unat u \<le> 2 ^ 63"
  proof (cases "items mq")
    case Nil
    moreover have "unat u \<le> 2 ^ 63" using ule bound by linarith
    ultimately show ?thesis using used_nat by simp
  qed (simp add: used_nat word_le_nat_alt)
  have room: "unat u * Suc (length (items mq)) \<le> unat ?r"
    using get_new_size_loop_room [OF cur alt] used_nat by simp
  have mb: "unat (max_slots * u) = unat max_slots * unat u"
    using bound by (intro unat_mult_lt) simp
  have pos: "0 < unat u" by (rule unat_unit_pos)
  let ?n = "if max_slots * u < ?r then max_slots * u else ?r"
  have npos: "0 < ?n" using room pos mb maxpos by (auto simp: word_less_nat_alt)
  have res: "get_new_size F mq 1 max_slots u = Inr ?n"
    using npos by (simp add: get_new_size_def Let_def)
  show ?thesis
  proof (cases "length (items mq) < unat max_slots")
    case True
    then have "unat u * Suc (length (items mq)) \<le> unat max_slots * unat u"
      by (metis Suc_leI mult.commute mult_le_mono1)
    with room mb True res show ?thesis by (auto simp: word_less_nat_alt)
  next
    case False
    then have "unat max_slots * unat u \<le> unat u * length (items mq)"
      by (metis linorder_not_less mult.commute mult_le_mono1)
    then have eq: "unat u * length (items mq) = unat max_slots * unat u"
      "unat (fmbuf_size F mq) = unat max_slots * unat u"
      using used_nat_le_size [OF inv] sz by linarith+
    then have "unat max_slots * unat u < unat ?r"
      using room pos unfolding mult_Suc_right by linarith
    then have "max_slots * u < ?r" using mb by (simp only: word_less_nat_alt)
    moreover have "max_slots * u = fmbuf_size F mq" using eq(2) mb by (simp add: word_unat_eq_iff)
    ultimately show ?thesis using res False by simp
  qed
qed

lemma push_buf:
  assumes "invar mq" "0 < max_slots" "unat max_slots * unat u < 2 ^ 63"
    and sz: "unat (fmbuf_size F mq) \<le> unat max_slots * unat u"
  shows "if length (items mq) < unat max_slots
     then \<exists>mq'. sk_queue_push_buf F mq max_slots e u = Inr (mq', 0) \<and> invar mq' \<and>
       items mq' = items mq @ [e] \<and> unat (fmbuf_size F mq') \<le> unat max_slots * unat u
     else sk_queue_push_buf F mq max_slots e u = Inr (mq, 1)"
proof (cases "unat u * Suc (length (items mq)) \<le> unat (fmbuf_size F mq)")
  case True
  then obtain mq' where mq': "fmbuf_push F mq [e] u = Some mq'" "invar mq'"
    "items mq' = items mq @ [e]" "fmbuf_size F mq' = fmbuf_size F mq"
    using push1 [OF assms(1)] by blast
  have "unat u * Suc (length (items mq)) \<le> unat u * unat max_slots"
    using True sz by (simp add: mult.commute)
  then have "length (items mq) < unat max_slots"
    using unat_unit_pos by (simp del: mult_Suc_right)
  with mq' sz show ?thesis by (simp add: sk_queue_push_buf_def)
next
  case False
  then have none: "fmbuf_push F mq [e] u = None" using push1 [OF assms(1)] by simp
  from False obtain n where n: "get_new_size F mq 1 max_slots u = Inr n"
    and n2: "if length (items mq) < unat max_slots
     then unat u * Suc (length (items mq)) \<le> unat n \<and> unat n \<le> unat max_slots * unat u
     else n = fmbuf_size F mq"
    using push_buf_grow [OF assms] by auto
  show ?thesis
  proof (cases "length (items mq) < unat max_slots")
    case True
    with n2 have nb: "unat u * Suc (length (items mq)) \<le> unat n" "unat n \<le> unat max_slots * unat u"
      by simp_all
    with False have ne: "fmbuf_size F mq \<noteq> n" by auto
    have "fmbuf_used F mq \<le> n" using nb(1) used [OF assms(1)] by (simp add: word_le_nat_alt)
    note re = realloc_simps [OF assms(1) this]
    obtain mq' where "fmbuf_push F (fmbuf_realloc F mq n) [e] u = Some mq'" "invar mq'"
      "items mq' = items mq @ [e]" "fmbuf_size F mq' = n"
      using push1 [OF re(1)] re nb(1) by auto
    with True n none ne nb show ?thesis by (simp add: sk_queue_push_buf_def)
  next
    case False
    with n2 n none show ?thesis by (simp add: sk_queue_push_buf_def)
  qed
qed

lemma pull_buf:
  assumes "invar mq"
  shows "\<exists>mq'. sk_queue_pull_buf F ty mq typ u base cnt max_slots = Inr (mq', pull_writes base cnt u
        (take (unat max_slots - unat cnt) (takeWhile (pull_match ty typ) (items mq)))) \<and>
     invar mq' \<and> fmbuf_size F mq' = fmbuf_size F mq \<and>
     items mq' = drop (length (take (unat max_slots - unat cnt)
        (takeWhile (pull_match ty typ) (items mq)))) (items mq)"
  using assms
proof (induction "unat max_slots - unat cnt" arbitrary: mq cnt)
  case 0
  then have "\<not> cnt < max_slots" by (simp add: word_less_nat_alt)
  with 0 show ?case by (simp add: sk_queue_pull_buf.simps)
next
  case (Suc k)
  then have lt: "cnt < max_slots" by (simp add: word_less_nat_alt)
  show ?case
  proof (cases "items mq")
    case Nil
    then show ?thesis using pop1 [OF Suc.prems] Suc.prems lt
      by (simp add: sk_queue_pull_buf.simps)
  next
    case (Cons x xs)
    with pop1 [OF Suc.prems] obtain mq1 where mq1: "fmbuf_rawget F mq u = Some [x]"
      "fmbuf_pop F mq u = Some ([x], mq1)" "invar mq1" "items mq1 = xs"
      "fmbuf_size F mq1 = fmbuf_size F mq"
      by auto
    show ?thesis
    proof (cases "pull_match ty typ x")
      case False
      with lt mq1 Cons Suc.prems show ?thesis
        by (auto simp: sk_queue_pull_buf.simps pull_match_def)
    next
      case True
      have k: "k = unat max_slots - unat (cnt + 1)"
        using Suc.hyps(2) unat_word_inc [OF lt] by simp
      from Suc.hyps(1) [OF k mq1(3)] k [symmetric] Suc.hyps(2) [symmetric] obtain mq2 where
        "sk_queue_pull_buf F ty mq1 typ u base (cnt + 1) max_slots =
          Inr (mq2, pull_writes base (cnt + 1) u (take k (takeWhile (pull_match ty typ) xs)))"
        "invar mq2" "fmbuf_size F mq2 = fmbuf_size F mq"
        "items mq2 = drop (length (take k (takeWhile (pull_match ty typ) xs))) xs"
        using mq1(4,5) by auto
      with lt mq1 Cons True Suc.hyps(2) [symmetric] show ?thesis
        by (simp add: sk_queue_pull_buf.simps [of F ty mq] pull_match_def del: length_take)
    qed
  qed
qed

end

section \<open>What the queue promises\<close>

text \<open>Which element types a mode accepts.\<close>

fun elem_ok :: "sk_queue_mode \<Rightarrow> sk_queue_elem_type \<Rightarrow> bool" where
  "elem_ok SK_QUEUE_EXCLUSIVE t \<longleftrightarrow> t = SK_QUEUE_ELEM_EXCLUSIVE"
| "elem_ok _ t \<longleftrightarrow> t = SK_QUEUE_ELEM_READ \<or> t = SK_QUEUE_ELEM_WRITE"

text \<open>The content: the elements of the first buffer, and those of the separate write buffer.\<close>

definition q_main :: "('b \<Rightarrow> 'e list) \<Rightarrow> 'b sk_queue \<Rightarrow> 'e list" where
  "q_main items q = items (q_mq q)"

definition q_writes :: "('b \<Rightarrow> 'e list) \<Rightarrow> 'b sk_queue \<Rightarrow> 'e list" where
  "q_writes items q = (case q_wmq q of None \<Rightarrow> [] | Some w \<Rightarrow> items w)"

definition buf_wf ::
  "('b, 'e) fmbuf_ops \<Rightarrow> ('b \<Rightarrow> bool) \<Rightarrow> 'b sk_queue \<Rightarrow> 'b \<Rightarrow> bool" where
  "buf_wf F invar q b \<longleftrightarrow>
     invar b \<and> unat (fmbuf_size F b) \<le> unat (q_max_slots q) * unat (q_elem_sz q)"

definition sk_queue_wf ::
  "('b, 'e) fmbuf_ops \<Rightarrow> ('e \<Rightarrow> sk_queue_elem_type) \<Rightarrow> ('b \<Rightarrow> 'e list) \<Rightarrow> ('b \<Rightarrow> bool) \<Rightarrow>
   'b sk_queue \<Rightarrow> bool" where
  "sk_queue_wf F ty items invar q \<longleftrightarrow>
     0 < q_max_slots q \<and> unat (q_max_slots q) * unat (q_elem_sz q) < 2 ^ 63 \<and>
     buf_wf F invar q (q_mq q) \<and>
     (q_mode q = SK_QUEUE_RW_PR \<longleftrightarrow> q_wmq q \<noteq> None) \<and>
     (\<forall>w. q_wmq q = Some w \<longrightarrow> buf_wf F invar q w) \<and>
     (\<forall>e \<in> set (q_main items q). elem_ok (q_mode q) (ty e)) \<and>
     (q_mode q = SK_QUEUE_RW_PR \<longrightarrow> (\<forall>e \<in> set (q_main items q). ty e = SK_QUEUE_ELEM_READ)) \<and>
     (\<forall>e \<in> set (q_writes items q). ty e = SK_QUEUE_ELEM_WRITE)"

text \<open>Pushing: append to the queue's list unless it already holds \<open>max_slots\<close> elements.\<close>

definition push_spec ::
  "sk_queue_mode \<Rightarrow> sk_queue_elem_type \<Rightarrow> nat \<Rightarrow> 'e list \<Rightarrow> 'e list \<Rightarrow> 'e \<Rightarrow>
   'e list \<times> 'e list \<times> int" where
  "push_spec mode t cap rs ws e =
     (if mode = SK_QUEUE_RW_PR \<and> t = SK_QUEUE_ELEM_WRITE then
        (if length ws < cap then (rs, ws @ [e], 0) else (rs, ws, 1))
      else (if length rs < cap then (rs @ [e], ws, 0) else (rs, ws, 1)))"

text \<open>
  Pulling: the number of elements taken from the front of the first list and of the write list.
\<close>

definition reads_prefix :: "('e \<Rightarrow> sk_queue_elem_type) \<Rightarrow> nat \<Rightarrow> 'e list \<Rightarrow> nat" where
  "reads_prefix ty n xs = min n (length (takeWhile (\<lambda>e. ty e = SK_QUEUE_ELEM_READ) xs))"

definition pull_spec ::
  "sk_queue_mode \<Rightarrow> sk_queue_state \<Rightarrow> ('e \<Rightarrow> sk_queue_elem_type) \<Rightarrow> nat \<Rightarrow> 'e list \<Rightarrow> 'e list \<Rightarrow>
   nat \<times> nat" where
  "pull_spec mode st ty n rs ws =
     (case mode of
        SK_QUEUE_EXCLUSIVE \<Rightarrow> (if st = SK_QUEUE_STATE_LOCK then 0 else min 1 (length rs), 0)
      | SK_QUEUE_RW_PR \<Rightarrow>
          (if st = SK_QUEUE_STATE_WRITE then (0, 0)
           else if st = SK_QUEUE_STATE_IDLE \<and> rs = [] then (0, min 1 (length ws))
           else (min n (length rs), 0))
      | SK_QUEUE_RW_PW \<Rightarrow>
          (if st = SK_QUEUE_STATE_WRITE then (0, 0)
           else if st = SK_QUEUE_STATE_IDLE \<and> rs \<noteq> [] \<and> ty (hd rs) = SK_QUEUE_ELEM_WRITE then (1, 0)
           else (reads_prefix ty n rs, 0)))"

text \<open>The states in which a pull is legal; the others are assertion failures.\<close>

definition pull_state_ok :: "sk_queue_mode \<Rightarrow> sk_queue_state \<Rightarrow> bool" where
  "pull_state_ok mode st \<longleftrightarrow> mode = SK_QUEUE_EXCLUSIVE \<or>
     st \<in> {SK_QUEUE_STATE_IDLE, SK_QUEUE_STATE_READ, SK_QUEUE_STATE_WRITE}"

lemmas sk_queue_wf_defs = sk_queue_wf_def buf_wf_def q_main_def q_writes_def

lemma pull_match_simps [simp]:
  "pull_match ty None = (\<lambda>_. True)"
  "pull_match ty (Some t) = (\<lambda>e. ty e = t)"
  by (auto simp: pull_match_def fun_eq_iff)

lemma take_takeWhile_min: "take n (takeWhile P xs) = take (min n (length (takeWhile P xs))) xs"
  by (metis min.commute take_take takeWhile_eq_take)

lemma takeWhile_all: "\<forall>x \<in> set xs. P x \<Longrightarrow> takeWhile P xs = xs"
  by (induction xs) auto

context fmbuf
begin

lemma queue_push:
  assumes wf: "sk_queue_wf F ty items invar q" and u: "q_elem_sz q = u"
    and ok: "elem_ok (q_mode q) (ty e)"
  shows "\<exists>q' r. sk_queue_push F ty q e = Inr (q', r) \<and> sk_queue_wf F ty items invar q' \<and>
    (q_main items q', q_writes items q', r) =
      push_spec (q_mode q) (ty e) (unat (q_max_slots q)) (q_main items q) (q_writes items q) e \<and>
    q_mode q' = q_mode q \<and> q_state q' = q_state q \<and> q_elem_sz q' = q_elem_sz q \<and>
    q_max_slots q' = q_max_slots q"
proof -
  note defs = sk_queue_wf_defs push_spec_def
  have mx: "0 < q_max_slots q" "unat (q_max_slots q) * unat u < 2 ^ 63"
    using wf u by (auto simp: sk_queue_wf_def)
  have mq: "invar (q_mq q)" "unat (fmbuf_size F (q_mq q)) \<le> unat (q_max_slots q) * unat u"
    using wf u by (auto simp: sk_queue_wf_defs)
  note main = push_buf [OF mq(1) mx mq(2), of e]
  have wr: "if length (items w) < unat (q_max_slots q)
     then \<exists>w'. sk_queue_push_buf F w (q_max_slots q) e u = Inr (w', 0) \<and> invar w' \<and>
       items w' = items w @ [e] \<and> unat (fmbuf_size F w') \<le> unat (q_max_slots q) * unat u
     else sk_queue_push_buf F w (q_max_slots q) e u = Inr (w, 1)" if "q_wmq q = Some w" for w
    using push_buf [OF _ mx, of w e] wf u that by (simp add: sk_queue_wf_defs)
  show ?thesis
  proof (cases "q_mode q")
    case SK_QUEUE_EXCLUSIVE
    with wf u ok main show ?thesis
      by (auto simp: sk_queue_push_def sk_queue_push_exlusive_def defs split: if_splits)
  next
    case SK_QUEUE_RW_PW
    with wf u ok main show ?thesis
      by (auto simp: sk_queue_push_def sk_queue_push_rw_pw_def defs split: if_splits)
  next
    case SK_QUEUE_RW_PR
    with wf obtain w where w: "q_wmq q = Some w" by (auto simp: sk_queue_wf_def)
    show ?thesis
    proof (cases "ty e = SK_QUEUE_ELEM_READ")
      case True
      with SK_QUEUE_RW_PR wf u ok main w show ?thesis
        by (auto simp: sk_queue_push_def sk_queue_push_rw_pr_def defs split: if_splits)
    next
      case False
      with SK_QUEUE_RW_PR ok have "ty e = SK_QUEUE_ELEM_WRITE" by simp
      with SK_QUEUE_RW_PR wf u wr [OF w] w show ?thesis
        by (auto simp: sk_queue_push_def sk_queue_push_rw_pr_def defs split: if_splits)
    qed
  qed
qed


lemma pull_reads:
  assumes "invar mq"
  shows "\<exists>b. sk_queue_pull_buf F ty mq (Some SK_QUEUE_ELEM_READ) u base 0 n =
        Inr (b, pull_writes base 0 u (take (reads_prefix ty (unat n) (items mq)) (items mq))) \<and>
      invar b \<and> fmbuf_size F b = fmbuf_size F mq \<and>
      items b = drop (reads_prefix ty (unat n) (items mq)) (items mq)"
proof -
  let ?R = "\<lambda>e. ty e = SK_QUEUE_ELEM_READ"
  have len: "length (take (unat n) (takeWhile ?R (items mq))) = reads_prefix ty (unat n) (items mq)"
    by (simp add: reads_prefix_def min.commute)
  have eq: "take (unat n) (takeWhile ?R (items mq)) =
      take (reads_prefix ty (unat n) (items mq)) (items mq)"
    by (simp add: reads_prefix_def take_takeWhile_min [of "unat n"])
  show ?thesis
    using pull_buf [OF assms, of ty "Some SK_QUEUE_ELEM_READ" base 0 n]
    unfolding pull_match_simps unsigned_0 minus_nat.diff_0 len unfolding eq by blast
qed

lemma queue_pull_excl:
  assumes wf: "sk_queue_wf F ty items invar q" and u: "q_elem_sz q = u"
    and mode: "q_mode q = SK_QUEUE_EXCLUSIVE"
  shows "\<exists>b. sk_queue_pull_exlusive F q = Inr (q\<lparr>q_mq := b\<rparr>,
      pull_writes 0 0 u (take (fst (pull_spec SK_QUEUE_EXCLUSIVE (q_state q) ty n
        (q_main items q) [])) (q_main items q))) \<and> buf_wf F invar q b \<and>
      items b = drop (fst (pull_spec SK_QUEUE_EXCLUSIVE (q_state q) ty n (q_main items q) []))
        (q_main items q)"
proof (cases "q_state q = SK_QUEUE_STATE_LOCK")
  case True
  with wf show ?thesis
    by (intro exI [of _ "q_mq q"])
       (simp add: sk_queue_pull_exlusive_def pull_spec_def sk_queue_wf_defs)
next
  case False
  have inv: "buf_wf F invar q (q_mq q)" using wf by (simp add: sk_queue_wf_def)
  show ?thesis
  proof (cases "items (q_mq q)")
    case Nil
    with False inv pop1 [of "q_mq q"] u show ?thesis
      by (intro exI [of _ "q_mq q"])
         (simp add: sk_queue_pull_exlusive_def pull_spec_def buf_wf_def q_main_def)
  next
    case (Cons x xs)
    with False inv pop1 [of "q_mq q"] u show ?thesis
      by (auto simp: sk_queue_pull_exlusive_def pull_spec_def buf_wf_def q_main_def)
  qed
qed

lemma queue_pull_pw:
  assumes wf: "sk_queue_wf F ty items invar q" and u: "q_elem_sz q = u"
    and mode: "q_mode q = SK_QUEUE_RW_PW" and n: "0 < n"
    and st: "pull_state_ok SK_QUEUE_RW_PW (q_state q)"
    and k: "pull_spec SK_QUEUE_RW_PW (q_state q) ty (unat n) (q_main items q) [] = (k, l)"
  shows "\<exists>b. sk_queue_pull_rw_pw F ty q n =
        Inr (q\<lparr>q_mq := b\<rparr>, pull_writes 0 0 u (take k (q_main items q))) \<and>
      buf_wf F invar q b \<and> items b = drop k (q_main items q)"
proof -
  have inv: "invar (q_mq q)" "buf_wf F invar q (q_mq q)" using wf by (auto simp: sk_queue_wf_defs)
  have n1: "unat n = Suc (unat (n - 1))"
    using n unat_minus_one [of n] by (auto simp: word_neq_0_conv unat_gt_0)
  note defs = sk_queue_pull_rw_pw_def pull_spec_def q_main_def buf_wf_def
  consider "q_state q = SK_QUEUE_STATE_WRITE" | "q_state q = SK_QUEUE_STATE_READ"
    | "q_state q = SK_QUEUE_STATE_IDLE" using st by (auto simp: pull_state_ok_def)
  then show ?thesis
  proof cases
    case 1
    with inv k show ?thesis
      by (intro exI [of _ "q_mq q"]) (simp add: defs)
  next
    case 2
    obtain b where "sk_queue_pull_buf F ty (q_mq q) (Some SK_QUEUE_ELEM_READ) u 0 0 n =
        Inr (b, pull_writes 0 0 u (take (reads_prefix ty (unat n) (items (q_mq q))) (items (q_mq q))))"
      "invar b" "fmbuf_size F b = fmbuf_size F (q_mq q)"
      "items b = drop (reads_prefix ty (unat n) (items (q_mq q))) (items (q_mq q))"
      using pull_reads [OF inv(1), of ty 0 n] by blast
    with 2 inv u k show ?thesis by (intro exI [of _ b]) (simp add: defs)
  next
    case 3
    show ?thesis
    proof (cases "items (q_mq q)")
      case Nil
      from pull_buf [OF inv(1), of ty None 0 0 1] Nil obtain b where
        "sk_queue_pull_buf F ty (q_mq q) None u 0 0 1 = Inr (b, [])"
        "invar b" "fmbuf_size F b = fmbuf_size F (q_mq q)" "items b = []" by auto
      with Nil 3 inv u k show ?thesis
        by (intro exI [of _ b]) (auto simp: defs reads_prefix_def)
    next
      case (Cons x xs)
      with pull_buf [OF inv(1), of ty None 0 0 1] obtain b where b:
        "sk_queue_pull_buf F ty (q_mq q) None u 0 0 1 = Inr (b, [(0, x)])"
        "invar b" "fmbuf_size F b = fmbuf_size F (q_mq q)" "items b = xs" by auto
      have "elem_ok SK_QUEUE_RW_PW (ty x)"
        using wf Cons mode by (simp add: sk_queue_wf_defs)
      then consider "ty x = SK_QUEUE_ELEM_WRITE" | "ty x = SK_QUEUE_ELEM_READ" by auto
      then show ?thesis
      proof cases
        case 1
        with 3 inv u k Cons b show ?thesis
          by (intro exI [of _ b]) (auto simp: defs)
      next
        case 2
        let ?k = "reads_prefix ty (unat (n - 1)) xs"
        from pull_reads [OF b(2), of ty "elem_base_sz * u" "n - 1"] b(4)
        obtain b' where b': "sk_queue_pull_buf F ty b (Some SK_QUEUE_ELEM_READ) u (elem_base_sz * u)
            0 (n - 1) = Inr (b', pull_writes 0 1 u (take ?k xs))"
          "invar b'" "fmbuf_size F b' = fmbuf_size F b" "items b' = drop ?k xs"
          by (auto simp: pull_writes_shift)
        have pre: "reads_prefix ty (unat n) (items (q_mq q)) = Suc ?k"
          using 2 Cons n1 by (simp add: reads_prefix_def)
        have kk: "k = Suc ?k" using k pre 2 3 Cons by (simp add: pull_spec_def q_main_def)
        have "n = 1 \<Longrightarrow> ?k = 0" by (simp add: reads_prefix_def)
        with kk b b' 2 3 inv u Cons show ?thesis
          by (intro exI [of _ "if n = 1 then b else b'"]) (auto simp: defs)
      qed
    qed
  qed
qed

lemma queue_pull_pr:
  assumes wf: "sk_queue_wf F ty items invar q" and u: "q_elem_sz q = u"
    and mode: "q_mode q = SK_QUEUE_RW_PR" and n: "0 < n"
    and st: "pull_state_ok SK_QUEUE_RW_PR (q_state q)"
    and k: "pull_spec SK_QUEUE_RW_PR (q_state q) ty (unat n) (q_main items q) (q_writes items q) =
      (k, l)"
  shows "\<exists>b w. sk_queue_pull_rw_pr F ty q n = Inr (q\<lparr>q_mq := b, q_wmq := Some w\<rparr>,
        pull_writes 0 0 u (take k (q_main items q) @ take l (q_writes items q))) \<and>
      buf_wf F invar q b \<and> buf_wf F invar q w \<and>
      items b = drop k (q_main items q) \<and> items w = drop l (q_writes items q)"
proof -
  obtain w where w: "q_wmq q = Some w" "buf_wf F invar q w"
    using wf mode by (auto simp: sk_queue_wf_def)
  have inv: "invar (q_mq q)" "invar w" "buf_wf F invar q (q_mq q)"
    using wf w by (auto simp: sk_queue_wf_defs)
  have reads: "takeWhile (pull_match ty (Some SK_QUEUE_ELEM_READ)) (items (q_mq q)) = items (q_mq q)"
    using wf mode by (simp add: sk_queue_wf_defs takeWhile_all)
  have wrs: "takeWhile (pull_match ty (Some SK_QUEUE_ELEM_WRITE)) (items w) = items w"
    using wf w mode by (simp add: sk_queue_wf_defs takeWhile_all)
  note r = pull_buf [OF inv(1), of ty "Some SK_QUEUE_ELEM_READ" 0 0 n, unfolded reads]
  note wr = pull_buf [OF inv(2), of ty "Some SK_QUEUE_ELEM_WRITE" 0 0 1, unfolded wrs]
  have qw: "q_writes items q = items w" using w by (simp add: q_writes_def)
  have npos: "0 < unat n" using n by (simp add: word_less_nat_alt)
  consider "q_state q = SK_QUEUE_STATE_WRITE" | "q_state q = SK_QUEUE_STATE_READ"
    | "q_state q = SK_QUEUE_STATE_IDLE" using st by (auto simp: pull_state_ok_def)
  then show ?thesis
  proof cases
    case 1
    with k inv w qw show ?thesis
      by (intro exI2 [of _ "q_mq q" w])
           (simp add: sk_queue_pull_rw_pr_def pull_spec_def q_main_def)
  next
    case 2
    from r obtain b where "sk_queue_pull_buf F ty (q_mq q) (Some SK_QUEUE_ELEM_READ) u 0 0 n =
        Inr (b, pull_writes 0 0 u (take (unat n) (items (q_mq q))))"
      "invar b" "fmbuf_size F b = fmbuf_size F (q_mq q)"
      "items b = drop (unat n) (items (q_mq q))" by (auto simp: min_def)
    with 2 k inv w qw u show ?thesis
      by (intro exI2 [of _ b w])
           (auto simp: sk_queue_pull_rw_pr_def pull_spec_def q_main_def buf_wf_def min_def)
  next
    case 3
    from r obtain b where b: "sk_queue_pull_buf F ty (q_mq q) (Some SK_QUEUE_ELEM_READ) u 0 0 n =
        Inr (b, pull_writes 0 0 u (take (unat n) (items (q_mq q))))"
      "invar b" "fmbuf_size F b = fmbuf_size F (q_mq q)"
      "items b = drop (unat n) (items (q_mq q))" by (auto simp: min_def)
    show ?thesis
    proof (cases "items (q_mq q)")
      case Nil
      from wr obtain w' where "sk_queue_pull_buf F ty w (Some SK_QUEUE_ELEM_WRITE) u 0 0 1 =
          Inr (w', pull_writes 0 0 u (take 1 (items w)))"
        "invar w'" "fmbuf_size F w' = fmbuf_size F w" "items w' = drop 1 (items w)"
        by (auto simp: min_def)
      with Nil 3 k inv w qw u b show ?thesis
        by (intro exI2 [of _ b w'])
           (cases "items w"; auto simp: sk_queue_pull_rw_pr_def pull_spec_def q_main_def buf_wf_def)
    next
      case (Cons x xs)
      with 3 k inv w qw u b npos show ?thesis
        by (intro exI2 [of _ b w])
           (auto simp: sk_queue_pull_rw_pr_def pull_spec_def q_main_def buf_wf_def min_def)
    qed
  qed
qed

lemma pull_wf:
  assumes "sk_queue_wf F ty items invar q" "q_mode q \<noteq> SK_QUEUE_RW_PR"
    and "buf_wf F invar q b" "items b = drop k (q_main items q)"
  shows "sk_queue_wf F ty items invar (q\<lparr>q_mq := b\<rparr>)"
  using assms by (auto simp: sk_queue_wf_defs dest: in_set_dropD)

lemma pull_wf_pr:
  assumes "sk_queue_wf F ty items invar q" "q_mode q = SK_QUEUE_RW_PR"
    and "buf_wf F invar q b" "items b = drop k (q_main items q)"
    and "buf_wf F invar q w" "items w = drop l (q_writes items q)"
  shows "sk_queue_wf F ty items invar (q\<lparr>q_mq := b, q_wmq := Some w\<rparr>)"
  using assms by (auto simp: sk_queue_wf_defs dest: in_set_dropD)

lemma queue_pull:
  assumes wf: "sk_queue_wf F ty items invar q" and u: "q_elem_sz q = u"
    and n: "0 < n" and st: "pull_state_ok (q_mode q) (q_state q)"
    and k: "pull_spec (q_mode q) (q_state q) ty (min (unat n) (unat (q_max_slots q)))
      (q_main items q) (q_writes items q) = (k, l)"
  shows "\<exists>q'. sk_queue_pull F ty q n =
      Inr (q', pull_writes 0 0 u (take k (q_main items q) @ take l (q_writes items q))) \<and>
    sk_queue_wf F ty items invar q' \<and>
    q_main items q' = drop k (q_main items q) \<and> q_writes items q' = drop l (q_writes items q) \<and>
    q_mode q' = q_mode q \<and> q_state q' = q_state q \<and> q_elem_sz q' = q_elem_sz q \<and>
    q_max_slots q' = q_max_slots q"
proof -
  let ?n = "if q_max_slots q < n then q_max_slots q else n"
  have n': "0 < ?n" "unat ?n = min (unat n) (unat (q_max_slots q))"
    using n wf by (auto simp: sk_queue_wf_def word_less_nat_alt min_def)
  have npos: "n \<noteq> 0" using n by auto
  note defs = sk_queue_pull_def Let_def
  show ?thesis
  proof (cases "q_mode q")
    case SK_QUEUE_EXCLUSIVE
    then have "q_writes items q = []" using wf by (auto simp: sk_queue_wf_def q_writes_def)
    with queue_pull_excl [OF wf u SK_QUEUE_EXCLUSIVE] k SK_QUEUE_EXCLUSIVE npos pull_wf [OF wf]
    show ?thesis
      by (fastforce simp: defs q_main_def q_writes_def pull_spec_def)
  next
    case SK_QUEUE_RW_PW
    then have w: "q_writes items q = []" using wf by (auto simp: sk_queue_wf_def q_writes_def)
    then have l: "pull_spec SK_QUEUE_RW_PW (q_state q) ty (unat ?n) (q_main items q) [] = (k, l)" "l = 0"
      using k n'(2) SK_QUEUE_RW_PW by (auto simp: pull_spec_def split: if_splits)
    from queue_pull_pw [OF wf u SK_QUEUE_RW_PW n'(1)] st SK_QUEUE_RW_PW l(1)
    obtain b where "sk_queue_pull_rw_pw F ty q ?n =
        Inr (q\<lparr>q_mq := b\<rparr>, pull_writes 0 0 u (take k (q_main items q)))"
      "buf_wf F invar q b" "items b = drop k (q_main items q)"
      by auto
    with SK_QUEUE_RW_PW w l(2) npos pull_wf [OF wf] show ?thesis
      by (intro exI [of _ "q\<lparr>q_mq := b\<rparr>"])
         (simp add: defs q_main_def q_writes_def)
  next
    case SK_QUEUE_RW_PR
    from queue_pull_pr [OF wf u SK_QUEUE_RW_PR n'(1)] st SK_QUEUE_RW_PR k n'(2)
    obtain b w where "sk_queue_pull_rw_pr F ty q ?n = Inr (q\<lparr>q_mq := b, q_wmq := Some w\<rparr>,
        pull_writes 0 0 u (take k (q_main items q) @ take l (q_writes items q)))"
      "buf_wf F invar q b" "buf_wf F invar q w"
      "items b = drop k (q_main items q)" "items w = drop l (q_writes items q)"
      by auto
    with SK_QUEUE_RW_PR npos pull_wf_pr [OF wf SK_QUEUE_RW_PR] show ?thesis
      by (intro exI [of _ "q\<lparr>q_mq := b, q_wmq := Some w\<rparr>"])
         (simp add: defs q_main_def q_writes_def)
  qed
qed

lemma queue_empty:
  assumes "sk_queue_wf F ty items invar q" "q_elem_sz q = u"
  shows "sk_queue_empty F q = Inr (q_main items q = [] \<and> q_writes items q = [])"
  using assms
  by (cases "q_mode q") (auto simp: sk_queue_empty_def sk_queue_wf_defs used_0_iff)

end

section \<open>Properties\<close>

lemma set_take_takeWhile:
  "x \<in> set (take (reads_prefix ty n xs) xs) \<Longrightarrow> ty x = SK_QUEUE_ELEM_READ"
  by (auto simp: reads_prefix_def take_takeWhile_min [symmetric] dest: in_set_takeD set_takeWhileD)

lemma pull_spec_batch:
  assumes "pull_spec mode st ty n rs ws = (k, l)" "mode \<noteq> SK_QUEUE_EXCLUSIVE"
    and "pull_state_ok mode st" "0 < n"
    and "mode = SK_QUEUE_RW_PR \<longrightarrow> (\<forall>e \<in> set rs. ty e = SK_QUEUE_ELEM_READ)"
    and "\<forall>e \<in> set ws. ty e = SK_QUEUE_ELEM_WRITE" "mode = SK_QUEUE_RW_PW \<longrightarrow> ws = []"
    and "\<forall>e \<in> set rs. elem_ok mode (ty e)"
    and es: "es = take k rs @ take l ws"
  shows "(\<forall>e \<in> set es. ty e = SK_QUEUE_ELEM_READ) \<or>
       (st = SK_QUEUE_STATE_IDLE \<and> (\<exists>e. es = [e] \<and> ty e = SK_QUEUE_ELEM_WRITE))"
    and "st = SK_QUEUE_STATE_WRITE \<longrightarrow> es = []"
    and "st = SK_QUEUE_STATE_IDLE \<and> (rs \<noteq> [] \<or> ws \<noteq> []) \<longrightarrow> es \<noteq> []"
proof -
  have c: "mode = SK_QUEUE_RW_PR \<or> mode = SK_QUEUE_RW_PW" using assms(2) by (cases mode) auto
  show "(\<forall>e \<in> set es. ty e = SK_QUEUE_ELEM_READ) \<or>
       (st = SK_QUEUE_STATE_IDLE \<and> (\<exists>e. es = [e] \<and> ty e = SK_QUEUE_ELEM_WRITE))"
  proof (cases "mode = SK_QUEUE_RW_PR")
    case True
    with assms(5) have "\<forall>e \<in> set (take k rs). ty e = SK_QUEUE_ELEM_READ"
      by (auto dest: in_set_takeD)
    moreover have "l = 0 \<or> st = SK_QUEUE_STATE_IDLE \<and> k = 0 \<and> l = min 1 (length ws)"
      using assms(1) True by (auto simp: pull_spec_def split: if_splits)
    ultimately show ?thesis using assms(6) es by (cases ws) auto
  next
    case False
    with c assms(7) have pw: "mode = SK_QUEUE_RW_PW" "ws = []" by auto
    then have "k = 0 \<or> k = reads_prefix ty n rs \<or>
        (k = 1 \<and> st = SK_QUEUE_STATE_IDLE \<and> rs \<noteq> [] \<and> ty (hd rs) = SK_QUEUE_ELEM_WRITE)"
      using assms(1) by (auto simp: pull_spec_def split: if_splits)
    then show ?thesis using es pw(2)
      by (elim disjE) (auto simp: neq_Nil_conv dest: set_take_takeWhile)
  qed
  show "st = SK_QUEUE_STATE_WRITE \<longrightarrow> es = []"
    using assms(1,9) c by (auto simp: pull_spec_def)
  show "st = SK_QUEUE_STATE_IDLE \<and> (rs \<noteq> [] \<or> ws \<noteq> []) \<longrightarrow> es \<noteq> []"
    using assms c
    by (cases ws; cases rs) (auto simp: pull_spec_def reads_prefix_def split: if_splits)
qed

text \<open>A small read-write queue of elements that are nothing but their header.\<close>

definition demo_queue :: "sk_queue_mode \<Rightarrow> sk_queue_elem_type list \<Rightarrow> sk_queue_elem_type cellbuf sk_queue" where
  "demo_queue mode xs = \<lparr>q_mode = mode, q_state = SK_QUEUE_STATE_IDLE, q_elem_sz = 4,
     q_max_slots = 4, q_mq = \<lparr>cb_cap = 16, cb_cells = xs\<rparr>,
     q_wmq = (if mode = SK_QUEUE_RW_PR then Some \<lparr>cb_cap = 4, cb_cells = [SK_QUEUE_ELEM_WRITE]\<rparr>
       else None)\<rparr>"

lemma demo_laws: "fmbuf (cellbuf_ops 4) (q_elem_sz (demo_queue mode xs)) cb_cells (cellbuf_invar 4)"
  using fmbuf_cellbuf [of 4] by (simp add: demo_queue_def)

lemma demo_wf:
  "sk_queue_wf (cellbuf_ops 4) id cb_cells (cellbuf_invar 4)
     (demo_queue SK_QUEUE_RW_PW [SK_QUEUE_ELEM_READ, SK_QUEUE_ELEM_READ, SK_QUEUE_ELEM_WRITE])"
  "sk_queue_wf (cellbuf_ops 4) id cb_cells (cellbuf_invar 4)
     (demo_queue SK_QUEUE_RW_PR [SK_QUEUE_ELEM_READ, SK_QUEUE_ELEM_READ])"
  by (simp_all add: demo_queue_def sk_queue_wf_defs cellbuf_ops_def cellbuf_invar_def)

text \<open>
  C3: \<^verbatim>\<open>sk_queue_push\<close> refines a bounded list. On a well-formed queue and an element whose type
  the mode accepts, no assertion fails: the element is appended (return 0) exactly when its list
  holds fewer than \<^verbatim>\<open>max_slots\<close> elements, and otherwise the queue is unchanged (return 1); the
  buffer grows as needed and never beyond \<^verbatim>\<open>max_slots * elem_sz\<close> bytes.
\<close>
theorem sk_queue_push_refines:
  assumes "fmbuf F (q_elem_sz q) items invar" and "sk_queue_wf F ty items invar q"
    and "elem_ok (q_mode q) (ty e)"
  shows "\<exists>q' r. sk_queue_push F ty q e = Inr (q', r) \<and> sk_queue_wf F ty items invar q' \<and>
    (q_main items q', q_writes items q', r) =
      push_spec (q_mode q) (ty e) (unat (q_max_slots q)) (q_main items q) (q_writes items q) e \<and>
    q_mode q' = q_mode q \<and> q_state q' = q_state q \<and> q_elem_sz q' = q_elem_sz q \<and>
    q_max_slots q' = q_max_slots q"
  by (rule fmbuf.queue_push [OF assms(1,2) refl assms(3)])

theorem sk_queue_push_refines_witness:
  "\<exists>q' r. sk_queue_push (cellbuf_ops 4) id
      (demo_queue SK_QUEUE_RW_PR [SK_QUEUE_ELEM_READ, SK_QUEUE_ELEM_READ]) SK_QUEUE_ELEM_WRITE = Inr (q', r) \<and>
    (q_main cb_cells q', q_writes cb_cells q', r) =
      ([SK_QUEUE_ELEM_READ, SK_QUEUE_ELEM_READ], [SK_QUEUE_ELEM_WRITE, SK_QUEUE_ELEM_WRITE], 0)"
  using sk_queue_push_refines [OF demo_laws demo_wf(2), of SK_QUEUE_ELEM_WRITE]
  by (auto simp: demo_queue_def push_spec_def q_main_def q_writes_def)

text \<open>
  C4: \<^verbatim>\<open>sk_queue_pull\<close> refines taking a prefix. In every state in which a pull is legal the
  elements handed out are the first \<open>k\<close> of the main list and the first \<open>l\<close> of the write
  list, where \<open>(k, l)\<close> is given by the reader/writer policy \<open>pull_spec\<close>; the rest stays in
  order and the queue stays well-formed.
\<close>
theorem sk_queue_pull_refines:
  assumes "fmbuf F (q_elem_sz q) items invar" and "sk_queue_wf F ty items invar q"
    and "0 < n" and "pull_state_ok (q_mode q) (q_state q)"
    and "pull_spec (q_mode q) (q_state q) ty (min (unat n) (unat (q_max_slots q)))
      (q_main items q) (q_writes items q) = (k, l)"
  shows "\<exists>q'. sk_queue_pull F ty q n = Inr (q', pull_writes 0 0 (q_elem_sz q)
        (take k (q_main items q) @ take l (q_writes items q))) \<and>
    sk_queue_wf F ty items invar q' \<and>
    q_main items q' = drop k (q_main items q) \<and> q_writes items q' = drop l (q_writes items q) \<and>
    q_mode q' = q_mode q \<and> q_state q' = q_state q \<and> q_elem_sz q' = q_elem_sz q \<and>
    q_max_slots q' = q_max_slots q"
  by (rule fmbuf.queue_pull [OF assms(1,2) refl assms(3-5)])

theorem sk_queue_pull_refines_witness:
  "\<exists>q'. sk_queue_pull (cellbuf_ops 4) id (demo_queue SK_QUEUE_RW_PW
        [SK_QUEUE_ELEM_READ, SK_QUEUE_ELEM_READ, SK_QUEUE_ELEM_WRITE]) 3 =
      Inr (q', pull_writes 0 0 4 [SK_QUEUE_ELEM_READ, SK_QUEUE_ELEM_READ]) \<and>
    q_main cb_cells q' = [SK_QUEUE_ELEM_WRITE]"
  using sk_queue_pull_refines [OF demo_laws demo_wf(1), of 3 2 0]
  by (auto simp: demo_queue_def pull_spec_def reads_prefix_def pull_state_ok_def q_main_def
      q_writes_def)

text \<open>
  Readers and writers never share a batch. What one pull of a read-write queue hands out is a
  batch of readers, or a single writer and that only when the queue was idle; while a writer runs
  nothing is handed out; and an idle queue that holds an element always hands out something.
\<close>
theorem sk_queue_pull_batch:
  assumes "fmbuf F (q_elem_sz q) items invar" and "sk_queue_wf F ty items invar q"
    and "0 < n" and "q_mode q \<noteq> SK_QUEUE_EXCLUSIVE" and "pull_state_ok (q_mode q) (q_state q)"
  shows "\<exists>q' ws. sk_queue_pull F ty q n = Inr (q', ws) \<and>
    ((\<forall>e \<in> set (map snd ws). ty e = SK_QUEUE_ELEM_READ) \<or>
     (q_state q = SK_QUEUE_STATE_IDLE \<and> (\<exists>e. map snd ws = [e] \<and> ty e = SK_QUEUE_ELEM_WRITE))) \<and>
    (q_state q = SK_QUEUE_STATE_WRITE \<longrightarrow> map snd ws = []) \<and>
    (q_state q = SK_QUEUE_STATE_IDLE \<and> (q_main items q \<noteq> [] \<or> q_writes items q \<noteq> []) \<longrightarrow>
      map snd ws \<noteq> [])"
proof -
  obtain k l where kl: "pull_spec (q_mode q) (q_state q) ty (min (unat n) (unat (q_max_slots q)))
      (q_main items q) (q_writes items q) = (k, l)"
    by (rule prod.exhaust)
  have pos: "0 < min (unat n) (unat (q_max_slots q))"
    using assms(2,3) by (simp add: sk_queue_wf_def word_less_nat_alt)
  have wf: "q_mode q = SK_QUEUE_RW_PR \<longrightarrow> (\<forall>e \<in> set (q_main items q). ty e = SK_QUEUE_ELEM_READ)"
    "\<forall>e \<in> set (q_writes items q). ty e = SK_QUEUE_ELEM_WRITE"
    "q_mode q = SK_QUEUE_RW_PW \<longrightarrow> q_writes items q = []"
    "\<forall>e \<in> set (q_main items q). elem_ok (q_mode q) (ty e)"
    using assms(2) by (auto simp: sk_queue_wf_def q_writes_def)
  note b = pull_spec_batch [OF kl assms(4,5) pos wf refl]
  obtain q' where q': "sk_queue_pull F ty q n = Inr (q', pull_writes 0 0 (q_elem_sz q)
        (take k (q_main items q) @ take l (q_writes items q)))"
    using fmbuf.queue_pull [OF assms(1,2) refl assms(3,5) kl] by blast
  show ?thesis
    using b by (intro exI [of _ q'] exI conjI) (rule q', auto simp only: pull_writes_snd)
qed

theorem sk_queue_pull_batch_witness:
  "\<exists>q' ws. sk_queue_pull (cellbuf_ops 4) id (demo_queue SK_QUEUE_RW_PW
        [SK_QUEUE_ELEM_READ, SK_QUEUE_ELEM_READ, SK_QUEUE_ELEM_WRITE]) 3 = Inr (q', ws) \<and>
    map snd ws \<noteq> []"
  using sk_queue_pull_batch [OF demo_laws demo_wf(1), of 3]
  by (auto simp: demo_queue_def pull_state_ok_def q_main_def)

text \<open>
  The stride of a pull. The \<open>i\<close>-th element of a batch is written \<open>4 * i * elem_sz\<close> bytes
  behind the destination, because the pointer that is advanced has the type of the 4-byte header
  and not of the element: only the first element lands in the slot of a packed array, so a caller
  that pulls more than one element needs a destination four times as large.
\<close>
theorem sk_queue_pull_stride:
  assumes "fmbuf F (q_elem_sz q) items invar" and "sk_queue_wf F ty items invar q"
    and "0 < n" and "pull_state_ok (q_mode q) (q_state q)"
  shows "\<exists>q' ws. sk_queue_pull F ty q n = Inr (q', ws) \<and>
    (\<forall>i < length ws. fst (ws ! i) = 4 * (of_nat i * q_elem_sz q))"
proof -
  obtain k l where kl: "pull_spec (q_mode q) (q_state q) ty (min (unat n) (unat (q_max_slots q)))
      (q_main items q) (q_writes items q) = (k, l)"
    by (rule prod.exhaust)
  obtain q' where q': "sk_queue_pull F ty q n = Inr (q', pull_writes 0 0 (q_elem_sz q)
        (take k (q_main items q) @ take l (q_writes items q)))"
    using fmbuf.queue_pull [OF assms(1,2) refl assms(3,4) kl] by blast
  show ?thesis
    by (intro exI [of _ q'] exI conjI, rule q')
       (simp add: pull_writes_fst elem_base_sz_def del: length_append length_take)
qed

theorem sk_queue_pull_stride_witness:
  "\<exists>q' ws. sk_queue_pull (cellbuf_ops 4) id (demo_queue SK_QUEUE_RW_PW
        [SK_QUEUE_ELEM_READ, SK_QUEUE_ELEM_READ, SK_QUEUE_ELEM_WRITE]) 3 = Inr (q', ws) \<and>
    (\<forall>i < length ws. fst (ws ! i) = 4 * (of_nat i * 4))"
  using sk_queue_pull_stride [OF demo_laws demo_wf(1), of 3]
  by (auto simp: demo_queue_def pull_state_ok_def)

end
