(* ===== verification/Sk_Io.thy ===== *)
theory Sk_Io
  imports Sk_Queue
begin

text \<open>
  The two other clients of \<open>fmbuf\<close>: the event queues of a scheduler
  (\<^verbatim>\<open>src/src/common/sk_io.c\<close>), which grow without a bound, and the byte buffer
  (\<^verbatim>\<open>src/src/common/sk_mbuf.c\<close>) that holds the log of a transaction.
\<close>

section \<open>Event queues\<close>

datatype sk_io_type = SK_IO_INPUT | SK_IO_OUTPUT

record 'b sk_io =
  io_in :: 'b
  io_out :: 'b

text \<open>\<^verbatim>\<open>sizeof(sk_event_t)\<close> on a 64-bit target: six 8-byte fields and two 4-byte ones.\<close>

definition SK_EVENT_SZ :: size_t where
  "SK_EVENT_SZ = 56"

definition io_mq :: "'b sk_io \<Rightarrow> sk_io_type \<Rightarrow> 'b" where
  "io_mq io t = (case t of SK_IO_INPUT \<Rightarrow> io_in io | SK_IO_OUTPUT \<Rightarrow> io_out io)"

definition io_set_mq :: "'b sk_io \<Rightarrow> sk_io_type \<Rightarrow> 'b \<Rightarrow> 'b sk_io" where
  "io_set_mq io t b = (case t of SK_IO_INPUT \<Rightarrow> io\<lparr>io_in := b\<rparr> | SK_IO_OUTPUT \<Rightarrow> io\<lparr>io_out := b\<rparr>)"

definition io_get_new_size :: "('b, 'e) fmbuf_ops \<Rightarrow> 'b \<Rightarrow> size_t \<Rightarrow> size_t res" where
  "io_get_new_size F mq nevents =
     (let curr_cnt = fmbuf_size F mq div SK_EVENT_SZ;
          used_cnt = fmbuf_used F mq div SK_EVENT_SZ;
          new_cnt = (if curr_cnt \<noteq> 0 then curr_cnt else 1);
          new_sz = get_new_size_loop (new_cnt * SK_EVENT_SZ) (used_cnt * SK_EVENT_SZ)
                     (nevents * SK_EVENT_SZ)
      in sk_assert (0 < new_sz) (Inr new_sz))"

definition sk_io_create :: "('b, 'e) fmbuf_ops \<Rightarrow> size_t \<Rightarrow> size_t \<Rightarrow> 'b sk_io" where
  "sk_io_create F input_sz output_sz =
     \<lparr>io_in = fmbuf_create F (SK_EVENT_SZ * input_sz),
      io_out = fmbuf_create F (SK_EVENT_SZ * output_sz)\<rparr>"

text \<open>\<^verbatim>\<open>nevents\<close> is the length of the list of events.\<close>

definition sk_io_push ::
  "('b, 'e) fmbuf_ops \<Rightarrow> 'b sk_io \<Rightarrow> sk_io_type \<Rightarrow> 'e list \<Rightarrow> 'b sk_io res" where
  "sk_io_push F io t events =
     (let mq = io_mq io t; sz = SK_EVENT_SZ * of_nat (length events)
      in case fmbuf_push F mq events sz of
           Some mq' \<Rightarrow> Inr (io_set_mq io t mq')
         | None \<Rightarrow>
             rbind (io_get_new_size F mq (of_nat (length events))) (\<lambda>new_sz.
               case fmbuf_push F (fmbuf_realloc F mq new_sz) events sz of
                 Some mq' \<Rightarrow> Inr (io_set_mq io t mq')
               | None \<Rightarrow> Inl Assert))"

definition sk_io_pull ::
  "('b, 'e) fmbuf_ops \<Rightarrow> 'b sk_io \<Rightarrow> sk_io_type \<Rightarrow> size_t \<Rightarrow> ('b sk_io \<times> 'e list) res" where
  "sk_io_pull F io t nevents =
     (let mq = io_mq io t;
          mq_cnt = fmbuf_used F mq div SK_EVENT_SZ;
          actual_cnt = (if mq_cnt < nevents then mq_cnt else nevents)
      in if mq_cnt = 0 then Inr (io, [])
         else (case fmbuf_pop F mq (actual_cnt * SK_EVENT_SZ) of
                 Some (es, mq') \<Rightarrow> Inr (io_set_mq io t mq', es)
               | None \<Rightarrow> Inl Assert))"

definition sk_io_used :: "('b, 'e) fmbuf_ops \<Rightarrow> 'b sk_io \<Rightarrow> sk_io_type \<Rightarrow> size_t" where
  "sk_io_used F io t = fmbuf_used F (io_mq io t) div SK_EVENT_SZ"

definition sk_io_free :: "('b, 'e) fmbuf_ops \<Rightarrow> 'b sk_io \<Rightarrow> sk_io_type \<Rightarrow> size_t" where
  "sk_io_free F io t = fmbuf_free F (io_mq io t) div SK_EVENT_SZ"

definition sk_io_rawget ::
  "('b, 'e) fmbuf_ops \<Rightarrow> 'b sk_io \<Rightarrow> sk_io_type \<Rightarrow> size_t \<Rightarrow> 'e list option res" where
  "sk_io_rawget F io t nevents =
     sk_assert (nevents \<noteq> 0)
       (if fmbuf_used F (io_mq io t) = 0 then Inr None
        else (case fmbuf_rawget F (io_mq io t) (SK_EVENT_SZ * nevents) of
                None \<Rightarrow> Inl Assert
              | Some es \<Rightarrow> Inr (Some es)))"

section \<open>Byte buffers\<close>

record 'b sk_mbuf =
  mb_buf :: 'b
  mb_max_sz :: size_t

definition sk_mbuf_create :: "('b, u8) fmbuf_ops \<Rightarrow> size_t \<Rightarrow> size_t \<Rightarrow> 'b sk_mbuf" where
  "sk_mbuf_create F init_size max_size = \<lparr>mb_buf = fmbuf_create F init_size, mb_max_sz = max_size\<rparr>"

text \<open>
  The loop that chooses the new size. \<^verbatim>\<open>new_size\<close> is at least 1 when the loop starts and is
  never doubled past \<^verbatim>\<open>SIZE_MAX\<close>, so the guard \<open>0 < new_size\<close> holds in every round; it is
  there to make the equation total.
\<close>

function mbuf_grow_loop ::
  "size_t \<Rightarrow> size_t \<Rightarrow> size_t \<Rightarrow> size_t \<Rightarrow> size_t \<Rightarrow> bool \<Rightarrow> size_t" where
  "mbuf_grow_loop new_size free_size sz curr_used max_size loop_again =
     (if free_size < sz \<and> loop_again \<and> 0 < new_size then
        (if new_size \<le> (- 1) div 2
         then mbuf_grow_loop (new_size * 2) (new_size * 2 - curr_used) sz curr_used max_size True
         else mbuf_grow_loop max_size (max_size - curr_used) sz curr_used max_size False)
      else new_size)"
  by pat_completeness auto
termination
  by (relation "measure (\<lambda>(w, _, _, _, _, again). if again then Suc (doublings w) else 0)")
     (auto simp: doublings_less)

declare mbuf_grow_loop.simps [simp del]

definition sk_mbuf_push ::
  "('b, u8) fmbuf_ops \<Rightarrow> 'b sk_mbuf \<Rightarrow> u8 list \<Rightarrow> size_t \<Rightarrow> 'b sk_mbuf \<times> int" where
  "sk_mbuf_push F buf data sz =
     (case fmbuf_push F (mb_buf buf) data sz of
        Some b \<Rightarrow> (buf\<lparr>mb_buf := b\<rparr>, 0)
      | None \<Rightarrow>
          (let curr_used = fmbuf_used F (mb_buf buf);
               curr_size = fmbuf_size F (mb_buf buf);
               free_size = fmbuf_free F (mb_buf buf);
               max_size = (if mb_max_sz buf \<noteq> 0 then mb_max_sz buf else - 1);
               new_size = mbuf_grow_loop (if curr_size \<noteq> 0 then curr_size else 1)
                            free_size sz curr_used max_size True;
               b = fmbuf_realloc F (mb_buf buf) new_size
           in case fmbuf_push F b data sz of
                Some b' \<Rightarrow> (buf\<lparr>mb_buf := b'\<rparr>, 0)
              | None \<Rightarrow> (buf\<lparr>mb_buf := b\<rparr>, 1)))"

definition sk_mbuf_pop ::
  "('b, u8) fmbuf_ops \<Rightarrow> 'b sk_mbuf \<Rightarrow> size_t \<Rightarrow> ('b sk_mbuf \<times> u8 list) option" where
  "sk_mbuf_pop F buf sz =
     (case fmbuf_pop F (mb_buf buf) sz of
        Some (bs, b) \<Rightarrow> Some (buf\<lparr>mb_buf := b\<rparr>, bs)
      | None \<Rightarrow> None)"

definition sk_mbuf_size :: "('b, u8) fmbuf_ops \<Rightarrow> 'b sk_mbuf \<Rightarrow> size_t" where
  "sk_mbuf_size F buf = fmbuf_used F (mb_buf buf)"

section \<open>An event queue is an unbounded list\<close>

lemma mult_div_unit:
  "unat w = k * unat u \<Longrightarrow> u \<noteq> 0 \<Longrightarrow> w div u * u = w \<and> unat (w div u) = k" for w u :: size_t
proof
  assume a: "unat w = k * unat u" "u \<noteq> 0"
  have d: "unat (w div u) = k" using a by (simp add: unat_div unat_gt_0)
  have "unat (w div u * u) = unat (w div u) * unat u"
    using a(1) d unsigned_less [of w, where ?'a = nat] by (intro unat_mult_lt) simp
  with a(1) d show "w div u * u = w" by (simp add: word_unat_eq_iff)
  show "unat (w div u) = k" by (rule d)
qed

lemma io_mq_set [simp]:
  "io_mq (io_set_mq io t b) t' = (if t = t' then b else io_mq io t')"
  by (cases t; cases t') (auto simp: io_mq_def io_set_mq_def)

text \<open>
  \<open>N\<close> bounds the number of events that are ever queued at once; the buffers then stay below
  \<open>112 * N\<close> bytes, twice what the events take.
\<close>

definition io_ok ::
  "('b, 'e) fmbuf_ops \<Rightarrow> ('b \<Rightarrow> bool) \<Rightarrow> nat \<Rightarrow> 'b sk_io \<Rightarrow> bool" where
  "io_ok F invar N io \<longleftrightarrow> 16 \<le> N \<and> N < 2 ^ 50 \<and>
     (\<forall>t. invar (io_mq io t) \<and> unat (fmbuf_size F (io_mq io t)) \<le> 112 * N)"

lemma get_new_size_loop_less:
  assumes "0 < w" "used_sz \<le> w" "unat w < unat used_sz + unat need"
    and "unat used_sz + unat need \<le> 2 ^ 63"
  shows "unat (get_new_size_loop w used_sz need) \<le> 2 * (unat used_sz + unat need)"
  using assms
proof (induction w used_sz need rule: get_new_size_loop.induct)
  case (1 w used_sz need)
  have w2: "unat (w * 2) = 2 * unat w"
    using "1.prems"(3,4) by (simp add: unat_word_ariths)
  show ?case
  proof (cases "need \<le> w * 2 - used_sz")
    case True
    with "1.prems"(1,3) w2 show ?thesis by (simp add: get_new_size_loop.simps [of w])
  next
    case False
    have le2: "used_sz \<le> w * 2" using "1.prems"(2) w2 by (simp add: word_le_nat_alt)
    have "unat (w * 2) < unat used_sz + unat need"
      using False w2 le2 by (simp add: word_le_nat_alt unat_sub_le)
    moreover have "0 < w * 2" using w2 "1.prems"(1) by (simp add: word_less_nat_alt)
    ultimately show ?thesis
      using "1.IH" [OF "1.prems"(1) False] le2 False "1.prems"(1,4)
      by (simp add: get_new_size_loop.simps [of w])
  qed
qed

lemma unat_event_sz [simp]: "unat SK_EVENT_SZ = 56"
  by (simp add: SK_EVENT_SZ_def)

lemma unat_event_mult: "n < 2 ^ 50 \<Longrightarrow> unat (SK_EVENT_SZ * of_nat n) = 56 * n"
proof -
  assume n: "n < 2 ^ 50"
  then have "unat (of_nat n :: size_t) = n" by (simp add: unat_of_nat)
  with n show ?thesis by (subst unat_mult_lt) simp_all
qed

lemma io_push_size:
  assumes l: "fmbuf F SK_EVENT_SZ items invar" and inv: "invar mq"
    and n: "length (items mq) + n \<le> N" "0 < n" "N < 2 ^ 50"
    and full: "unat (fmbuf_size F mq) < 56 * (length (items mq) + n)"
  shows "\<exists>sz. io_get_new_size F mq (of_nat n) = Inr sz \<and>
    56 * (length (items mq) + n) \<le> unat sz \<and> unat sz \<le> 112 * (length (items mq) + n)"
proof -
  let ?k = "length (items mq)"
  let ?c = "unat (fmbuf_size F mq) div 56"
  let ?cnt = "if fmbuf_size F mq div SK_EVENT_SZ \<noteq> 0 then fmbuf_size F mq div SK_EVENT_SZ else 1"
  have used: "unat (fmbuf_used F mq) = ?k * unat SK_EVENT_SZ"
    using fmbuf.used [OF l inv] by simp
  have ud: "fmbuf_used F mq div SK_EVENT_SZ * SK_EVENT_SZ = fmbuf_used F mq"
    using mult_div_unit [OF used] by (simp add: SK_EVENT_SZ_def)
  have needn: "unat (of_nat n * SK_EVENT_SZ) = 56 * n"
    using unat_event_mult [of n] n by (simp add: mult.commute)
  have kc: "?k \<le> ?c"
    using fmbuf.used_nat_le_size [OF l inv] by simp
  have cs: "56 * ?c \<le> unat (fmbuf_size F mq)" by simp
  have cd: "unat (fmbuf_size F mq div SK_EVENT_SZ) = ?c" by (simp add: unat_div)
  have cn: "unat ?cnt = max 1 ?c"
    using cd by (auto simp: max_def unat_eq_zero [symmetric] simp del: unat_eq_zero)
  have "max 1 c * 56 < (k + n) * 56 + 56" if "c * 56 \<le> s" "s < (k + n) * 56" "0 < n"
    for c s k :: nat using that by (auto simp: max_def)
  then have cb: "56 * max 1 ?c < 56 * (?k + n) + 56"
    using full cs n(2) by (metis mult.commute)
  have w: "unat (?cnt * SK_EVENT_SZ) = 56 * max 1 ?c"
    using cn cb n by (subst unat_mult_lt) (auto simp: max_def)
  show ?thesis
  proof (cases "56 * max 1 ?c < 56 * (?k + n)")
    case True
    note room = get_new_size_loop_room [of "?cnt * SK_EVENT_SZ" "fmbuf_used F mq" "of_nat n * SK_EVENT_SZ"]
    note less = get_new_size_loop_less [of "?cnt * SK_EVENT_SZ" "fmbuf_used F mq" "of_nat n * SK_EVENT_SZ"]
    have h: "0 < ?cnt * SK_EVENT_SZ" "fmbuf_used F mq \<le> ?cnt * SK_EVENT_SZ"
      "unat (fmbuf_used F mq) + unat (of_nat n * SK_EVENT_SZ) \<le> 2 ^ 63"
      using w kc used needn n by (simp_all add: word_less_nat_alt word_le_nat_alt)
    have "unat (?cnt * SK_EVENT_SZ) < 2 ^ 63" using w True n by simp
    with room less h True w used needn
    have "56 * (?k + n) \<le> unat (get_new_size_loop (?cnt * SK_EVENT_SZ) (fmbuf_used F mq) (of_nat n * SK_EVENT_SZ))"
      "unat (get_new_size_loop (?cnt * SK_EVENT_SZ) (fmbuf_used F mq) (of_nat n * SK_EVENT_SZ))
         \<le> 112 * (?k + n)"
      by simp_all
    with n(2) show ?thesis by (auto simp: io_get_new_size_def Let_def ud word_less_nat_alt)
  next
    case False
    then have "max 1 ?c = ?k + n" using cb by simp
    have "k = 0 \<and> n = 1" if "c * 56 \<le> s" "s < (k + n) * 56" "0 < n" "max 1 c = k + n"
      for c s k :: nat using that by (auto simp: max_def split: if_splits)
    then have one: "?k = 0" "n = 1"
      using full cs n(2) \<open>max 1 ?c = ?k + n\<close> by (metis mult.commute)+
    have w1: "?cnt * SK_EVENT_SZ = SK_EVENT_SZ"
      using w one \<open>max 1 ?c = ?k + n\<close> by (simp add: word_unat_eq_iff)
    have u0: "fmbuf_used F mq = 0" using used one by (simp add: unat_eq_zero)
    have "get_new_size_loop SK_EVENT_SZ 0 SK_EVENT_SZ = 112"
      by (simp add: get_new_size_loop.simps [of 56] SK_EVENT_SZ_def)
    then show ?thesis using w1 u0 one by (simp add: io_get_new_size_def Let_def)
  qed
qed

text \<open>The \<open>n\<close>-fold push into a buffer that has or has not the room.\<close>

lemma io_push_items:
  assumes l: "fmbuf F SK_EVENT_SZ items invar" and ok: "io_ok F invar N io"
    and n: "length (items (io_mq io t)) + length es \<le> N"
  shows "\<exists>io'. sk_io_push F io t es = Inr io' \<and> io_ok F invar N io' \<and>
    items (io_mq io' t) = items (io_mq io t) @ es \<and> (\<forall>t'. t' \<noteq> t \<longrightarrow> io_mq io' t' = io_mq io t')"
proof -
  let ?mq = "io_mq io t"
  let ?sz = "SK_EVENT_SZ * of_nat (length es) :: size_t"
  have inv: "invar ?mq" and N: "16 \<le> N" "N < 2 ^ 50"
    and small: "unat (fmbuf_size F ?mq) \<le> 112 * N"
    using ok by (auto simp: io_ok_def)
  have sz: "unat ?sz = unat SK_EVENT_SZ * length es"
    using unat_event_mult [of "length es"] n N by simp
  have free: "unat (fmbuf_free F b) = unat (fmbuf_size F b) - 56 * length (items b)"
    if "invar b" for b
    using that fmbuf.free [OF l that] fmbuf.used [OF l that] fmbuf.used_le_size [OF l that]
    by (simp add: unat_sub_le)
  have fin: "\<exists>io'. Inr (io_set_mq io t mq') = Inr io' \<and> io_ok F invar N io' \<and>
      items (io_mq io' t) = items ?mq @ es \<and> (\<forall>t'. t' \<noteq> t \<longrightarrow> io_mq io' t' = io_mq io t')"
    if "invar mq'" "items mq' = items ?mq @ es" "unat (fmbuf_size F mq') \<le> 112 * N" for mq'
    using that ok by (auto simp: io_ok_def)
  show ?thesis
  proof (cases "?sz \<le> fmbuf_free F ?mq")
    case True
    obtain mq' where "fmbuf_push F ?mq es ?sz = Some mq'" "invar mq'"
      "items mq' = items ?mq @ es" "fmbuf_size F mq' = fmbuf_size F ?mq"
      using fmbuf.push_ok [OF l inv sz True] by blast
    with small fin [of mq'] show ?thesis by (simp add: sk_io_push_def Let_def)
  next
    case False
    then have no: "fmbuf_push F ?mq es ?sz = None" using fmbuf.push_full [OF l inv] by simp
    have full: "unat (fmbuf_size F ?mq) < 56 * (length (items ?mq) + length es)"
      using False free [OF inv] sz by (simp add: word_le_nat_alt)
    have pos: "0 < length es" using False by (cases es) auto
    obtain new where new: "io_get_new_size F ?mq (of_nat (length es)) = Inr new"
      "56 * (length (items ?mq) + length es) \<le> unat new"
      "unat new \<le> 112 * (length (items ?mq) + length es)"
      using io_push_size [OF l inv n pos N(2) full] by blast
    let ?r = "fmbuf_realloc F ?mq new"
    have "fmbuf_used F ?mq \<le> new"
      using fmbuf.used [OF l inv] new(2) by (simp add: word_le_nat_alt)
    then have r: "invar ?r" "items ?r = items ?mq" "fmbuf_size F ?r = new"
      using fmbuf.realloc [OF l inv] by auto
    have "?sz \<le> fmbuf_free F ?r" using free [OF r(1)] r new(2) sz by (simp add: word_le_nat_alt)
    then obtain mq' where "fmbuf_push F ?r es ?sz = Some mq'" "invar mq'"
      "items mq' = items ?mq @ es" "fmbuf_size F mq' = new"
      using fmbuf.push_ok [OF l r(1) sz] r by metis
    with no new n fin [of mq'] show ?thesis by (simp add: sk_io_push_def Let_def)
  qed
qed

lemma io_pull_items:
  assumes l: "fmbuf F SK_EVENT_SZ items invar" and ok: "io_ok F invar N io"
  shows "\<exists>io'. sk_io_pull F io t n = Inr (io', take (unat n) (items (io_mq io t))) \<and>
    io_ok F invar N io' \<and> items (io_mq io' t) = drop (unat n) (items (io_mq io t)) \<and>
    (\<forall>t'. t' \<noteq> t \<longrightarrow> io_mq io' t' = io_mq io t')"
proof -
  let ?mq = "io_mq io t"
  let ?cnt = "fmbuf_used F ?mq div SK_EVENT_SZ"
  let ?a = "if ?cnt < n then ?cnt else n"
  have inv: "invar ?mq" using ok by (auto simp: io_ok_def)
  have used: "unat (fmbuf_used F ?mq) = length (items ?mq) * unat SK_EVENT_SZ"
    using fmbuf.used [OF l inv] by simp
  have cnt: "unat ?cnt = length (items ?mq)"
    using mult_div_unit [OF used] by (simp add: SK_EVENT_SZ_def)
  have a: "unat ?a = min (unat n) (length (items ?mq))"
    using cnt by (auto simp: word_less_nat_alt)
  have "unat (?a * SK_EVENT_SZ) = unat ?a * unat SK_EVENT_SZ"
    using a used unsigned_less [of "fmbuf_used F ?mq", where ?'a = nat]
    by (intro unat_mult_lt) (auto simp: min_def)
  with a have sz: "unat (?a * SK_EVENT_SZ) = unat SK_EVENT_SZ * min (unat n) (length (items ?mq))"
    by simp
  show ?thesis
  proof (cases "?cnt = 0")
    case True
    then have "items ?mq = []" using cnt by simp
    with True ok show ?thesis by (simp add: sk_io_pull_def Let_def)
  next
    case False
    obtain mq' where p: "fmbuf_pop F ?mq (?a * SK_EVENT_SZ) =
        Some (take (min (unat n) (length (items ?mq))) (items ?mq), mq')" "invar mq'"
      "items mq' = drop (min (unat n) (length (items ?mq))) (items ?mq)"
      "fmbuf_size F mq' = fmbuf_size F ?mq"
      using fmbuf.pop_ok [OF l inv sz] by auto
    have "take (min m (length xs)) xs = take m xs \<and> drop (min m (length xs)) xs = drop m xs"
      for m and xs :: "'b list" by (simp add: min_def)
    with p False ok show ?thesis by (auto simp: sk_io_pull_def Let_def io_ok_def)
  qed
qed

text \<open>A sequence of pushes and pulls on one of the two queues; the pulled events are collected.\<close>

datatype 'e io_op = IoPush "'e list" | IoPull size_t

fun io_run :: "('b, 'e) fmbuf_ops \<Rightarrow> 'b sk_io \<Rightarrow> sk_io_type \<Rightarrow> 'e io_op list \<Rightarrow>
    ('b sk_io \<times> 'e list) res" where
  "io_run F io t [] = Inr (io, [])"
| "io_run F io t (IoPush es # ops) = rbind (sk_io_push F io t es) (\<lambda>io'. io_run F io' t ops)"
| "io_run F io t (IoPull n # ops) =
     rbind (sk_io_pull F io t n) (\<lambda>(io', es).
       rbind (io_run F io' t ops) (\<lambda>(io'', es'). Inr (io'', es @ es')))"

fun io_pushed :: "'e io_op list \<Rightarrow> 'e list" where
  "io_pushed [] = []"
| "io_pushed (IoPush es # ops) = es @ io_pushed ops"
| "io_pushed (IoPull n # ops) = io_pushed ops"

text \<open>
  C5: the event queues of a scheduler lose, duplicate and reorder nothing. Whatever sequence of
  pushes and pulls runs on one queue, with up to \<open>N\<close> events in it, no assertion of the code
  fails (growing the buffer always finds the room), the events pulled followed by the events
  still queued are the events queued at the start followed by the events pushed, and the other
  queue is untouched.
\<close>
theorem sk_io_fifo:
  assumes "fmbuf F SK_EVENT_SZ items invar" "io_ok F invar N io"
    and "length (items (io_mq io t)) + length (io_pushed ops) \<le> N"
  shows "\<exists>io' out. io_run F io t ops = Inr (io', out) \<and> io_ok F invar N io' \<and>
    out @ items (io_mq io' t) = items (io_mq io t) @ io_pushed ops \<and>
    (\<forall>t'. t' \<noteq> t \<longrightarrow> io_mq io' t' = io_mq io t')"
  using assms
proof (induction F io t ops rule: io_run.induct)
  case (2 F io t es ops)
  obtain io1 where p: "sk_io_push F io t es = Inr io1" "io_ok F invar N io1"
    "items (io_mq io1 t) = items (io_mq io t) @ es" "\<forall>t'. t' \<noteq> t \<longrightarrow> io_mq io1 t' = io_mq io t'"
    using io_push_items [OF "2.prems"(1,2), of t es] "2.prems"(3) by auto
  show ?case using "2.IH" [OF p(1) "2.prems"(1) p(2)] p "2.prems"(3) by simp
next
  case (3 F io t n ops)
  let ?q = "items (io_mq io t)"
  obtain io1 where p: "sk_io_pull F io t n = Inr (io1, take (unat n) ?q)" "io_ok F invar N io1"
    "items (io_mq io1 t) = drop (unat n) ?q" "\<forall>t'. t' \<noteq> t \<longrightarrow> io_mq io1 t' = io_mq io t'"
    using io_pull_items [OF "3.prems"(1,2), of t n] by auto
  have "length (drop (unat n) ?q) + length (io_pushed ops) \<le> N" using "3.prems"(3) by simp
  then obtain io2 out where r: "io_run F io1 t ops = Inr (io2, out)" "io_ok F invar N io2"
    "out @ items (io_mq io2 t) = drop (unat n) ?q @ io_pushed ops"
    "\<forall>t'. t' \<noteq> t \<longrightarrow> io_mq io2 t' = io_mq io t'"
    using "3.IH" [OF p(1) refl "3.prems"(1) p(2)] p(3,4) by auto
  then have "(take (unat n) ?q @ out) @ items (io_mq io2 t) = ?q @ io_pushed ops"
    by (metis append.assoc append_take_drop_id)
  with p(1) r show ?case by auto
qed auto

definition demo_io :: "nat cellbuf sk_io" where
  "demo_io = sk_io_create (cellbuf_ops SK_EVENT_SZ) 1 1"

theorem sk_io_fifo_witness:
  "\<exists>io' out. io_run (cellbuf_ops SK_EVENT_SZ) demo_io SK_IO_OUTPUT [IoPush [1, 2, 3], IoPull 2]
     = Inr (io', out) \<and> out @ cb_cells (io_mq io' SK_IO_OUTPUT) = [1, 2, 3]"
proof -
  have l: "fmbuf (cellbuf_ops SK_EVENT_SZ) SK_EVENT_SZ cb_cells (cellbuf_invar SK_EVENT_SZ)"
    by (rule fmbuf_cellbuf) (simp add: SK_EVENT_SZ_def)
  have e: "io_mq demo_io t' = \<lparr>cb_cap = 56, cb_cells = []\<rparr>" for t'
    by (cases t') (simp_all add: demo_io_def sk_io_create_def cellbuf_ops_def io_mq_def SK_EVENT_SZ_def)
  have ok: "io_ok (cellbuf_ops SK_EVENT_SZ) (cellbuf_invar SK_EVENT_SZ) 16 demo_io"
    by (simp add: io_ok_def e cellbuf_invar_def) (simp add: cellbuf_ops_def)
  show ?thesis
    using sk_io_fifo [OF l ok, of SK_IO_OUTPUT "[IoPush [1, 2, 3], IoPull 2]"] by (auto simp: e)
qed

section \<open>A byte buffer takes what it is given\<close>

lemma mbuf_grow_loop_room:
  assumes "0 < w" "used_sz \<le> w" "unat used_sz + unat sz < 2 ^ 63"
    and "unat free_sz \<le> unat w - unat used_sz" "unat w - unat used_sz \<le> Suc (unat free_sz)"
  shows "unat used_sz + unat sz \<le> unat (mbuf_grow_loop w free_sz sz used_sz max_size True)"
  using assms
proof (induction "doublings w" arbitrary: w free_sz rule: less_induct)
  case less
  show ?case
  proof (cases "free_sz < sz")
    case False
    with less.prems show ?thesis
      by (simp add: mbuf_grow_loop.simps [of w] word_less_nat_alt word_le_nat_alt)
  next
    case True
    then have small: "unat w < 2 ^ 63"
      using less.prems by (simp add: word_less_nat_alt word_le_nat_alt)
    have half: "w \<le> - 1 div 2" using small by (simp add: word_le_nat_alt unat_div)
    have w2: "unat (w * 2) = 2 * unat w" using small by (simp add: unat_word_ariths)
    have le: "used_sz \<le> w * 2" using less.prems(2) w2 by (simp add: word_le_nat_alt)
    have f: "unat (w * 2 - used_sz) = unat (w * 2) - unat used_sz" using le by (rule unat_sub_le)
    have p: "0 < w * 2" using less.prems(1) w2 by (simp add: word_less_nat_alt)
    show ?thesis
      using less.hyps [OF doublings_less [OF less.prems(1)] p le less.prems(3), of "w * 2 - used_sz"]
        f half True less.prems(1)
      by (simp add: mbuf_grow_loop.simps [of w])
  qed
qed

lemma mbuf_push_appends:
  assumes l: "fmbuf F 1 items invar" and inv: "invar (mb_buf buf)"
    and sz: "length (items (mb_buf buf)) + length bs < 2 ^ 63"
  shows "\<exists>buf'. sk_mbuf_push F buf bs (of_nat (length bs)) = (buf', 0) \<and> invar (mb_buf buf') \<and>
    items (mb_buf buf') = items (mb_buf buf) @ bs \<and> mb_max_sz buf' = mb_max_sz buf"
proof -
  let ?b = "mb_buf buf"
  let ?n = "of_nat (length bs) :: size_t"
  have n: "unat ?n = unat 1 * length bs" using sz by (simp add: unat_of_nat)
  show ?thesis
  proof (cases "?n \<le> fmbuf_free F ?b")
    case True
    then show ?thesis using fmbuf.push_ok [OF l inv n] by (auto simp: sk_mbuf_push_def)
  next
    case False
    have used: "unat (fmbuf_used F ?b) = length (items ?b)" using fmbuf.used [OF l inv] by simp
    have ule: "fmbuf_used F ?b \<le> fmbuf_size F ?b" by (rule fmbuf.used_le_size [OF l inv])
    have free: "unat (fmbuf_free F b) = unat (fmbuf_size F b) - length (items b)" if "invar b" for b
      using that fmbuf.free [OF l that] fmbuf.used [OF l that] fmbuf.used_le_size [OF l that]
      by (simp add: unat_sub_le)
    define w where "w = (if fmbuf_size F ?b \<noteq> 0 then fmbuf_size F ?b else 1)"
    define m where "m = (if mb_max_sz buf \<noteq> 0 then mb_max_sz buf else - 1)"
    define r where "r = mbuf_grow_loop w (fmbuf_free F ?b) ?n (fmbuf_used F ?b) m True"
    have w: "0 < w" "fmbuf_used F ?b \<le> w" "unat (fmbuf_size F ?b) \<le> unat w"
      "unat w - length (items ?b) \<le> Suc (unat (fmbuf_size F ?b) - length (items ?b))"
      using ule by (auto simp: w_def word_le_nat_alt word_less_nat_alt unat_gt_0)
    have room: "length (items ?b) + length bs \<le> unat r"
      using mbuf_grow_loop_room [OF w(1,2), of ?n "fmbuf_free F ?b" m] sz used n free [OF inv] w(3,4)
      by (simp add: r_def)
    let ?r = "fmbuf_realloc F ?b r"
    have "fmbuf_used F ?b \<le> r" using room used by (simp add: word_le_nat_alt)
    then have re: "invar ?r" "items ?r = items ?b" "fmbuf_size F ?r = r"
      using fmbuf.realloc [OF l inv] by auto
    have "?n \<le> fmbuf_free F ?r" using free [OF re(1)] re room n by (simp add: word_le_nat_alt)
    then obtain b' where "fmbuf_push F ?r bs ?n = Some b'" "invar b'" "items b' = items ?b @ bs"
      using fmbuf.push_ok [OF l re(1) n] re by metis
    moreover have "fmbuf_push F ?b bs ?n = None"
      using False fmbuf.push_full [OF l inv] by simp
    ultimately show ?thesis
      by (simp add: sk_mbuf_push_def Let_def r_def w_def m_def)
  qed
qed

text \<open>
  A push on a byte buffer succeeds and appends its bytes as long as used and new bytes stay
  below \<open>2^63\<close>, whatever the limit \<^verbatim>\<open>max_sz\<close> the buffer was created with: the limit is read
  only when the size cannot be doubled any more, so a buffer of \<^verbatim>\<open>max_sz\<close> bytes grows past it.
\<close>
theorem sk_mbuf_push_appends:
  assumes l: "fmbuf F 1 items invar" and inv: "invar (mb_buf buf)"
    and sz: "length (items (mb_buf buf)) + length bs < 2 ^ 63"
  shows "\<exists>buf'. sk_mbuf_push F buf bs (of_nat (length bs)) = (buf', 0) \<and> invar (mb_buf buf') \<and>
    items (mb_buf buf') = items (mb_buf buf) @ bs \<and> mb_max_sz buf' = mb_max_sz buf"
  by (rule mbuf_push_appends [OF l inv sz])

theorem sk_mbuf_push_appends_witness:
  "\<exists>buf'. sk_mbuf_push (cellbuf_ops 1) (sk_mbuf_create (cellbuf_ops 1) 0 1) [7, 8, 9] 3 = (buf', 0) \<and>
     cb_cells (mb_buf buf') = [7, 8, 9] \<and> mb_max_sz buf' = 1"
proof -
  have i: "cellbuf_invar 1 (mb_buf (sk_mbuf_create (cellbuf_ops 1) 0 1))"
    by (simp add: sk_mbuf_create_def)
  have e: "cb_cells (mb_buf (sk_mbuf_create (cellbuf_ops 1) 0 1)) = ([] :: u8 list)"
    by (simp add: sk_mbuf_create_def)
  show ?thesis
    using sk_mbuf_push_appends [OF fmbuf_cellbuf [of 1] i, of "[7, 8, 9]"] e
    by (auto simp: sk_mbuf_create_def)
qed

end
