(* ===== verification/Sk_Txn.thy ===== *)
theory Sk_Txn
  imports Sk_Io
begin

text \<open>
  Workflows and transactions: \<^verbatim>\<open>src/src/common/sk_workflow.c\<close>, \<^verbatim>\<open>src/src/common/sk_txn.c\<close>
  and the statistics of \<^verbatim>\<open>src/src/common/sk_module.c\<close>.

  Modules, workflows and their configuration are created when the program starts and are
  shared by reference; the model passes them as values, a module being identified by
  \<open>m_addr\<close>. An \<^verbatim>\<open>flist\<close> is the list of its elements in the order of iteration, an
  \<^verbatim>\<open>fhash\<close> keyed by task ids is a map. Times are microseconds (\<^verbatim>\<open>slong_t\<close>, 64 bits) and
  task counters are \<^verbatim>\<open>int\<close>; both stay far from their limits and are integers here. A
  function that reads the clock takes the value read, \<open>now\<close>, as an argument. The operations
  that also touch the entity of a transaction (\<^verbatim>\<open>sk_txn_destroy\<close>, \<^verbatim>\<open>sk_txn_safe_destroy\<close>)
  are in theory \<open>Sk_Entity\<close>.
\<close>

section \<open>Modules and workflows\<close>

record sk_module =
  m_addr :: addr
  m_name :: string       \<comment> \<open>\<^verbatim>\<open>cfg->name\<close>\<close>
  m_pack :: bool         \<comment> \<open>whether the function pointer \<^verbatim>\<open>pack\<close> is set\<close>
  m_unpack :: bool       \<comment> \<open>whether the function pointer \<^verbatim>\<open>unpack\<close> is set\<close>

record sk_workflow_cfg =
  wc_concurrent :: bool
  wc_timeout :: int
  wc_txn_out_sz :: int
  wc_enable_stdin :: bool
  wc_sock_type :: nat    \<comment> \<open>\<^verbatim>\<open>SK_SOCK_TCP\<close> is 0, \<^verbatim>\<open>SK_SOCK_UDP\<close> is 1\<close>
  wc_port :: int
  wc_bind :: string

record sk_workflow =
  wf_cfg :: sk_workflow_cfg
  wf_modules :: "sk_module list"

definition sk_workflow_create :: "sk_workflow_cfg \<Rightarrow> sk_workflow" where
  "sk_workflow_create cfg = \<lparr>wf_cfg = cfg, wf_modules = []\<rparr>"

definition sk_workflow_add_module :: "sk_workflow \<Rightarrow> sk_module \<Rightarrow> sk_workflow" where
  "sk_workflow_add_module wflow m = wflow\<lparr>wf_modules := wf_modules wflow @ [m]\<rparr>"

definition sk_workflow_first_module :: "sk_workflow \<Rightarrow> sk_module option" where
  "sk_workflow_first_module wflow = (case wf_modules wflow of [] \<Rightarrow> None | m # _ \<Rightarrow> Some m)"

definition sk_workflow_last_module :: "sk_workflow \<Rightarrow> sk_module option" where
  "sk_workflow_last_module wflow = (case wf_modules wflow of [] \<Rightarrow> None | m # ms \<Rightarrow> Some (last (m # ms)))"

definition sk_workflow_module_cnt :: "sk_workflow \<Rightarrow> nat" where
  "sk_workflow_module_cnt wflow =
     (if wf_modules wflow = [] then 0 else fold (\<lambda>_ cnt. cnt + 1) (wf_modules wflow) 0)"

section \<open>Transactions\<close>

datatype sk_txn_state =
    SK_TXN_INIT | SK_TXN_UNPACKED | SK_TXN_RUNNING | SK_TXN_PENDING | SK_TXN_COMPLETED
  | SK_TXN_PACKED | SK_TXN_ERROR | SK_TXN_TIMEOUT | SK_TXN_DESTROYED

datatype sk_txn_task_status_t =
    SK_TXN_TASK_RUNNING | SK_TXN_TASK_DONE | SK_TXN_TASK_PENDING | SK_TXN_TASK_BUSY

text \<open>\<open>td_cb\<close> is the function pointer of the callback, \<open>None\<close> for \<^verbatim>\<open>NULL\<close>.\<close>

record sk_txn_taskdata_t =
  td_api_name :: string
  td_request :: "u8 list"
  td_response :: "u8 list"
  td_user_data :: addr
  td_caller_module :: "sk_module option"
  td_cb :: "addr option"
  td_pendings :: u32
  td_task_id :: u64

record sk_txn_task =
  tk_id :: u64
  tk_start :: int
  tk_end :: int
  tk_data :: sk_txn_taskdata_t
  tk_status :: sk_txn_task_status_t

record 'o sk_txn =
  tx_workflow :: sk_workflow
  tx_entity :: addr
  tx_input :: "u8 list option"
  tx_output :: 'o
  tx_current :: "sk_module option"
  tx_workflow_idx :: "sk_module list"   \<comment> \<open>the iterator: the modules still to come\<close>
  tx_task_tbl :: "u64 \<rightharpoonup> sk_txn_task"
  tx_error :: bool
  tx_latest_taskid :: u64
  tx_total_tasks :: int
  tx_complete_tasks :: int
  tx_start_time :: int
  tx_state :: sk_txn_state
  tx_pending_tasks :: int
  tx_udata :: addr
  tx_transaction :: "'o sk_mbuf"

definition SK_TXN_DEFAULT_INIT_SIZE :: size_t where
  "SK_TXN_DEFAULT_INIT_SIZE = 256"

definition SK_TXN_DEFAULT_MAX_SIZE :: nat where
  "SK_TXN_DEFAULT_MAX_SIZE = 2048"

definition SK_US_PER_MS :: int where
  "SK_US_PER_MS = 1000"

definition sk_txn_create :: "('o, u8) fmbuf_ops \<Rightarrow> sk_workflow \<Rightarrow> addr \<Rightarrow> int \<Rightarrow> 'o sk_txn" where
  "sk_txn_create F wflow entity now = \<lparr>
     tx_workflow = wflow, tx_entity = entity, tx_input = None,
     tx_output = fmbuf_create F (word_of_int (max (wc_txn_out_sz (wf_cfg wflow)) 0)),
     tx_current = None, tx_workflow_idx = wf_modules wflow, tx_task_tbl = Map.empty,
     tx_error = False, tx_latest_taskid = 0, tx_total_tasks = 0, tx_complete_tasks = 0,
     tx_start_time = now, tx_state = SK_TXN_INIT, tx_pending_tasks = 0, tx_udata = 0,
     tx_transaction = sk_mbuf_create F SK_TXN_DEFAULT_INIT_SIZE (of_nat SK_TXN_DEFAULT_MAX_SIZE)\<rparr>"

definition sk_txn_set_input :: "'o sk_txn \<Rightarrow> u8 list \<Rightarrow> 'o sk_txn" where
  "sk_txn_set_input txn data = (if data = [] then txn else txn\<lparr>tx_input := Some data\<rparr>)"

definition sk_txn_input :: "'o sk_txn \<Rightarrow> u8 list" where
  "sk_txn_input txn = (case tx_input txn of None \<Rightarrow> [] | Some bs \<Rightarrow> bs)"

definition sk_txn_output_append ::
  "('o, u8) fmbuf_ops \<Rightarrow> 'o sk_txn \<Rightarrow> u8 list \<Rightarrow> size_t \<Rightarrow> 'o sk_txn res" where
  "sk_txn_output_append F txn data sz =
     (if sz = 0 then Inr txn
      else (let b = (if fmbuf_free F (tx_output txn) < sz
                     then fmbuf_realloc F (tx_output txn) (fmbuf_used F (tx_output txn) + sz)
                     else tx_output txn)
            in case fmbuf_push F b data sz of
                 Some b' \<Rightarrow> Inr (txn\<lparr>tx_output := b'\<rparr>)
               | None \<Rightarrow> Inl Assert))"

text \<open>
  \<^verbatim>\<open>sk_txn_output\<close> returns the size and the head of the buffer. The output is only ever
  appended to, so the bytes from the head on are its content, as \<^verbatim>\<open>fmbuf_rawget\<close> gives it.
\<close>

definition sk_txn_output :: "('o, u8) fmbuf_ops \<Rightarrow> 'o sk_txn \<Rightarrow> size_t \<times> u8 list option" where
  "sk_txn_output F txn =
     (fmbuf_used F (tx_output txn), fmbuf_rawget F (tx_output txn) (fmbuf_used F (tx_output txn)))"

definition sk_txn_next_module :: "'o sk_txn \<Rightarrow> 'o sk_txn \<times> sk_module option" where
  "sk_txn_next_module txn = (case tx_workflow_idx txn of
     [] \<Rightarrow> (txn\<lparr>tx_current := None\<rparr>, None)
   | m # ms \<Rightarrow> (txn\<lparr>tx_current := Some m, tx_workflow_idx := ms\<rparr>, Some m))"

definition same_module :: "sk_module option \<Rightarrow> sk_module option \<Rightarrow> bool" where
  "same_module a b \<longleftrightarrow> map_option m_addr a = map_option m_addr b"

definition sk_txn_is_first_module :: "'o sk_txn \<Rightarrow> bool" where
  "sk_txn_is_first_module txn =
     same_module (tx_current txn) (sk_workflow_first_module (tx_workflow txn))"

definition sk_txn_is_last_module :: "'o sk_txn \<Rightarrow> bool" where
  "sk_txn_is_last_module txn =
     same_module (tx_current txn) (sk_workflow_last_module (tx_workflow txn))"

definition sk_txn_alivetime :: "'o sk_txn \<Rightarrow> int \<Rightarrow> int" where
  "sk_txn_alivetime txn now = now - tx_start_time txn"

definition sk_txn_setudata :: "'o sk_txn \<Rightarrow> addr \<Rightarrow> 'o sk_txn" where
  "sk_txn_setudata txn d = txn\<lparr>tx_udata := d\<rparr>"

definition sk_txn_module_complete :: "'o sk_txn \<Rightarrow> bool" where
  "sk_txn_module_complete txn \<longleftrightarrow> tx_pending_tasks txn = 0"

definition sk_txn_alltask_complete :: "'o sk_txn \<Rightarrow> bool" where
  "sk_txn_alltask_complete txn \<longleftrightarrow> tx_complete_tasks txn = tx_total_tasks txn"

section \<open>Tasks\<close>

definition sk_txn_task_create :: "'o sk_txn \<Rightarrow> sk_txn_taskdata_t \<Rightarrow> int \<Rightarrow> 'o sk_txn \<times> sk_txn_task" where
  "sk_txn_task_create txn task_data now =
     (let task_id = tx_latest_taskid txn
      in (txn\<lparr>tx_latest_taskid := task_id + 1\<rparr>,
          \<lparr>tk_id = task_id, tk_start = now, tk_end = 0,
           tk_data = task_data\<lparr>td_task_id := task_id\<rparr>, tk_status = SK_TXN_TASK_RUNNING\<rparr>))"

definition cb_weight :: "sk_txn_taskdata_t \<Rightarrow> int" where
  "cb_weight td = (if td_cb td = None then 0 else 1)"

definition sk_txn_task_add :: "'o sk_txn \<Rightarrow> sk_txn_taskdata_t \<Rightarrow> int \<Rightarrow> ('o sk_txn \<times> u64) res" where
  "sk_txn_task_add txn0 task_data now =
     (let (txn, task) = sk_txn_task_create txn0 task_data now;
          txn = txn\<lparr>tx_task_tbl := (tx_task_tbl txn)(tk_id task \<mapsto> task)\<rparr>;
          txn = txn\<lparr>tx_total_tasks := tx_total_tasks txn + 1\<rparr>;
          txn = txn\<lparr>tx_pending_tasks := tx_pending_tasks txn + cb_weight task_data\<rparr>
      in sk_assert (tx_complete_tasks txn < tx_total_tasks txn) (Inr (txn, tk_id task)))"

definition sk_txn_task_done :: "sk_txn_taskdata_t \<Rightarrow> bool" where
  "sk_txn_task_done td \<longleftrightarrow> \<not> 0 < td_pendings td"

definition get_task :: "'o sk_txn \<Rightarrow> u64 \<Rightarrow> (sk_txn_task \<Rightarrow> 'a res) \<Rightarrow> 'a res" where
  "get_task txn task_id k = (case tx_task_tbl txn task_id of None \<Rightarrow> Inl Assert | Some t \<Rightarrow> k t)"

definition sk_txn_task_setcomplete ::
  "'o sk_txn \<Rightarrow> u64 \<Rightarrow> sk_txn_task_status_t \<Rightarrow> int \<Rightarrow> 'o sk_txn res" where
  "sk_txn_task_setcomplete txn task_id status now =
     sk_assert (tx_complete_tasks txn < tx_total_tasks txn)
       (get_task txn task_id (\<lambda>task.
          Inr (txn\<lparr>tx_task_tbl := (tx_task_tbl txn)(task_id \<mapsto> task\<lparr>tk_end := now, tk_status := status\<rparr>),
                   tx_complete_tasks := tx_complete_tasks txn + 1,
                   tx_pending_tasks := tx_pending_tasks txn - cb_weight (tk_data task)\<rparr>)))"

definition sk_txn_task_status :: "'o sk_txn \<Rightarrow> u64 \<Rightarrow> sk_txn_task_status_t res" where
  "sk_txn_task_status txn task_id = get_task txn task_id (\<lambda>t. Inr (tk_status t))"

definition sk_txn_taskdata :: "'o sk_txn \<Rightarrow> u64 \<Rightarrow> sk_txn_taskdata_t res" where
  "sk_txn_taskdata txn task_id = get_task txn task_id (\<lambda>t. Inr (tk_data t))"

definition sk_txn_task_starttime :: "'o sk_txn \<Rightarrow> u64 \<Rightarrow> int res" where
  "sk_txn_task_starttime txn task_id = get_task txn task_id (\<lambda>t. Inr (tk_start t))"

definition sk_txn_task_lifetime :: "'o sk_txn \<Rightarrow> u64 \<Rightarrow> int res" where
  "sk_txn_task_lifetime txn task_id =
     get_task txn task_id (\<lambda>t. Inr (if tk_end t = 0 then 0 else tk_end t - tk_start t))"

definition sk_txn_task_livetime :: "'o sk_txn \<Rightarrow> u64 \<Rightarrow> int \<Rightarrow> int res" where
  "sk_txn_task_livetime txn task_id now =
     get_task txn task_id (\<lambda>t.
       Inr (if tk_status t \<noteq> SK_TXN_TASK_RUNNING then tk_end t - tk_start t else now - tk_start t))"

section \<open>State and log\<close>

definition sk_txn_setstate :: "'o sk_txn \<Rightarrow> sk_txn_state \<Rightarrow> 'o sk_txn res" where
  "sk_txn_setstate txn state =
     sk_assert (tx_state txn = SK_TXN_DESTROYED \<longrightarrow> state = SK_TXN_DESTROYED)
       (let txn = txn\<lparr>tx_state := state\<rparr>
        in Inr (if state = SK_TXN_ERROR then txn\<lparr>tx_error := True\<rparr> else txn))"

text \<open>
  \<open>s\<close> is what the format and its arguments print. \<^verbatim>\<open>vsnprintf\<close> keeps 2047 bytes of it and
  returns its length; \<^verbatim>\<open>strlen\<close> stops at the first null byte.
\<close>

definition sk_txn_log_add :: "('o, u8) fmbuf_ops \<Rightarrow> 'o sk_txn \<Rightarrow> u8 list \<Rightarrow> 'o sk_txn res" where
  "sk_txn_log_add F txn s =
     sk_assert (s \<noteq> [])
       (let content = takeWhile (\<lambda>c. c \<noteq> 0) (take (SK_TXN_DEFAULT_MAX_SIZE - 1) s);
            (buf, ret) = sk_mbuf_push F (tx_transaction txn) content (of_nat (length content))
        in sk_assert (ret = 0) (Inr (txn\<lparr>tx_transaction := buf\<rparr>)))"

definition sk_txn_log_end :: "('o, u8) fmbuf_ops \<Rightarrow> 'o sk_txn \<Rightarrow> 'o sk_txn res" where
  "sk_txn_log_end F txn =
     (let (buf, ret) = sk_mbuf_push F (tx_transaction txn) [0] 1
      in sk_assert (ret = 0) (Inr (txn\<lparr>tx_transaction := buf\<rparr>)))"

text \<open>C division truncates; \<open>sdiv_c\<close> is it for a positive divisor.\<close>

definition sdiv_c :: "int \<Rightarrow> int \<Rightarrow> int" where
  "sdiv_c a b = (if 0 \<le> a then a div b else - ((- a) div b))"

definition sk_txn_timeout :: "'o sk_txn \<Rightarrow> int \<Rightarrow> bool" where
  "sk_txn_timeout txn now =
     (let timeout = wc_timeout (wf_cfg (tx_workflow txn))
      in if timeout \<le> 0 then False
         else if tx_state txn = SK_TXN_ERROR then False
         else timeout < sdiv_c (sk_txn_alivetime txn now) SK_US_PER_MS)"

section \<open>The counters of the tasks\<close>

definition running_tasks :: "'o sk_txn \<Rightarrow> u64 set" where
  "running_tasks txn = {i. \<exists>t. tx_task_tbl txn i = Some t \<and> tk_status t = SK_TXN_TASK_RUNNING}"

text \<open>The running tasks the module waits for: those with a callback.\<close>

definition waited_tasks :: "'o sk_txn \<Rightarrow> u64 set" where
  "waited_tasks txn = {i. \<exists>t. tx_task_tbl txn i = Some t \<and> tk_status t = SK_TXN_TASK_RUNNING \<and>
     td_cb (tk_data t) \<noteq> None}"

definition txn_tasks_ok :: "'o sk_txn \<Rightarrow> bool" where
  "txn_tasks_ok txn \<longleftrightarrow>
     dom (tx_task_tbl txn) = {i. i < tx_latest_taskid txn} \<and>
     (\<forall>i t. tx_task_tbl txn i = Some t \<longrightarrow> tk_id t = i \<and> td_task_id (tk_data t) = i) \<and>
     tx_total_tasks txn = int (card (dom (tx_task_tbl txn))) \<and>
     tx_complete_tasks txn = int (card (dom (tx_task_tbl txn) - running_tasks txn)) \<and>
     tx_pending_tasks txn = int (card (waited_tasks txn))"

lemma finite_words [simp]: "finite (A :: 'a::len word set)"
  by (rule finite_subset [of _ UNIV]) auto

lemma running_tasks_dom: "running_tasks txn \<subseteq> dom (tx_task_tbl txn)"
  by (auto simp: running_tasks_def)

lemma waited_tasks_running: "waited_tasks txn \<subseteq> running_tasks txn"
  by (auto simp: running_tasks_def waited_tasks_def)

lemma txn_complete_running:
  assumes "txn_tasks_ok txn"
  shows "tx_complete_tasks txn = tx_total_tasks txn - int (card (running_tasks txn))"
proof -
  have "card (dom (tx_task_tbl txn) - running_tasks txn)
      = card (dom (tx_task_tbl txn)) - card (running_tasks txn)"
    by (rule card_Diff_subset) (simp_all add: running_tasks_dom)
  moreover have "card (running_tasks txn) \<le> card (dom (tx_task_tbl txn))"
    by (rule card_mono) (simp_all add: running_tasks_dom)
  ultimately show ?thesis using assms by (simp add: txn_tasks_ok_def)
qed

text \<open>What the two tests of the workflow engine mean.\<close>

lemma module_complete_iff:
  "txn_tasks_ok txn \<Longrightarrow> sk_txn_module_complete txn \<longleftrightarrow> waited_tasks txn = {}"
  by (simp add: sk_txn_module_complete_def txn_tasks_ok_def)

lemma alltask_complete_iff:
  "txn_tasks_ok txn \<Longrightarrow> sk_txn_alltask_complete txn \<longleftrightarrow> running_tasks txn = {}"
  using txn_complete_running [of txn] by (simp add: sk_txn_alltask_complete_def)

lemma txn_create_ok: "txn_tasks_ok (sk_txn_create F wflow e now)"
  by (simp add: txn_tasks_ok_def sk_txn_create_def running_tasks_def waited_tasks_def)

definition demo_module :: "nat \<Rightarrow> sk_module" where
  "demo_module i = \<lparr>m_addr = i, m_name = ''m'', m_pack = True, m_unpack = True\<rparr>"

definition demo_workflow :: sk_workflow where
  "demo_workflow = \<lparr>wf_cfg = \<lparr>wc_concurrent = False, wc_timeout = 0, wc_txn_out_sz = 0,
       wc_enable_stdin = False, wc_sock_type = 0, wc_port = 7758, wc_bind = ''0.0.0.0''\<rparr>,
     wf_modules = [demo_module 1, demo_module 2]\<rparr>"

definition demo_taskdata :: sk_txn_taskdata_t where
  "demo_taskdata = \<lparr>td_api_name = ''get'', td_request = [], td_response = [], td_user_data = 0,
     td_caller_module = Some (demo_module 1), td_cb = Some 1, td_pendings = 0, td_task_id = 0\<rparr>"

definition demo_txn :: "u8 cellbuf sk_txn" where
  "demo_txn = sk_txn_create (cellbuf_ops 1) demo_workflow 1 5"

lemma txn_task_add:
  assumes ok: "txn_tasks_ok txn" and room: "tx_latest_taskid txn \<noteq> - 1"
  shows "\<exists>txn' i. sk_txn_task_add txn td now = Inr (txn', i) \<and> txn_tasks_ok txn' \<and>
    tx_task_tbl txn i = None \<and> running_tasks txn' = insert i (running_tasks txn) \<and>
    waited_tasks txn' = (if td_cb td = None then waited_tasks txn else insert i (waited_tasks txn))"
proof -
  let ?i = "tx_latest_taskid txn"
  define t where "t = \<lparr>tk_id = ?i, tk_start = now, tk_end = 0,
      tk_data = td\<lparr>td_task_id := ?i\<rparr>, tk_status = SK_TXN_TASK_RUNNING\<rparr>"
  define txn' where "txn' = txn\<lparr>tx_latest_taskid := ?i + 1, tx_task_tbl := (tx_task_tbl txn)(?i \<mapsto> t),
      tx_total_tasks := tx_total_tasks txn + 1,
      tx_pending_tasks := tx_pending_tasks txn + cb_weight td\<rparr>"
  have new: "tx_task_tbl txn ?i = None"
    using ok by (auto simp: txn_tasks_ok_def dom_def)
  have inc: "?i < - 1" using room by (simp add: word_order.not_eq_extremum)
  have less: "{j. j < ?i + 1} = insert ?i {j. j < ?i}"
    using unat_word_inc [OF inc] by (auto simp: word_less_nat_alt word_unat_eq_iff)
  have run: "running_tasks txn' = insert ?i (running_tasks txn)"
    using new by (auto simp: running_tasks_def txn'_def t_def)
  have wait: "waited_tasks txn' =
      (if td_cb td = None then waited_tasks txn else insert ?i (waited_tasks txn))"
    using new by (auto simp: waited_tasks_def txn'_def t_def)
  have ni: "?i \<notin> waited_tasks txn" "?i \<notin> running_tasks txn" "?i \<notin> dom (tx_task_tbl txn)"
    using new by (auto simp: waited_tasks_def running_tasks_def)
  have "dom (tx_task_tbl txn') - running_tasks txn' = dom (tx_task_tbl txn) - running_tasks txn"
    using run ni by (auto simp: txn'_def)
  then have ok': "txn_tasks_ok txn'"
    using ok wait ni less unfolding txn_tasks_ok_def
    by (auto simp: txn'_def t_def cb_weight_def)
  have "tx_complete_tasks txn < tx_total_tasks txn + 1"
    using txn_complete_running [OF ok] by simp
  then have "sk_txn_task_add txn td now = Inr (txn', ?i)"
    by (simp add: sk_txn_task_add_def sk_txn_task_create_def txn'_def t_def cb_weight_def Let_def)
  with ok' new run wait show ?thesis by blast
qed

text \<open>
  Adding a task never aborts, gives it an id that no task of the transaction has, and keeps
  the counters exact: \<^verbatim>\<open>total_tasks\<close> counts the tasks, \<^verbatim>\<open>complete_tasks\<close> those that no longer
  run, \<^verbatim>\<open>pending_tasks\<close> the running ones with a callback.
\<close>
theorem sk_txn_task_add_counts:
  assumes ok: "txn_tasks_ok txn" and room: "tx_latest_taskid txn \<noteq> - 1"
  shows "\<exists>txn' i. sk_txn_task_add txn td now = Inr (txn', i) \<and> txn_tasks_ok txn' \<and>
    tx_task_tbl txn i = None \<and> running_tasks txn' = insert i (running_tasks txn) \<and>
    waited_tasks txn' = (if td_cb td = None then waited_tasks txn else insert i (waited_tasks txn))"
  using assms by (rule txn_task_add)

theorem sk_txn_task_add_counts_witness:
  "\<exists>txn' i. sk_txn_task_add demo_txn demo_taskdata 7 = Inr (txn', i) \<and> txn_tasks_ok txn' \<and>
     waited_tasks txn' = insert i (waited_tasks demo_txn)"
proof -
  have "txn_tasks_ok demo_txn" by (simp add: demo_txn_def txn_create_ok)
  moreover have "tx_latest_taskid demo_txn \<noteq> - 1" by (simp add: demo_txn_def sk_txn_create_def)
  ultimately show ?thesis
    using sk_txn_task_add_counts [of demo_txn demo_taskdata 7] by (auto simp: demo_taskdata_def)
qed

lemma txn_task_setcomplete:
  assumes ok: "txn_tasks_ok txn" and run: "i \<in> running_tasks txn"
    and st: "status \<noteq> SK_TXN_TASK_RUNNING"
  shows "\<exists>txn'. sk_txn_task_setcomplete txn i status now = Inr txn' \<and> txn_tasks_ok txn' \<and>
    running_tasks txn' = running_tasks txn - {i} \<and> waited_tasks txn' = waited_tasks txn - {i} \<and>
    (sk_txn_module_complete txn' \<longleftrightarrow> waited_tasks txn \<subseteq> {i}) \<and>
    (sk_txn_alltask_complete txn' \<longleftrightarrow> running_tasks txn = {i})"
proof -
  obtain t where t: "tx_task_tbl txn i = Some t" "tk_status t = SK_TXN_TASK_RUNNING"
    using run by (auto simp: running_tasks_def)
  define txn' where "txn' = txn\<lparr>
      tx_task_tbl := (tx_task_tbl txn)(i \<mapsto> t\<lparr>tk_end := now, tk_status := status\<rparr>),
      tx_complete_tasks := tx_complete_tasks txn + 1,
      tx_pending_tasks := tx_pending_tasks txn - cb_weight (tk_data t)\<rparr>"
  have r: "running_tasks txn' = running_tasks txn - {i}"
    using st by (auto simp: running_tasks_def txn'_def)
  have w: "waited_tasks txn' = waited_tasks txn - {i}"
    using st by (auto simp: waited_tasks_def txn'_def)
  have wi: "i \<in> waited_tasks txn \<longleftrightarrow> td_cb (tk_data t) \<noteq> None"
    using t by (auto simp: waited_tasks_def)
  have dm: "dom (tx_task_tbl txn') = dom (tx_task_tbl txn)" using t by (auto simp: txn'_def)
  have "dom (tx_task_tbl txn') - running_tasks txn' = insert i (dom (tx_task_tbl txn) - running_tasks txn)"
    using r dm t by auto
  then have c: "card (dom (tx_task_tbl txn') - running_tasks txn')
      = Suc (card (dom (tx_task_tbl txn) - running_tasks txn))" using run by simp
  have p: "int (card (waited_tasks txn')) = int (card (waited_tasks txn)) - cb_weight (tk_data t)"
    using w wi card_Suc_Diff1 [of "waited_tasks txn" i]
    by (cases "i \<in> waited_tasks txn") (simp_all add: cb_weight_def)
  have ok': "txn_tasks_ok txn'"
    using ok c p dm t unfolding txn_tasks_ok_def by (simp add: txn'_def)
  have "0 < card (running_tasks txn)" using run by (auto simp: card_gt_0_iff)
  then have "sk_txn_task_setcomplete txn i status now = Inr txn'"
    using txn_complete_running [OF ok] t
    by (simp add: sk_txn_task_setcomplete_def get_task_def txn'_def)
  moreover have "sk_txn_module_complete txn' \<longleftrightarrow> waited_tasks txn \<subseteq> {i}"
    using module_complete_iff [OF ok'] w by auto
  moreover have "sk_txn_alltask_complete txn' \<longleftrightarrow> running_tasks txn = {i}"
    using alltask_complete_iff [OF ok'] r run by auto
  ultimately show ?thesis using ok' r w by blast
qed

text \<open>
  Completing a running task never aborts, takes it out of the running tasks and keeps the
  counters exact; so \<^verbatim>\<open>sk_txn_module_complete\<close> then holds exactly when no task with a callback
  runs, and \<^verbatim>\<open>sk_txn_alltask_complete\<close> exactly when no task runs.
\<close>
theorem sk_txn_task_setcomplete_counts:
  assumes ok: "txn_tasks_ok txn" and run: "i \<in> running_tasks txn"
    and st: "status \<noteq> SK_TXN_TASK_RUNNING"
  shows "\<exists>txn'. sk_txn_task_setcomplete txn i status now = Inr txn' \<and> txn_tasks_ok txn' \<and>
    running_tasks txn' = running_tasks txn - {i} \<and> waited_tasks txn' = waited_tasks txn - {i} \<and>
    (sk_txn_module_complete txn' \<longleftrightarrow> waited_tasks txn \<subseteq> {i}) \<and>
    (sk_txn_alltask_complete txn' \<longleftrightarrow> running_tasks txn = {i})"
  using assms by (rule txn_task_setcomplete)

definition demo_txn1 :: "u8 cellbuf sk_txn" where
  "demo_txn1 = (case sk_txn_task_add demo_txn demo_taskdata 7 of Inr (txn, _) \<Rightarrow> txn | Inl _ \<Rightarrow> demo_txn)"

lemma demo_txn1_eq: "demo_txn1 = demo_txn\<lparr>tx_latest_taskid := 1,
    tx_task_tbl := [0 \<mapsto> \<lparr>tk_id = 0, tk_start = 7, tk_end = 0, tk_data = demo_taskdata,
      tk_status = SK_TXN_TASK_RUNNING\<rparr>], tx_total_tasks := 1, tx_pending_tasks := 1\<rparr>"
  by (simp add: demo_txn1_def sk_txn_task_add_def sk_txn_task_create_def Let_def demo_txn_def
      sk_txn_create_def demo_taskdata_def cb_weight_def)

lemma demo_txn1_ok: "txn_tasks_ok demo_txn1"
proof -
  have "{i :: u64. i < 1} = {0}" by (auto simp: word_less_nat_alt unat_eq_zero)
  moreover have "running_tasks demo_txn1 = {0}" "waited_tasks demo_txn1 = {0}"
    by (auto simp: running_tasks_def waited_tasks_def demo_txn1_eq demo_taskdata_def split: if_splits)
  ultimately show ?thesis
    by (simp add: txn_tasks_ok_def demo_txn1_eq demo_taskdata_def demo_txn_def sk_txn_create_def)
qed

theorem sk_txn_task_setcomplete_counts_witness:
  "\<exists>txn'. sk_txn_task_setcomplete demo_txn1 0 SK_TXN_TASK_DONE 9 = Inr txn' \<and>
     txn_tasks_ok txn' \<and> sk_txn_module_complete txn' \<and> sk_txn_alltask_complete txn'"
proof -
  have r: "running_tasks demo_txn1 = {0}" "waited_tasks demo_txn1 = {0}"
    by (auto simp: running_tasks_def waited_tasks_def demo_txn1_eq demo_taskdata_def split: if_splits)
  show ?thesis
    using sk_txn_task_setcomplete_counts [OF demo_txn1_ok, of 0 SK_TXN_TASK_DONE 9] r by auto
qed

section \<open>Output and log\<close>

definition txn_io_ok ::
  "('o \<Rightarrow> u8 list) \<Rightarrow> ('o \<Rightarrow> bool) \<Rightarrow> 'o sk_txn \<Rightarrow> bool" where
  "txn_io_ok items invar txn \<longleftrightarrow>
     invar (tx_output txn) \<and> length (items (tx_output txn)) < 2 ^ 62 \<and>
     invar (mb_buf (tx_transaction txn)) \<and> length (items (mb_buf (tx_transaction txn))) < 2 ^ 62"

lemma txn_log_push:
  assumes l: "fmbuf F 1 items invar" and inv: "invar (mb_buf buf)"
    and len: "length (items (mb_buf buf)) < 2 ^ 62" "length bs < 2 ^ 62"
  shows "\<exists>buf'. sk_mbuf_push F buf bs (of_nat (length bs)) = (buf', 0) \<and> invar (mb_buf buf') \<and>
    items (mb_buf buf') = items (mb_buf buf) @ bs"
proof -
  have "length (items (mb_buf buf)) + length bs < 2 ^ 63" using len by simp
  then show ?thesis using mbuf_push_appends [OF l inv] by blast
qed

lemma txn_log_add_ok:
  assumes l: "fmbuf F 1 items invar" and io: "txn_io_ok items invar txn" and s: "s \<noteq> []"
  shows "\<exists>b. sk_txn_log_add F txn s = Inr (txn\<lparr>tx_transaction := b\<rparr>) \<and> invar (mb_buf b) \<and>
    items (mb_buf b) = items (mb_buf (tx_transaction txn)) @
      takeWhile (\<lambda>c. c \<noteq> 0) (take (SK_TXN_DEFAULT_MAX_SIZE - 1) s)"
proof -
  let ?c = "takeWhile (\<lambda>c. c \<noteq> 0) (take (SK_TXN_DEFAULT_MAX_SIZE - 1) s)"
  have "length ?c \<le> 2047"
    using length_takeWhile_le [of "\<lambda>c. c \<noteq> 0" "take (SK_TXN_DEFAULT_MAX_SIZE - 1) s"]
    by (simp add: SK_TXN_DEFAULT_MAX_SIZE_def)
  then have "length ?c < 2 ^ 62" by simp
  with txn_log_push [OF l, of "tx_transaction txn" ?c] io s show ?thesis
    by (auto simp: sk_txn_log_add_def txn_io_ok_def Let_def)
qed

lemma txn_log_end_ok:
  assumes l: "fmbuf F 1 items invar" and io: "txn_io_ok items invar txn"
  shows "\<exists>b. sk_txn_log_end F txn = Inr (txn\<lparr>tx_transaction := b\<rparr>) \<and> invar (mb_buf b) \<and>
    items (mb_buf b) = items (mb_buf (tx_transaction txn)) @ [0]"
  using txn_log_push [OF l, of "tx_transaction txn" "[0]"] io
  by (auto simp: sk_txn_log_end_def txn_io_ok_def Let_def)

lemma txn_output_append:
  assumes l: "fmbuf F 1 items invar" and inv: "invar (tx_output txn)"
    and len: "length (items (tx_output txn)) + length bs < 2 ^ 64"
  shows "\<exists>b. sk_txn_output_append F txn bs (of_nat (length bs)) = Inr (txn\<lparr>tx_output := b\<rparr>) \<and>
    invar b \<and> items b = items (tx_output txn) @ bs \<and>
    sk_txn_output F (txn\<lparr>tx_output := b\<rparr>) =
      (of_nat (length (items b)), Some (items (tx_output txn) @ bs))"
proof -
  let ?o = "tx_output txn" and ?n = "of_nat (length bs) :: size_t"
  have n: "unat ?n = unat (1 :: size_t) * length bs" using len by (simp add: unat_of_nat)
  have used: "unat (fmbuf_used F b) = length (items b)" if "invar b" for b
    using fmbuf.used [OF l that] by simp
  have free: "unat (fmbuf_free F b) = unat (fmbuf_size F b) - length (items b)" if "invar b" for b
    using fmbuf.free [OF l that] used [OF that] fmbuf.used_le_size [OF l that] by (simp add: unat_sub_le)
  define r where "r = (if fmbuf_free F ?o < ?n then fmbuf_realloc F ?o (fmbuf_used F ?o + ?n) else ?o)"
  have sum: "unat (fmbuf_used F ?o + ?n) = length (items ?o) + length bs"
    using used [OF inv] n len by (subst unat_add_lt) simp_all
  have re: "invar r \<and> items r = items ?o \<and> ?n \<le> fmbuf_free F r"
  proof (cases "fmbuf_free F ?o < ?n")
    case True
    have le: "fmbuf_used F ?o \<le> fmbuf_used F ?o + ?n" using sum used [OF inv] by (simp add: word_le_nat_alt)
    note q = fmbuf.realloc [OF l inv le]
    have "?n \<le> fmbuf_free F (fmbuf_realloc F ?o (fmbuf_used F ?o + ?n))"
      using free [of "fmbuf_realloc F ?o (fmbuf_used F ?o + ?n)"] q sum n by (simp add: word_le_nat_alt)
    with True q show ?thesis by (simp add: r_def)
  qed (use inv in \<open>simp add: r_def\<close>)
  have out: "sk_txn_output F (txn\<lparr>tx_output := b\<rparr>) = (of_nat (length (items b)), Some (items b))"
    if b: "invar b" for b
  proof -
    have "fmbuf_used F b = of_nat (length (items b))" by (simp flip: used [OF b])
    then show ?thesis
      using fmbuf.rawget_ok [OF l b, of "fmbuf_used F b" "length (items b)"] used [OF b]
      by (simp add: sk_txn_output_def)
  qed
  show ?thesis
  proof (cases "?n = 0")
    case True
    then have "bs = []" using n by simp
    with True inv out [OF inv] show ?thesis by (intro exI [of _ ?o]) (simp add: sk_txn_output_append_def)
  next
    case False
    obtain b where "fmbuf_push F r bs ?n = Some b" "invar b" "items b = items ?o @ bs"
      using fmbuf.push_ok [OF l, of r ?n bs] re n by auto
    with False out [of b] show ?thesis
      by (intro exI [of _ b]) (simp add: sk_txn_output_append_def Let_def r_def)
  qed
qed

text \<open>
  Appending to the output of a transaction never aborts and adds exactly the given bytes:
  when the buffer is short of room it is grown to what is used plus what is added.
\<close>
theorem sk_txn_output_append_bytes:
  assumes l: "fmbuf F 1 items invar" and inv: "invar (tx_output txn)"
    and len: "length (items (tx_output txn)) + length bs < 2 ^ 64"
  shows "\<exists>b. sk_txn_output_append F txn bs (of_nat (length bs)) = Inr (txn\<lparr>tx_output := b\<rparr>) \<and>
    invar b \<and> items b = items (tx_output txn) @ bs \<and>
    sk_txn_output F (txn\<lparr>tx_output := b\<rparr>) =
      (of_nat (length (items b)), Some (items (tx_output txn) @ bs))"
  using assms by (rule txn_output_append)

theorem sk_txn_output_append_bytes_witness:
  "\<exists>b. sk_txn_output_append (cellbuf_ops 1) demo_txn [104, 105] 2 = Inr (demo_txn\<lparr>tx_output := b\<rparr>) \<and>
     cb_cells b = [104, 105]"
proof -
  have "cellbuf_invar 1 (tx_output demo_txn)" "cb_cells (tx_output demo_txn) = []"
    by (simp_all add: demo_txn_def sk_txn_create_def)
  then show ?thesis
    using sk_txn_output_append_bytes [OF fmbuf_cellbuf [of 1], of demo_txn "[104, 105]"] by auto
qed

end
