(* ===== verification/Sk_Pto.thy ===== *)
theory Sk_Pto
  imports Prelude
begin

text \<open>
  The messages between schedulers (\<^verbatim>\<open>src/src/pto/sk_pto.c\<close>, \<^verbatim>\<open>src/src/api/sk_pto.h\<close>).
  A message is a 4-byte header and \<^verbatim>\<open>argc\<close> arguments of 8 bytes (\<^verbatim>\<open>sk_arg_t\<close>); the header
  holds a 16-bit checksum of the bytes of the arguments, salted per protocol.

  The bytes of an argument are those of a little-endian target, and \<^verbatim>\<open>char\<close> is signed there,
  so the cast to \<^verbatim>\<open>uint32_t\<close> in \<^verbatim>\<open>_checksum\<close> extends the sign.
\<close>

unbundle bit_operations_syntax

section \<open>The table of protocols\<close>

datatype sk_pto_id =
    SK_PTO_TCP_ACCEPT | SK_PTO_WORKFLOW_RUN | SK_PTO_ENTITY_DESTROY | SK_PTO_SVC_IOCALL
  | SK_PTO_SVC_TASK_RUN | SK_PTO_SVC_TASK_DONE | SK_PTO_TIMER_TRIGGERED | SK_PTO_TIMER_EMIT
  | SK_PTO_STD_START | SK_PTO_SVC_TIMER_RUN | SK_PTO_SVC_TIMER_DONE | SK_PTO_SVC_TASK_CB

record sk_proto =
  pt_id :: u32
  pt_pri :: nat
  pt_argc :: u8
  pt_salt :: u32
  pt_ops :: "sk_pto_id option"   \<comment> \<open>the handler; \<^verbatim>\<open>NULL\<close> in the last row\<close>

abbreviation SK_PTO_MAX :: u32 where
  "SK_PTO_MAX \<equiv> 12"

definition SK_PTO_PRI_MAX :: nat where
  "SK_PTO_PRI_MAX = 9"

definition sk_pto_tbl :: "sk_proto list" where
  "sk_pto_tbl = [
     \<lparr>pt_id = 0, pt_pri = 7, pt_argc = 1, pt_salt = 10, pt_ops = Some SK_PTO_TCP_ACCEPT\<rparr>,
     \<lparr>pt_id = 1, pt_pri = 5, pt_argc = 0, pt_salt = 11, pt_ops = Some SK_PTO_WORKFLOW_RUN\<rparr>,
     \<lparr>pt_id = 2, pt_pri = 9, pt_argc = 0, pt_salt = 12, pt_ops = Some SK_PTO_ENTITY_DESTROY\<rparr>,
     \<lparr>pt_id = 3, pt_pri = 6, pt_argc = 5, pt_salt = 13, pt_ops = Some SK_PTO_SVC_IOCALL\<rparr>,
     \<lparr>pt_id = 4, pt_pri = 4, pt_argc = 5, pt_salt = 14, pt_ops = Some SK_PTO_SVC_TASK_RUN\<rparr>,
     \<lparr>pt_id = 5, pt_pri = 6, pt_argc = 3, pt_salt = 15, pt_ops = Some SK_PTO_SVC_TASK_DONE\<rparr>,
     \<lparr>pt_id = 6, pt_pri = 8, pt_argc = 3, pt_salt = 16, pt_ops = Some SK_PTO_TIMER_TRIGGERED\<rparr>,
     \<lparr>pt_id = 7, pt_pri = 8, pt_argc = 7, pt_salt = 17, pt_ops = Some SK_PTO_TIMER_EMIT\<rparr>,
     \<lparr>pt_id = 8, pt_pri = 7, pt_argc = 0, pt_salt = 18, pt_ops = Some SK_PTO_STD_START\<rparr>,
     \<lparr>pt_id = 9, pt_pri = 8, pt_argc = 6, pt_salt = 19, pt_ops = Some SK_PTO_SVC_TIMER_RUN\<rparr>,
     \<lparr>pt_id = 10, pt_pri = 8, pt_argc = 3, pt_salt = 20, pt_ops = Some SK_PTO_SVC_TIMER_DONE\<rparr>,
     \<lparr>pt_id = 11, pt_pri = 6, pt_argc = 5, pt_salt = 21, pt_ops = Some SK_PTO_SVC_TASK_CB\<rparr>,
     \<lparr>pt_id = SK_PTO_MAX, pt_pri = 0, pt_argc = 0, pt_salt = 0, pt_ops = None\<rparr>]"

section \<open>Messages\<close>

record sk_pto_msg =
  hdr_id :: u8
  hdr_argc :: u8
  hdr_chk :: "16 word"
  msg_args :: "64 word list"   \<comment> \<open>the body: \<^verbatim>\<open>argc\<close> arguments\<close>

definition arg_bytes :: "64 word \<Rightarrow> u8 list" where
  "arg_bytes a = map (\<lambda>i. ucast (drop_bit (8 * i) a)) [0..<8]"

definition body_bytes :: "64 word list \<Rightarrow> u8 list" where
  "body_bytes args = concat (map arg_bytes args)"

text \<open>\<^verbatim>\<open>(uint32_t)(*c) ? (uint32_t)(*c) : 1\<close>\<close>

definition chk_byte :: "u8 \<Rightarrow> u32" where
  "chk_byte c = (let uc = scast c :: u32 in if uc \<noteq> 0 then uc else 1)"

definition pto_checksum :: "u8 list \<Rightarrow> u32 \<Rightarrow> u32" where
  "pto_checksum bs salt = fold (\<lambda>c acc. acc + chk_byte c * salt) bs 0"

text \<open>The macro \<^verbatim>\<open>checksum\<close>: the low 16 bits.\<close>

definition pto_chk :: "u8 list \<Rightarrow> u32 \<Rightarrow> 16 word" where
  "pto_chk bs salt = ucast (pto_checksum bs salt AND 0xFFFF)"

text \<open>
  \<^verbatim>\<open>va_arg\<close> reads the next of the caller's arguments; reading more of them than the caller
  passed is undefined, here \<open>None\<close> of the list and so an error.
\<close>

definition sk_pto_pack :: "u32 \<Rightarrow> 64 word list \<Rightarrow> sk_pto_msg res" where
  "sk_pto_pack ident ap =
     (if length sk_pto_tbl \<le> unat ident then Inl NullDeref
      else (let pto = sk_pto_tbl ! unat ident
            in sk_assert (ident = pt_id pto)
                 (if length ap < unat (pt_argc pto) then Inl NullDeref
                  else (let args = take (unat (pt_argc pto)) ap
                        in Inr \<lparr>hdr_id = ucast (ident AND 0xFF), hdr_argc = pt_argc pto,
                                hdr_chk = pto_chk (body_bytes args) (pt_salt pto),
                                msg_args = args\<rparr>))))"

text \<open>The size that \<^verbatim>\<open>sk_pto_pack\<close> returns and that \<^verbatim>\<open>SK_PTO_SZ\<close> computes.\<close>

definition pto_size :: "u8 \<Rightarrow> size_t" where
  "pto_size argc = 8 * ucast argc + 4"

definition sk_pto_arg :: "u32 \<Rightarrow> sk_pto_msg option \<Rightarrow> nat \<Rightarrow> 64 word option res" where
  "sk_pto_arg ident hdr idx = (case hdr of
     None \<Rightarrow> Inr None
   | Some h \<Rightarrow>
       if hdr_argc h = 0 then Inr None
       else sk_assert (ident < SK_PTO_MAX)
              (sk_assert (ident = ucast (hdr_id h))
                (let pto = sk_pto_tbl ! unat (hdr_id h)
                 in sk_assert (idx < unat (pt_argc pto)) (Inr (Some (msg_args h ! idx))))))"

definition sk_pto_check :: "u32 \<Rightarrow> sk_pto_msg option \<Rightarrow> bool res" where
  "sk_pto_check ident hdr = (case hdr of
     None \<Rightarrow> Inr True
   | Some h \<Rightarrow>
       if hdr_argc h = 0 then Inr True
       else sk_assert (ident < SK_PTO_MAX)
              (sk_assert (ident = ucast (hdr_id h))
                (let pto = sk_pto_tbl ! unat (hdr_id h)
                 in Inr (hdr_chk h = pto_chk (body_bytes (msg_args h)) (pt_salt pto)))))"

text \<open>\<^verbatim>\<open>_check_ptos\<close> of \<^verbatim>\<open>sk_sched.c\<close>, run when a scheduler is created.\<close>

fun check_ptos :: "nat \<Rightarrow> sk_proto list \<Rightarrow> unit res" where
  "check_ptos i [] = Inl NullDeref"
| "check_ptos i (pto # tbl) =
     (if pt_id pto < SK_PTO_MAX
      then sk_assert (of_nat i = pt_id pto)
             (deref (pt_ops pto) (\<lambda>_. check_ptos (Suc i) tbl))
      else Inr ())"

section \<open>The checksum as a sum of integers\<close>

definition byte_value :: "u8 \<Rightarrow> int" where
  "byte_value c = (if c = 0 then 1 else sint c)"

definition byte_sum :: "u8 list \<Rightarrow> int" where
  "byte_sum bs = (\<Sum>c\<leftarrow>bs. byte_value c)"

lemma chk_byte_of_int: "chk_byte c = word_of_int (byte_value c)"
proof (cases "c = 0")
  case False
  have "scast c = (word_of_int (sint c) :: u32)" by (rule scast_eq)
  moreover have "(scast c :: u32) \<noteq> 0"
  proof
    assume "(scast c :: u32) = 0"
    then have "(scast (scast c :: u32) :: u8) = 0" by simp
    then show False using False by (simp add: scast_down_scast_id is_down)
  qed
  ultimately show ?thesis using False by (simp add: chk_byte_def byte_value_def)
qed (simp add: chk_byte_def byte_value_def)

lemma checksum_fold:
  "fold (\<lambda>c acc. acc + chk_byte c * salt) bs a = a + word_of_int (byte_sum bs) * salt"
  by (induction bs arbitrary: a) (simp_all add: byte_sum_def chk_byte_of_int algebra_simps)

lemma pto_chk_of_int: "pto_chk bs salt = word_of_int (byte_sum bs * uint salt)"
proof -
  have "pto_checksum bs salt = word_of_int (byte_sum bs * uint salt)"
    by (simp add: pto_checksum_def checksum_fold)
  moreover have "(ucast ((word_of_int x :: u32) AND 0xFFFF) :: 16 word) = word_of_int x" for x
  proof -
    have m: "(0xFFFF :: u32) = mask 16" by (simp add: mask_eq_exp_minus_1)
    show ?thesis unfolding m by (rule bit_word_eqI) (auto simp: bit_simps)
  qed
  ultimately show ?thesis by (simp only: pto_chk_def)
qed


lemma byte_sum_update:
  "k < length bs \<Longrightarrow> byte_sum (bs[k := b]) = byte_sum bs - byte_value (bs ! k) + byte_value b"
proof (induction bs arbitrary: k)
  case (Cons a bs)
  then show ?case by (cases k) (simp_all add: byte_sum_def)
qed simp

lemma byte_value_bounds: "- 128 \<le> byte_value c \<and> byte_value c \<le> 127"
  using sint_ge [of c] sint_lt [of c] by (simp add: byte_value_def)

lemma byte_value_eq: "byte_value b = byte_value c \<Longrightarrow> b = c \<or> {b, c} = {0, 1}"
proof -
  assume e: "byte_value b = byte_value c"
  have s: "sint b = sint c \<Longrightarrow> b = c" by (rule signed_word_eqI)
  have o: "sint x = 1 \<Longrightarrow> x = 1" for x :: u8 by (rule signed_word_eqI) simp
  show ?thesis using e s o [of b] o [of c] by (auto simp: byte_value_def split: if_splits)
qed

lemma pto_id_cases: "ident < SK_PTO_MAX \<Longrightarrow> unat ident < 12" for ident :: u32
  by (simp add: word_less_nat_alt)

text \<open>Every row of the table is at the index of its id and has a small salt.\<close>

lemma pto_tbl_row:
  assumes "n < 12"
  shows "pt_id (sk_pto_tbl ! n) = of_nat n \<and> unat (pt_salt (sk_pto_tbl ! n)) = n + 10 \<and>
    pt_pri (sk_pto_tbl ! n) \<le> SK_PTO_PRI_MAX \<and> pt_ops (sk_pto_tbl ! n) \<noteq> None"
proof -
  have "n \<in> {0, 1, 2, 3, 4, 5, 6, 7, 8, 9, 10, 11}"
    using assms by (simp only: insert_iff empty_iff) presburger
  then show ?thesis by (auto simp: sk_pto_tbl_def SK_PTO_PRI_MAX_def)
qed

lemma pto_pack_ok:
  assumes "ident < SK_PTO_MAX" "unat (pt_argc (sk_pto_tbl ! unat ident)) \<le> length ap"
  shows "\<exists>m. sk_pto_pack ident ap = Inr m \<and> ucast (hdr_id m) = ident \<and> unat (hdr_id m) = unat ident \<and>
    hdr_argc m = pt_argc (sk_pto_tbl ! unat ident) \<and>
    hdr_chk m = pto_chk (body_bytes (msg_args m)) (pt_salt (sk_pto_tbl ! unat ident)) \<and>
    msg_args m = take (unat (hdr_argc m)) ap"
proof -
  have n: "unat ident < 12" using assms(1) by (rule pto_id_cases)
  have l: "length sk_pto_tbl = 13" by (simp add: sk_pto_tbl_def)
  have p: "pt_id (sk_pto_tbl ! unat ident) = ident" using pto_tbl_row [OF n] by simp
  have i: "unat (ucast (ident AND 0xFF) :: u8) = unat ident"
  proof -
    have m: "(0xFF :: u32) = mask 8" by (simp add: mask_eq_exp_minus_1)
    show ?thesis unfolding m
      using n by (simp add: unsigned_ucast_eq unsigned_take_bit_eq take_bit_eq_mod unat_mod flip: take_bit_eq_mask)
  qed
  have u: "ucast (ucast (ident AND 0xFF) :: u8) = ident"
  proof -
    have "unat (ucast x :: u32) = unat x" for x :: u8
      using unsigned_less [of x, where ?'a = nat]
      by (simp add: unsigned_ucast_eq take_bit_nat_eq_self)
    with i show ?thesis by (simp only: word_unat_eq_iff)
  qed
  show ?thesis using n l p i u assms(2) by (simp add: sk_pto_pack_def Let_def)
qed

section \<open>Properties\<close>

text \<open>
  C9: what \<^verbatim>\<open>sk_pto_pack\<close> writes, the receiver reads. Packing the arguments of one of the
  twelve protocols succeeds; the message passes \<^verbatim>\<open>sk_pto_check\<close> under the same id, every
  argument comes back with \<^verbatim>\<open>sk_pto_arg\<close>, and an index past the last argument aborts.
\<close>
theorem sk_pto_pack_roundtrip:
  assumes "ident < SK_PTO_MAX" "unat (pt_argc (sk_pto_tbl ! unat ident)) \<le> length ap"
  shows "\<exists>m. sk_pto_pack ident ap = Inr m \<and> sk_pto_check ident (Some m) = Inr True \<and>
    length (msg_args m) = unat (pt_argc (sk_pto_tbl ! unat ident)) \<and>
    (\<forall>i < length (msg_args m). sk_pto_arg ident (Some m) i = Inr (Some (ap ! i))) \<and>
    (\<forall>i \<ge> length (msg_args m). 0 < length (msg_args m) \<longrightarrow>
       sk_pto_arg ident (Some m) i = Inl Assert)"
proof -
  obtain m where m: "sk_pto_pack ident ap = Inr m" "ucast (hdr_id m) = ident" "unat (hdr_id m) = unat ident"
    "hdr_argc m = pt_argc (sk_pto_tbl ! unat ident)"
    "hdr_chk m = pto_chk (body_bytes (msg_args m)) (pt_salt (sk_pto_tbl ! unat ident))"
    "msg_args m = take (unat (hdr_argc m)) ap"
    using pto_pack_ok [OF assms] by blast
  then have "length (msg_args m) = unat (hdr_argc m)" using assms(2) by simp
  with m assms(1) show ?thesis
    by (auto simp: sk_pto_check_def sk_pto_arg_def Let_def)
qed

theorem sk_pto_pack_roundtrip_witness:
  "\<exists>m. sk_pto_pack 5 [7, 8, 9] = Inr m \<and> sk_pto_check 5 (Some m) = Inr True \<and>
     sk_pto_arg 5 (Some m) 2 = Inr (Some 9) \<and> sk_pto_arg 5 (Some m) 3 = Inl Assert"
proof -
  have "pt_argc (sk_pto_tbl ! 5) = 3" by (simp add: sk_pto_tbl_def)
  then show ?thesis using sk_pto_pack_roundtrip [of 5 "[7, 8, 9]"] by auto
qed

text \<open>
  C10: the checksum detects every change of a single byte of the arguments, except the exchange
  of 0 and 1, which \<^verbatim>\<open>_checksum\<close> counts alike.
\<close>
theorem sk_pto_check_detects:
  assumes "ident < SK_PTO_MAX" "unat (pt_argc (sk_pto_tbl ! unat ident)) \<le> length ap"
    and "sk_pto_pack ident ap = Inr m" "k < length (body_bytes (msg_args m))"
    and "body_bytes args' = (body_bytes (msg_args m))[k := b]"
    and "b \<noteq> body_bytes (msg_args m) ! k" "{b, body_bytes (msg_args m) ! k} \<noteq> {0, 1}"
  shows "sk_pto_check ident (Some (m\<lparr>msg_args := args'\<rparr>)) = Inr False"
proof -
  let ?salt = "pt_salt (sk_pto_tbl ! unat ident)"
  let ?bs = "body_bytes (msg_args m)"
  have m: "ucast (hdr_id m) = ident" "unat (hdr_id m) = unat ident"
    "hdr_chk m = pto_chk ?bs ?salt" "hdr_argc m \<noteq> 0"
    using pto_pack_ok [OF assms(1,2)] assms(3,4) by (auto simp: body_bytes_def)
  have salt: "0 < uint ?salt \<and> uint ?salt \<le> 21"
    using pto_tbl_row [OF pto_id_cases [OF assms(1)]] pto_id_cases [OF assms(1)]
    by (simp only: uint_nat) linarith
  define d where "d = byte_value b - byte_value (?bs ! k)"
  have d: "d \<noteq> 0" "\<bar>d\<bar> \<le> 255"
    using assms(6,7) byte_value_eq [of b "?bs ! k"] byte_value_bounds [of b]
      byte_value_bounds [of "?bs ! k"] by (auto simp: d_def)
  have "pto_chk ?bs ?salt \<noteq> pto_chk (?bs[k := b]) ?salt"
  proof
    assume "pto_chk ?bs ?salt = pto_chk (?bs[k := b]) ?salt"
    then have "(word_of_int (byte_sum ?bs * uint ?salt) :: 16 word)
        = word_of_int (byte_sum ?bs * uint ?salt + d * uint ?salt)"
      by (simp only: pto_chk_of_int byte_sum_update [OF assms(4)] d_def) (simp add: algebra_simps)
    then have "(word_of_int (d * uint ?salt) :: 16 word) = 0" by (simp add: of_int_add)
    then have dvd: "(2 :: int) ^ 16 dvd d * uint ?salt"
      by (simp only: word_of_int_eq_0_iff len_of_numeral_defs) simp
    have "\<bar>d\<bar> * uint ?salt \<le> 255 * 21" using d(2) salt by (intro mult_mono) auto
    then have "\<bar>d * uint ?salt\<bar> < 2 ^ 16" using salt by (simp add: abs_mult)
    with dvd have "d * uint ?salt = 0"
      using dvd_imp_le_int [OF _ dvd] by (cases "d * uint ?salt = 0") simp_all
    with d(1) salt show False by simp
  qed
  with m assms(1,5) show ?thesis by (simp add: sk_pto_check_def Let_def)
qed

theorem sk_pto_check_detects_witness:
  "\<exists>m. sk_pto_pack 5 [7, 8, 9] = Inr m \<and>
     sk_pto_check 5 (Some (m\<lparr>msg_args := [6, 8, 9]\<rparr>)) = Inr False"
proof -
  have a: "pt_argc (sk_pto_tbl ! 5) = 3" by (simp add: sk_pto_tbl_def)
  obtain m where m: "sk_pto_pack 5 [7, 8, 9] = Inr m" "msg_args m = [7, 8, 9]"
    using pto_pack_ok [of 5 "[7, 8, 9]"] a by auto
  have b: "body_bytes [6, 8, 9] = (body_bytes [7, 8, 9])[0 := 6]" "body_bytes [7, 8, 9] ! 0 = 7"
    "0 < length (body_bytes [7, 8, 9])"
    by (simp_all add: body_bytes_def arg_bytes_def upt_rec)
  show ?thesis using sk_pto_check_detects [of 5 "[7, 8, 9]" m 0 "[6, 8, 9]" 6] a m b
    by (auto simp: doubleton_eq_iff)
qed

end
