(* ===== verification/World.thy ===== *)
theory World
  imports Sk_Txn Sk_Pto
begin

text \<open>
  The objects that the handlers of the program share, and the state they act on.

  The heap objects are kept in stores, maps from addresses to records: transactions
  (\<^verbatim>\<open>sk_txn_t\<close>), entities (\<^verbatim>\<open>sk_entity_t\<close>) and entity managers (\<^verbatim>\<open>sk_entity_mgr_t\<close>).
  Services are found by name, as \<^verbatim>\<open>sk_core_service\<close> finds them. An address that a store does
  not map has been freed (or was never allocated), so using it is the error \<open>Freed\<close>;
  addresses are never reused, and 0 is \<^verbatim>\<open>NULL\<close>.

  \<^verbatim>\<open>sk_sched_send\<close> appends the event to \<open>w_sends\<close>. No handler reads the event queues, so what a
  handler sends can be moved into them when it returns: theory \<open>Sk_Sched\<close> does that, with the
  code of \<^verbatim>\<open>sk_sched.c\<close>. What a handler does outside the process (bytes written to an entity,
  metrics, log lines) is recorded in \<open>w_fx\<close>.
\<close>

section \<open>Entities\<close>

datatype sk_entity_type =
    SK_ENTITY_NONE | SK_ENTITY_STD | SK_ENTITY_SOCK_V4TCP | SK_ENTITY_SOCK_V4UDP
  | SK_ENTITY_SOCK_V6TCP | SK_ENTITY_SOCK_V6UDP | SK_ENTITY_TIMER | SK_ENTITY_EP_V4TCP
  | SK_ENTITY_EP_V4UDP | SK_ENTITY_EP_V6TCP | SK_ENTITY_EP_V6UDP | SK_ENTITY_EP_TIMER
  | SK_ENTITY_EP_TXN_TIMER

datatype sk_entity_status = SK_ENTITY_ACTIVE | SK_ENTITY_INACTIVE | SK_ENTITY_DEAD

text \<open>The function pointers of an entity; \<open>None\<close> is \<^verbatim>\<open>NULL\<close>.\<close>

datatype opt_fn = Default_fn | Fn addr

record sk_entity_opt =
  opt_read :: "opt_fn option"
  opt_write :: "opt_fn option"
  opt_destroy :: "opt_fn option"
  opt_rbufget :: "opt_fn option"
  opt_rbufsz :: "opt_fn option"
  opt_rbufpop :: "opt_fn option"
  opt_peer :: "opt_fn option"

text \<open>
  \<open>e_txns\<close> and \<open>e_timers\<close> are hash tables that map an address to the object at it, so the
  list of addresses (without duplicates, in the order of iteration) stands for the table;
  \<open>None\<close> is a table that has been deleted.
\<close>

record sk_entity =
  e_owner :: "addr option"
  e_workflow :: "sk_workflow option"
  e_half_txn :: "addr option"
  e_opt :: sk_entity_opt
  e_txns :: "addr list option"
  e_timers :: "addr list option"
  e_type :: sk_entity_type
  e_status :: sk_entity_status
  e_flags :: u32
  e_task_cnt :: int
  e_ud :: addr
  e_iqueue :: "addr list"

record sk_entity_mgr_stat =
  st_total :: int
  st_inactive :: int
  st_by_type :: "sk_entity_type \<Rightarrow> int"   \<comment> \<open>the thirteen counters \<^verbatim>\<open>entity_*\<close>\<close>

record sk_entity_mgr =
  mg_entities :: "addr list"
  mg_inactive :: "addr list"
  mg_tmp :: "addr list"
  mg_owner_sched :: "addr option"
  mg_stat :: sk_entity_mgr_stat

section \<open>Services\<close>

datatype sk_srv_data_mode = SK_SRV_DATA_MODE_RW_PR | SK_SRV_DATA_MODE_RW_PW

datatype sk_service_job_ret = SK_SRV_JOB_OK | SK_SRV_JOB_ERROR_BIO | SK_SRV_JOB_ERROR_BUSY

datatype sk_service_job_rw = SK_SRV_JOB_READ | SK_SRV_JOB_WRITE

datatype sk_srv_status =
    SK_SRV_STATUS_OK | SK_SRV_STATUS_BUSY | SK_SRV_STATUS_TASK_FAILED | SK_SRV_STATUS_PENDING
  | SK_SRV_STATUS_IDLE | SK_SRV_STATUS_NOT_PUSHED

datatype sk_srv_io_status = SK_SRV_IO_STATUS_OK | SK_SRV_IO_STATUS_BUSY

datatype sk_service_api_type = SK_SRV_API_READ | SK_SRV_API_WRITE

text \<open>A pointer to the task data of task \<open>i\<close> of the transaction at \<open>a\<close>.\<close>

type_synonym tdref = "addr \<times> u64"

text \<open>The tag \<^verbatim>\<open>type\<close> and the union \<^verbatim>\<open>data\<close> of \<^verbatim>\<open>sk_srv_task_t\<close>.\<close>

datatype srv_task_data =
    SK_SRV_TASK_API_QUERY (ta_txn: addr) (ta_name: string) (ta_txn_task: tdref) (ta_task_id: u64)
  | SK_SRV_TASK_TIMER (tt_entity: addr) (tt_job: addr) (tt_ud: addr) (tt_valid: bool) (tt_interval: u32)

record sk_srv_task =
  ts_base_type :: sk_queue_elem_type
  ts_io_status :: sk_srv_io_status
  ts_bidx :: int
  ts_src :: addr
  ts_data :: srv_task_data

record sk_service_cfg =
  sc_data_mode :: sk_srv_data_mode
  sc_max_qsize :: int

record sk_service_api =
  api_type :: sk_service_api_type
  api_name :: string

record 'b sk_service =
  sv_running_task_cnt :: int
  sv_name :: string
  sv_cfg :: sk_service_cfg
  sv_pending_tasks :: "'b sk_queue"
  sv_data :: addr                          \<comment> \<open>\<^verbatim>\<open>sk_srv_data_t.data\<close>, the pointer of the user\<close>
  sv_apis :: "string \<rightharpoonup> sk_service_api"

section \<open>Timers\<close>

text \<open>
  A timer of the program wraps a node of the timer service of the library; \<open>tm_trigger\<close> is the
  function called when it expires, \<open>tm_ud\<close> the object it gets. A scheduler has one timer service,
  kept at the address of the scheduler.
\<close>

record sk_timer =
  tm_owner :: addr
  tm_entity :: addr
  tm_trigger :: addr
  tm_ud :: addr
  tm_valid :: bool
  tm_triggered :: bool
  tm_interval :: u32

record sk_timersvc =
  tv_timer_alive :: u32
  tv_timers :: "addr list"

text \<open>The object of a timer job of a service.\<close>

record srv_jobdata =
  jd_service :: string
  jd_entity :: addr
  jd_job :: addr
  jd_ud :: addr
  jd_bidx :: int
  jd_type :: sk_service_job_rw
  jd_interval :: u32

section \<open>Messages\<close>

text \<open>The arguments of each protocol, as \<^verbatim>\<open>api/sk_pto.h\<close> lists them.\<close>

datatype pto_msg =
    Tcp_accept int
  | Workflow_run
  | Entity_destroy
  | Svc_iocall u64 string string int tdref
  | Svc_task_run string string sk_srv_io_status addr tdref
  | Svc_task_done string bool bool
  | Timer_triggered addr addr addr
  | Timer_emit string addr addr bool int sk_service_job_rw u32
  | Std_start
  | Svc_timer_run string addr addr bool sk_service_job_ret u32
  | Svc_timer_done string sk_service_job_ret u32
  | Svc_task_cb tdref string string sk_txn_task_status_t bool

fun pto_id :: "pto_msg \<Rightarrow> nat" where
  "pto_id (Tcp_accept _) = 0"
| "pto_id Workflow_run = 1"
| "pto_id Entity_destroy = 2"
| "pto_id (Svc_iocall _ _ _ _ _) = 3"
| "pto_id (Svc_task_run _ _ _ _ _) = 4"
| "pto_id (Svc_task_done _ _ _) = 5"
| "pto_id (Timer_triggered _ _ _) = 6"
| "pto_id (Timer_emit _ _ _ _ _ _ _) = 7"
| "pto_id Std_start = 8"
| "pto_id (Svc_timer_run _ _ _ _ _ _) = 9"
| "pto_id (Svc_timer_done _ _ _) = 10"
| "pto_id (Svc_task_cb _ _ _ _ _) = 11"

text \<open>\<open>ev_dst = None\<close> lets the scheduler choose the receiver; \<^verbatim>\<open>flags\<close> is always 0.\<close>

record sk_event =
  ev_src :: addr
  ev_dst :: "addr option"
  ev_hop :: u8
  ev_entity :: addr
  ev_txn :: "addr option"
  ev_msg :: pto_msg

section \<open>The world\<close>

datatype effect =
    Metric string
  | Latency int
  | Write addr "u8 list"             \<comment> \<open>bytes handed to an entity\<close>
  | Rbufpop addr nat                 \<comment> \<open>bytes consumed from the read buffer of an entity\<close>
  | Opt_destroy addr addr            \<comment> \<open>\<^verbatim>\<open>opt.destroy(entity, ud)\<close>\<close>
  | Obj_destroy addr                 \<comment> \<open>\<^verbatim>\<open>sk_obj_destroy\<close>\<close>
  | Stat_run addr | Stat_pack addr | Stat_unpack addr
  | Txn_log bool int | Slow_log bool int
  | Run_module addr addr             \<comment> \<open>the module at the first address runs the transaction\<close>
  | Pack_module addr addr
  | Unpack_module addr addr
  | Iocall addr u64                  \<comment> \<open>a service runs a task of a transaction\<close>
  | Iocall_cb addr u64               \<comment> \<open>the callback of that task runs\<close>
  | Job_run addr sk_service_job_ret bool
  | Timer_add addr u32 u32           \<comment> \<open>a node is added to, or removed from, the timers of the library\<close>
  | Timer_del addr
  | Timer_cb addr addr bool          \<comment> \<open>a trigger outside the model is called\<close>
  | Accept addr int                  \<comment> \<open>the event loop watches a descriptor for an entity\<close>

record ('b, 'o) world =
  w_txns :: "addr \<rightharpoonup> 'o sk_txn"
  w_ents :: "addr \<rightharpoonup> sk_entity"
  w_mgrs :: "addr \<rightharpoonup> sk_entity_mgr"
  w_svcs :: "string \<rightharpoonup> 'b sk_service"
  w_timers :: "addr \<rightharpoonup> sk_timer"
  w_tmsvcs :: "addr \<rightharpoonup> sk_timersvc"
  w_jobs :: "addr \<rightharpoonup> srv_jobdata"
  w_next :: addr                     \<comment> \<open>the next free address\<close>
  w_tick :: nat                      \<comment> \<open>how often the outside world was consulted\<close>
  w_sends :: "sk_event list"
  w_fx :: "effect list"

text \<open>
  User code of modules: the calls of the API it makes, one after the other, and its return
  value. The parameters of the model give such a program for every call of a module.
\<close>

datatype ioret = IO_OK | IO_ERROR_SRVNAME | IO_ERROR_APINAME | IO_ERROR_STATE | IO_ERROR_BIO

datatype uprog =
    Ret int
  | Append "u8 list" uprog                                       \<comment> \<open>\<^verbatim>\<open>sk_txn_output_append\<close>\<close>
  | Setudata addr uprog                                          \<comment> \<open>\<^verbatim>\<open>sk_txn_setudata\<close>\<close>
  | Call string string "u8 list" "addr option" addr int "ioret \<Rightarrow> uprog" \<comment> \<open>\<^verbatim>\<open>skull_txn_iocall\<close>\<close>

text \<open>
  What the handlers take from outside: the buffers of the library, the clock and the
  configuration, the code of the user, and what the operations of an entity answer. The
  argument of type \<^typ>\<open>nat\<close> is the counter \<open>w_tick\<close>, so that two calls may differ.
\<close>

record ('b, 'o) sk_env =
  en_F :: "('b, sk_srv_task) fmbuf_ops"
  en_O :: "('o, u8) fmbuf_ops"
  en_fifo :: bool                    \<comment> \<open>whether \<^verbatim>\<open>flist_pop\<close> takes the oldest or the newest element\<close>
  en_clock :: "nat \<Rightarrow> int"
  en_slowlog_ms :: int
  en_txn_logging :: bool
  en_master :: addr                  \<comment> \<open>the scheduler of the master engine\<close>
  en_bios :: "addr list"             \<comment> \<open>the schedulers of the background engines\<close>
  en_mod_run :: "sk_module \<Rightarrow> 'o sk_txn \<Rightarrow> uprog"
  en_mod_pack :: "sk_module \<Rightarrow> 'o sk_txn \<Rightarrow> uprog"
  en_mod_unpack :: "sk_module \<Rightarrow> 'o sk_txn \<Rightarrow> u8 list \<Rightarrow> int \<times> uprog"
  en_iocall :: "nat \<Rightarrow> string \<Rightarrow> string \<Rightarrow> sk_txn_taskdata_t \<Rightarrow> sk_txn_taskdata_t \<times> int"
  en_iocall_cb :: "nat \<Rightarrow> string \<Rightarrow> string \<Rightarrow> sk_txn_taskdata_t \<Rightarrow> uprog"
  en_write :: "nat \<Rightarrow> addr \<Rightarrow> u8 list \<Rightarrow> int"
  en_read :: "nat \<Rightarrow> addr \<Rightarrow> nat \<Rightarrow> int"
  en_rbufget :: "nat \<Rightarrow> addr \<Rightarrow> u8 list"
  en_rbufsz :: "nat \<Rightarrow> addr \<Rightarrow> nat"
  en_fmt_run :: "string \<Rightarrow> int \<Rightarrow> int \<Rightarrow> u8 list"      \<comment> \<open>the printed log lines\<close>
  en_fmt_pack :: "string \<Rightarrow> int \<Rightarrow> int \<Rightarrow> u8 list"
  en_fmt_unpack :: "string \<Rightarrow> int \<Rightarrow> int \<Rightarrow> u8 list"
  en_fmt_task :: "string \<Rightarrow> string \<Rightarrow> int \<Rightarrow> int \<Rightarrow> int \<Rightarrow> int \<Rightarrow> u8 list"

section \<open>Access\<close>

named_theorems world_defs \<open>definitions of the accessors of the world\<close>

definition with_txn :: "('b, 'o) world \<Rightarrow> addr \<Rightarrow> ('o sk_txn \<Rightarrow> 'a res) \<Rightarrow> 'a res" where
  "with_txn w a k = live (w_txns w a) k"

definition set_txn :: "('b, 'o) world \<Rightarrow> addr \<Rightarrow> 'o sk_txn \<Rightarrow> ('b, 'o) world" where
  "set_txn w a t = w\<lparr>w_txns := (w_txns w)(a \<mapsto> t)\<rparr>"

definition with_ent :: "('b, 'o) world \<Rightarrow> addr \<Rightarrow> (sk_entity \<Rightarrow> 'a res) \<Rightarrow> 'a res" where
  "with_ent w a k = live (w_ents w a) k"

definition set_ent :: "('b, 'o) world \<Rightarrow> addr \<Rightarrow> sk_entity \<Rightarrow> ('b, 'o) world" where
  "set_ent w a e = w\<lparr>w_ents := (w_ents w)(a \<mapsto> e)\<rparr>"

definition with_mgr :: "('b, 'o) world \<Rightarrow> addr \<Rightarrow> (sk_entity_mgr \<Rightarrow> 'a res) \<Rightarrow> 'a res" where
  "with_mgr w a k = live (w_mgrs w a) k"

definition set_mgr :: "('b, 'o) world \<Rightarrow> addr \<Rightarrow> sk_entity_mgr \<Rightarrow> ('b, 'o) world" where
  "set_mgr w a m = w\<lparr>w_mgrs := (w_mgrs w)(a \<mapsto> m)\<rparr>"

definition with_svc :: "('b, 'o) world \<Rightarrow> string \<Rightarrow> ('b sk_service \<Rightarrow> 'a res) \<Rightarrow> 'a res" where
  "with_svc w n k = (case w_svcs w n of None \<Rightarrow> Inl Assert | Some sv \<Rightarrow> k sv)"

definition set_svc :: "('b, 'o) world \<Rightarrow> string \<Rightarrow> 'b sk_service \<Rightarrow> ('b, 'o) world" where
  "set_svc w n sv = w\<lparr>w_svcs := (w_svcs w)(n \<mapsto> sv)\<rparr>"

definition fx :: "('b, 'o) world \<Rightarrow> effect list \<Rightarrow> ('b, 'o) world" where
  "fx w es = w\<lparr>w_fx := w_fx w @ es\<rparr>"

definition send :: "('b, 'o) world \<Rightarrow> addr \<Rightarrow> addr option \<Rightarrow> addr \<Rightarrow> addr option \<Rightarrow> pto_msg \<Rightarrow>
    ('b, 'o) world" where
  "send w src dst entity txn msg = w\<lparr>w_sends := w_sends w @
     [\<lparr>ev_src = src, ev_dst = dst, ev_hop = 0, ev_entity = entity, ev_txn = txn, ev_msg = msg\<rparr>]\<rparr>"

text \<open>The outside world is consulted: the clock, an entity, user code.\<close>

definition tick :: "('b, 'o) world \<Rightarrow> ('b, 'o) world" where
  "tick w = w\<lparr>w_tick := Suc (w_tick w)\<rparr>"

definition sk_time_us :: "('b, 'o) sk_env \<Rightarrow> ('b, 'o) world \<Rightarrow> int" where
  "sk_time_us E w = en_clock E (w_tick w)"

lemmas world_acc [world_defs] =
  with_txn_def set_txn_def with_ent_def set_ent_def with_mgr_def set_mgr_def with_svc_def set_svc_def
  fx_def send_def tick_def

text \<open>What each elementary step changes, and what it leaves.\<close>

lemma set_txn_sel [simp]:
  "w_txns (set_txn w a x) = (w_txns w)(a \<mapsto> x)"
  "w_ents (set_txn w a x) = w_ents w"
  "w_mgrs (set_txn w a x) = w_mgrs w"
  "w_svcs (set_txn w a x) = w_svcs w"
  "w_timers (set_txn w a x) = w_timers w"
  "w_tmsvcs (set_txn w a x) = w_tmsvcs w"
  "w_jobs (set_txn w a x) = w_jobs w"
  "w_next (set_txn w a x) = w_next w"
  "w_tick (set_txn w a x) = w_tick w"
  "w_sends (set_txn w a x) = w_sends w"
  "w_fx (set_txn w a x) = w_fx w"
  by (simp_all add: set_txn_def)

lemma set_ent_sel [simp]:
  "w_txns (set_ent w a x) = w_txns w"
  "w_ents (set_ent w a x) = (w_ents w)(a \<mapsto> x)"
  "w_mgrs (set_ent w a x) = w_mgrs w"
  "w_svcs (set_ent w a x) = w_svcs w"
  "w_timers (set_ent w a x) = w_timers w"
  "w_tmsvcs (set_ent w a x) = w_tmsvcs w"
  "w_jobs (set_ent w a x) = w_jobs w"
  "w_next (set_ent w a x) = w_next w"
  "w_tick (set_ent w a x) = w_tick w"
  "w_sends (set_ent w a x) = w_sends w"
  "w_fx (set_ent w a x) = w_fx w"
  by (simp_all add: set_ent_def)

lemma set_mgr_sel [simp]:
  "w_txns (set_mgr w a x) = w_txns w"
  "w_ents (set_mgr w a x) = w_ents w"
  "w_mgrs (set_mgr w a x) = (w_mgrs w)(a \<mapsto> x)"
  "w_svcs (set_mgr w a x) = w_svcs w"
  "w_timers (set_mgr w a x) = w_timers w"
  "w_tmsvcs (set_mgr w a x) = w_tmsvcs w"
  "w_jobs (set_mgr w a x) = w_jobs w"
  "w_next (set_mgr w a x) = w_next w"
  "w_tick (set_mgr w a x) = w_tick w"
  "w_sends (set_mgr w a x) = w_sends w"
  "w_fx (set_mgr w a x) = w_fx w"
  by (simp_all add: set_mgr_def)

lemma set_svc_sel [simp]:
  "w_txns (set_svc w n x) = w_txns w"
  "w_ents (set_svc w n x) = w_ents w"
  "w_mgrs (set_svc w n x) = w_mgrs w"
  "w_svcs (set_svc w n x) = (w_svcs w)(n \<mapsto> x)"
  "w_timers (set_svc w n x) = w_timers w"
  "w_tmsvcs (set_svc w n x) = w_tmsvcs w"
  "w_jobs (set_svc w n x) = w_jobs w"
  "w_next (set_svc w n x) = w_next w"
  "w_tick (set_svc w n x) = w_tick w"
  "w_sends (set_svc w n x) = w_sends w"
  "w_fx (set_svc w n x) = w_fx w"
  by (simp_all add: set_svc_def)

lemma fx_sel [simp]:
  "w_txns (fx w es) = w_txns w"
  "w_ents (fx w es) = w_ents w"
  "w_mgrs (fx w es) = w_mgrs w"
  "w_svcs (fx w es) = w_svcs w"
  "w_timers (fx w es) = w_timers w"
  "w_tmsvcs (fx w es) = w_tmsvcs w"
  "w_jobs (fx w es) = w_jobs w"
  "w_next (fx w es) = w_next w"
  "w_tick (fx w es) = w_tick w"
  "w_sends (fx w es) = w_sends w"
  "w_fx (fx w es) = w_fx w @ es"
  by (simp_all add: fx_def)

lemma tick_sel [simp]:
  "w_txns (tick w) = w_txns w"
  "w_ents (tick w) = w_ents w"
  "w_mgrs (tick w) = w_mgrs w"
  "w_svcs (tick w) = w_svcs w"
  "w_timers (tick w) = w_timers w"
  "w_tmsvcs (tick w) = w_tmsvcs w"
  "w_jobs (tick w) = w_jobs w"
  "w_next (tick w) = w_next w"
  "w_tick (tick w) = Suc (w_tick w)"
  "w_sends (tick w) = w_sends w"
  "w_fx (tick w) = w_fx w"
  by (simp_all add: tick_def)

lemma send_sel [simp]:
  "w_txns (send w src dst ent txn msg) = w_txns w"
  "w_ents (send w src dst ent txn msg) = w_ents w"
  "w_mgrs (send w src dst ent txn msg) = w_mgrs w"
  "w_svcs (send w src dst ent txn msg) = w_svcs w"
  "w_timers (send w src dst ent txn msg) = w_timers w"
  "w_tmsvcs (send w src dst ent txn msg) = w_tmsvcs w"
  "w_jobs (send w src dst ent txn msg) = w_jobs w"
  "w_next (send w src dst ent txn msg) = w_next w"
  "w_tick (send w src dst ent txn msg) = w_tick w"
  "w_sends (send w src dst ent txn msg) = w_sends w @ [\<lparr>ev_src = src, ev_dst = dst, ev_hop = 0, ev_entity = ent, ev_txn = txn, ev_msg = msg\<rparr>]"
  "w_fx (send w src dst ent txn msg) = w_fx w"
  by (simp_all add: send_def)

section \<open>A small configuration\<close>

text \<open>
  For the witnesses: a clock that advances by one microsecond per reading, modules that append
  one byte when they pack, services that answer at once, entities that take every byte.
\<close>

definition demo_env :: "(sk_srv_task cellbuf, u8 cellbuf) sk_env" where
  "demo_env = \<lparr>en_F = cellbuf_ops 72, en_O = cellbuf_ops 1, en_fifo = True, en_clock = int,
     en_slowlog_ms = 0, en_txn_logging = True, en_master = 100, en_bios = [],
     en_mod_run = (\<lambda>_ _. Ret 0), en_mod_pack = (\<lambda>_ _. Append [33] (Ret 0)),
     en_mod_unpack = (\<lambda>_ _ bs. (int (length bs), Ret 0)),
     en_iocall = (\<lambda>_ _ _ td. (td, 0)), en_iocall_cb = (\<lambda>_ _ _ _. Ret 0),
     en_write = (\<lambda>_ _ bs. int (length bs)), en_read = (\<lambda>_ _ n. int n),
     en_rbufget = (\<lambda>_ _. [1]), en_rbufsz = (\<lambda>_ _. 1),
     en_fmt_run = (\<lambda>_ _ _. [114]), en_fmt_pack = (\<lambda>_ _ _. [112]), en_fmt_unpack = (\<lambda>_ _ _. [117]),
     en_fmt_task = (\<lambda>_ _ _ _ _ _. [116])\<rparr>"

definition empty_world :: "('b, 'o) world" where
  "empty_world = \<lparr>w_txns = Map.empty, w_ents = Map.empty, w_mgrs = Map.empty, w_svcs = Map.empty,
     w_timers = Map.empty, w_tmsvcs = Map.empty, w_jobs = Map.empty, w_next = 1, w_tick = 0, w_sends = [], w_fx = []\<rparr>"

end
