(* ===== verification/Sk_Sched.thy ===== *)
theory Sk_Sched
  imports World Sk_Pto Sk_Io
begin

text \<open>
  Schedulers: \<^verbatim>\<open>src/src/components/sk_sched.c\<close>: queues, sending,
  routing and receiving. Running the events is the theory \<open>Sched_Run\<close>.

  A scheduler has an input and an output queue per priority and bridges to other schedulers. A
  message to the scheduler itself goes to its input queue, any other to its output queue; from
  there it is delivered to the bridge that leads to its receiver, or to the next bridge in turn, and
  the receiver copies it into its own queues.

  The buffers hold events; \<open>F\<close> are their operations. The descriptor of a bridge is a counter, as
  \<^verbatim>\<open>eventfd\<close> has it.
\<close>

section \<open>State\<close>

record 'v sk_io_bridge =
  br_dst :: addr
  br_mq :: 'v
  br_evfd :: nat

record 'v sk_sched =
  sd_entity_mgr :: addr
  sd_io_tbl :: "'v sk_io list"
  sd_bridge_tbl :: "'v sk_io_bridge list"      \<comment> \<open>\<^verbatim>\<open>bridge_size\<close> is its length\<close>
  sd_last_delivery_idx :: nat
  sd_running :: bool
  sd_flags :: u32

definition SK_PTO_PRI_SZ :: nat where "SK_PTO_PRI_SZ = 10"
definition SK_SCHED_PULL_NUM :: size_t where "SK_SCHED_PULL_NUM = 65535"
definition SK_SCHED_MAX_IO_BRIDGE :: nat where "SK_SCHED_MAX_IO_BRIDGE = 48"
definition SK_SCHED_MAX_ROUTING_HOP :: u8 where "SK_SCHED_MAX_ROUTING_HOP = 255"
definition SK_SCHED_IO_BRIDGE_SZ :: size_t where "SK_SCHED_IO_BRIDGE_SZ = 65535"
definition SK_SCHED_IO_INIT_SZ :: size_t where "SK_SCHED_IO_INIT_SZ = 32"
definition SK_SCHED_NON_RR_ROUTABLE :: u32 where "SK_SCHED_NON_RR_ROUTABLE = 1"

text \<open>The priority of a message, from the table of protocols.\<close>

definition pto_pri :: "pto_msg \<Rightarrow> nat" where
  "pto_pri msg = pt_pri (sk_pto_tbl ! pto_id msg)"

text \<open>The state of a new scheduler; \<^verbatim>\<open>sk_sched_create\<close> also checks the table of protocols.\<close>

definition sched_init :: "('v, sk_event) fmbuf_ops \<Rightarrow> addr \<Rightarrow> u32 \<Rightarrow> 'v sk_sched" where
  "sched_init F emgr flags =
     \<lparr>sd_entity_mgr = emgr, sd_io_tbl = replicate SK_PTO_PRI_SZ (sk_io_create F SK_SCHED_IO_INIT_SZ SK_SCHED_IO_INIT_SZ),
      sd_bridge_tbl = [], sd_last_delivery_idx = 0, sd_running = False, sd_flags = flags\<rparr>"

definition sk_sched_create :: "('v, sk_event) fmbuf_ops \<Rightarrow> addr \<Rightarrow> u32 \<Rightarrow> 'v sk_sched res" where
  "sk_sched_create F emgr flags = rbind (check_ptos 0 sk_pto_tbl) (\<lambda>_. Inr (sched_init F emgr flags))"

definition sk_io_bridge_create :: "('v, sk_event) fmbuf_ops \<Rightarrow> addr \<Rightarrow> size_t \<Rightarrow> 'v sk_io_bridge" where
  "sk_io_bridge_create F dst slots = \<lparr>br_dst = dst, br_mq = fmbuf_create F (SK_EVENT_SZ * slots), br_evfd = 0\<rparr>"

definition sk_sched_setup_bridge :: "('v, sk_event) fmbuf_ops \<Rightarrow> 'v sk_sched \<Rightarrow> addr \<Rightarrow> 'v sk_sched \<times> int" where
  "sk_sched_setup_bridge F sd dst =
     (if length (sd_bridge_tbl sd) = SK_SCHED_MAX_IO_BRIDGE then (sd, 1)
      else (sd\<lparr>sd_bridge_tbl := sd_bridge_tbl sd @ [sk_io_bridge_create F dst SK_SCHED_IO_BRIDGE_SZ]\<rparr>, 0))"

section \<open>Sending\<close>

definition get_io :: "'v sk_sched \<Rightarrow> nat \<Rightarrow> ('v sk_io \<Rightarrow> 'a res) \<Rightarrow> 'a res" where
  "get_io sd p k = (if p < length (sd_io_tbl sd) then k (sd_io_tbl sd ! p) else Inl NullDeref)"

definition set_io :: "'v sk_sched \<Rightarrow> nat \<Rightarrow> 'v sk_io \<Rightarrow> 'v sk_sched" where
  "set_io sd p io = sd\<lparr>sd_io_tbl := (sd_io_tbl sd)[p := io]\<rparr>"

definition emit_event ::
  "('v, sk_event) fmbuf_ops \<Rightarrow> 'v sk_sched \<Rightarrow> sk_io_type \<Rightarrow> sk_event \<Rightarrow> 'v sk_sched res" where
  "emit_event F sd ty ev =
     (let p = pto_pri (ev_msg ev)
      in get_io sd p (\<lambda>io. rbind (sk_io_push F io ty [ev]) (\<lambda>io.
           sk_assert (0 < sk_io_used F io ty) (Inr (set_io sd p io)))))"

text \<open>\<open>ev_src ev\<close> is the scheduler \<open>sd\<close> that sends.\<close>

definition sk_sched_send :: "('v, sk_event) fmbuf_ops \<Rightarrow> 'v sk_sched \<Rightarrow> sk_event \<Rightarrow> 'v sk_sched res" where
  "sk_sched_send F sd ev =
     emit_event F sd (if ev_dst ev = Some (ev_src ev) then SK_IO_INPUT else SK_IO_OUTPUT) ev"

text \<open>What a handler has sent goes into the queues of the sender.\<close>

fun flush :: "('v, sk_event) fmbuf_ops \<Rightarrow> 'v sk_sched \<Rightarrow> sk_event list \<Rightarrow> 'v sk_sched res" where
  "flush F sd [] = Inr sd"
| "flush F sd (ev # evs) = rbind (sk_sched_send F sd ev) (\<lambda>sd. flush F sd evs)"

section \<open>Delivery\<close>

definition find_affinity_bridge :: "'v sk_sched \<Rightarrow> addr \<Rightarrow> nat option" where
  "find_affinity_bridge sd target =
     (case filter (\<lambda>i. br_dst (sd_bridge_tbl sd ! i) = target) [0 ..< length (sd_bridge_tbl sd)] of
        [] \<Rightarrow> None | i # _ \<Rightarrow> Some i)"

text \<open>
  The loop of \<^verbatim>\<open>_find_bridge_roundrobin\<close>; \<open>flags\<close> are the flags of the schedulers. The result is
  the index at the end of the loop and whether a bridge was found; \<open>n\<close> turns are enough.
\<close>

fun rr_loop :: "(addr \<Rightarrow> u32) \<Rightarrow> 'v sk_io_bridge list \<Rightarrow> nat \<Rightarrow> nat \<Rightarrow> nat \<Rightarrow> (nat \<times> bool) res" where
  "rr_loop flags tbl 0 idx endi = Inl Fuel"
| "rr_loop flags tbl (Suc n) idx endi =
     (if length tbl \<le> idx then Inl NullDeref
      else if and (flags (br_dst (tbl ! idx))) SK_SCHED_NON_RR_ROUTABLE = 0 then Inr (idx, True)
      else (let idx = (idx + 1) mod length tbl
            in if idx \<noteq> endi then rr_loop flags tbl n idx endi else Inr (idx, False)))"

definition find_bridge_roundrobin ::
  "(addr \<Rightarrow> u32) \<Rightarrow> 'v sk_sched \<Rightarrow> ('v sk_sched \<times> nat option) res" where
  "find_bridge_roundrobin flags sd =
     rbind (rr_loop flags (sd_bridge_tbl sd) (Suc (length (sd_bridge_tbl sd))) (sd_last_delivery_idx sd)
              (sd_last_delivery_idx sd)) (\<lambda>(idx, found).
       if \<not> found then Inr (sd\<lparr>sd_last_delivery_idx := idx\<rparr>, None)
       else sk_assert (idx < length (sd_bridge_tbl sd))
              (Inr (sd\<lparr>sd_last_delivery_idx := (idx + 1) mod length (sd_bridge_tbl sd)\<rparr>, Some idx)))"

text \<open>\<^verbatim>\<open>sk_io_bridge_deliver\<close>\<close>

definition sk_io_bridge_deliver ::
  "('v, sk_event) fmbuf_ops \<Rightarrow> 'v sk_io_bridge \<Rightarrow> sk_event \<Rightarrow> 'v sk_io_bridge res" where
  "sk_io_bridge_deliver F br ev =
     (case fmbuf_push F (br_mq br) [ev\<lparr>ev_hop := ev_hop ev + 1\<rparr>] SK_EVENT_SZ of
        None \<Rightarrow> Inl Assert
      | Some mq \<Rightarrow> Inr (br\<lparr>br_mq := mq\<rparr>))"

text \<open>Step 3 of \<^verbatim>\<open>_deliver_one_io\<close>: the bridge, and the event with its receiver.\<close>

definition choose_bridge ::
  "(addr \<Rightarrow> u32) \<Rightarrow> 'v sk_sched \<Rightarrow> sk_event \<Rightarrow> ('v sk_sched \<times> nat option \<times> sk_event) res" where
  "choose_bridge flags sd ev = (case ev_dst ev of
     Some dst \<Rightarrow> (case find_affinity_bridge sd dst of
        Some i \<Rightarrow> Inr (sd, Some i, ev)
      | None \<Rightarrow> rbind (find_bridge_roundrobin flags sd) (\<lambda>(sd, i). Inr (sd, i, ev)))
   | None \<Rightarrow> rbind (find_bridge_roundrobin flags sd) (\<lambda>(sd, i).
       deref i (\<lambda>j. Inr (sd, i, ev\<lparr>ev_dst := Some (br_dst (sd_bridge_tbl sd ! j))\<rparr>))))"

definition deliver_event ::
  "('v, sk_event) fmbuf_ops \<Rightarrow> (addr \<Rightarrow> u32) \<Rightarrow> 'v sk_sched \<Rightarrow> nat list \<Rightarrow> sk_event \<Rightarrow> ('v sk_sched \<times> nat list) res" where
  "deliver_event F flags sd delivery ev =
     sk_assert (ev_hop ev \<noteq> SK_SCHED_MAX_ROUTING_HOP)
       (rbind (choose_bridge flags sd ev) (\<lambda>(sd, i, ev). case i of
          None \<Rightarrow> Inl Assert
        | Some i \<Rightarrow>
            (let br = sd_bridge_tbl sd ! i
             in sk_assert (fmbuf_free F (br_mq br) div SK_EVENT_SZ \<noteq> 0)
                  (rbind (sk_io_bridge_deliver F br ev) (\<lambda>br.
                     Inr (sd\<lparr>sd_bridge_tbl := (sd_bridge_tbl sd)[i := br]\<rparr>, delivery[i := delivery ! i + 1]))))))"

text \<open>The loop of \<^verbatim>\<open>_deliver_one_io\<close> on the queue of priority \<open>p\<close>; \<open>n\<close> is at least its length.\<close>

fun deliver_one_io ::
  "('v, sk_event) fmbuf_ops \<Rightarrow> (addr \<Rightarrow> u32) \<Rightarrow> nat \<Rightarrow> 'v sk_sched \<Rightarrow> nat \<Rightarrow> nat list \<Rightarrow> ('v sk_sched \<times> nat list) res" where
  "deliver_one_io F flags 0 sd p delivery = Inr (sd, delivery)"
| "deliver_one_io F flags (Suc n) sd p delivery = get_io sd p (\<lambda>io.
     if sk_io_used F io SK_IO_OUTPUT = 0 then Inr (sd, delivery)
     else rbind (sk_io_pull F io SK_IO_OUTPUT 1) (\<lambda>(io, evs). case evs of
            [ev] \<Rightarrow> rbind (deliver_event F flags (set_io sd p io) delivery ev) (\<lambda>(sd, delivery).
                      deliver_one_io F flags n sd p delivery)
          | _ \<Rightarrow> Inl Assert))"

definition deliver_all ::
  "('v, sk_event) fmbuf_ops \<Rightarrow> (addr \<Rightarrow> u32) \<Rightarrow> 'v sk_sched \<Rightarrow> nat \<Rightarrow> nat list \<Rightarrow> ('v sk_sched \<times> nat list) res" where
  "deliver_all F flags sd p delivery = get_io sd p (\<lambda>io.
     deliver_one_io F flags (unat (sk_io_used F io SK_IO_OUTPUT)) sd p delivery)"

text \<open>From the highest priority to the lowest.\<close>

fun deliver_pris ::
  "('v, sk_event) fmbuf_ops \<Rightarrow> (addr \<Rightarrow> u32) \<Rightarrow> nat \<Rightarrow> 'v sk_sched \<Rightarrow> nat list \<Rightarrow> ('v sk_sched \<times> nat list) res" where
  "deliver_pris F flags 0 sd delivery = Inr (sd, delivery)"
| "deliver_pris F flags (Suc p) sd delivery =
     rbind (deliver_all F flags sd p delivery) (\<lambda>(sd, delivery). deliver_pris F flags p sd delivery)"

definition io_bridge_notify :: "'v sk_io_bridge \<Rightarrow> nat \<Rightarrow> 'v sk_io_bridge" where
  "io_bridge_notify br cnt = (if cnt = 0 then br else br\<lparr>br_evfd := br_evfd br + cnt\<rparr>)"

definition deliver_msg :: "('v, sk_event) fmbuf_ops \<Rightarrow> (addr \<Rightarrow> u32) \<Rightarrow> 'v sk_sched \<Rightarrow> 'v sk_sched res" where
  "deliver_msg F flags sd =
     rbind (deliver_pris F flags SK_PTO_PRI_SZ sd (replicate (length (sd_bridge_tbl sd)) 0)) (\<lambda>(sd, delivery).
       Inr (sd\<lparr>sd_bridge_tbl := map2 io_bridge_notify (sd_bridge_tbl sd) delivery\<rparr>))"

section \<open>Receiving\<close>

text \<open>
  \<^verbatim>\<open>_copy_event\<close>, run by the receiver \<open>me\<close> with its state \<open>dst\<close>. The loop pops until the buffer is
  empty; \<open>n\<close> is more than the number of events in it.
\<close>

fun copy_loop ::
  "('v, sk_event) fmbuf_ops \<Rightarrow> nat \<Rightarrow> 'v \<Rightarrow> addr \<Rightarrow> 'v sk_sched \<Rightarrow> ('v \<times> 'v sk_sched) res" where
  "copy_loop F 0 mq me dst = Inl Fuel"
| "copy_loop F (Suc n) mq me dst = (case fmbuf_pop F mq SK_EVENT_SZ of
     Some ([ev], mq) \<Rightarrow>
       (let p = pto_pri (ev_msg ev)
        in get_io dst p (\<lambda>io. rbind (sk_io_push F io (if ev_dst ev = Some me then SK_IO_INPUT else SK_IO_OUTPUT) [ev]) (\<lambda>io.
             copy_loop F n mq me (set_io dst p io))))
   | _ \<Rightarrow> Inr (mq, dst))"

definition copy_event ::
  "('v, sk_event) fmbuf_ops \<Rightarrow> 'v sk_io_bridge \<Rightarrow> addr \<Rightarrow> 'v sk_sched \<Rightarrow> ('v sk_io_bridge \<times> 'v sk_sched) res" where
  "copy_event F br me dst =
     (if br_evfd br = 0 then Inr (br, dst)
      else rbind (copy_loop F (Suc (unat (fmbuf_used F (br_mq br)))) (br_mq br) me dst) (\<lambda>(mq, dst).
        Inr (br\<lparr>br_mq := mq, br_evfd := 0\<rparr>, dst)))"

section \<open>Start, stop and destruction\<close>

definition SK_SCHED_DEFAULT_WAITMS :: int where "SK_SCHED_DEFAULT_WAITMS = 1000"

text \<open>
  Step 3 of \<^verbatim>\<open>sk_sched_start\<close>: how long the event loop may sleep. \<open>nalive\<close> is the number of timers,
  \<open>texp\<close> the time to the expiry of the first one, if the timer service has one; the cast to
  \<^verbatim>\<open>int\<close> is written out.
\<close>

definition sched_waitms :: "u32 \<Rightarrow> int option \<Rightarrow> int" where
  "sched_waitms nalive texp =
     (if nalive \<noteq> 0 then
        (case texp of
           Some e \<Rightarrow> if 0 < e then sint (word_of_int e :: u32) else 0
         | None \<Rightarrow> SK_SCHED_DEFAULT_WAITMS)
      else SK_SCHED_DEFAULT_WAITMS)"

text \<open>What \<^verbatim>\<open>sk_sched_start\<close> does before its loop; the loop is in \<open>Sched_Run\<close>.\<close>

definition sched_begin :: "'v sk_sched \<Rightarrow> 'v sk_sched" where
  "sched_begin sd = sd\<lparr>sd_running := True\<rparr>"

definition sk_sched_stop :: "'v sk_sched \<Rightarrow> 'v sk_sched" where
  "sk_sched_stop sd = sd\<lparr>sd_running := False\<rparr>"

text \<open>
  Destruction frees the data of every event that is still queued: the result lists these events.
  The loops end when a pop fails; \<open>n\<close> is more than the number of events.
\<close>

fun drain_mq :: "('v, sk_event) fmbuf_ops \<Rightarrow> nat \<Rightarrow> 'v \<Rightarrow> sk_event list res" where
  "drain_mq F 0 mq = Inl Fuel"
| "drain_mq F (Suc n) mq = (case fmbuf_pop F mq SK_EVENT_SZ of
     Some (evs, mq) \<Rightarrow> rbind (drain_mq F n mq) (\<lambda>rest. Inr (evs @ rest))
   | None \<Rightarrow> Inr [])"

definition sk_io_bridge_destroy :: "('v, sk_event) fmbuf_ops \<Rightarrow> 'v sk_io_bridge \<Rightarrow> sk_event list res" where
  "sk_io_bridge_destroy F br = drain_mq F (Suc (unat (fmbuf_used F (br_mq br)))) (br_mq br)"

fun drain_io :: "('v, sk_event) fmbuf_ops \<Rightarrow> nat \<Rightarrow> 'v sk_io \<Rightarrow> sk_io_type \<Rightarrow> ('v sk_io \<times> sk_event list) res" where
  "drain_io F 0 io t = Inl Fuel"
| "drain_io F (Suc n) io t = rbind (sk_io_pull F io t 1) (\<lambda>(io, evs).
     if evs = [] then Inr (io, [])
     else rbind (drain_io F n io t) (\<lambda>(io, rest). Inr (io, evs @ rest)))"

definition cleanup_skio_events :: "('v, sk_event) fmbuf_ops \<Rightarrow> 'v sk_io \<Rightarrow> sk_event list res" where
  "cleanup_skio_events F io =
     rbind (drain_io F (Suc (unat (sk_io_used F io SK_IO_INPUT))) io SK_IO_INPUT) (\<lambda>(io, ins).
     rbind (drain_io F (Suc (unat (sk_io_used F io SK_IO_OUTPUT))) io SK_IO_OUTPUT) (\<lambda>(io, outs).
       Inr (ins @ outs)))"

fun destroy_each :: "('a \<Rightarrow> sk_event list res) \<Rightarrow> 'a list \<Rightarrow> sk_event list res" where
  "destroy_each f [] = Inr []"
| "destroy_each f (x # xs) = rbind (f x) (\<lambda>evs. rbind (destroy_each f xs) (\<lambda>rest. Inr (evs @ rest)))"

definition sk_sched_destroy :: "('v, sk_event) fmbuf_ops \<Rightarrow> 'v sk_sched \<Rightarrow> sk_event list res" where
  "sk_sched_destroy F sd =
     rbind (destroy_each (sk_io_bridge_destroy F) (sd_bridge_tbl sd)) (\<lambda>evs.
     rbind (destroy_each (cleanup_skio_events F) (sd_io_tbl sd)) (\<lambda>evs'. Inr (evs @ evs')))"

end
