(* ===== verification/Sk_Entity.thy ===== *)
theory Sk_Entity
  imports World
begin

text \<open>
  Entities and their managers: \<^verbatim>\<open>src/src/entities/sk_entity.c\<close>,
  \<^verbatim>\<open>src/src/entities/sk_entity_util.c\<close> and \<^verbatim>\<open>src/src/components/sk_entity_mgr.c\<close>, with the
  two functions of \<^verbatim>\<open>sk_txn.c\<close> that destroy a transaction.

  An entity is a source of transactions (a connection, a datagram, standard input, a timer).
  It counts the transactions under way; its manager destroys it in two steps: \<open>INACTIVE\<close>
  releases what it wraps, \<open>DEAD\<close> frees it once no transaction is left.
\<close>

section \<open>Library containers\<close>

definition hash_set :: "addr list \<Rightarrow> addr \<Rightarrow> addr list" where
  "hash_set xs a = (if a \<in> set xs then xs else xs @ [a])"

definition flist_pop :: "bool \<Rightarrow> addr list \<Rightarrow> addr \<times> addr list" where
  "flist_pop fifo xs = (if fifo then (hd xs, tl xs) else (last xs, butlast xs))"

section \<open>Entities\<close>

definition default_opt :: sk_entity_opt where
  "default_opt = \<lparr>opt_read = Some Default_fn, opt_write = Some Default_fn,
     opt_destroy = Some Default_fn, opt_rbufget = Some Default_fn, opt_rbufsz = Some Default_fn,
     opt_rbufpop = Some Default_fn, opt_peer = Some Default_fn\<rparr>"

definition sk_entity_create ::
  "('b, 'o) world \<Rightarrow> sk_workflow option \<Rightarrow> sk_entity_type \<Rightarrow> ('b, 'o) world \<times> addr" where
  "sk_entity_create w wflow typ =
     (let a = w_next w;
          e = \<lparr>e_owner = None, e_workflow = wflow, e_half_txn = None, e_opt = default_opt,
               e_txns = Some [], e_timers = Some [], e_type = typ, e_status = SK_ENTITY_ACTIVE,
               e_flags = 0, e_task_cnt = 0, e_ud = 0, e_iqueue = []\<rparr>
      in (fx ((set_ent w a e)\<lparr>w_next := Suc a\<rparr>) [Metric ''global.entity_create''], a))"

definition or_default :: "opt_fn option \<Rightarrow> opt_fn option \<Rightarrow> opt_fn option" where
  "or_default f d = (case f of Some _ \<Rightarrow> f | None \<Rightarrow> d)"

definition sk_entity_setopt :: "sk_entity \<Rightarrow> sk_entity_opt \<Rightarrow> addr \<Rightarrow> sk_entity" where
  "sk_entity_setopt e opt ud = e\<lparr>
     e_opt := \<lparr>opt_read = or_default (opt_read opt) (opt_read default_opt),
               opt_write = or_default (opt_write opt) (opt_write default_opt),
               opt_destroy = or_default (opt_destroy opt) (opt_destroy default_opt),
               opt_rbufget = or_default (opt_rbufget opt) (opt_rbufget default_opt),
               opt_rbufsz = or_default (opt_rbufsz opt) (opt_rbufsz default_opt),
               opt_rbufpop = or_default (opt_rbufpop opt) (opt_rbufpop default_opt),
               opt_peer = or_default (opt_peer opt) (opt_peer default_opt)\<rparr>,
     e_ud := ud\<rparr>"

definition sk_entity_setowner :: "sk_entity \<Rightarrow> addr \<Rightarrow> sk_entity res" where
  "sk_entity_setowner e mgr = sk_assert (e_owner e = None) (Inr (e\<lparr>e_owner := Some mgr\<rparr>))"

definition sk_entity_mark :: "('b, 'o) world \<Rightarrow> addr \<Rightarrow> sk_entity_status \<Rightarrow> ('b, 'o) world res" where
  "sk_entity_mark w a st = with_ent w a (\<lambda>e. Inr (set_ent w a (e\<lparr>e_status := st\<rparr>)))"

definition sk_entity_sethalftxn :: "('b, 'o) world \<Rightarrow> addr \<Rightarrow> addr option \<Rightarrow> ('b, 'o) world res" where
  "sk_entity_sethalftxn w a t = with_ent w a (\<lambda>e. Inr (set_ent w a (e\<lparr>e_half_txn := t\<rparr>)))"

definition sk_entity_setflags :: "('b, 'o) world \<Rightarrow> addr \<Rightarrow> u32 \<Rightarrow> ('b, 'o) world res" where
  "sk_entity_setflags w a fl = with_ent w a (\<lambda>e. Inr (set_ent w a (e\<lparr>e_flags := fl\<rparr>)))"

definition sk_entity_idle :: "sk_entity \<Rightarrow> bool res" where
  "sk_entity_idle e = deref (e_workflow e) (\<lambda>wflow.
     Inr (if wc_concurrent (wf_cfg wflow) then True else e_task_cnt e \<le> 0))"

definition sk_entity_iqueue_pop ::
  "('b, 'o) sk_env \<Rightarrow> ('b, 'o) world \<Rightarrow> addr \<Rightarrow> (('b, 'o) world \<times> addr option) res" where
  "sk_entity_iqueue_pop E w a = with_ent w a (\<lambda>e.
     if e_iqueue e = [] then Inr (w, None)
     else (let (t, q) = flist_pop (en_fifo E) (e_iqueue e)
           in Inr (set_ent w a (e\<lparr>e_iqueue := q\<rparr>), Some t)))"

definition sk_entity_iqueue_push :: "('b, 'o) world \<Rightarrow> addr \<Rightarrow> addr \<Rightarrow> ('b, 'o) world res" where
  "sk_entity_iqueue_push w a t =
     with_ent w a (\<lambda>e. Inr (set_ent w a (e\<lparr>e_iqueue := e_iqueue e @ [t]\<rparr>)))"

definition sk_entity_txnadd :: "('b, 'o) world \<Rightarrow> addr \<Rightarrow> addr \<Rightarrow> ('b, 'o) world res" where
  "sk_entity_txnadd w a t = with_ent w a (\<lambda>e. live (e_txns e) (\<lambda>tbl.
     let e = e\<lparr>e_txns := Some (hash_set tbl t), e_task_cnt := e_task_cnt e + 1\<rparr>
     in sk_assert (0 < e_task_cnt e) (Inr (set_ent w a e))))"

definition sk_entity_txndel :: "('b, 'o) world \<Rightarrow> addr \<Rightarrow> addr \<Rightarrow> ('b, 'o) world res" where
  "sk_entity_txndel w a t = with_ent w a (\<lambda>e. live (e_txns e) (\<lambda>tbl.
     sk_assert (t \<in> set tbl)
       (let e = e\<lparr>e_txns := Some (removeAll t tbl), e_task_cnt := e_task_cnt e - 1\<rparr>
        in sk_assert (0 \<le> e_task_cnt e) (Inr (set_ent w a e)))))"

definition sk_entity_timeradd :: "('b, 'o) world \<Rightarrow> addr \<Rightarrow> addr \<Rightarrow> ('b, 'o) world res" where
  "sk_entity_timeradd w a obj = with_ent w a (\<lambda>e. live (e_timers e) (\<lambda>tbl.
     Inr (set_ent w a (e\<lparr>e_timers := Some (hash_set tbl obj)\<rparr>))))"

definition sk_entity_timerdel :: "('b, 'o) world \<Rightarrow> addr \<Rightarrow> addr \<Rightarrow> ('b, 'o) world res" where
  "sk_entity_timerdel w a obj = with_ent w a (\<lambda>e. live (e_timers e) (\<lambda>tbl.
     sk_assert (obj \<in> set tbl) (Inr (set_ent w a (e\<lparr>e_timers := Some (removeAll obj tbl)\<rparr>)))))"

section \<open>Destroying transactions\<close>

definition sk_txn_destroy :: "('b, 'o) world \<Rightarrow> addr \<Rightarrow> ('b, 'o) world res" where
  "sk_txn_destroy w t = with_txn w t (\<lambda>txn.
     rbind (sk_entity_txndel w (tx_entity txn) t) (\<lambda>w.
       Inr (w\<lparr>w_txns := (w_txns w)(t := None)\<rparr>)))"

text \<open>The result pairs the world with the return code: 1 while tasks are outstanding.\<close>

definition sk_txn_safe_destroy :: "('b, 'o) world \<Rightarrow> addr \<Rightarrow> (('b, 'o) world \<times> int) res" where
  "sk_txn_safe_destroy w t = with_txn w t (\<lambda>txn.
     if tx_complete_tasks txn < tx_total_tasks txn then Inr (w, 1)
     else rbind (sk_txn_destroy w t) (\<lambda>w. Inr (w, 0)))"

section \<open>Destroying entities\<close>

fun destroy_txns :: "('b, 'o) world \<Rightarrow> addr list \<Rightarrow> ('b, 'o) world res" where
  "destroy_txns w [] = Inr w"
| "destroy_txns w (t # ts) = rbind (sk_txn_destroy w t) (\<lambda>w. destroy_txns w ts)"

text \<open>The loop over the input queue; \<open>n\<close> is at least the length of the queue.\<close>

fun drain_iqueue :: "('b, 'o) sk_env \<Rightarrow> nat \<Rightarrow> ('b, 'o) world \<Rightarrow> addr \<Rightarrow> ('b, 'o) world res" where
  "drain_iqueue E 0 w a = Inr w"
| "drain_iqueue E (Suc n) w a = rbind (sk_entity_iqueue_pop E w a) (\<lambda>(w, t). case t of
     None \<Rightarrow> Inr w
   | Some t \<Rightarrow> rbind (sk_txn_destroy w t) (\<lambda>w. drain_iqueue E n w a))"

definition sk_entity_destroy ::
  "('b, 'o) sk_env \<Rightarrow> ('b, 'o) world \<Rightarrow> addr \<Rightarrow> ('b, 'o) world res" where
  "sk_entity_destroy E w a = with_ent w a (\<lambda>e.
     sk_assert (e_status e = SK_ENTITY_INACTIVE \<or> e_status e = SK_ENTITY_DEAD)
       (if e_status e = SK_ENTITY_INACTIVE
        then Inr (fx (set_ent w a (e\<lparr>e_ud := 0\<rparr>)) [Opt_destroy a (e_ud e)])
        else
          (let w = fx w [Metric ''global.entity_destroy'']
           in live (e_txns e) (\<lambda>txns. rbind (destroy_txns w txns) (\<lambda>w.
              with_ent w a (\<lambda>e. let w = set_ent w a (e\<lparr>e_txns := None\<rparr>)
              in live (e_timers e) (\<lambda>timers.
                 let w = fx (set_ent w a (e\<lparr>e_txns := None, e_timers := None\<rparr>))
                           (map Obj_destroy timers)
                 in rbind (drain_iqueue E (length (e_iqueue e)) w a) (\<lambda>w.
                    Inr (w\<lparr>w_ents := (w_ents w)(a := None)\<rparr>)))))))))"

section \<open>The manager\<close>

definition stat_add :: "(sk_entity_type \<Rightarrow> int) \<Rightarrow> sk_entity_type \<Rightarrow> int \<Rightarrow> sk_entity_type \<Rightarrow> int" where
  "stat_add f t v = f(t := f t + v)"

definition update_stat :: "sk_entity_mgr \<Rightarrow> sk_entity_type \<Rightarrow> bool \<Rightarrow> int \<Rightarrow> sk_entity_mgr" where
  "update_stat mgr typ inactive v =
     (if v = 0 then mgr
      else (let st = mg_stat mgr;
                st = (if inactive then st\<lparr>st_inactive := st_inactive st + v\<rparr> else st)
            in if inactive \<and> 0 < v then mgr\<lparr>mg_stat := st\<rparr>
               else mgr\<lparr>mg_stat := st\<lparr>st_total := st_total st + v,
                                     st_by_type := stat_add (st_by_type st) typ v\<rparr>\<rparr>))"

definition sk_entity_mgr_create :: "('b, 'o) world \<Rightarrow> ('b, 'o) world \<times> addr" where
  "sk_entity_mgr_create w = (let a = w_next w in
     ((set_mgr w a \<lparr>mg_entities = [], mg_inactive = [], mg_tmp = [], mg_owner_sched = None,
        mg_stat = \<lparr>st_total = 0, st_inactive = 0, st_by_type = (\<lambda>_. 0)\<rparr>\<rparr>)\<lparr>w_next := Suc a\<rparr>, a))"

definition is_tcp :: "sk_entity_type \<Rightarrow> bool" where
  "is_tcp t \<longleftrightarrow> t = SK_ENTITY_SOCK_V4TCP \<or> t = SK_ENTITY_SOCK_V6TCP"

definition sk_entity_mgr_add :: "('b, 'o) world \<Rightarrow> addr \<Rightarrow> addr \<Rightarrow> ('b, 'o) world res" where
  "sk_entity_mgr_add w m a = with_mgr w m (\<lambda>mgr.
     let mgr = mgr\<lparr>mg_entities := hash_set (mg_entities mgr) a\<rparr>
     in with_ent w a (\<lambda>e. rbind (sk_entity_setowner e m) (\<lambda>e.
        let w = fx (set_ent w a e) ([Metric ''worker.entity_create''] @
                  (if is_tcp (e_type e)
                   then [Metric ''global.connection_opened'', Metric ''worker.connection_opened'']
                   else []))
        in Inr (set_mgr w m (update_stat mgr (e_type e) False 1)))))"

definition sk_entity_mgr_del ::
  "('b, 'o) sk_env \<Rightarrow> ('b, 'o) world \<Rightarrow> addr \<Rightarrow> addr \<Rightarrow> ('b, 'o) world res" where
  "sk_entity_mgr_del E w m a = with_ent w a (\<lambda>e.
     sk_assert (e_owner e = Some m)
       (if e_status e = SK_ENTITY_DEAD then Inr w
        else rbind (sk_entity_mark w a SK_ENTITY_INACTIVE) (\<lambda>w.
             rbind (sk_entity_destroy E w a) (\<lambda>w.
             rbind (sk_entity_mark w a SK_ENTITY_DEAD) (\<lambda>w.
             with_mgr w m (\<lambda>mgr.
               let mgr = mgr\<lparr>mg_inactive := mg_inactive mgr @ [a]\<rparr>
               in Inr (set_mgr w m (update_stat mgr (e_type e) True 1))))))))"

text \<open>One turn of the loop of \<^verbatim>\<open>_cleanup_dead_entities\<close>.\<close>

definition cleanup_one ::
  "('b, 'o) sk_env \<Rightarrow> bool \<Rightarrow> ('b, 'o) world \<Rightarrow> addr \<Rightarrow> sk_entity_mgr \<Rightarrow> ('b, 'o) world res" where
  "cleanup_one E force w m mgr =
     (let (a, rest) = flist_pop (en_fifo E) (mg_inactive mgr);
          mgr = mgr\<lparr>mg_inactive := rest\<rparr>
      in with_ent w a (\<lambda>e.
           if e_task_cnt e \<noteq> 0 \<and> \<not> force
           then Inr (set_mgr w m (mgr\<lparr>mg_tmp := mg_tmp mgr @ [a]\<rparr>))
           else
             (let w = fx w ([Metric ''worker.entity_destroy''] @
                        (if is_tcp (e_type e)
                         then [Metric ''global.connection_closed'', Metric ''worker.connection_closed'']
                         else []));
                  mgr = update_stat mgr (e_type e) True (- 1)
              in sk_assert (a \<in> set (mg_entities mgr))
                   (sk_entity_destroy E
                      (set_mgr w m (mgr\<lparr>mg_entities := removeAll a (mg_entities mgr)\<rparr>)) a))))"

text \<open>\<open>n\<close> is at least the number of inactive entities.\<close>

fun cleanup_loop ::
  "('b, 'o) sk_env \<Rightarrow> bool \<Rightarrow> nat \<Rightarrow> ('b, 'o) world \<Rightarrow> addr \<Rightarrow> ('b, 'o) world res" where
  "cleanup_loop E force 0 w m = Inr w"
| "cleanup_loop E force (Suc n) w m = with_mgr w m (\<lambda>mgr.
     if mg_inactive mgr = [] then Inr w
     else rbind (cleanup_one E force w m mgr) (\<lambda>w. cleanup_loop E force n w m))"

definition cleanup_dead_entities ::
  "('b, 'o) sk_env \<Rightarrow> bool \<Rightarrow> ('b, 'o) world \<Rightarrow> addr \<Rightarrow> ('b, 'o) world res" where
  "cleanup_dead_entities E force w m = with_mgr w m (\<lambda>mgr0.
     rbind (cleanup_loop E force (length (mg_inactive mgr0)) w m) (\<lambda>w.
     with_mgr w m (\<lambda>mgr.
       let mgr' = mgr\<lparr>mg_inactive := mg_tmp mgr, mg_tmp := mg_inactive mgr\<rparr>
       in sk_assert (mg_tmp mgr' = []) (Inr (set_mgr w m mgr')))))"

definition sk_entity_mgr_clean_dead ::
  "('b, 'o) sk_env \<Rightarrow> ('b, 'o) world \<Rightarrow> addr \<Rightarrow> ('b, 'o) world res" where
  "sk_entity_mgr_clean_dead E w m = cleanup_dead_entities E False w m"

text \<open>\<^verbatim>\<open>sk_entity_mgr_foreach\<close> with \<^verbatim>\<open>_mark_dead\<close>, which never stops the iteration.\<close>

fun mark_all_dead ::
  "('b, 'o) sk_env \<Rightarrow> ('b, 'o) world \<Rightarrow> addr \<Rightarrow> addr list \<Rightarrow> ('b, 'o) world res" where
  "mark_all_dead E w m [] = Inr w"
| "mark_all_dead E w m (a # es) = rbind (sk_entity_mgr_del E w m a) (\<lambda>w. mark_all_dead E w m es)"

definition sk_entity_mgr_destroy ::
  "('b, 'o) sk_env \<Rightarrow> ('b, 'o) world \<Rightarrow> addr \<Rightarrow> ('b, 'o) world res" where
  "sk_entity_mgr_destroy E w m = with_mgr w m (\<lambda>mgr.
     rbind (mark_all_dead E w m (mg_entities mgr)) (\<lambda>w.
     rbind (cleanup_dead_entities E True w m) (\<lambda>w.
       Inr (w\<lparr>w_mgrs := (w_mgrs w)(m := None)\<rparr>))))"

definition sk_entity_mgr_setsched :: "('b, 'o) world \<Rightarrow> addr \<Rightarrow> addr \<Rightarrow> ('b, 'o) world res" where
  "sk_entity_mgr_setsched w m s = with_mgr w m (\<lambda>mgr.
     sk_assert (mg_owner_sched mgr = None) (Inr (set_mgr w m (mgr\<lparr>mg_owner_sched := Some s\<rparr>))))"

section \<open>Entities and schedulers\<close>

text \<open>\<open>sched\<close> is \<^verbatim>\<open>SK_ENV_SCHED\<close>, the scheduler of the running thread.\<close>

definition sk_entity_safe_destroy ::
  "('b, 'o) sk_env \<Rightarrow> ('b, 'o) world \<Rightarrow> addr \<Rightarrow> addr \<Rightarrow> (('b, 'o) world \<times> int) res" where
  "sk_entity_safe_destroy E w sched a = with_ent w a (\<lambda>e. case e_owner e of
     None \<Rightarrow>
       rbind (sk_entity_mark w a SK_ENTITY_INACTIVE) (\<lambda>w.
       rbind (sk_entity_destroy E w a) (\<lambda>w.
       rbind (sk_entity_mark w a SK_ENTITY_DEAD) (\<lambda>w.
       rbind (sk_entity_destroy E w a) (\<lambda>w. Inr (w, 0)))))
   | Some owner \<Rightarrow> with_mgr w owner (\<lambda>mgr.
       if mg_owner_sched mgr \<noteq> Some sched then
         (if e_status e \<noteq> SK_ENTITY_ACTIVE then Inr (w, 0)
          else Inr (send w sched (mg_owner_sched mgr) a None Entity_destroy, 1))
       else rbind (sk_entity_mgr_del E w owner a) (\<lambda>w. Inr (w, 0))))"

definition sk_entity_sched :: "('b, 'o) world \<Rightarrow> addr \<Rightarrow> addr option res" where
  "sk_entity_sched w a = with_ent w a (\<lambda>e. case e_owner e of
     None \<Rightarrow> Inr None
   | Some owner \<Rightarrow> with_mgr w owner (\<lambda>mgr. Inr (mg_owner_sched mgr)))"

text \<open>\<^verbatim>\<open>_default_write\<close> and \<^verbatim>\<open>_default_read\<close> return -1; the others answer as the environment says.\<close>

definition sk_entity_write ::
  "('b, 'o) sk_env \<Rightarrow> ('b, 'o) world \<Rightarrow> addr \<Rightarrow> u8 list \<Rightarrow> (('b, 'o) world \<times> int) res" where
  "sk_entity_write E w a bs = with_ent w a (\<lambda>e. deref (opt_write (e_opt e)) (\<lambda>f.
     case f of Default_fn \<Rightarrow> Inr (w, - 1)
     | Fn _ \<Rightarrow> Inr (fx (tick w) [Write a bs], en_write E (w_tick w) a bs)))"

definition sk_entity_read ::
  "('b, 'o) sk_env \<Rightarrow> ('b, 'o) world \<Rightarrow> addr \<Rightarrow> nat \<Rightarrow> (('b, 'o) world \<times> int) res" where
  "sk_entity_read E w a len = with_ent w a (\<lambda>e. deref (opt_read (e_opt e)) (\<lambda>f.
     case f of Default_fn \<Rightarrow> Inr (w, - 1) | Fn _ \<Rightarrow> Inr (tick w, en_read E (w_tick w) a len)))"

definition sk_entity_rbufsz ::
  "('b, 'o) sk_env \<Rightarrow> ('b, 'o) world \<Rightarrow> addr \<Rightarrow> nat res" where
  "sk_entity_rbufsz E w a = with_ent w a (\<lambda>e. deref (opt_rbufsz (e_opt e)) (\<lambda>f.
     case f of Default_fn \<Rightarrow> Inr 0 | Fn _ \<Rightarrow> Inr (en_rbufsz E (w_tick w) a)))"

text \<open>The null pointer that \<^verbatim>\<open>_default_rbufget\<close> returns is the empty list of bytes.\<close>

definition sk_entity_rbufget ::
  "('b, 'o) sk_env \<Rightarrow> ('b, 'o) world \<Rightarrow> addr \<Rightarrow> u8 list res" where
  "sk_entity_rbufget E w a = with_ent w a (\<lambda>e. deref (opt_rbufget (e_opt e)) (\<lambda>f.
     case f of Default_fn \<Rightarrow> Inr [] | Fn _ \<Rightarrow> Inr (en_rbufget E (w_tick w) a)))"

definition sk_entity_rbufpop ::
  "('b, 'o) world \<Rightarrow> addr \<Rightarrow> nat \<Rightarrow> ('b, 'o) world res" where
  "sk_entity_rbufpop w a n = with_ent w a (\<lambda>e. deref (opt_rbufpop (e_opt e)) (\<lambda>f.
     case f of Default_fn \<Rightarrow> Inr w | Fn _ \<Rightarrow> Inr (fx w [Rbufpop a n])))"

section \<open>Well-formed entities and managers\<close>

text \<open>
  The transactions registered with an entity are alive, belong to it and are counted.
\<close>

definition ent_ok :: "('b, 'o) world \<Rightarrow> addr \<Rightarrow> sk_entity \<Rightarrow> bool" where
  "ent_ok w a e \<longleftrightarrow> (\<exists>ts. e_txns e = Some ts \<and> distinct ts \<and> e_task_cnt e = int (length ts) \<and>
     (\<forall>t \<in> set ts. \<exists>txn. w_txns w t = Some txn \<and> tx_entity txn = a)) \<and> e_timers e \<noteq> None"

definition ent_type_at :: "('b, 'o) world \<Rightarrow> sk_entity_type \<Rightarrow> addr \<Rightarrow> bool" where
  "ent_type_at w t a \<longleftrightarrow> map_option e_type (w_ents w a) = Some t"

definition mgr_inv :: "('b, 'o) world \<Rightarrow> addr \<Rightarrow> sk_entity_mgr \<Rightarrow> bool" where
  "mgr_inv w m mgr \<longleftrightarrow>
     w_mgrs w m = Some mgr \<and> distinct (mg_entities mgr) \<and> distinct (mg_inactive mgr @ mg_tmp mgr) \<and>
     set (mg_inactive mgr @ mg_tmp mgr) \<subseteq> set (mg_entities mgr) \<and>
     (\<forall>a \<in> set (mg_entities mgr). \<exists>e. w_ents w a = Some e \<and> e_owner e = Some m \<and> ent_ok w a e \<and>
        (e_status e = SK_ENTITY_DEAD \<longleftrightarrow> a \<in> set (mg_inactive mgr @ mg_tmp mgr))) \<and>
     st_total (mg_stat mgr) = int (length (mg_entities mgr)) \<and>
     st_inactive (mg_stat mgr) = int (length (mg_inactive mgr @ mg_tmp mgr)) \<and>
     (\<forall>t. st_by_type (mg_stat mgr) t = int (length (filter (ent_type_at w t) (mg_entities mgr))))"

definition mgr_ok :: "('b, 'o) world \<Rightarrow> addr \<Rightarrow> sk_entity_mgr \<Rightarrow> bool" where
  "mgr_ok w m mgr \<longleftrightarrow> mgr_inv w m mgr \<and> mg_tmp mgr = []"

definition task_cnt_at :: "('b, 'o) world \<Rightarrow> addr \<Rightarrow> int" where
  "task_cnt_at w a = (case w_ents w a of Some e \<Rightarrow> e_task_cnt e | None \<Rightarrow> 0)"

definition iqueue_at :: "('b, 'o) world \<Rightarrow> addr \<Rightarrow> addr list" where
  "iqueue_at w a = (case w_ents w a of Some e \<Rightarrow> e_iqueue e | None \<Rightarrow> [])"

lemma ent_type_at_cong: "w_ents w' = w_ents w \<Longrightarrow> ent_type_at w' = ent_type_at w"
  by (auto simp: ent_type_at_def fun_eq_iff)

lemma ent_ok_cong: "w_txns w' = w_txns w \<Longrightarrow> ent_ok w' a e \<longleftrightarrow> ent_ok w a e"
  by (simp add: ent_ok_def)

lemma flist_pop_props:
  assumes "flist_pop fifo xs = (a, rest)" "xs \<noteq> []"
  shows "mset xs = add_mset a (mset rest)" "length rest = length xs - 1"
proof -
  have "mset xs = mset (butlast xs @ [last xs])" using assms(2) by simp
  then have "mset xs = add_mset (last xs) (mset (butlast xs))" by simp
  then show "mset xs = add_mset a (mset rest)"
    using assms by (cases xs) (auto simp: flist_pop_def split: if_splits)
  show "length rest = length xs - 1"
    using assms by (auto simp: flist_pop_def split: if_splits)
qed

lemma flist_pop_set:
  assumes "flist_pop fifo xs = (a, rest)" "xs \<noteq> []"
  shows "set xs = insert a (set rest)" "distinct xs \<longleftrightarrow> distinct (a # rest)"
proof -
  have m: "mset xs = mset (a # rest)" using flist_pop_props [OF assms] by simp
  show "set xs = insert a (set rest)" using mset_eq_setD [OF m] by simp
  show "distinct xs \<longleftrightarrow> distinct (a # rest)" using mset_eq_imp_distinct_iff [OF m] by simp
qed

lemma flist_pop_exists: "xs \<noteq> [] \<Longrightarrow> \<exists>a rest. flist_pop fifo xs = (a, rest)"
  by (simp add: flist_pop_def)

subsection \<open>Destroying\<close>

lemma destroy_txns_all:
  assumes "w_ents w a = Some e" "e_txns e = Some ts" "distinct ts" "e_task_cnt e = int (length ts)"
    and "\<forall>t \<in> set ts. \<exists>txn. w_txns w t = Some txn \<and> tx_entity txn = a"
  shows "destroy_txns w ts = Inr (w\<lparr>w_ents := (w_ents w)(a \<mapsto> e\<lparr>e_txns := Some [], e_task_cnt := 0\<rparr>),
    w_txns := w_txns w |` (- set ts)\<rparr>)"
  using assms
proof (induction ts arbitrary: w e)
  case Nil
  then have "(w_ents w)(a \<mapsto> e\<lparr>e_txns := Some [], e_task_cnt := 0\<rparr>) = w_ents w"
    by (auto simp: fun_eq_iff)
  then show ?case by (simp add: restrict_map_def)
next
  case (Cons t ts)
  obtain txn where t: "w_txns w t = Some txn" "tx_entity txn = a" using Cons.prems(5) by auto
  let ?e = "e\<lparr>e_txns := Some ts, e_task_cnt := int (length ts)\<rparr>"
  let ?w = "w\<lparr>w_ents := (w_ents w)(a \<mapsto> ?e), w_txns := (w_txns w)(t := None)\<rparr>"
  have "removeAll t ts = ts" using Cons.prems(3) by simp
  then have d: "sk_txn_destroy w t = Inr ?w"
    using t Cons.prems(1,2,4) by (simp add: sk_txn_destroy_def sk_entity_txndel_def world_defs)
  have "destroy_txns ?w ts = Inr (?w\<lparr>w_ents := (w_ents ?w)(a \<mapsto> ?e\<lparr>e_txns := Some [], e_task_cnt := 0\<rparr>),
      w_txns := w_txns ?w |` (- set ts)\<rparr>)"
    using Cons.prems by (intro Cons.IH) auto
  moreover have "((w_txns w)(t := None)) |` (- set ts) = w_txns w |` (- set (t # ts))"
    by (auto simp: restrict_map_def)
  ultimately have "destroy_txns ?w ts =
      Inr (w\<lparr>w_ents := (w_ents w)(a \<mapsto> e\<lparr>e_txns := Some [], e_task_cnt := 0\<rparr>),
        w_txns := w_txns w |` (- set (t # ts))\<rparr>)" by simp
  with d show ?case by (simp only: destroy_txns.simps rbind_simps)
qed

text \<open>An entity that is dead is freed with its transactions, when none waits in its input queue.\<close>

lemma entity_destroy_dead:
  assumes e: "w_ents w a = Some e" "ent_ok w a e" "e_status e = SK_ENTITY_DEAD" "e_iqueue e = []"
    and ts: "e_txns e = Some ts"
  shows "\<exists>w'. sk_entity_destroy E w a = Inr w' \<and> w_ents w' = (w_ents w)(a := None) \<and>
    w_txns w' = w_txns w |` (- set ts) \<and>
    w_mgrs w' = w_mgrs w \<and> w_svcs w' = w_svcs w \<and> w_sends w' = w_sends w \<and> w_next w' = w_next w"
proof -
  obtain tm where tm: "e_timers e = Some tm" using e(2) by (auto simp: ent_ok_def)
  let ?w = "fx w [Metric ''global.entity_destroy'']"
  have "destroy_txns ?w ts = Inr (?w\<lparr>w_ents := (w_ents ?w)(a \<mapsto> e\<lparr>e_txns := Some [], e_task_cnt := 0\<rparr>),
      w_txns := w_txns ?w |` (- set ts)\<rparr>)"
    using e ts by (intro destroy_txns_all) (auto simp: ent_ok_def fx_def)
  then show ?thesis
    using e ts tm by (simp add: sk_entity_destroy_def world_defs fun_eq_iff)
qed

lemma entity_destroy_inactive:
  assumes "w_ents w a = Some e" "e_status e = SK_ENTITY_INACTIVE"
  shows "sk_entity_destroy E w a = Inr (fx (set_ent w a (e\<lparr>e_ud := 0\<rparr>)) [Opt_destroy a (e_ud e)])"
  using assms by (simp add: sk_entity_destroy_def with_ent_def)

subsection \<open>The manager keeps its books\<close>

lemma mgr_inv_ents:
  "mgr_inv w m mgr \<Longrightarrow> \<forall>a \<in> set (mg_entities mgr). \<exists>e. w_ents w a = Some e \<and> e_owner e = Some m \<and>
     ent_ok w a e \<and> (e_status e = SK_ENTITY_DEAD \<longleftrightarrow> a \<in> set (mg_inactive mgr @ mg_tmp mgr))"
  unfolding mgr_inv_def by (elim conjE)

lemma mgr_inv_ent:
  assumes "mgr_inv w m mgr" "a \<in> set (mg_entities mgr)"
  obtains e where "w_ents w a = Some e" "e_owner e = Some m" "ent_ok w a e"
    "e_status e = SK_ENTITY_DEAD \<longleftrightarrow> a \<in> set (mg_inactive mgr @ mg_tmp mgr)"
  using bspec [OF mgr_inv_ents [OF assms(1)] assms(2)] that by (elim exE conjE)

lemma length_filter_remove:
  assumes "distinct xs" "a \<in> set xs"
  shows "length (filter P xs) = length (filter P (removeAll a xs)) + (if P a then 1 else 0)"
proof -
  obtain ys zs where x: "xs = ys @ a # zs" using assms(2) by (auto simp: in_set_conv_decomp)
  then have "removeAll a xs = ys @ zs" using assms(1) by simp
  with x show ?thesis by simp
qed

lemma length_removeAll_distinct:
  "distinct xs \<Longrightarrow> a \<in> set xs \<Longrightarrow> length xs = Suc (length (removeAll a xs))"
  using length_filter_remove [of xs a "\<lambda>_. True"] by simp

text \<open>
  One turn of the clean-up: an inactive entity with transactions is set aside, one without is
  freed.
\<close>

lemma cleanup_one_keep:
  assumes inv: "mgr_inv w m mgr" and p: "flist_pop (en_fifo E) (mg_inactive mgr) = (a, rest)"
    and ne: "mg_inactive mgr \<noteq> []" and cnt: "task_cnt_at w a \<noteq> 0"
  shows "cleanup_one E False w m mgr =
      Inr (set_mgr w m (mgr\<lparr>mg_inactive := rest, mg_tmp := mg_tmp mgr @ [a]\<rparr>)) \<and>
    mgr_inv (set_mgr w m (mgr\<lparr>mg_inactive := rest, mg_tmp := mg_tmp mgr @ [a]\<rparr>)) m
      (mgr\<lparr>mg_inactive := rest, mg_tmp := mg_tmp mgr @ [a]\<rparr>)"
proof -
  note ps = flist_pop_set [OF p ne] flist_pop_props(2) [OF p ne]
  have "a \<in> set (mg_entities mgr)" using inv ps by (auto simp: mgr_inv_def)
  then obtain e where e: "w_ents w a = Some e" using inv by (elim mgr_inv_ent) auto
  have len: "length rest + Suc (length (mg_tmp mgr)) = length (mg_inactive mgr) + length (mg_tmp mgr)"
    using ps(3) ne by (cases "mg_inactive mgr") auto
  have "cleanup_one E False w m mgr =
      Inr (set_mgr w m (mgr\<lparr>mg_inactive := rest, mg_tmp := mg_tmp mgr @ [a]\<rparr>))"
    using p e cnt by (simp add: cleanup_one_def task_cnt_at_def with_ent_def)
  moreover have "mgr_inv (set_mgr w m (mgr\<lparr>mg_inactive := rest, mg_tmp := mg_tmp mgr @ [a]\<rparr>)) m
      (mgr\<lparr>mg_inactive := rest, mg_tmp := mg_tmp mgr @ [a]\<rparr>)"
    using inv ps len unfolding mgr_inv_def ent_ok_def ent_type_at_def set_mgr_def by auto
  ultimately show ?thesis by blast
qed

lemma cleanup_one_free:
  assumes inv: "mgr_inv w m mgr" and p: "flist_pop (en_fifo E) (mg_inactive mgr) = (a, rest)"
    and ne: "mg_inactive mgr \<noteq> []" and cnt: "task_cnt_at w a = 0" and q: "iqueue_at w a = []"
  shows "\<exists>w' mgr'. cleanup_one E False w m mgr = Inr w' \<and> mgr_inv w' m mgr' \<and>
    mg_inactive mgr' = rest \<and> mg_tmp mgr' = mg_tmp mgr \<and>
    mg_entities mgr' = removeAll a (mg_entities mgr) \<and>
    w_ents w' = (w_ents w)(a := None) \<and> w_txns w' = w_txns w \<and> w_svcs w' = w_svcs w \<and>
    w_sends w' = w_sends w"
proof -
  note ps = flist_pop_set [OF p ne] flist_pop_props(2) [OF p ne]
  have a: "a \<in> set (mg_entities mgr)" "a \<in> set (mg_inactive mgr)" "a \<notin> set rest" "a \<notin> set (mg_tmp mgr)"
    using inv ps by (auto simp: mgr_inv_def)
  then obtain e where e: "w_ents w a = Some e" "ent_ok w a e" "e_status e = SK_ENTITY_DEAD"
    using inv by (elim mgr_inv_ent) auto
  have ts: "e_txns e = Some []" "e_task_cnt e = 0" "e_iqueue e = []"
    using e cnt q by (auto simp: ent_ok_def task_cnt_at_def iqueue_at_def)
  define fxs where "fxs = [Metric ''worker.entity_destroy''] @ (if is_tcp (e_type e)
      then [Metric ''global.connection_closed'', Metric ''worker.connection_closed''] else [])"
  define mgr' where "mgr' = (update_stat (mgr\<lparr>mg_inactive := rest\<rparr>) (e_type e) True (- 1))
      \<lparr>mg_entities := removeAll a (mg_entities mgr)\<rparr>"
  define w1 where "w1 = set_mgr (fx w fxs) m mgr'"
  have w1: "w_ents w1 = w_ents w" "w_txns w1 = w_txns w" "w_svcs w1 = w_svcs w" "w_sends w1 = w_sends w"
    "w_mgrs w1 = (w_mgrs w)(m \<mapsto> mgr')"
    by (simp_all add: w1_def set_mgr_def fx_def)
  have "ent_ok w1 a e" using e(2) by (simp add: ent_ok_def w1)
  then obtain w' where w': "sk_entity_destroy E w1 a = Inr w'" "w_ents w' = (w_ents w)(a := None)"
    "w_txns w' = w_txns w" "w_mgrs w' = (w_mgrs w)(m \<mapsto> mgr')" "w_svcs w' = w_svcs w" "w_sends w' = w_sends w"
    using entity_destroy_dead [of w1 a e "[]" E] e ts w1 by auto
  have m': "mg_entities mgr' = removeAll a (mg_entities mgr)" "mg_inactive mgr' = rest"
    "mg_tmp mgr' = mg_tmp mgr" "mg_stat mgr' = (mg_stat mgr)\<lparr>st_inactive := st_inactive (mg_stat mgr) - 1,
       st_total := st_total (mg_stat mgr) - 1,
       st_by_type := stat_add (st_by_type (mg_stat mgr)) (e_type e) (- 1)\<rparr>"
    by (simp_all add: mgr'_def update_stat_def Let_def)
  have c: "cleanup_one E False w m mgr = Inr w'"
  proof -
    have "mg_entities (update_stat (mgr\<lparr>mg_inactive := rest\<rparr>) (e_type e) True (- 1)) = mg_entities mgr"
      by (simp add: update_stat_def Let_def)
    then show ?thesis
      using p e ts a w'(1) by (simp add: cleanup_one_def with_ent_def Let_def w1_def mgr'_def fxs_def)
  qed
  have oth: "w_ents w' b = w_ents w b" if "b \<in> set (removeAll a (mg_entities mgr))" for b
    using that w'(2) by auto
  have cnt1: "int (length (filter (ent_type_at w t) (mg_entities mgr))) =
      int (length (filter (ent_type_at w' t) (removeAll a (mg_entities mgr)))) + (if t = e_type e then 1 else 0)"
    for t
  proof -
    have "filter (ent_type_at w' t) (removeAll a (mg_entities mgr)) =
        filter (ent_type_at w t) (removeAll a (mg_entities mgr))"
      using oth by (intro filter_cong) (auto simp: ent_type_at_def)
    then show ?thesis
      using length_filter_remove [of "mg_entities mgr" a "ent_type_at w t"] a e inv
      by (simp add: ent_type_at_def mgr_inv_def)
  qed
  have "mgr_inv w' m mgr'"
    unfolding mgr_inv_def
  proof (intro conjI ballI allI)
    show "w_mgrs w' m = Some mgr'" by (simp add: w')
    show "distinct (mg_entities mgr')" using inv by (simp add: m' mgr_inv_def distinct_removeAll)
    show "distinct (mg_inactive mgr' @ mg_tmp mgr')" using inv ps by (auto simp: m' mgr_inv_def)
    show "set (mg_inactive mgr' @ mg_tmp mgr') \<subseteq> set (mg_entities mgr')"
      using inv ps a by (auto simp: m' mgr_inv_def)
    show "st_total (mg_stat mgr') = int (length (mg_entities mgr'))"
      using inv a length_removeAll_distinct [of "mg_entities mgr" a] by (simp add: m' mgr_inv_def)
    show "st_inactive (mg_stat mgr') = int (length (mg_inactive mgr' @ mg_tmp mgr'))"
      using inv ps ne by (cases "mg_inactive mgr") (auto simp: m' mgr_inv_def)
    show "st_by_type (mg_stat mgr') t = int (length (filter (ent_type_at w' t) (mg_entities mgr')))" for t
      using inv cnt1 [of t] by (auto simp: m' mgr_inv_def stat_add_def)
  next
    fix b assume b: "b \<in> set (mg_entities mgr')"
    then have "b \<in> set (mg_entities mgr)" "b \<noteq> a" by (auto simp: m')
    then obtain eb where "w_ents w b = Some eb" "e_owner eb = Some m" "ent_ok w b eb"
      "e_status eb = SK_ENTITY_DEAD \<longleftrightarrow> b \<in> set (mg_inactive mgr @ mg_tmp mgr)"
      using inv by (elim mgr_inv_ent) auto
    with \<open>b \<noteq> a\<close> ps w' show "\<exists>e. w_ents w' b = Some e \<and> e_owner e = Some m \<and> ent_ok w' b e \<and>
        (e_status e = SK_ENTITY_DEAD \<longleftrightarrow> b \<in> set (mg_inactive mgr' @ mg_tmp mgr'))"
      by (auto simp: m' ent_ok_def)
  qed
  with c w' m' show ?thesis by blast
qed

text \<open>The inactive entities that a clean-up frees.\<close>

definition reaped :: "('b, 'o) world \<Rightarrow> addr list \<Rightarrow> addr set" where
  "reaped w xs = {a \<in> set xs. task_cnt_at w a = 0}"

lemma cleanup_loop_all:
  assumes "mgr_inv w m mgr" "n = length (mg_inactive mgr)"
    and "\<forall>a \<in> reaped w (mg_inactive mgr). iqueue_at w a = []"
  shows "\<exists>w' mgr'. cleanup_loop E False n w m = Inr w' \<and> mgr_inv w' m mgr' \<and> mg_inactive mgr' = [] \<and>
    set (mg_tmp mgr') = set (mg_tmp mgr) \<union> (set (mg_inactive mgr) - reaped w (mg_inactive mgr)) \<and>
    set (mg_entities mgr') = set (mg_entities mgr) - reaped w (mg_inactive mgr) \<and>
    w_ents w' = w_ents w |` (- reaped w (mg_inactive mgr)) \<and>
    w_txns w' = w_txns w \<and> w_svcs w' = w_svcs w \<and> w_sends w' = w_sends w"
  using assms
proof (induction n arbitrary: w mgr)
  case 0
  then show ?case by (auto simp: reaped_def)
next
  case (Suc n)
  then have ne: "mg_inactive mgr \<noteq> []" by auto
  obtain a rest where p: "flist_pop (en_fifo E) (mg_inactive mgr) = (a, rest)"
    using flist_pop_exists [OF ne] by blast
  note ps = flist_pop_set [OF p ne] flist_pop_props(2) [OF p ne]
  have mg: "w_mgrs w m = Some mgr" "a \<notin> set rest" using Suc.prems(1) ps by (auto simp: mgr_inv_def)
  have n: "n = length rest" using Suc.prems(2) ps(3) by simp
  show ?case
  proof (cases "task_cnt_at w a = 0")
    case False
    let ?mgr = "mgr\<lparr>mg_inactive := rest, mg_tmp := mg_tmp mgr @ [a]\<rparr>"
    let ?w = "set_mgr w m ?mgr"
    note k = cleanup_one_keep [OF Suc.prems(1) p ne False]
    have r: "reaped ?w rest = reaped w (mg_inactive mgr)" "iqueue_at ?w b = iqueue_at w b" for b
      using ps(1) False by (auto simp: reaped_def task_cnt_at_def iqueue_at_def set_mgr_def)
    obtain w' mgr' where "cleanup_loop E False n ?w m = Inr w'" "mgr_inv w' m mgr'" "mg_inactive mgr' = []"
      "set (mg_tmp mgr') = set (mg_tmp ?mgr) \<union> (set rest - reaped w (mg_inactive mgr))"
      "set (mg_entities mgr') = set (mg_entities mgr) - reaped w (mg_inactive mgr)"
      "w_ents w' = w_ents w |` (- reaped w (mg_inactive mgr))"
      "w_txns w' = w_txns w" "w_svcs w' = w_svcs w" "w_sends w' = w_sends w"
      using Suc.IH [of ?w ?mgr] k n r Suc.prems(3) by (auto simp: set_mgr_def)
    with k mg ne ps(1) False show ?thesis
      by (auto simp: with_mgr_def reaped_def)
  next
    case True
    then have "iqueue_at w a = []" using Suc.prems(3) ps(1) by (auto simp: reaped_def)
    with cleanup_one_free [OF Suc.prems(1) p ne True]
    obtain w1 mgr1 where c: "cleanup_one E False w m mgr = Inr w1" "mgr_inv w1 m mgr1"
      "mg_inactive mgr1 = rest" "mg_tmp mgr1 = mg_tmp mgr" "mg_entities mgr1 = removeAll a (mg_entities mgr)"
      "w_ents w1 = (w_ents w)(a := None)" "w_txns w1 = w_txns w" "w_svcs w1 = w_svcs w" "w_sends w1 = w_sends w"
      by blast
    have r: "reaped w (mg_inactive mgr) = insert a (reaped w1 rest)"
      using ps(1) True mg(2) c(6) by (auto simp: reaped_def task_cnt_at_def)
    have q: "\<forall>b \<in> reaped w1 rest. iqueue_at w1 b = []"
      using Suc.prems(3) r c(6) mg(2) by (auto simp: iqueue_at_def reaped_def)
    obtain w' mgr' where "cleanup_loop E False n w1 m = Inr w'" "mgr_inv w' m mgr'" "mg_inactive mgr' = []"
      "set (mg_tmp mgr') = set (mg_tmp mgr) \<union> (set rest - reaped w1 rest)"
      "set (mg_entities mgr') = set (removeAll a (mg_entities mgr)) - reaped w1 rest"
      "w_ents w' = (w_ents w)(a := None) |` (- reaped w1 rest)"
      "w_txns w' = w_txns w" "w_svcs w' = w_svcs w" "w_sends w' = w_sends w"
      using Suc.IH [OF c(2), unfolded c(3-9), OF n q] by blast
    moreover have "(w_ents w)(a := None) |` (- reaped w1 rest) = w_ents w |` (- reaped w (mg_inactive mgr))"
      using r by (auto simp: restrict_map_def fun_eq_iff)
    moreover have "set rest - reaped w1 rest = set (mg_inactive mgr) - reaped w (mg_inactive mgr)"
      using r ps(1) mg(2) by auto
    moreover have "set (removeAll a (mg_entities mgr)) - reaped w1 rest
        = set (mg_entities mgr) - reaped w (mg_inactive mgr)" using r by auto
    ultimately show ?thesis using c(1) mg(1) ne
      by (intro exI2 [of _ w' mgr']) (simp add: with_mgr_def)
  qed
qed

lemma mgr_ok_intro:
  assumes "w_mgrs w' m = Some mgr'" "mg_tmp mgr' = []"
    and "distinct (mg_entities mgr')" "distinct (mg_inactive mgr')" "set (mg_inactive mgr') \<subseteq> set (mg_entities mgr')"
    and "\<And>b. b \<in> set (mg_entities mgr') \<Longrightarrow> \<exists>e. w_ents w' b = Some e \<and> e_owner e = Some m \<and>
      ent_ok w' b e \<and> (e_status e = SK_ENTITY_DEAD \<longleftrightarrow> b \<in> set (mg_inactive mgr'))"
    and "st_total (mg_stat mgr') = int (length (mg_entities mgr'))"
    and "st_inactive (mg_stat mgr') = int (length (mg_inactive mgr'))"
    and "\<And>t. st_by_type (mg_stat mgr') t = int (length (filter (ent_type_at w' t) (mg_entities mgr')))"
  shows "mgr_ok w' m mgr'"
  using assms by (simp add: mgr_ok_def mgr_inv_def)

section \<open>A small world\<close>

text \<open>
  Manager 10 has the entities 1 (active, one transaction) and 2 (dead); entity 3 has no owner,
  entity 4 is dead with a transaction in its input queue.
\<close>

definition demo_entity :: "addr option \<Rightarrow> sk_entity_status \<Rightarrow> addr list \<Rightarrow> addr list \<Rightarrow> sk_entity" where
  "demo_entity owner st ts q = \<lparr>e_owner = owner, e_workflow = Some demo_workflow, e_half_txn = None,
     e_opt = default_opt\<lparr>opt_write := Some (Fn 1)\<rparr>, e_txns = Some ts, e_timers = Some [],
     e_type = SK_ENTITY_SOCK_V4TCP, e_status = st, e_flags = 0, e_task_cnt = int (length ts),
     e_ud = 7, e_iqueue = q\<rparr>"

definition demo_mgr :: sk_entity_mgr where
  "demo_mgr = \<lparr>mg_entities = [1, 2], mg_inactive = [2], mg_tmp = [], mg_owner_sched = Some 100,
     mg_stat = \<lparr>st_total = 2, st_inactive = 1, st_by_type = (\<lambda>_. 0)(SK_ENTITY_SOCK_V4TCP := 2)\<rparr>\<rparr>"

definition demo_world :: "(sk_srv_task cellbuf, u8 cellbuf) world" where
  "demo_world = empty_world\<lparr>
     w_mgrs := [10 \<mapsto> demo_mgr],
     w_ents := [1 \<mapsto> demo_entity (Some 10) SK_ENTITY_ACTIVE [5] [],
                2 \<mapsto> demo_entity (Some 10) SK_ENTITY_DEAD [] [],
                3 \<mapsto> demo_entity None SK_ENTITY_ACTIVE [] [],
                4 \<mapsto> demo_entity (Some 11) SK_ENTITY_DEAD [] [6]],
     w_txns := [5 \<mapsto> demo_txn, 6 \<mapsto> demo_txn\<lparr>tx_entity := 4\<rparr>]\<rparr>"

lemma demo_txn_entity: "tx_entity demo_txn = 1"
  by (simp add: demo_txn_def sk_txn_create_def)

lemma demo_mgr_ok: "mgr_ok demo_world 10 demo_mgr"
  by (rule mgr_ok_intro)
     (auto simp: demo_world_def demo_mgr_def demo_entity_def ent_ok_def ent_type_at_def demo_txn_entity)

lemma mgr_add_counts:
  assumes ok: "mgr_ok w m mgr" and e: "w_ents w a = Some e" "e_owner e = None"
    "e_status e \<noteq> SK_ENTITY_DEAD" "ent_ok w a e"
  shows "\<exists>w' mgr'. sk_entity_mgr_add w m a = Inr w' \<and> mgr_ok w' m mgr' \<and>
    mg_entities mgr' = mg_entities mgr @ [a] \<and> mg_inactive mgr' = mg_inactive mgr \<and>
    w_ents w' = (w_ents w)(a \<mapsto> e\<lparr>e_owner := Some m\<rparr>) \<and> w_txns w' = w_txns w"
proof -
  have inv: "mgr_inv w m mgr" "mg_tmp mgr = []" using ok by (auto simp: mgr_ok_def)
  have new: "a \<notin> set (mg_entities mgr)" using mgr_inv_ents [OF inv(1)] e by fastforce
  define mgr' where "mgr' = update_stat (mgr\<lparr>mg_entities := mg_entities mgr @ [a]\<rparr>) (e_type e) False 1"
  define fxs where "fxs = [Metric ''worker.entity_create''] @ (if is_tcp (e_type e)
      then [Metric ''global.connection_opened'', Metric ''worker.connection_opened''] else [])"
  define w' where "w' = set_mgr (fx (set_ent w a (e\<lparr>e_owner := Some m\<rparr>)) fxs) m mgr'"
  have m': "mg_entities mgr' = mg_entities mgr @ [a]" "mg_inactive mgr' = mg_inactive mgr"
    "mg_tmp mgr' = []" "mg_stat mgr' = (mg_stat mgr)\<lparr>st_total := st_total (mg_stat mgr) + 1,
       st_by_type := stat_add (st_by_type (mg_stat mgr)) (e_type e) 1\<rparr>"
    using inv(2) by (simp_all add: mgr'_def update_stat_def Let_def)
  have run: "sk_entity_mgr_add w m a = Inr w'"
    using inv(1) e new
    by (simp add: sk_entity_mgr_add_def with_mgr_def with_ent_def mgr_inv_def sk_entity_setowner_def
        hash_set_def Let_def w'_def fxs_def mgr'_def)
  have old: "filter (ent_type_at w' t) (mg_entities mgr) = filter (ent_type_at w t) (mg_entities mgr)" for t
    using new by (intro filter_cong) (auto simp: ent_type_at_def w'_def)
  have "mgr_ok w' m mgr'"
  proof (rule mgr_ok_intro)
    show "st_by_type (mg_stat mgr') t = int (length (filter (ent_type_at w' t) (mg_entities mgr')))" for t
      using inv(1) old [of t] by (simp add: m' mgr_inv_def stat_add_def ent_type_at_def w'_def)
    fix b assume "b \<in> set (mg_entities mgr')"
    then consider "b = a" | "b \<noteq> a" "b \<in> set (mg_entities mgr)" by (auto simp: m')
    then show "\<exists>e. w_ents w' b = Some e \<and> e_owner e = Some m \<and> ent_ok w' b e \<and>
        (e_status e = SK_ENTITY_DEAD \<longleftrightarrow> b \<in> set (mg_inactive mgr'))"
    proof cases
      case 1
      have "a \<notin> set (mg_inactive mgr)" using inv new by (auto simp: mgr_inv_def)
      with 1 e show ?thesis by (auto simp: w'_def m' ent_ok_def)
    next
      case 2
      with inv show ?thesis by (elim mgr_inv_ent) (auto simp: w'_def m' ent_ok_def)
    qed
  qed (use inv new in \<open>auto simp: m' w'_def mgr_inv_def\<close>)
  with run m' show ?thesis by (intro exI2 [of _ w' mgr']) (simp add: w'_def)
qed

text \<open>
  Adding a fresh entity to a manager registers it, sets its owner and keeps the counters
  exact; no other entity changes.
\<close>
theorem sk_entity_mgr_add_counts:
  assumes ok: "mgr_ok w m mgr" and e: "w_ents w a = Some e" "e_owner e = None"
    "e_status e \<noteq> SK_ENTITY_DEAD" "ent_ok w a e"
  shows "\<exists>w' mgr'. sk_entity_mgr_add w m a = Inr w' \<and> mgr_ok w' m mgr' \<and>
    mg_entities mgr' = mg_entities mgr @ [a] \<and> mg_inactive mgr' = mg_inactive mgr \<and>
    w_ents w' = (w_ents w)(a \<mapsto> e\<lparr>e_owner := Some m\<rparr>) \<and> w_txns w' = w_txns w"
  using assms by (rule mgr_add_counts)

theorem sk_entity_mgr_add_counts_witness:
  "\<exists>w' mgr'. sk_entity_mgr_add demo_world 10 3 = Inr w' \<and> mgr_ok w' 10 mgr' \<and> mg_entities mgr' = [1, 2, 3]"
  using sk_entity_mgr_add_counts [OF demo_mgr_ok, of 3 "demo_entity None SK_ENTITY_ACTIVE [] []"]
  by (auto simp: demo_world_def demo_entity_def ent_ok_def) (auto simp: demo_mgr_def)

lemma mgr_del_once:
  assumes ok: "mgr_ok w m mgr" and a: "a \<in> set (mg_entities mgr)" "a \<notin> set (mg_inactive mgr)"
  shows "\<exists>w' mgr' e. w_ents w a = Some e \<and> sk_entity_mgr_del E w m a = Inr w' \<and> mgr_ok w' m mgr' \<and>
    mg_entities mgr' = mg_entities mgr \<and> mg_inactive mgr' = mg_inactive mgr @ [a] \<and>
    w_ents w' = (w_ents w)(a \<mapsto> e\<lparr>e_ud := 0, e_status := SK_ENTITY_DEAD\<rparr>) \<and>
    w_txns w' = w_txns w \<and> w_fx w' = w_fx w @ [Opt_destroy a (e_ud e)] \<and>
    sk_entity_mgr_del E w' m a = Inr w'"
proof -
  have inv: "mgr_inv w m mgr" "mg_tmp mgr = []" using ok by (auto simp: mgr_ok_def)
  obtain e where e: "w_ents w a = Some e" "e_owner e = Some m" "ent_ok w a e" "e_status e \<noteq> SK_ENTITY_DEAD"
    using inv a by (elim mgr_inv_ent) auto
  define mgr' where "mgr' = update_stat (mgr\<lparr>mg_inactive := mg_inactive mgr @ [a]\<rparr>) (e_type e) True 1"
  define e' where "e' = e\<lparr>e_ud := 0, e_status := SK_ENTITY_DEAD\<rparr>"
  define w' where "w' = set_mgr (fx (set_ent w a e') [Opt_destroy a (e_ud e)]) m mgr'"
  have m': "mg_entities mgr' = mg_entities mgr" "mg_inactive mgr' = mg_inactive mgr @ [a]"
    "mg_tmp mgr' = []" "mg_stat mgr' = (mg_stat mgr)\<lparr>st_inactive := st_inactive (mg_stat mgr) + 1\<rparr>"
    using inv(2) by (simp_all add: mgr'_def update_stat_def Let_def)
  have run: "sk_entity_mgr_del E w m a = Inr w'"
    using inv(1) e unfolding w'_def mgr'_def e'_def
    by (simp add: sk_entity_mgr_del_def sk_entity_mark_def sk_entity_destroy_def world_defs mgr_inv_def)
  have t: "ent_type_at w' = ent_type_at w"
    using e by (auto simp: ent_type_at_def w'_def e'_def fun_eq_iff)
  have "mgr_ok w' m mgr'"
  proof (rule mgr_ok_intro)
    fix b assume "b \<in> set (mg_entities mgr')"
    then consider "b = a" | "b \<noteq> a" "b \<in> set (mg_entities mgr)" by (auto simp: m')
    then show "\<exists>e. w_ents w' b = Some e \<and> e_owner e = Some m \<and> ent_ok w' b e \<and>
        (e_status e = SK_ENTITY_DEAD \<longleftrightarrow> b \<in> set (mg_inactive mgr'))"
    proof cases
      case 1
      with e show ?thesis by (auto simp: w'_def e'_def m' ent_ok_def)
    next
      case 2
      with inv show ?thesis by (elim mgr_inv_ent) (auto simp: w'_def m' ent_ok_def)
    qed
  qed (use inv a t in \<open>auto simp: m' w'_def mgr_inv_def\<close>)
  moreover have "sk_entity_mgr_del E w' m a = Inr w'"
    using e by (simp add: sk_entity_mgr_del_def with_ent_def w'_def e'_def)
  ultimately show ?thesis using run e m'
    by (intro exI3 [of _ w' mgr' e]) (simp add: w'_def e'_def)
qed

text \<open>
  C7: deleting an entity releases what it wraps exactly once: the first call runs its
  \<^verbatim>\<open>destroy\<close> operation, marks it dead and queues it for the clean-up; a further call does
  nothing. Its transactions stay registered, and the counters stay exact.
\<close>
theorem sk_entity_mgr_del_once:
  assumes ok: "mgr_ok w m mgr" and a: "a \<in> set (mg_entities mgr)" "a \<notin> set (mg_inactive mgr)"
  shows "\<exists>w' mgr' e. w_ents w a = Some e \<and> sk_entity_mgr_del E w m a = Inr w' \<and> mgr_ok w' m mgr' \<and>
    mg_entities mgr' = mg_entities mgr \<and> mg_inactive mgr' = mg_inactive mgr @ [a] \<and>
    w_ents w' = (w_ents w)(a \<mapsto> e\<lparr>e_ud := 0, e_status := SK_ENTITY_DEAD\<rparr>) \<and>
    w_txns w' = w_txns w \<and> w_fx w' = w_fx w @ [Opt_destroy a (e_ud e)] \<and>
    sk_entity_mgr_del E w' m a = Inr w'"
  using assms by (rule mgr_del_once)

theorem sk_entity_mgr_del_once_witness:
  "\<exists>w' mgr'. sk_entity_mgr_del demo_env demo_world 10 1 = Inr w' \<and> mgr_ok w' 10 mgr' \<and>
     w_fx w' = [Opt_destroy 1 7] \<and> sk_entity_mgr_del demo_env w' 10 1 = Inr w'"
  using sk_entity_mgr_del_once [OF demo_mgr_ok, of 1 demo_env]
  by (fastforce simp: demo_mgr_def demo_world_def demo_entity_def empty_world_def)

lemma mgr_clean_dead:
  assumes ok: "mgr_ok w m mgr"
    and q: "\<forall>a \<in> reaped w (mg_inactive mgr). iqueue_at w a = []"
  shows "\<exists>w' mgr'. sk_entity_mgr_clean_dead E w m = Inr w' \<and> mgr_ok w' m mgr' \<and>
    set (mg_entities mgr') = set (mg_entities mgr) - reaped w (mg_inactive mgr) \<and>
    set (mg_inactive mgr') = set (mg_inactive mgr) - reaped w (mg_inactive mgr) \<and>
    w_ents w' = w_ents w |` (- reaped w (mg_inactive mgr)) \<and>
    w_txns w' = w_txns w \<and> w_svcs w' = w_svcs w \<and> w_sends w' = w_sends w"
proof -
  have inv: "mgr_inv w m mgr" and tmp: "mg_tmp mgr = []" using ok by (auto simp: mgr_ok_def)
  obtain w1 mgr1 where c: "cleanup_loop E False (length (mg_inactive mgr)) w m = Inr w1"
    "mgr_inv w1 m mgr1" "mg_inactive mgr1 = []"
    "set (mg_tmp mgr1) = set (mg_inactive mgr) - reaped w (mg_inactive mgr)"
    "set (mg_entities mgr1) = set (mg_entities mgr) - reaped w (mg_inactive mgr)"
    "w_ents w1 = w_ents w |` (- reaped w (mg_inactive mgr))"
    "w_txns w1 = w_txns w" "w_svcs w1 = w_svcs w" "w_sends w1 = w_sends w"
    using cleanup_loop_all [OF inv refl q, of E] tmp by auto
  let ?mgr = "mgr1\<lparr>mg_inactive := mg_tmp mgr1, mg_tmp := []\<rparr>"
  have "mgr_ok (set_mgr w1 m ?mgr) m ?mgr"
    using c(2,3) ent_type_at_cong [of "set_mgr w1 m ?mgr" w1] ent_ok_cong [of "set_mgr w1 m ?mgr" w1]
    by (simp add: mgr_ok_def mgr_inv_def)
  moreover have "w_mgrs w m = Some mgr" "w_mgrs w1 m = Some mgr1" using inv c(2) by (auto simp: mgr_inv_def)
  ultimately show ?thesis
    using c by (simp add: sk_entity_mgr_clean_dead_def cleanup_dead_entities_def with_mgr_def Let_def)
      (auto simp: set_mgr_def intro!: exI [of _ ?mgr])
qed

text \<open>
  C6: a round of \<^verbatim>\<open>sk_entity_mgr_clean_dead\<close> frees exactly the inactive entities that have no
  transaction under way, keeps the others for the next round, keeps the counters of the manager
  exact (total, inactive and per type) and touches nothing else. The input queues of the freed
  entities have to be empty (see the theorem on waiting transactions).
\<close>
theorem sk_entity_mgr_clean_dead_frees:
  assumes ok: "mgr_ok w m mgr"
    and q: "\<forall>a \<in> reaped w (mg_inactive mgr). iqueue_at w a = []"
  shows "\<exists>w' mgr'. sk_entity_mgr_clean_dead E w m = Inr w' \<and> mgr_ok w' m mgr' \<and>
    set (mg_entities mgr') = set (mg_entities mgr) - reaped w (mg_inactive mgr) \<and>
    set (mg_inactive mgr') = set (mg_inactive mgr) - reaped w (mg_inactive mgr) \<and>
    w_ents w' = w_ents w |` (- reaped w (mg_inactive mgr)) \<and>
    w_txns w' = w_txns w \<and> w_svcs w' = w_svcs w \<and> w_sends w' = w_sends w"
  using assms by (rule mgr_clean_dead)

theorem sk_entity_mgr_clean_dead_frees_witness:
  "\<exists>w' mgr'. sk_entity_mgr_clean_dead demo_env demo_world 10 = Inr w' \<and> mgr_ok w' 10 mgr' \<and>
     set (mg_entities mgr') = {1} \<and> w_ents w' 2 = None \<and> w_ents w' 1 \<noteq> None"
proof -
  have r: "reaped demo_world (mg_inactive demo_mgr) = {2}"
    by (auto simp: reaped_def demo_mgr_def demo_world_def demo_entity_def task_cnt_at_def)
  have q: "\<forall>a \<in> reaped demo_world (mg_inactive demo_mgr). iqueue_at demo_world a = []"
    by (simp add: r) (simp add: iqueue_at_def demo_world_def demo_entity_def)
  obtain w' mgr' where "sk_entity_mgr_clean_dead demo_env demo_world 10 = Inr w'" "mgr_ok w' 10 mgr'"
    "set (mg_entities mgr') = set (mg_entities demo_mgr) - {2}" "w_ents w' = w_ents demo_world |` (- {2})"
    using sk_entity_mgr_clean_dead_frees [OF demo_mgr_ok q, of demo_env] unfolding r by blast
  moreover have "set (mg_entities demo_mgr) - {2} = {1}" by (auto simp: demo_mgr_def)
  moreover have "w_ents demo_world 1 \<noteq> None" by (simp add: demo_world_def)
  ultimately show ?thesis by (intro exI2 [of _ w' mgr']) simp
qed

text \<open>
  C8: a dead entity whose input queue is not empty cannot be freed: the table of its transactions
  is deleted first, and destroying a waiting transaction then looks itself up in that table.
  The code uses freed memory whenever a client goes away while a request of it is queued.
\<close>
theorem sk_entity_destroy_waiting_txn:
  assumes e: "w_ents w a = Some e" "ent_ok w a e" "e_status e = SK_ENTITY_DEAD"
    and q: "e_iqueue e \<noteq> []"
    and live: "\<forall>t \<in> set (e_iqueue e). t \<notin> set (the (e_txns e)) \<and>
      (\<exists>txn. w_txns w t = Some txn \<and> tx_entity txn = a)"
  shows "sk_entity_destroy E w a = Inl Freed"
proof -
  obtain ts tm where tm: "e_timers e = Some tm" "e_txns e = Some ts" using e(2) by (auto simp: ent_ok_def)
  let ?w = "fx w [Metric ''global.entity_destroy'']"
  have d: "destroy_txns ?w ts = Inr (?w\<lparr>w_ents := (w_ents ?w)(a \<mapsto> e\<lparr>e_txns := Some [], e_task_cnt := 0\<rparr>),
      w_txns := w_txns ?w |` (- set ts)\<rparr>)"
    using e tm by (intro destroy_txns_all) (auto simp: ent_ok_def fx_def)
  obtain t rest where p: "flist_pop (en_fifo E) (e_iqueue e) = (t, rest)"
    using flist_pop_exists [OF q] by blast
  have t: "t \<in> set (e_iqueue e)" using flist_pop_set(1) [OF p q] by simp
  obtain n where n: "length (e_iqueue e) = Suc n" using q by (cases "e_iqueue e") auto
  obtain txn where txn: "w_txns w t = Some txn" "tx_entity txn = a" "t \<notin> set ts"
    using live t tm by auto
  show ?thesis using e tm d p q n txn
    by (simp add: sk_entity_destroy_def world_defs sk_entity_iqueue_pop_def sk_txn_destroy_def
        sk_entity_txndel_def)
qed

theorem sk_entity_destroy_waiting_txn_witness:
  "sk_entity_destroy demo_env demo_world 4 = Inl Freed"
  using sk_entity_destroy_waiting_txn
    [of demo_world 4 "demo_entity (Some 11) SK_ENTITY_DEAD [] [6]" demo_env]
  by (simp add: demo_world_def demo_entity_def ent_ok_def)

end
