(* ===== verification/Rw_Queue.thy ===== *)
theory Rw_Queue
  imports Sk_Queue
begin

text \<open>
  What a service relies on when it uses its task queue: the interface \<open>rw_queue\<close>. The queue
  hands out one task at a time; a reader is never handed out while a writer runs, a writer only
  when nothing runs, and an idle queue that holds tasks hands one out. The read-write modes of
  \<open>Sk_Queue\<close> provide it, over any buffer that satisfies the laws of \<open>fmbuf\<close>.
\<close>

abbreviation rw_states :: "sk_queue_state set" where
  "rw_states \<equiv> {SK_QUEUE_STATE_IDLE, SK_QUEUE_STATE_READ, SK_QUEUE_STATE_WRITE}"

abbreviation rw_elems :: "sk_queue_elem_type set" where
  "rw_elems \<equiv> {SK_QUEUE_ELEM_READ, SK_QUEUE_ELEM_WRITE}"

text \<open>When a task may start in a state, and the state in which it runs.\<close>

definition may_start :: "sk_queue_elem_type \<Rightarrow> sk_queue_state \<Rightarrow> bool" where
  "may_start t st \<longleftrightarrow>
     t = SK_QUEUE_ELEM_READ \<and> st \<in> {SK_QUEUE_STATE_IDLE, SK_QUEUE_STATE_READ} \<or>
     t = SK_QUEUE_ELEM_WRITE \<and> st = SK_QUEUE_STATE_IDLE"

fun state_for :: "sk_queue_elem_type \<Rightarrow> sk_queue_state" where
  "state_for SK_QUEUE_ELEM_READ = SK_QUEUE_STATE_READ"
| "state_for SK_QUEUE_ELEM_WRITE = SK_QUEUE_STATE_WRITE"
| "state_for SK_QUEUE_ELEM_EXCLUSIVE = SK_QUEUE_STATE_LOCK"

text \<open>The tasks that run agree with the state: none, readers only, or a single writer.\<close>

definition excl :: "('e \<Rightarrow> sk_queue_elem_type) \<Rightarrow> sk_queue_state \<Rightarrow> 'e list \<Rightarrow> bool" where
  "excl ty st run \<longleftrightarrow> (case st of
     SK_QUEUE_STATE_IDLE \<Rightarrow> run = []
   | SK_QUEUE_STATE_READ \<Rightarrow> run \<noteq> [] \<and> (\<forall>t \<in> set run. ty t = SK_QUEUE_ELEM_READ)
   | SK_QUEUE_STATE_WRITE \<Rightarrow> (\<exists>t. run = [t] \<and> ty t = SK_QUEUE_ELEM_WRITE)
   | _ \<Rightarrow> False)"

lemma excl_start:
  assumes "excl ty st run" "may_start (ty e) st"
  shows "excl ty (state_for (ty e)) (run @ [e])"
  using assms by (auto simp: excl_def may_start_def split: sk_queue_state.splits)

lemma excl_complete:
  assumes "excl ty st run" "t \<in> set run" "remove1 t run \<noteq> []"
  shows "excl ty st (remove1 t run)"
  using assms by (auto simp: excl_def split: sk_queue_state.splits dest: notin_set_remove1 set_remove1_subset [THEN subsetD])

lemma excl_means:
  assumes "excl ty st run"
  shows "(\<forall>t \<in> set run. ty t = SK_QUEUE_ELEM_WRITE \<longrightarrow> run = [t]) \<and>
    (\<forall>t \<in> set run. ty t \<in> rw_elems) \<and> (st = SK_QUEUE_STATE_IDLE \<longleftrightarrow> run = [])"
  using assms by (cases st) (auto simp: excl_def)

text \<open>The list that an element of type \<open>t\<close> goes to is shorter than the limit of the queue.\<close>

definition queue_room :: "('b \<Rightarrow> 'e list) \<Rightarrow> 'b sk_queue \<Rightarrow> sk_queue_elem_type \<Rightarrow> bool" where
  "queue_room items q t \<longleftrightarrow>
     length (if q_mode q = SK_QUEUE_RW_PR \<and> t = SK_QUEUE_ELEM_WRITE then q_writes items q else q_main items q)
       < unat (q_max_slots q)"

locale rw_queue =
  fixes push :: "'q \<Rightarrow> 'e \<Rightarrow> ('q \<times> int) res"
    and pull1 :: "'q \<Rightarrow> ('q \<times> (size_t \<times> 'e) list) res"
    and setstate :: "'q \<Rightarrow> sk_queue_state \<Rightarrow> 'q res"
    and empty :: "'q \<Rightarrow> bool res"
    and state :: "'q \<Rightarrow> sk_queue_state"
    and waiting :: "'q \<Rightarrow> 'e list"
    and ok :: "'q \<Rightarrow> bool"
    and ty :: "'e \<Rightarrow> sk_queue_elem_type"
    and room :: "'q \<Rightarrow> sk_queue_elem_type \<Rightarrow> bool"
  assumes push: "\<lbrakk>ok q; ty e \<in> rw_elems\<rbrakk> \<Longrightarrow> \<exists>q' r. push q e = Inr (q', r) \<and> ok q' \<and> state q' = state q \<and>
      (if room q (ty e) then r = 0 \<and> mset (waiting q') = add_mset e (mset (waiting q))
       else r = 1 \<and> waiting q' = waiting q)"
    and pull1: "\<lbrakk>ok q; state q \<in> rw_states\<rbrakk> \<Longrightarrow> \<exists>q' ts. pull1 q = Inr (q', ts) \<and> ok q' \<and>
      state q' = state q \<and> length ts \<le> 1 \<and> mset (waiting q) = mset (map snd ts) + mset (waiting q') \<and>
      (\<forall>e \<in> set (map snd ts). may_start (ty e) (state q)) \<and>
      (state q = SK_QUEUE_STATE_IDLE \<and> waiting q \<noteq> [] \<longrightarrow> ts \<noteq> [])"
    and setstate: "\<lbrakk>ok q; st \<in> rw_states\<rbrakk> \<Longrightarrow> \<exists>q'. setstate q st = Inr q' \<and> ok q' \<and> state q' = st \<and>
      waiting q' = waiting q"
    and empty: "ok q \<Longrightarrow> empty q = Inr (waiting q = [])"
begin

text \<open>
  One turn of a dispatcher: it takes a task, if there is one that may start, and moves the queue
  into the state in which that task runs.
\<close>

lemma dispatch:
  assumes "ok q" "state q \<in> rw_states" "waiting q \<noteq> []"
  obtains q' where "pull1 q = Inr (q', [])" "ok q'" "state q' = state q" "state q \<noteq> SK_QUEUE_STATE_IDLE"
      "mset (waiting q') = mset (waiting q)"
  | q' off e q'' where "pull1 q = Inr (q', [(off, e)])" "ok q'" "state q' = state q"
      "may_start (ty e) (state q)" "setstate q' (state_for (ty e)) = Inr q''" "ok q''"
      "state q'' = state_for (ty e)" "mset (waiting q) = add_mset e (mset (waiting q''))"
proof -
  obtain q' ts where p: "pull1 q = Inr (q', ts)" "ok q'" "state q' = state q" "length ts \<le> 1"
    "mset (waiting q) = mset (map snd ts) + mset (waiting q')"
    "\<forall>e \<in> set (map snd ts). may_start (ty e) (state q)"
    "state q = SK_QUEUE_STATE_IDLE \<and> waiting q \<noteq> [] \<longrightarrow> ts \<noteq> []"
    using pull1 [OF assms(1,2)] by blast
  show ?thesis
  proof (cases ts)
    case Nil
    with p assms(3) that(1) show ?thesis by auto
  next
    case (Cons x xs)
    with p(4) have ts: "ts = [x]" by simp
    have "state_for (ty (snd x)) \<in> rw_states"
      using p(6) ts by (auto simp: may_start_def)
    then obtain q'' where "setstate q' (state_for (ty (snd x))) = Inr q''" "ok q''"
      "state q'' = state_for (ty (snd x))" "waiting q'' = waiting q'"
      using setstate [OF p(2)] by blast
    with p ts that(2) [of q' "fst x" "snd x" q''] show ?thesis by simp
  qed
qed

end

section \<open>The task queue provides the interface\<close>

locale task_buf = fmbuf F u items invar
  for F :: "('b, 'e) fmbuf_ops" and u :: size_t and items :: "'b \<Rightarrow> 'e list" and invar :: "'b \<Rightarrow> bool" +
  fixes ty :: "'e \<Rightarrow> sk_queue_elem_type"
begin

lemma rw_push:
  assumes "sk_queue_wf F ty items invar q" "q_elem_sz q = u" "q_mode q \<noteq> SK_QUEUE_EXCLUSIVE"
    and "ty e \<in> rw_elems"
  shows "\<exists>q' r. sk_queue_push F ty q e = Inr (q', r) \<and>
    (sk_queue_wf F ty items invar q' \<and> q_elem_sz q' = u \<and> q_mode q' \<noteq> SK_QUEUE_EXCLUSIVE) \<and>
    q_state q' = q_state q \<and>
    (if queue_room items q (ty e)
     then r = 0 \<and> mset (q_main items q' @ q_writes items q') = add_mset e (mset (q_main items q @ q_writes items q))
     else r = 1 \<and> q_main items q' @ q_writes items q' = q_main items q @ q_writes items q)"
proof -
  have "elem_ok (q_mode q) (ty e)" using assms(3,4) by (cases "q_mode q") auto
  from queue_push [OF assms(1,2) this] show ?thesis
    using assms(2,3) by (auto simp: push_spec_def queue_room_def split: if_splits)
qed

lemma rw_pull1:
  assumes wf: "sk_queue_wf F ty items invar q" "q_elem_sz q = u" and m: "q_mode q \<noteq> SK_QUEUE_EXCLUSIVE"
    and st: "q_state q \<in> rw_states"
  shows "\<exists>q' ts. sk_queue_pull F ty q 1 = Inr (q', ts) \<and>
    (sk_queue_wf F ty items invar q' \<and> q_elem_sz q' = u \<and> q_mode q' \<noteq> SK_QUEUE_EXCLUSIVE) \<and>
    q_state q' = q_state q \<and> length ts \<le> 1 \<and>
    mset (q_main items q @ q_writes items q) = mset (map snd ts) + mset (q_main items q' @ q_writes items q') \<and>
    (\<forall>e \<in> set (map snd ts). may_start (ty e) (q_state q)) \<and>
    (q_state q = SK_QUEUE_STATE_IDLE \<and> q_main items q @ q_writes items q \<noteq> [] \<longrightarrow> ts \<noteq> [])"
proof -
  let ?rs = "q_main items q" and ?ws = "q_writes items q"
  have one: "min (unat (1 :: size_t)) (unat (q_max_slots q)) = 1"
    using wf(1) by (simp add: sk_queue_wf_def word_less_nat_alt)
  have ok: "pull_state_ok (q_mode q) (q_state q)" using st by (simp add: pull_state_ok_def)
  obtain k l where kl: "pull_spec (q_mode q) (q_state q) ty 1 ?rs ?ws = (k, l)" by (rule prod.exhaust)
  obtain q' where q': "sk_queue_pull F ty q 1 = Inr (q', pull_writes 0 0 u (take k ?rs @ take l ?ws))"
    "sk_queue_wf F ty items invar q'" "q_main items q' = drop k ?rs" "q_writes items q' = drop l ?ws"
    "q_mode q' = q_mode q" "q_state q' = q_state q" "q_elem_sz q' = q_elem_sz q"
    using queue_pull [OF wf, of 1 k l] ok kl one by auto
  have wr: "q_mode q = SK_QUEUE_RW_PW \<Longrightarrow> ?ws = []"
    using wf(1) by (auto simp: sk_queue_wf_def q_writes_def split: option.splits)
  have tw: "\<forall>e \<in> set ?ws. ty e = SK_QUEUE_ELEM_WRITE"
    "q_mode q = SK_QUEUE_RW_PR \<Longrightarrow> \<forall>e \<in> set ?rs. ty e = SK_QUEUE_ELEM_READ"
    "\<forall>e \<in> set ?rs. ty e \<in> rw_elems"
    using wf(1) m by (auto simp: sk_queue_wf_def; cases "q_mode q"; auto)+
  have len: "length (take k ?rs @ take l ?ws) \<le> 1"
    using kl m by (cases "q_mode q") (auto simp: pull_spec_def reads_prefix_def split: if_splits)
  have "mset (take k ?rs @ take l ?ws) + mset (drop k ?rs @ drop l ?ws) = mset (?rs @ ?ws)"
    by (simp only: mset_append [symmetric] mset.simps)
       (metis (no_types, lifting) append_take_drop_id mset_append union_assoc union_commute)
  moreover have "may_start (ty e) (q_state q)" if "e \<in> set (take k ?rs @ take l ?ws)" for e
  proof (cases "q_mode q")
    case SK_QUEUE_RW_PR
    with that kl tw st show ?thesis
      by (auto simp: pull_spec_def may_start_def split: if_splits dest!: in_set_takeD)
  next
    case SK_QUEUE_RW_PW
    show ?thesis
    proof (cases "q_state q = SK_QUEUE_STATE_IDLE \<and> ?rs \<noteq> [] \<and> ty (hd ?rs) = SK_QUEUE_ELEM_WRITE")
      case True
      with SK_QUEUE_RW_PW kl that wr show ?thesis
        by (cases ?rs) (auto simp: pull_spec_def may_start_def)
    next
      case False
      with SK_QUEUE_RW_PW kl that wr st have "q_state q \<noteq> SK_QUEUE_STATE_WRITE" "e \<in> set (take (reads_prefix ty 1 ?rs) ?rs)"
        by (auto simp: pull_spec_def split: if_splits)
      with set_take_takeWhile [of e ty 1 ?rs] st show ?thesis by (auto simp: may_start_def)
    qed
  qed (use m in auto)
  moreover have "take k ?rs @ take l ?ws \<noteq> []" if idle: "q_state q = SK_QUEUE_STATE_IDLE" "?rs @ ?ws \<noteq> []"
  proof (cases "q_mode q")
    case SK_QUEUE_RW_PR
    with idle kl show ?thesis by (auto simp: pull_spec_def split: if_splits)
  next
    case SK_QUEUE_RW_PW
    then obtain x xs where "?rs = x # xs" using idle wr by (cases ?rs) auto
    with SK_QUEUE_RW_PW idle kl tw(3) wr show ?thesis
      by (auto simp: pull_spec_def reads_prefix_def split: if_splits)
  qed (use m in auto)
  ultimately show ?thesis using q' wf(2) m len
    by (intro exI2 [of _ q' "pull_writes 0 0 u (take k ?rs @ take l ?ws)"]) simp
qed

lemma rw_setstate:
  assumes "sk_queue_wf F ty items invar q" "q_mode q \<noteq> SK_QUEUE_EXCLUSIVE" "st \<in> rw_states"
  shows "sk_queue_setstate q st = Inr (q\<lparr>q_state := st\<rparr>)"
  using assms by (cases "q_mode q") (auto simp: sk_queue_setstate_def)

lemma wf_setstate [simp]:
  "sk_queue_wf F ty items invar (q\<lparr>q_state := st\<rparr>) = sk_queue_wf F ty items invar q"
  by (simp add: sk_queue_wf_def buf_wf_def q_main_def q_writes_def)

end

sublocale task_buf \<subseteq> rwq: rw_queue "sk_queue_push F ty" "\<lambda>q. sk_queue_pull F ty q 1"
  sk_queue_setstate "sk_queue_empty F" q_state "\<lambda>q. q_main items q @ q_writes items q"
  "\<lambda>q. sk_queue_wf F ty items invar q \<and> q_elem_sz q = u \<and> q_mode q \<noteq> SK_QUEUE_EXCLUSIVE" ty "queue_room items"
proof (unfold_locales, goal_cases)
  case (1 q e)
  then show ?case using rw_push [of q e] by blast
next
  case (2 q)
  then show ?case using rw_pull1 [of q] by blast
next
  case (3 q st)
  then show ?case using rw_setstate [of q st] by (auto simp: q_main_def q_writes_def)
next
  case (4 q)
  then show ?case using queue_empty [of ty q] by auto
qed

end
