(* ===== verification/Sk_Service.thy ===== *)
theory Sk_Service
  imports Sk_Entity Rw_Queue
begin

text \<open>
  Services: \<^verbatim>\<open>src/src/components/sk_service.c\<close>, \<^verbatim>\<open>src/src/common/sk_service_data.c\<close> and the
  call of a service from a module (\<^verbatim>\<open>skull_txn_iocall\<close> of \<^verbatim>\<open>src/src/user-c/src/txn_helper.c\<close>).

  A service owns data of the user and a queue of tasks. The master scheduler queues the tasks
  and hands them to workers, readers together and a writer alone; \<^verbatim>\<open>running_task_cnt\<close> counts the
  tasks handed out. Timer jobs of a service (\<^verbatim>\<open>sk_service_job_create\<close>) need the timer service and
  are not part of this theory.
\<close>

section \<open>Definitions\<close>

text \<open>\<^verbatim>\<open>sizeof(sk_srv_task_t)\<close> on a 64-bit target.\<close>

definition SK_SRV_TASK_SZ :: size_t where
  "SK_SRV_TASK_SZ = 72"

definition SK_SRV_MAX_TASK :: size_t where
  "SK_SRV_MAX_TASK = 1024"

abbreviation srv_ty :: "sk_srv_task \<Rightarrow> sk_queue_elem_type" where
  "srv_ty \<equiv> ts_base_type"

subsection \<open>The queue of a service\<close>

definition sk_service_pop_task ::
  "('b, sk_srv_task) fmbuf_ops \<Rightarrow> 'b sk_service \<Rightarrow>
   ('b sk_service \<times> sk_srv_status \<times> sk_srv_task option) res" where
  "sk_service_pop_task F sv =
     rbind (sk_queue_empty F (sv_pending_tasks sv)) (\<lambda>empty.
       if empty then Inr (sv, SK_SRV_STATUS_IDLE, None)
       else rbind (sk_queue_pull F srv_ty (sv_pending_tasks sv) 1) (\<lambda>(q, ts).
         let sv = sv\<lparr>sv_pending_tasks := q\<rparr>
         in case ts of
              [] \<Rightarrow> Inr (sv, SK_SRV_STATUS_PENDING, None)
            | (_, t) # _ \<Rightarrow> Inr (sv, SK_SRV_STATUS_OK, Some t)))"

definition sk_service_handle_exception :: "sk_srv_status \<Rightarrow> 'a res \<Rightarrow> 'a res" where
  "sk_service_handle_exception st k =
     (if st \<in> {SK_SRV_STATUS_OK, SK_SRV_STATUS_PENDING, SK_SRV_STATUS_IDLE} then k else Inl Assert)"

definition sk_service_data_create ::
  "('b, sk_srv_task) fmbuf_ops \<Rightarrow> sk_service_cfg \<Rightarrow> 'b sk_queue option res" where
  "sk_service_data_create F cfg =
     (let queue_mode = (case sc_data_mode cfg of
            SK_SRV_DATA_MODE_RW_PR \<Rightarrow> SK_QUEUE_RW_PR
          | SK_SRV_DATA_MODE_RW_PW \<Rightarrow> SK_QUEUE_RW_PW);
          max_queue_limitation = (- 1) div SK_SRV_TASK_SZ;
          max_queue_size =
            (if 0 < sc_max_qsize cfg then
               (if max_queue_limitation < word_of_int (sc_max_qsize cfg) then max_queue_limitation
                else word_of_int (sc_max_qsize cfg))
             else SK_SRV_MAX_TASK)
      in sk_queue_create F queue_mode SK_SRV_TASK_SZ 0 max_queue_size)"

definition sk_service_create ::
  "('b, sk_srv_task) fmbuf_ops \<Rightarrow> string \<Rightarrow> sk_service_cfg \<Rightarrow> 'b sk_service res" where
  "sk_service_create F name cfg =
     rbind (sk_service_data_create F cfg) (\<lambda>q. deref q (\<lambda>q.
       Inr \<lparr>sv_running_task_cnt = 0, sv_name = name, sv_cfg = cfg, sv_pending_tasks = q,
            sv_data = 0, sv_apis = Map.empty\<rparr>))"

definition sk_service_api :: "'b sk_service \<Rightarrow> string \<Rightarrow> sk_service_api option" where
  "sk_service_api sv apiname = sv_apis sv apiname"

definition sk_service_api_register ::
  "'b sk_service \<Rightarrow> string \<Rightarrow> sk_service_api_type \<Rightarrow> 'b sk_service" where
  "sk_service_api_register sv name typ =
     (case sv_apis sv name of
        Some _ \<Rightarrow> sv
      | None \<Rightarrow> sv\<lparr>sv_apis := (sv_apis sv)(name \<mapsto> \<lparr>api_type = typ, api_name = name\<rparr>)\<rparr>)"

text \<open>\<open>init\<close> is the user's initialisation: it may set the data and returns a code.\<close>

definition sk_service_start ::
  "('b sk_service \<Rightarrow> 'b sk_service \<times> int) \<Rightarrow> 'b sk_service \<Rightarrow> ('b sk_service \<times> int) res" where
  "sk_service_start init sv =
     rbind (sk_queue_setstate (sv_pending_tasks sv) SK_QUEUE_STATE_INIT) (\<lambda>q.
       let (sv, r) = init (sv\<lparr>sv_pending_tasks := q\<rparr>)
       in rbind (sk_queue_setstate (sv_pending_tasks sv) SK_QUEUE_STATE_IDLE) (\<lambda>q.
            Inr (sv\<lparr>sv_pending_tasks := q\<rparr>, r)))"

definition sk_service_stop ::
  "('b sk_service \<Rightarrow> 'b sk_service) \<Rightarrow> 'b sk_service \<Rightarrow> 'b sk_service res" where
  "sk_service_stop release sv =
     rbind (sk_queue_setstate (sv_pending_tasks sv) SK_QUEUE_STATE_DESTROY) (\<lambda>q.
       Inr (release (sv\<lparr>sv_pending_tasks := q\<rparr>)))"

definition sk_service_push_task ::
  "('b, sk_srv_task) fmbuf_ops \<Rightarrow> 'b sk_service \<Rightarrow> sk_srv_task \<Rightarrow> ('b sk_service \<times> sk_srv_status) res" where
  "sk_service_push_task F sv task =
     (if ts_io_status task \<noteq> SK_SRV_IO_STATUS_OK then Inr (sv, SK_SRV_STATUS_NOT_PUSHED)
      else rbind (sk_queue_push F srv_ty (sv_pending_tasks sv) task) (\<lambda>(q, ret).
        Inr (sv\<lparr>sv_pending_tasks := q\<rparr>,
             if ret \<noteq> 0 then SK_SRV_STATUS_BUSY else SK_SRV_STATUS_OK)))"

definition sk_service_task_setcomplete :: "'b sk_service \<Rightarrow> 'b sk_service res" where
  "sk_service_task_setcomplete sv0 =
     (let sv = sv0\<lparr>sv_running_task_cnt := sv_running_task_cnt sv0 - 1\<rparr>
      in if sv_running_task_cnt sv = 0
         then rbind (sk_queue_setstate (sv_pending_tasks sv) SK_QUEUE_STATE_IDLE) (\<lambda>q.
                Inr (sv\<lparr>sv_pending_tasks := q\<rparr>))
         else Inr sv)"

subsection \<open>Data of the user\<close>

definition sk_service_data :: "'b sk_service \<Rightarrow> addr res" where
  "sk_service_data sv =
     (if q_state (sv_pending_tasks sv) \<in> {SK_QUEUE_STATE_INIT, SK_QUEUE_STATE_DESTROY, SK_QUEUE_STATE_WRITE}
      then Inr (sv_data sv) else Inl Assert)"

definition sk_service_data_const :: "'b sk_service \<Rightarrow> addr" where
  "sk_service_data_const sv = sv_data sv"

definition sk_service_data_set :: "'b sk_service \<Rightarrow> addr \<Rightarrow> 'b sk_service res" where
  "sk_service_data_set sv d =
     (if q_state (sv_pending_tasks sv) \<in> {SK_QUEUE_STATE_INIT, SK_QUEUE_STATE_DESTROY, SK_QUEUE_STATE_WRITE}
      then Inr (sv\<lparr>sv_data := d\<rparr>) else Inl Assert)"

subsection \<open>Handing tasks to schedulers\<close>

definition sk_core_bio :: "('b, 'o) sk_env \<Rightarrow> int \<Rightarrow> addr option" where
  "sk_core_bio E idx =
     (let bidx = idx - 1
      in if bidx < 0 \<or> int (length (en_bios E)) \<le> bidx then None else Some (en_bios E ! nat bidx))"

definition validate_bidx :: "('b, 'o) sk_env \<Rightarrow> int \<Rightarrow> bool" where
  "validate_bidx E idx =
     (if 0 < idx \<and> sk_core_bio E idx = None then False
      else if idx < 0 \<and> sk_core_bio E 1 = None then False
      else True)"

definition find_target_sched :: "('b, 'o) sk_env \<Rightarrow> addr \<Rightarrow> int \<Rightarrow> addr res" where
  "find_target_sched E src bidx =
     (if bidx = 0 then Inr src
      else if 0 < bidx then
        sk_assert (bidx \<le> int (length (en_bios E))) (deref (sk_core_bio E bidx) Inr)
      else deref (sk_core_bio E 1) Inr)"

text \<open>\<open>cur\<close> is \<^verbatim>\<open>SK_ENV_SCHED\<close>.\<close>

definition schedule_api_task ::
  "('b, 'o) sk_env \<Rightarrow> ('b, 'o) world \<Rightarrow> addr \<Rightarrow> string \<Rightarrow> sk_srv_task \<Rightarrow> ('b, 'o) world res" where
  "schedule_api_task E w cur name task =
     rbind (find_target_sched E (ts_src task) (ts_bidx task)) (\<lambda>target.
     with_txn w (ta_txn (ts_data task)) (\<lambda>txn.
       Inr (send w cur (Some target) (tx_entity txn) (Some (ta_txn (ts_data task)))
             (Svc_task_run name (ta_name (ts_data task)) (ts_io_status task) (ts_src task)
                (ta_txn_task (ts_data task))))))"

definition schedule_api_errortask ::
  "('b, 'o) sk_env \<Rightarrow> ('b, 'o) world \<Rightarrow> addr \<Rightarrow> string \<Rightarrow> sk_srv_task \<Rightarrow> ('b, 'o) world res" where
  "schedule_api_errortask E w cur name task =
     with_txn w (ta_txn (ts_data task)) (\<lambda>txn.
       Inr (send w cur (Some (ts_src task)) (tx_entity txn) (Some (ta_txn (ts_data task)))
             (Svc_task_cb (ta_txn_task (ts_data task)) name (ta_name (ts_data task))
                SK_TXN_TASK_BUSY False)))"

definition schedule_timer_task ::
  "('b, 'o) sk_env \<Rightarrow> ('b, 'o) world \<Rightarrow> addr \<Rightarrow> string \<Rightarrow> sk_srv_task \<Rightarrow> ('b, 'o) world res" where
  "schedule_timer_task E w cur name task =
     (let status = (if ts_io_status task = SK_SRV_IO_STATUS_OK
                    then SK_SRV_JOB_OK else SK_SRV_JOB_ERROR_BUSY)
      in rbind (if status = SK_SRV_JOB_OK then find_target_sched E (ts_src task) (ts_bidx task)
                else Inr (ts_src task)) (\<lambda>target.
           Inr (send w cur (Some target) (tt_entity (ts_data task)) None
                 (Svc_timer_run name (tt_job (ts_data task)) (tt_ud (ts_data task))
                    (tt_valid (ts_data task)) status (tt_interval (ts_data task))))))"

definition sk_service_schedule_errortask ::
  "('b, 'o) sk_env \<Rightarrow> ('b, 'o) world \<Rightarrow> addr \<Rightarrow> string \<Rightarrow> sk_srv_task \<Rightarrow> ('b, 'o) world res" where
  "sk_service_schedule_errortask E w cur name task = (case ts_data task of
     SK_SRV_TASK_API_QUERY _ _ _ _ \<Rightarrow> schedule_api_errortask E w cur name task
   | SK_SRV_TASK_TIMER _ _ _ _ _ \<Rightarrow> schedule_timer_task E w cur name task)"

definition sk_service_schedule_normaltask ::
  "('b, 'o) sk_env \<Rightarrow> ('b, 'o) world \<Rightarrow> addr \<Rightarrow> string \<Rightarrow> sk_srv_task \<Rightarrow> ('b, 'o) world res" where
  "sk_service_schedule_normaltask E w cur name task = with_svc w name (\<lambda>sv.
     let w = set_svc w name (sv\<lparr>sv_running_task_cnt := sv_running_task_cnt sv + 1\<rparr>)
     in case ts_data task of
          SK_SRV_TASK_API_QUERY _ _ _ _ \<Rightarrow> schedule_api_task E w cur name task
        | SK_SRV_TASK_TIMER _ _ _ _ _ \<Rightarrow> schedule_timer_task E w cur name task)"

definition sk_service_schedule_task ::
  "('b, 'o) sk_env \<Rightarrow> ('b, 'o) world \<Rightarrow> addr \<Rightarrow> string \<Rightarrow> sk_srv_task \<Rightarrow> ('b, 'o) world res" where
  "sk_service_schedule_task E w cur name task =
     sk_assert (cur = en_master E)
       (if ts_io_status task = SK_SRV_IO_STATUS_OK
        then sk_service_schedule_normaltask E w cur name task
        else sk_service_schedule_errortask E w cur name task)"

text \<open>
  One turn of the loop of \<^verbatim>\<open>sk_service_schedule_tasks\<close> up to the hand-over: the next task, if
  one may start, with the state of the queue moved on.
\<close>

definition service_next ::
  "('b, sk_srv_task) fmbuf_ops \<Rightarrow> 'b sk_service \<Rightarrow> ('b sk_service \<times> sk_srv_task option) res" where
  "service_next F sv =
     rbind (sk_service_pop_task F sv) (\<lambda>(sv, pop_status, t). case t of
       None \<Rightarrow> Inr (sv, None)
     | Some task \<Rightarrow>
         (let curr_state = q_state (sv_pending_tasks sv)
          in rbind (case ts_base_type task of
                SK_QUEUE_ELEM_READ \<Rightarrow>
                  sk_assert (curr_state = SK_QUEUE_STATE_IDLE \<or> curr_state = SK_QUEUE_STATE_READ)
                    (Inr SK_QUEUE_STATE_READ)
              | SK_QUEUE_ELEM_WRITE \<Rightarrow>
                  sk_assert (curr_state = SK_QUEUE_STATE_IDLE) (Inr SK_QUEUE_STATE_WRITE)
              | _ \<Rightarrow> Inl Assert) (\<lambda>new_state.
             rbind (sk_queue_setstate (sv_pending_tasks sv) new_state) (\<lambda>q.
             sk_service_handle_exception pop_status
               (sk_assert (ts_io_status task = SK_SRV_IO_STATUS_OK)
                 (Inr (sv\<lparr>sv_pending_tasks := q\<rparr>, Some task)))))))"

text \<open>The result also lists the tasks handed over; the C function returns their number.\<close>

fun schedule_loop ::
  "('b, 'o) sk_env \<Rightarrow> nat \<Rightarrow> ('b, 'o) world \<Rightarrow> addr \<Rightarrow> string \<Rightarrow>
   (('b, 'o) world \<times> sk_srv_task list) res" where
  "schedule_loop E 0 w cur name = Inl Fuel"
| "schedule_loop E (Suc n) w cur name = with_svc w name (\<lambda>sv.
     rbind (service_next (en_F E) sv) (\<lambda>(sv, t). case t of
       None \<Rightarrow> sk_service_handle_exception SK_SRV_STATUS_OK (Inr (set_svc w name sv, []))
     | Some task \<Rightarrow>
         rbind (sk_service_schedule_task E (set_svc w name sv) cur name task) (\<lambda>w.
         rbind (schedule_loop E n w cur name) (\<lambda>(w, ts). Inr (w, task # ts)))))"

text \<open>Enough turns: one per byte queued, and one more.\<close>

definition queue_fuel :: "('b, 'e) fmbuf_ops \<Rightarrow> 'b sk_queue \<Rightarrow> nat" where
  "queue_fuel F q = Suc (unat (fmbuf_used F (q_mq q)) +
     (case q_wmq q of None \<Rightarrow> 0 | Some b \<Rightarrow> unat (fmbuf_used F b)))"

definition sk_service_schedule_tasks ::
  "('b, 'o) sk_env \<Rightarrow> ('b, 'o) world \<Rightarrow> addr \<Rightarrow> string \<Rightarrow> (('b, 'o) world \<times> sk_srv_task list) res" where
  "sk_service_schedule_tasks E w cur name = with_svc w name (\<lambda>sv.
     sk_assert (cur = en_master E)
       (schedule_loop E (queue_fuel (en_F E) (sv_pending_tasks sv)) w cur name))"

subsection \<open>Running tasks\<close>

text \<open>The user code of the service gets the task data and may change it.\<close>

definition sk_service_run_iocall ::
  "('b, 'o) sk_env \<Rightarrow> ('b, 'o) world \<Rightarrow> string \<Rightarrow> tdref \<Rightarrow> string \<Rightarrow>
   (('b, 'o) world \<times> sk_srv_status) res" where
  "sk_service_run_iocall E w name td apiname =
     with_txn w (fst td) (\<lambda>txn. get_task txn (snd td) (\<lambda>task.
       let (d, ret) = en_iocall E (w_tick w) name apiname (tk_data task);
           w = fx (set_txn (tick w) (fst td)
                 (txn\<lparr>tx_task_tbl := (tx_task_tbl txn)(snd td \<mapsto> task\<lparr>tk_data := d\<rparr>)\<rparr>))
                 [Iocall (fst td) (snd td)]
       in Inr (w, if ret \<noteq> 0 then SK_SRV_STATUS_TASK_FAILED else SK_SRV_STATUS_OK)))"

definition sk_service_api_complete ::
  "('b, 'o) sk_env \<Rightarrow> ('b, 'o) world \<Rightarrow> addr \<Rightarrow> string \<Rightarrow> addr \<Rightarrow> u64 \<Rightarrow> string \<Rightarrow> ('b, 'o) world res" where
  "sk_service_api_complete E w cur name t task_id apiname =
     with_txn w t (\<lambda>txn. get_task txn task_id (\<lambda>task.
       if \<not> sk_txn_task_done (tk_data task) then Inr w
       else rbind (sk_entity_sched w (tx_entity txn)) (\<lambda>api_caller.
            with_svc w name (\<lambda>sv. deref (sk_service_api sv apiname) (\<lambda>api.
              Inr (send w cur api_caller (tx_entity txn) (Some t)
                    (Svc_task_cb (t, task_id) name (api_name api) SK_TXN_TASK_DONE False)))))))"

subsection \<open>Calling a service\<close>

datatype sk_env_pos = SK_ENV_POS_CORE | SK_ENV_POS_MODULE | SK_ENV_POS_SERVICE

definition sk_service_iocall ::
  "('b, 'o) sk_env \<Rightarrow> ('b, 'o) world \<Rightarrow> addr \<Rightarrow> sk_env_pos \<Rightarrow> string \<Rightarrow> addr \<Rightarrow> string \<Rightarrow> u8 list \<Rightarrow>
   addr option \<Rightarrow> addr \<Rightarrow> int \<Rightarrow> (('b, 'o) world \<times> int) res" where
  "sk_service_iocall E w cur pos name t apiname req cb ud bidx =
     with_svc w name (\<lambda>sv. with_txn w t (\<lambda>txn.
       if \<not> validate_bidx E bidx then Inr (w, 1)
       else sk_assert (pos = SK_ENV_POS_MODULE)
         (deref (sk_service_api sv apiname) (\<lambda>api.
            let td = \<lparr>td_api_name = api_name api, td_request = req, td_response = [],
                      td_user_data = ud, td_caller_module = tx_current txn, td_cb = cb,
                      td_pendings = 0, td_task_id = 0\<rparr>
            in rbind (sk_txn_task_add txn td (sk_time_us E w)) (\<lambda>(txn, task_id).
               let w = set_txn (tick w) t txn
               in Inr (send w cur (Some (en_master E)) (tx_entity txn) (Some t)
                        (Svc_iocall task_id name (api_name api) bidx (t, task_id)), 0))))))"

definition skull_txn_iocall ::
  "('b, 'o) sk_env \<Rightarrow> ('b, 'o) world \<Rightarrow> addr \<Rightarrow> sk_env_pos \<Rightarrow> addr \<Rightarrow> string \<Rightarrow> string \<Rightarrow> u8 list \<Rightarrow>
   addr option \<Rightarrow> addr \<Rightarrow> int \<Rightarrow> (('b, 'o) world \<times> ioret) res" where
  "skull_txn_iocall E w cur pos t name apiname req cb ud bidx =
     (case w_svcs w name of
        None \<Rightarrow> Inr (w, IO_ERROR_SRVNAME)
      | Some sv \<Rightarrow>
          if sk_service_api sv apiname = None then Inr (w, IO_ERROR_APINAME)
          else with_txn w t (\<lambda>txn.
            if tx_state txn = SK_TXN_INIT then Inr (w, IO_ERROR_STATE)
            else rbind (sk_service_iocall E w cur pos name t apiname req cb ud bidx) (\<lambda>(w, ret).
                   Inr (w, if ret \<noteq> 0 then IO_ERROR_BIO else IO_OK))))"

text \<open>The calls that user code makes, in the position of a module.\<close>

primrec run_uprog ::
  "('b, 'o) sk_env \<Rightarrow> ('b, 'o) world \<Rightarrow> addr \<Rightarrow> addr \<Rightarrow> uprog \<Rightarrow> (('b, 'o) world \<times> int) res" where
  "run_uprog E w cur t (Ret r) = Inr (w, r)"
| "run_uprog E w cur t (Append bs p) = with_txn w t (\<lambda>txn.
     rbind (sk_txn_output_append (en_O E) txn bs (of_nat (length bs))) (\<lambda>txn.
       run_uprog E (set_txn w t txn) cur t p))"
| "run_uprog E w cur t (Setudata d p) = with_txn w t (\<lambda>txn.
     run_uprog E (set_txn w t (sk_txn_setudata txn d)) cur t p)"
| "run_uprog E w cur t (Call name apiname req cb ud bidx k) =
     rbind (skull_txn_iocall E w cur SK_ENV_POS_MODULE t name apiname req cb ud bidx) (\<lambda>(w, r).
       run_uprog E w cur t (k r))"

text \<open>
  The callback of a task (\<^verbatim>\<open>skull_srv_iocall_complete\<close> through \<^verbatim>\<open>sk_service_run_iocall_cb\<close>): the
  function is called when there is one.
\<close>

definition sk_service_run_iocall_cb ::
  "('b, 'o) sk_env \<Rightarrow> ('b, 'o) world \<Rightarrow> addr \<Rightarrow> string \<Rightarrow> addr \<Rightarrow> u64 \<Rightarrow> string \<Rightarrow>
   (('b, 'o) world \<times> int) res" where
  "sk_service_run_iocall_cb E w cur name t task_id apiname =
     with_txn w t (\<lambda>txn. rbind (sk_txn_taskdata txn task_id) (\<lambda>td.
       if td_cb td = None then Inr (w, 0)
       else rbind (sk_txn_task_status txn task_id) (\<lambda>st.
         sk_assert (st = SK_TXN_TASK_DONE \<or> st = SK_TXN_TASK_BUSY)
           (run_uprog E (fx (tick w) [Iocall_cb t task_id]) cur t
              (en_iocall_cb E (w_tick w) name apiname td)))))"

section \<open>The dispatcher\<close>

definition svc_waiting :: "('b \<Rightarrow> sk_srv_task list) \<Rightarrow> 'b sk_service \<Rightarrow> sk_srv_task list" where
  "svc_waiting items sv = q_main items (sv_pending_tasks sv) @ q_writes items (sv_pending_tasks sv)"

text \<open>The queue of the service takes the task \<open>t\<close>.\<close>

definition srv_room :: "('b \<Rightarrow> sk_srv_task list) \<Rightarrow> 'b sk_service \<Rightarrow> sk_srv_task \<Rightarrow> bool" where
  "srv_room items sv t \<longleftrightarrow> queue_room items (sv_pending_tasks sv) (ts_base_type t)"

abbreviation svc_state :: "'b sk_service \<Rightarrow> sk_queue_state" where
  "svc_state sv \<equiv> q_state (sv_pending_tasks sv)"

definition svc_ok ::
  "('b, sk_srv_task) fmbuf_ops \<Rightarrow> ('b \<Rightarrow> sk_srv_task list) \<Rightarrow> ('b \<Rightarrow> bool) \<Rightarrow> 'b sk_service \<Rightarrow> bool" where
  "svc_ok F items invar sv \<longleftrightarrow>
     (sk_queue_wf F srv_ty items invar (sv_pending_tasks sv) \<and>
      q_elem_sz (sv_pending_tasks sv) = SK_SRV_TASK_SZ \<and>
      q_mode (sv_pending_tasks sv) \<noteq> SK_QUEUE_EXCLUSIVE) \<and>
     svc_state sv \<in> rw_states \<and>
     (\<forall>t \<in> set (svc_waiting items sv). ts_io_status t = SK_SRV_IO_STATUS_OK)"

text \<open>The hand-over of a task succeeds: its scheduler exists and its transaction is alive.\<close>

definition task_ready :: "('b, 'o) sk_env \<Rightarrow> ('b, 'o) world \<Rightarrow> sk_srv_task \<Rightarrow> bool" where
  "task_ready E w t \<longleftrightarrow> validate_bidx E (ts_bidx t) \<and>
     (case ts_data t of SK_SRV_TASK_API_QUERY a _ _ _ \<Rightarrow> w_txns w a \<noteq> None
      | SK_SRV_TASK_TIMER _ _ _ _ _ \<Rightarrow> True)"

lemma task_ready_cong: "w_txns w' = w_txns w \<Longrightarrow> task_ready E w' t = task_ready E w t"
  by (simp add: task_ready_def split: srv_task_data.splits)

lemma task_ready_set_svc [simp]: "task_ready E (set_svc w name sv) t = task_ready E w t"
  by (rule task_ready_cong) simp

definition target_of :: "('b, 'o) sk_env \<Rightarrow> sk_srv_task \<Rightarrow> addr" where
  "target_of E t = (if ts_bidx t = 0 then ts_src t
     else the (sk_core_bio E (if 0 < ts_bidx t then ts_bidx t else 1)))"

text \<open>The event that hands a task over.\<close>

definition task_event :: "('b, 'o) sk_env \<Rightarrow> ('b, 'o) world \<Rightarrow> string \<Rightarrow> sk_srv_task \<Rightarrow> sk_event" where
  "task_event E w name t = (case ts_data t of
     SK_SRV_TASK_API_QUERY a n td i \<Rightarrow>
       \<lparr>ev_src = en_master E, ev_dst = Some (target_of E t), ev_hop = 0,
        ev_entity = tx_entity (the (w_txns w a)), ev_txn = Some a,
        ev_msg = Svc_task_run name n SK_SRV_IO_STATUS_OK (ts_src t) td\<rparr>
   | SK_SRV_TASK_TIMER e j u v iv \<Rightarrow>
       \<lparr>ev_src = en_master E, ev_dst = Some (target_of E t), ev_hop = 0, ev_entity = e, ev_txn = None,
        ev_msg = Svc_timer_run name j u v SK_SRV_JOB_OK iv\<rparr>)"

lemma find_target: "validate_bidx E b \<Longrightarrow>
    find_target_sched E src b = Inr (if b = 0 then src else the (sk_core_bio E (if 0 < b then b else 1)))"
  by (auto simp: validate_bidx_def find_target_sched_def sk_core_bio_def Let_def split: if_splits)

lemma schedule_task_ok:
  assumes "task_ready E w t" "ts_io_status t = SK_SRV_IO_STATUS_OK" "w_svcs w name = Some sv"
  shows "sk_service_schedule_task E w (en_master E) name t =
    Inr ((set_svc w name (sv\<lparr>sv_running_task_cnt := sv_running_task_cnt sv + 1\<rparr>))
      \<lparr>w_sends := w_sends w @ [task_event E w name t]\<rparr>)"
  using assms
  by (auto simp: sk_service_schedule_task_def sk_service_schedule_normaltask_def with_svc_def Let_def
      task_ready_def schedule_api_task_def schedule_timer_task_def find_target with_txn_def send_def
      task_event_def target_of_def set_svc_def split: srv_task_data.splits)

locale srv_buf = task_buf F SK_SRV_TASK_SZ items invar ts_base_type
  for F :: "('b, sk_srv_task) fmbuf_ops" and items :: "'b \<Rightarrow> sk_srv_task list" and invar :: "'b \<Rightarrow> bool"
begin

lemma service_next_ok:
  assumes ok: "svc_ok F items invar sv"
  obtains q where "service_next F sv = Inr (sv\<lparr>sv_pending_tasks := q\<rparr>, None)"
      "svc_ok F items invar (sv\<lparr>sv_pending_tasks := q\<rparr>)" "q_state q = svc_state sv"
      "mset (svc_waiting items (sv\<lparr>sv_pending_tasks := q\<rparr>)) = mset (svc_waiting items sv)"
      "svc_state sv = SK_QUEUE_STATE_IDLE \<longrightarrow> svc_waiting items sv = []"
  | q t where "service_next F sv = Inr (sv\<lparr>sv_pending_tasks := q\<rparr>, Some t)"
      "svc_ok F items invar (sv\<lparr>sv_pending_tasks := q\<rparr>)" "may_start (ts_base_type t) (svc_state sv)"
      "q_state q = state_for (ts_base_type t)" "ts_io_status t = SK_SRV_IO_STATUS_OK"
      "mset (svc_waiting items sv) = add_mset t (mset (svc_waiting items (sv\<lparr>sv_pending_tasks := q\<rparr>)))"
proof -
  let ?q = "sv_pending_tasks sv"
  have q: "sk_queue_wf F srv_ty items invar ?q \<and> q_elem_sz ?q = SK_SRV_TASK_SZ \<and> q_mode ?q \<noteq> SK_QUEUE_EXCLUSIVE"
    and st: "q_state ?q \<in> rw_states"
    and io: "\<forall>t \<in> set (svc_waiting items sv). ts_io_status t = SK_SRV_IO_STATUS_OK"
    using ok by (simp_all add: svc_ok_def)
  note em = rwq.empty [OF q]
  show ?thesis
  proof (cases "svc_waiting items sv = []")
    case True
    then have "service_next F sv = Inr (sv, None)"
      using em by (simp add: service_next_def sk_service_pop_task_def svc_waiting_def)
    with that(1) [of ?q] True ok show ?thesis by simp
  next
    case False
    then have ne: "q_main items ?q @ q_writes items ?q \<noteq> []" by (simp add: svc_waiting_def)
    from q st ne show ?thesis
    proof (cases rule: rwq.dispatch)
      case (1 q')
      have "service_next F sv = Inr (sv\<lparr>sv_pending_tasks := q'\<rparr>, None)"
        using em ne 1 by (auto simp: service_next_def sk_service_pop_task_def)
      moreover have "mset (svc_waiting items (sv\<lparr>sv_pending_tasks := q'\<rparr>)) = mset (svc_waiting items sv)"
        using 1 by (simp add: svc_waiting_def)
      moreover have "svc_ok F items invar (sv\<lparr>sv_pending_tasks := q'\<rparr>)"
        using 1 st io calculation(2) by (simp add: svc_ok_def) (metis mset_eq_setD)
      ultimately show ?thesis using that(1) [of q'] 1 by simp
    next
      case (2 q' off t q'')
      have w: "mset (svc_waiting items sv) = add_mset t (mset (svc_waiting items (sv\<lparr>sv_pending_tasks := q''\<rparr>)))"
        using 2 by (simp add: svc_waiting_def)
      then have sub: "set (svc_waiting items sv) = insert t (set (svc_waiting items (sv\<lparr>sv_pending_tasks := q''\<rparr>)))"
        by (metis mset.simps(2) mset_eq_setD list.simps(15))
      have t: "ts_io_status t = SK_SRV_IO_STATUS_OK" using io sub by simp
      have "q_state q' = q_state ?q" using 2 by simp
      then have run: "service_next F sv = Inr (sv\<lparr>sv_pending_tasks := q''\<rparr>, Some t)"
        using em ne 2 t
        by (auto simp: service_next_def sk_service_pop_task_def may_start_def sk_service_handle_exception_def)
      have "state_for (ts_base_type t) \<in> rw_states" using 2(4) by (auto simp: may_start_def)
      then have "svc_ok F items invar (sv\<lparr>sv_pending_tasks := q''\<rparr>)"
        using 2 io sub by (simp add: svc_ok_def)
      with run that(2) [of q'' t] w t 2 show ?thesis by simp
    qed
  qed
qed

lemma schedule_loop_ok:
  assumes "en_F E = F" "w_svcs w name = Some sv" "svc_ok F items invar sv"
    and "length (svc_waiting items sv) < n"
    and "\<forall>t \<in> set (svc_waiting items sv). task_ready E w t"
  shows "\<exists>w' ts sv'. schedule_loop E n w (en_master E) name = Inr (w', ts) \<and>
    w_svcs w' = (w_svcs w)(name \<mapsto> sv') \<and> svc_ok F items invar sv' \<and>
    mset (svc_waiting items sv) = mset ts + mset (svc_waiting items sv') \<and>
    sv_running_task_cnt sv' = sv_running_task_cnt sv + int (length ts) \<and>
    (\<forall>run. excl ts_base_type (svc_state sv) run \<longrightarrow> excl ts_base_type (svc_state sv') (run @ ts)) \<and>
    (svc_state sv' = SK_QUEUE_STATE_IDLE \<longrightarrow> svc_waiting items sv' = []) \<and>
    w_sends w' = w_sends w @ map (task_event E w name) ts \<and>
    w_txns w' = w_txns w \<and> w_ents w' = w_ents w \<and> w_mgrs w' = w_mgrs w \<and> w_fx w' = w_fx w"
  using assms
proof (induction n arbitrary: w sv)
  case (Suc n)
  from Suc.prems(3) show ?case
  proof (cases rule: service_next_ok)
    case (1 q)
    with Suc.prems(1,2) show ?thesis
      by (intro exI3 [of _ "set_svc w name (sv\<lparr>sv_pending_tasks := q\<rparr>)" "[]" "sv\<lparr>sv_pending_tasks := q\<rparr>"])
         (auto simp: with_svc_def sk_service_handle_exception_def dest: arg_cong [of "mset _" _ size])
  next
    case (2 q t)
    let ?sv = "sv\<lparr>sv_pending_tasks := q\<rparr>"
    let ?sv1 = "?sv\<lparr>sv_running_task_cnt := sv_running_task_cnt sv + 1\<rparr>"
    let ?w = "set_svc w name ?sv"
    let ?w1 = "(set_svc ?w name ?sv1)\<lparr>w_sends := w_sends w @ [task_event E w name t]\<rparr>"
    have set: "set (svc_waiting items sv) = insert t (set (svc_waiting items ?sv))"
      using 2(6) by (metis mset.simps(2) mset_eq_setD list.simps(15))
    have len: "length (svc_waiting items sv) = Suc (length (svc_waiting items ?sv))"
      using arg_cong [OF 2(6), of size] by simp
    have ev: "task_event E ?w name = task_event E w name" "task_event E ?w1 name = task_event E w name"
      by (auto simp: task_event_def fun_eq_iff split: srv_task_data.splits)
    have "task_ready E ?w t" using Suc.prems(5) set by (simp add: task_ready_def split: srv_task_data.splits)
    then have sch: "sk_service_schedule_task E ?w (en_master E) name t = Inr ?w1"
      using schedule_task_ok [of E ?w t name ?sv] 2(5) ev by simp
    have w1: "svc_waiting items ?sv1 = svc_waiting items ?sv" "svc_ok F items invar ?sv1"
      using 2(2) by (simp_all add: svc_waiting_def svc_ok_def)
    have rd: "\<forall>t \<in> set (svc_waiting items ?sv1). task_ready E ?w1 t"
      using Suc.prems(5) set w1(1) by (auto simp: task_ready_def split: srv_task_data.splits)
    have at: "w_svcs ?w1 name = Some ?sv1" "length (svc_waiting items ?sv1) < n"
      using Suc.prems(4) w1(1) len by simp_all
    obtain w' ts sv' where r: "schedule_loop E n ?w1 (en_master E) name = Inr (w', ts)"
      "w_svcs w' = (w_svcs ?w1)(name \<mapsto> sv')" "svc_ok F items invar sv'"
      "mset (svc_waiting items ?sv1) = mset ts + mset (svc_waiting items sv')"
      "sv_running_task_cnt sv' = sv_running_task_cnt ?sv1 + int (length ts)"
      "\<forall>run. excl ts_base_type (svc_state ?sv1) run \<longrightarrow> excl ts_base_type (svc_state sv') (run @ ts)"
      "svc_state sv' = SK_QUEUE_STATE_IDLE \<longrightarrow> svc_waiting items sv' = []"
      "w_sends w' = w_sends ?w1 @ map (task_event E ?w1 name) ts"
      "w_txns w' = w_txns ?w1" "w_ents w' = w_ents ?w1" "w_mgrs w' = w_mgrs ?w1" "w_fx w' = w_fx ?w1"
      using Suc.IH [OF Suc.prems(1) at(1) w1(2) at(2) rd] by (elim exE conjE) blast
    have loop: "schedule_loop E (Suc n) w (en_master E) name = Inr (w', t # ts)"
      using Suc.prems(1,2) 2(1) sch r(1) by (simp add: with_svc_def)
    have ex: "excl ts_base_type (svc_state sv') (run @ t # ts)" if "excl ts_base_type (svc_state sv) run" for run
      using r(6) [rule_format, of "run @ [t]"] excl_start [OF that 2(3)] 2(4) by simp
    show ?thesis
      using loop r ex 2(6) w1(1) ev
      by (intro exI3 [of _ w' "t # ts" sv']) simp
  qed
qed simp

lemma queue_fuel_enough:
  assumes "svc_ok F items invar sv"
  shows "length (svc_waiting items sv) < queue_fuel F (sv_pending_tasks sv)"
proof -
  have le: "length (items b) \<le> unat (fmbuf_used F b)" if "invar b" for b
  proof -
    have "unat (fmbuf_used F b) = unat SK_SRV_TASK_SZ * length (items b)" by (rule used [OF that])
    then show ?thesis by (simp add: SK_SRV_TASK_SZ_def)
  qed
  show ?thesis
  proof (cases "q_wmq (sv_pending_tasks sv)")
    case None
    with assms le [of "q_mq (sv_pending_tasks sv)"] show ?thesis
      by (simp add: svc_ok_def svc_waiting_def queue_fuel_def sk_queue_wf_defs)
  next
    case (Some b)
    with assms le [of "q_mq (sv_pending_tasks sv)"] le [of b] show ?thesis
      by (auto simp: svc_ok_def svc_waiting_def queue_fuel_def sk_queue_wf_defs)
  qed
qed

lemma push_task_ok:
  assumes ok: "svc_ok F items invar sv" and t: "ts_base_type t \<in> rw_elems" "ts_io_status t = SK_SRV_IO_STATUS_OK"
  shows "\<exists>sv' st. sk_service_push_task F sv t = Inr (sv', st) \<and> svc_ok F items invar sv' \<and>
    svc_state sv' = svc_state sv \<and> sv_running_task_cnt sv' = sv_running_task_cnt sv \<and>
    (if srv_room items sv t
     then st = SK_SRV_STATUS_OK \<and> mset (svc_waiting items sv') = add_mset t (mset (svc_waiting items sv))
     else st = SK_SRV_STATUS_BUSY \<and> svc_waiting items sv' = svc_waiting items sv)"
proof -
  let ?q = "sv_pending_tasks sv"
  have q: "sk_queue_wf F srv_ty items invar ?q \<and> q_elem_sz ?q = SK_SRV_TASK_SZ \<and> q_mode ?q \<noteq> SK_QUEUE_EXCLUSIVE"
    using ok by (simp add: svc_ok_def)
  obtain q' r where p: "sk_queue_push F srv_ty ?q t = Inr (q', r)"
    "sk_queue_wf F srv_ty items invar q' \<and> q_elem_sz q' = SK_SRV_TASK_SZ \<and> q_mode q' \<noteq> SK_QUEUE_EXCLUSIVE"
    "q_state q' = q_state ?q"
    "if srv_room items sv t
     then r = 0 \<and> mset (q_main items q' @ q_writes items q') = add_mset t (mset (q_main items ?q @ q_writes items ?q))
     else r = 1 \<and> q_main items q' @ q_writes items q' = q_main items ?q @ q_writes items ?q"
    using rwq.push [OF q t(1)] unfolding srv_room_def by blast
  let ?sv = "sv\<lparr>sv_pending_tasks := q'\<rparr>"
  have run: "sk_service_push_task F sv t = Inr (?sv, if r \<noteq> 0 then SK_SRV_STATUS_BUSY else SK_SRV_STATUS_OK)"
    using p t by (simp add: sk_service_push_task_def)
  have w: "if srv_room items sv t then r = 0 \<and> mset (svc_waiting items ?sv) = add_mset t (mset (svc_waiting items sv))
      else r = 1 \<and> svc_waiting items ?sv = svc_waiting items sv" using p(4) by (auto simp: svc_waiting_def split: if_splits)
  then have "mset (svc_waiting items ?sv) = add_mset t (mset (svc_waiting items sv)) \<or>
      svc_waiting items ?sv = svc_waiting items sv" by (auto split: if_splits)
  then have "set (svc_waiting items ?sv) \<subseteq> insert t (set (svc_waiting items sv))"
    by (metis list.simps(15) mset.simps(2) mset_eq_setD set_eq_subset subset_insertI)
  then have "svc_ok F items invar ?sv" using ok p t by (auto simp: svc_ok_def)
  with run w p(3) show ?thesis by (auto split: if_splits)
qed

end

lemma srv_bufI: "fmbuf F SK_SRV_TASK_SZ items invar \<Longrightarrow> srv_buf F items invar"
  by (simp add: srv_buf_def task_buf_def)

text \<open>The buffers of the reference implementation, holding service tasks.\<close>

interpretation svcbuf: srv_buf "cellbuf_ops SK_SRV_TASK_SZ" cb_cells "cellbuf_invar SK_SRV_TASK_SZ"
  by (rule srv_bufI, rule fmbuf_cellbuf) (simp add: SK_SRV_TASK_SZ_def)

section \<open>Readers and writers\<close>

text \<open>
  The life of a service between start and stop, with the list of the tasks that have been handed
  out and not been completed. The master pushes tasks, hands tasks out and, when a message says
  that a task is done, completes it; everything else leaves the service alone and keeps the
  transactions of the queued tasks alive (\<^verbatim>\<open>sk_txn_safe_destroy\<close> does not free a transaction
  with outstanding tasks).
\<close>

inductive svc_step ::
  "('b, 'o) sk_env \<Rightarrow> ('b \<Rightarrow> sk_srv_task list) \<Rightarrow> string \<Rightarrow>
   ('b, 'o) world \<times> sk_srv_task list \<Rightarrow> ('b, 'o) world \<times> sk_srv_task list \<Rightarrow> bool"
  for E items name where
  push: "\<lbrakk>w_svcs w name = Some sv; ts_base_type t \<in> rw_elems; ts_io_status t = SK_SRV_IO_STATUS_OK;
      task_ready E w t; sk_service_push_task (en_F E) sv t = Inr (sv', st)\<rbrakk>
    \<Longrightarrow> svc_step E items name (w, run) (set_svc w name sv', run)"
| schedule: "sk_service_schedule_tasks E w (en_master E) name = Inr (w', ts)
    \<Longrightarrow> svc_step E items name (w, run) (w', run @ ts)"
| complete: "\<lbrakk>w_svcs w name = Some sv; t \<in> set run; sk_service_task_setcomplete sv = Inr sv'\<rbrakk>
    \<Longrightarrow> svc_step E items name (w, run) (set_svc w name sv', remove1 t run)"
| other: "\<lbrakk>w_svcs w' name = Some sv; w_svcs w name = Some sv;
      \<forall>t \<in> set (svc_waiting items sv). task_ready E w t \<longrightarrow> task_ready E w' t\<rbrakk>
    \<Longrightarrow> svc_step E items name (w, run) (w', run)"

definition svc_inv ::
  "('b, 'o) sk_env \<Rightarrow> ('b \<Rightarrow> sk_srv_task list) \<Rightarrow> ('b \<Rightarrow> bool) \<Rightarrow> string \<Rightarrow>
   ('b, 'o) world \<times> sk_srv_task list \<Rightarrow> bool" where
  "svc_inv E items invar name s \<longleftrightarrow> (\<exists>sv. w_svcs (fst s) name = Some sv \<and> svc_ok (en_F E) items invar sv \<and>
     (\<forall>t \<in> set (svc_waiting items sv). task_ready E (fst s) t) \<and>
     sv_running_task_cnt sv = int (length (snd s)) \<and> excl ts_base_type (svc_state sv) (snd s))"

context srv_buf
begin

lemma setcomplete_ok:
  assumes ok: "svc_ok F items invar sv" and run: "t \<in> set run"
    and cnt: "sv_running_task_cnt sv = int (length run)" and ex: "excl ts_base_type (svc_state sv) run"
  shows "\<exists>sv'. sk_service_task_setcomplete sv = Inr sv' \<and> svc_ok F items invar sv' \<and>
    svc_waiting items sv' = svc_waiting items sv \<and>
    sv_running_task_cnt sv' = int (length (remove1 t run)) \<and>
    excl ts_base_type (svc_state sv') (remove1 t run)"
proof -
  have len: "int (length (remove1 t run)) = int (length run) - 1"
    using run length_pos_if_in_set [OF run] by (simp add: length_remove1 of_nat_diff Suc_leI)
  show ?thesis
  proof (cases "remove1 t run = []")
    case True
    have "sk_queue_setstate (sv_pending_tasks sv) SK_QUEUE_STATE_IDLE
        = Inr ((sv_pending_tasks sv)\<lparr>q_state := SK_QUEUE_STATE_IDLE\<rparr>)"
      using ok rw_setstate [of "sv_pending_tasks sv" SK_QUEUE_STATE_IDLE] by (simp add: svc_ok_def)
    with True len cnt ok show ?thesis
      by (simp add: sk_service_task_setcomplete_def svc_ok_def svc_waiting_def q_main_def q_writes_def excl_def)
  next
    case False
    with len cnt have "sv_running_task_cnt sv - 1 \<noteq> 0" by auto
    with len cnt ok excl_complete [OF ex run False] show ?thesis
      by (simp add: sk_service_task_setcomplete_def svc_ok_def svc_waiting_def)
  qed
qed

lemma schedule_tasks_ok:
  assumes F: "en_F E = F" and inv: "svc_inv E items invar name (w, run)"
  shows "\<exists>w' ts sv sv'. w_svcs w name = Some sv \<and> w_svcs w' = (w_svcs w)(name \<mapsto> sv') \<and>
    sk_service_schedule_tasks E w (en_master E) name = Inr (w', ts) \<and>
    svc_inv E items invar name (w', run @ ts) \<and>
    mset (svc_waiting items sv) = mset ts + mset (svc_waiting items sv') \<and>
    (svc_state sv' = SK_QUEUE_STATE_IDLE \<longrightarrow> svc_waiting items sv' = []) \<and>
    w_sends w' = w_sends w @ map (task_event E w name) ts \<and> w_txns w' = w_txns w"
proof -
  obtain sv where sv: "w_svcs w name = Some sv" "svc_ok F items invar sv"
    "\<forall>t \<in> set (svc_waiting items sv). task_ready E w t"
    "sv_running_task_cnt sv = int (length run)" "excl ts_base_type (svc_state sv) run"
    using inv F by (auto simp: svc_inv_def)
  obtain w' ts sv' where r: "schedule_loop E (queue_fuel F (sv_pending_tasks sv)) w (en_master E) name = Inr (w', ts)"
    "w_svcs w' = (w_svcs w)(name \<mapsto> sv')" "svc_ok F items invar sv'"
    "mset (svc_waiting items sv) = mset ts + mset (svc_waiting items sv')"
    "sv_running_task_cnt sv' = sv_running_task_cnt sv + int (length ts)"
    "\<forall>run. excl ts_base_type (svc_state sv) run \<longrightarrow> excl ts_base_type (svc_state sv') (run @ ts)"
    "svc_state sv' = SK_QUEUE_STATE_IDLE \<longrightarrow> svc_waiting items sv' = []"
    "w_sends w' = w_sends w @ map (task_event E w name) ts" "w_txns w' = w_txns w"
    using schedule_loop_ok [OF F sv(1,2) queue_fuel_enough [OF sv(2)] sv(3)] by (elim exE conjE) blast
  have "set (svc_waiting items sv') \<subseteq> set (svc_waiting items sv)"
    using r(4) by (metis mset_subset_eq_add_right set_mset_mono set_mset_mset)
  then have "\<forall>t \<in> set (svc_waiting items sv'). task_ready E w' t"
    using sv(3) task_ready_cong [OF r(9)] by auto
  with r sv F have "svc_inv E items invar name (w', run @ ts)" by (simp add: svc_inv_def)
  moreover have "sk_service_schedule_tasks E w (en_master E) name = Inr (w', ts)"
    using r(1) sv(1) F by (simp add: sk_service_schedule_tasks_def with_svc_def)
  ultimately show ?thesis using r sv by blast
qed

lemma svc_step_inv:
  assumes "svc_step E items name s s'" "en_F E = F" "svc_inv E items invar name s"
  shows "svc_inv E items invar name s'"
  using assms
proof (induction rule: svc_step.induct)
  case (push w sv t sv' st run)
  then have sv: "svc_ok F items invar sv" "\<forall>t \<in> set (svc_waiting items sv). task_ready E w t"
    "sv_running_task_cnt sv = int (length run)" "excl ts_base_type (svc_state sv) run"
    by (auto simp: svc_inv_def)
  have p: "svc_ok F items invar sv'" "svc_state sv' = svc_state sv"
      "sv_running_task_cnt sv' = sv_running_task_cnt sv"
      "mset (svc_waiting items sv') = add_mset t (mset (svc_waiting items sv)) \<or>
       svc_waiting items sv' = svc_waiting items sv"
    using push_task_ok [OF sv(1) push(2,3)] push(5,6) by (auto split: if_splits)
  then have "set (svc_waiting items sv') \<subseteq> insert t (set (svc_waiting items sv))"
    by (metis list.simps(15) mset.simps(2) mset_eq_setD set_eq_subset subset_insertI)
  then have "\<forall>x \<in> set (svc_waiting items sv'). task_ready E (set_svc w name sv') x"
    using sv(2) push(4) by auto
  with p sv push(6) show ?case by (simp add: svc_inv_def)
next
  case (schedule w w' ts run)
  then show ?case using schedule_tasks_ok [of E name w run] by auto
next
  case (complete w sv t run sv')
  then have sv: "svc_ok F items invar sv" "\<forall>t \<in> set (svc_waiting items sv). task_ready E w t"
    "sv_running_task_cnt sv = int (length run)" "excl ts_base_type (svc_state sv) run"
    by (auto simp: svc_inv_def)
  from setcomplete_ok [OF sv(1) complete(2) sv(3,4)] complete(3,4) sv(2) show ?case
    by (auto simp: svc_inv_def)
next
  case (other w' sv w run)
  then show ?case by (auto simp: svc_inv_def)
qed

lemma svc_steps_inv:
  assumes "(svc_step E items name)\<^sup>*\<^sup>* s s'" "en_F E = F" "svc_inv E items invar name s"
  shows "svc_inv E items invar name s'"
  using assms by (induction rule: rtranclp_induct) (auto intro: svc_step_inv)

end

section \<open>Properties\<close>

definition demo_svc :: "sk_srv_task cellbuf sk_service" where
  "demo_svc = \<lparr>sv_running_task_cnt = 0, sv_name = ''s'',
     sv_cfg = \<lparr>sc_data_mode = SK_SRV_DATA_MODE_RW_PW, sc_max_qsize = 10\<rparr>,
     sv_pending_tasks = \<lparr>q_mode = SK_QUEUE_RW_PW, q_state = SK_QUEUE_STATE_IDLE,
       q_elem_sz = SK_SRV_TASK_SZ, q_max_slots = 10,
       q_mq = \<lparr>cb_cap = 720, cb_cells = []\<rparr>, q_wmq = None\<rparr>,
     sv_data = 0, sv_apis = Map.empty\<rparr>"

definition demo_task :: "sk_queue_elem_type \<Rightarrow> sk_srv_task" where
  "demo_task ty = \<lparr>ts_base_type = ty, ts_io_status = SK_SRV_IO_STATUS_OK, ts_bidx = 0, ts_src = 101,
     ts_data = SK_SRV_TASK_TIMER 3 1 2 True 0\<rparr>"

definition demo_svc_world :: "(sk_srv_task cellbuf, u8 cellbuf) world" where
  "demo_svc_world = empty_world\<lparr>w_svcs := [''s'' \<mapsto> demo_svc]\<rparr>"

lemma demo_env_F: "en_F demo_env = cellbuf_ops SK_SRV_TASK_SZ"
  by (simp add: demo_env_def SK_SRV_TASK_SZ_def)

lemma demo_svc_buf: "fmbuf (en_F demo_env) SK_SRV_TASK_SZ cb_cells (cellbuf_invar SK_SRV_TASK_SZ)"
  unfolding demo_env_F by (rule fmbuf_cellbuf) (simp add: SK_SRV_TASK_SZ_def)

lemma demo_svc_inv:
  "svc_inv demo_env cb_cells (cellbuf_invar SK_SRV_TASK_SZ) ''s'' (demo_svc_world, [])"
  by (simp add: svc_inv_def demo_svc_world_def demo_svc_def svc_ok_def svc_waiting_def sk_queue_wf_defs
      demo_env_F cellbuf_invar_def excl_def SK_SRV_TASK_SZ_def) (simp add: cellbuf_ops_def)

definition demo_svc1 :: "sk_srv_task cellbuf sk_service" where
  "demo_svc1 = demo_svc\<lparr>sv_pending_tasks := (sv_pending_tasks demo_svc)
     \<lparr>q_mq := \<lparr>cb_cap = 720, cb_cells = [demo_task SK_QUEUE_ELEM_WRITE]\<rparr>\<rparr>\<rparr>"

lemma demo_push: "sk_service_push_task (en_F demo_env) demo_svc (demo_task SK_QUEUE_ELEM_WRITE)
    = Inr (demo_svc1, SK_SRV_STATUS_OK)"
  by (simp add: sk_service_push_task_def demo_task_def demo_svc_def demo_svc1_def sk_queue_push_def
      sk_queue_push_rw_pw_def sk_queue_push_buf_def demo_env_def cellbuf_ops_def cellbuf_used_def
      SK_SRV_TASK_SZ_def)

lemma demo_svc_steps: "(svc_step demo_env cb_cells ''s'')\<^sup>*\<^sup>* (demo_svc_world, [])
    (set_svc demo_svc_world ''s'' demo_svc1, [])"
  by (rule r_into_rtranclp, rule svc_step.push [OF _ _ _ _ demo_push])
     (simp_all add: demo_svc_world_def demo_task_def task_ready_def validate_bidx_def)

text \<open>
  C1: readers and writers exclude each other. In every state that a started service reaches, by
  any sequence of pushes, hand-overs and completions, the counter \<^verbatim>\<open>running_task_cnt\<close> is the
  number of tasks handed out and not completed, a running writer runs alone, and the queue is
  idle exactly when nothing runs.
\<close>
theorem service_rw_exclusion:
  assumes "fmbuf (en_F E) SK_SRV_TASK_SZ items invar" "svc_inv E items invar name (w0, [])"
    and "(svc_step E items name)\<^sup>*\<^sup>* (w0, []) (w, run)"
  shows "\<exists>sv. w_svcs w name = Some sv \<and> sv_running_task_cnt sv = int (length run) \<and>
    (\<forall>t \<in> set run. ts_base_type t = SK_QUEUE_ELEM_WRITE \<longrightarrow> run = [t]) \<and>
    (\<forall>t \<in> set run. ts_base_type t \<in> rw_elems) \<and>
    (svc_state sv = SK_QUEUE_STATE_IDLE \<longleftrightarrow> run = [])"
proof -
  have "svc_inv E items invar name (w, run)"
    by (rule srv_buf.svc_steps_inv [OF srv_bufI [OF assms(1)] assms(3) refl assms(2)])
  then show ?thesis using excl_means [of ts_base_type _ run] by (auto simp: svc_inv_def)
qed

theorem service_rw_exclusion_witness:
  "\<exists>sv. w_svcs (set_svc demo_svc_world ''s'' demo_svc1) ''s'' = Some sv \<and> sv_running_task_cnt sv = 0 \<and>
     svc_state sv = SK_QUEUE_STATE_IDLE"
  using service_rw_exclusion [OF demo_svc_buf demo_svc_inv demo_svc_steps] by auto

text \<open>
  C2: the dispatcher does not stall and loses nothing. In every reachable state
  \<^verbatim>\<open>sk_service_schedule_tasks\<close> runs to its end without a failed assertion, the tasks that waited
  are the ones it hands out and the ones that still wait, each task handed out is sent to the
  scheduler it asked for by one event, and it leaves the service idle only when nothing waits.
\<close>
theorem service_schedule_progress:
  assumes "fmbuf (en_F E) SK_SRV_TASK_SZ items invar" "svc_inv E items invar name (w0, [])"
    and "(svc_step E items name)\<^sup>*\<^sup>* (w0, []) (w, run)"
  shows "\<exists>w' ts sv sv'. w_svcs w name = Some sv \<and> w_svcs w' name = Some sv' \<and>
    sk_service_schedule_tasks E w (en_master E) name = Inr (w', ts) \<and>
    mset (svc_waiting items sv) = mset ts + mset (svc_waiting items sv') \<and>
    w_sends w' = w_sends w @ map (task_event E w name) ts \<and>
    (run = [] \<and> svc_waiting items sv \<noteq> [] \<longrightarrow> ts \<noteq> []) \<and>
    (svc_state sv' = SK_QUEUE_STATE_IDLE \<longrightarrow> svc_waiting items sv' = [])"
proof -
  have l: "srv_buf (en_F E) items invar" by (rule srv_bufI [OF assms(1)])
  have inv: "svc_inv E items invar name (w, run)"
    by (rule srv_buf.svc_steps_inv [OF l assms(3) refl assms(2)])
  obtain w' ts sv sv' where r: "w_svcs w name = Some sv" "w_svcs w' = (w_svcs w)(name \<mapsto> sv')"
    "sk_service_schedule_tasks E w (en_master E) name = Inr (w', ts)"
    "svc_inv E items invar name (w', run @ ts)"
    "mset (svc_waiting items sv) = mset ts + mset (svc_waiting items sv')"
    "svc_state sv' = SK_QUEUE_STATE_IDLE \<longrightarrow> svc_waiting items sv' = []"
    "w_sends w' = w_sends w @ map (task_event E w name) ts"
    using srv_buf.schedule_tasks_ok [OF l refl inv] by blast
  have "ts \<noteq> []" if n: "run = []" "svc_waiting items sv \<noteq> []"
  proof
    assume "ts = []"
    with r n have "svc_state sv' = SK_QUEUE_STATE_IDLE"
      using excl_means [of ts_base_type "svc_state sv'" "[]"] by (auto simp: svc_inv_def)
    with r \<open>ts = []\<close> n show False by simp
  qed
  with r show ?thesis by (intro exI [of _ w'] exI [of _ ts] exI2 [of _ sv sv']) simp
qed

theorem service_schedule_progress_witness:
  "\<exists>w' ts. sk_service_schedule_tasks demo_env (set_svc demo_svc_world ''s'' demo_svc1) 100 ''s'' = Inr (w', ts) \<and>
     ts \<noteq> []"
  using service_schedule_progress [OF demo_svc_buf demo_svc_inv demo_svc_steps]
  by (auto simp: demo_svc1_def demo_svc_def svc_waiting_def q_main_def) (auto simp: demo_env_def)

end
