(* ===== verification/Workflow_Run.thy ===== *)
theory Workflow_Run
  imports Sk_Service
begin

text \<open>
  Running a workflow: \<^verbatim>\<open>src/src/pto/sk_pto_workflow_run.c\<close>, the helpers of the drivers
  (\<^verbatim>\<open>src/src/drivers/sk_driver_utils.c\<close>) that turn bytes into transactions and deliver them,
  and \<^verbatim>\<open>src/src/pto/sk_pto_entity_destroy.c\<close>.

  A transaction moves through the states of \<open>sk_txn_state\<close>. The handler \<^verbatim>\<open>_run\<close> and its
  helpers \<^verbatim>\<open>_module_run\<close> and \<^verbatim>\<open>_module_pack\<close> call each other in tail position only, so a
  helper returns the world and whether \<^verbatim>\<open>_run\<close> is called again. \<open>cur\<close> is the scheduler
  that runs the handler (\<^verbatim>\<open>sched\<close> and \<^verbatim>\<open>SK_ENV_SCHED\<close>), \<open>a\<close> the entity, \<open>t\<close> the
  transaction.
\<close>

section \<open>Drivers\<close>

definition SK_DEFAULT_READBUF_LEN :: nat where
  "SK_DEFAULT_READBUF_LEN = 65535"

definition SK_DEFAULT_READBUF_FACTOR :: nat where
  "SK_DEFAULT_READBUF_FACTOR = 2"

definition set_state :: "('b, 'o) world \<Rightarrow> addr \<Rightarrow> sk_txn_state \<Rightarrow> ('b, 'o) world res" where
  "set_state w t st = with_txn w t (\<lambda>txn. rbind (sk_txn_setstate txn st) (\<lambda>txn. Inr (set_txn w t txn)))"

definition log_add :: "('b, 'o) sk_env \<Rightarrow> ('b, 'o) world \<Rightarrow> addr \<Rightarrow> u8 list \<Rightarrow> ('b, 'o) world res" where
  "log_add E w t s = with_txn w t (\<lambda>txn. rbind (sk_txn_log_add (en_O E) txn s) (\<lambda>txn. Inr (set_txn w t txn)))"

text \<open>\<^verbatim>\<open>sk_txn_alivetime\<close> reads the clock.\<close>

definition alivetime :: "('b, 'o) sk_env \<Rightarrow> ('b, 'o) world \<Rightarrow> addr \<Rightarrow> (('b, 'o) world \<times> int) res" where
  "alivetime E w t = with_txn w t (\<lambda>txn. Inr (tick w, sk_txn_alivetime txn (sk_time_us E w)))"

definition half_txn :: "('b, 'o) sk_env \<Rightarrow> ('b, 'o) world \<Rightarrow> addr \<Rightarrow> sk_workflow \<Rightarrow>
    (('b, 'o) world \<times> addr) res" where
  "half_txn E w a wflow = with_ent w a (\<lambda>e. case e_half_txn e of
     Some t \<Rightarrow> Inr (w, t)
   | None \<Rightarrow>
       (let t = w_next w;
            w = (set_txn (tick w) t (sk_txn_create (en_O E) wflow a (sk_time_us E w)))\<lparr>w_next := Suc t\<rparr>
        in rbind (sk_entity_sethalftxn w a (Some t)) (\<lambda>w. Inr (w, t))))"

text \<open>Steps 4 to 7 of \<^verbatim>\<open>sk_driver_util_unpack\<close>: one package of the user is complete.\<close>

definition unpack_done ::
  "('b, 'o) sk_env \<Rightarrow> ('b, 'o) world \<Rightarrow> addr \<Rightarrow> addr \<Rightarrow> sk_module \<Rightarrow> u8 list \<Rightarrow> int \<Rightarrow>
   (('b, 'o) world \<times> int) res" where
  "unpack_done E w a t m data consumed = with_txn w t (\<lambda>txn.
     rbind (set_state (set_txn w t (sk_txn_set_input txn data)) t SK_TXN_UNPACKED) (\<lambda>w.
     rbind (sk_entity_sethalftxn w a None) (\<lambda>w.
     rbind (sk_entity_iqueue_push w a t) (\<lambda>w.
     rbind (alivetime E w t) (\<lambda>(w, alive).
     rbind (log_add E w t (en_fmt_unpack E (m_name m) (tx_start_time txn) alive)) (\<lambda>w.
     rbind (sk_entity_rbufpop w a (nat consumed)) (\<lambda>w.
       Inr (fx w [Metric ''worker.request'', Metric ''global.request''], consumed))))))))"

definition sk_driver_util_unpack ::
  "('b, 'o) sk_env \<Rightarrow> ('b, 'o) world \<Rightarrow> addr \<Rightarrow> addr \<Rightarrow> (('b, 'o) world \<times> int) res" where
  "sk_driver_util_unpack E w cur a = with_ent w a (\<lambda>e. deref (e_workflow e) (\<lambda>wflow.
     deref (sk_workflow_first_module wflow) (\<lambda>m. sk_assert (m_unpack m)
       (rbind (sk_entity_rbufsz E w a) (\<lambda>used_len.
        rbind (sk_entity_read E w a
                 (if used_len = 0 then SK_DEFAULT_READBUF_LEN
                  else used_len * SK_DEFAULT_READBUF_FACTOR)) (\<lambda>(w, bytes).
          if bytes \<le> 0 then Inr (w, 0)
          else
            rbind (half_txn E w a wflow) (\<lambda>(w, t).
            rbind (sk_entity_rbufget E w a) (\<lambda>buf.
            with_txn w t (\<lambda>txn.
              let data = take (nat bytes) buf; (consumed, p) = en_mod_unpack E m txn data
              in rbind (run_uprog E (fx w [Unpack_module (m_addr m) t]) cur t p) (\<lambda>(w, _).
                 let w = fx w [Stat_unpack (m_addr m)]
                 in if consumed = 0 then Inr (w, 0)
                    else if consumed < 0
                    then rbind (sk_entity_safe_destroy E w cur a) (\<lambda>(w, _). Inr (w, - 1))
                    else unpack_done E w a t m data consumed))))))))))"

text \<open>The loop of \<^verbatim>\<open>sk_driver_util_deliver\<close>; the first argument counts the turns left.\<close>

fun deliver_loop ::
  "('b, 'o) sk_env \<Rightarrow> nat \<Rightarrow> ('b, 'o) world \<Rightarrow> addr \<Rightarrow> addr \<Rightarrow> addr option \<Rightarrow> (('b, 'o) world \<times> nat) res" where
  "deliver_loop E 0 w cur a dst = Inr (w, 0)"
| "deliver_loop E (Suc n) w cur a dst = with_ent w a (\<lambda>e.
     rbind (sk_entity_idle e) (\<lambda>idle.
       if \<not> idle then Inr (w, 0)
       else rbind (sk_entity_iqueue_pop E w a) (\<lambda>(w, ot). case ot of
              None \<Rightarrow> Inr (w, 0)
            | Some t \<Rightarrow> with_txn w t (\<lambda>txn. sk_assert (tx_entity txn = a)
                (rbind (sk_entity_txnadd w a t) (\<lambda>w.
                 rbind (deliver_loop E n (send w cur dst a (Some t) Workflow_run) cur a dst) (\<lambda>(w, d).
                   Inr (w, Suc d))))))))"

definition sk_driver_util_deliver ::
  "('b, 'o) sk_env \<Rightarrow> ('b, 'o) world \<Rightarrow> addr \<Rightarrow> addr \<Rightarrow> addr option \<Rightarrow> int \<Rightarrow> (('b, 'o) world \<times> nat) res" where
  "sk_driver_util_deliver E w cur a dst mx = with_ent w a (\<lambda>e. deref (e_workflow e) (\<lambda>wflow.
     let mx = (if mx \<le> 0 then 2147483647 else mx);
         cnt = (if wc_concurrent (wf_cfg wflow) then mx else 1)
     in deliver_loop E (nat cnt) w cur a dst))"

section \<open>The workflow handler\<close>

text \<open>What \<^verbatim>\<open>_module_run\<close> does after the module has returned \<open>ret\<close>.\<close>

definition module_after ::
  "('b, 'o) sk_env \<Rightarrow> ('b, 'o) world \<Rightarrow> addr \<Rightarrow> addr \<Rightarrow> addr \<Rightarrow> sk_module \<Rightarrow> int \<Rightarrow> int \<Rightarrow>
   (('b, 'o) world \<times> bool) res" where
  "module_after E w cur a t m start_time ret =
     rbind (alivetime E (fx w [Stat_run (m_addr m)]) t) (\<lambda>(w, alive).
     rbind (log_add E w t (en_fmt_run E (m_name m) start_time alive)) (\<lambda>w.
     rbind (if ret \<noteq> 0 then set_state w t SK_TXN_ERROR else Inr w) (\<lambda>w.
     with_txn w t (\<lambda>txn.
       if \<not> sk_txn_module_complete txn then
         rbind (if ret = 0 then set_state w t SK_TXN_PENDING else Inr w) (\<lambda>w. Inr (w, False))
       else if ret \<noteq> 0 then Inr (w, True)
       else if \<not> sk_txn_is_last_module txn then
         Inr (send w cur (Some cur) a (Some t) Workflow_run, False)
       else rbind (set_state w t SK_TXN_COMPLETED) (\<lambda>w. Inr (w, True))))))"

definition module_run ::
  "('b, 'o) sk_env \<Rightarrow> ('b, 'o) world \<Rightarrow> addr \<Rightarrow> addr \<Rightarrow> addr \<Rightarrow> (('b, 'o) world \<times> bool) res" where
  "module_run E w cur a t =
     rbind (alivetime E w t) (\<lambda>(w, start_time).
     with_txn w t (\<lambda>txn.
       let (txn, m) = sk_txn_next_module txn; w = set_txn w t txn
       in case m of
            None \<Rightarrow> rbind (set_state w t SK_TXN_COMPLETED) (\<lambda>w. Inr (w, True))
          | Some m \<Rightarrow>
              rbind (run_uprog E (fx w [Run_module (m_addr m) t]) cur t (en_mod_run E m txn)) (\<lambda>(w, ret).
                module_after E w cur a t m start_time ret)))"

definition write_txn_log :: "('b, 'o) sk_env \<Rightarrow> ('b, 'o) world \<Rightarrow> addr \<Rightarrow> ('b, 'o) world res" where
  "write_txn_log E w t =
     rbind (alivetime E w t) (\<lambda>(w, alive).
       let slowlog = (0 < en_slowlog_ms E \<and> en_slowlog_ms E \<le> alive);
           txnlog = en_txn_logging E
       in if \<not> slowlog \<and> \<not> txnlog then Inr w
          else with_txn w t (\<lambda>txn. rbind (sk_txn_log_end (en_O E) txn) (\<lambda>txn.
            Inr (fx (set_txn w t txn)
              ((if txnlog then [Txn_log (tx_error txn) alive] else []) @
               (if slowlog then [Slow_log (tx_error txn) alive] else []))))))"

definition SK_ENTITY_F_DESTROY_NOTXN :: u32 where
  "SK_ENTITY_F_DESTROY_NOTXN = 1"

definition txn_log_and_destroy ::
  "('b, 'o) sk_env \<Rightarrow> ('b, 'o) world \<Rightarrow> addr \<Rightarrow> addr \<Rightarrow> ('b, 'o) world res" where
  "txn_log_and_destroy E w cur t = with_txn w t (\<lambda>txn.
     let a = tx_entity txn
     in rbind (if sk_txn_alltask_complete txn then
                 rbind (write_txn_log E w t) (\<lambda>w.
                 rbind (sk_driver_util_deliver E w cur a (Some cur) 1) (\<lambda>(w, _). Inr w))
               else Inr w) (\<lambda>w.
        rbind (sk_txn_safe_destroy w t) (\<lambda>(w, r).
          if r \<noteq> 0 then Inr w
          else with_ent w a (\<lambda>e.
            if (e_status e \<noteq> SK_ENTITY_ACTIVE \<or> and (e_flags e) SK_ENTITY_F_DESTROY_NOTXN \<noteq> 0) \<and>
               e_task_cnt e = 0
            then rbind (sk_entity_safe_destroy E w cur a) (\<lambda>(w, _). Inr w)
            else Inr w))))"

text \<open>The response of \<^verbatim>\<open>_module_pack\<close>: the output of the transaction, when there is any.\<close>

definition send_response :: "('b, 'o) sk_env \<Rightarrow> ('b, 'o) world \<Rightarrow> addr \<Rightarrow> addr \<Rightarrow> ('b, 'o) world res" where
  "send_response E w a t = with_txn w t (\<lambda>txn.
     case snd (sk_txn_output (en_O E) txn) of
       None \<Rightarrow> Inr w
     | Some bs \<Rightarrow>
         if fst (sk_txn_output (en_O E) txn) = 0 then Inr w
         else rbind (sk_entity_write E w a bs) (\<lambda>(w, nwrites).
                Inr (fx w [Metric ''worker.response'', Metric ''global.response''])))"

definition module_pack ::
  "('b, 'o) sk_env \<Rightarrow> ('b, 'o) world \<Rightarrow> addr \<Rightarrow> addr \<Rightarrow> addr \<Rightarrow> (('b, 'o) world \<times> bool) res" where
  "module_pack E w cur a t = with_txn w t (\<lambda>txn.
     rbind (alivetime E w t) (\<lambda>(w, start_time).
     deref (sk_workflow_last_module (tx_workflow txn)) (\<lambda>m.
       if \<not> m_pack m then rbind (set_state w t SK_TXN_PACKED) (\<lambda>w. Inr (w, True))
       else
         rbind (run_uprog E (fx w [Pack_module (m_addr m) t]) cur t (en_mod_pack E m txn)) (\<lambda>(w, ret).
         rbind (if ret \<noteq> 0 then sk_entity_mark w a SK_ENTITY_INACTIVE else Inr w) (\<lambda>w.
         rbind (send_response E (fx w [Stat_pack (m_addr m)]) a t) (\<lambda>w.
         rbind (alivetime E w t) (\<lambda>(w, alive).
         rbind (log_add E (fx w [Latency alive, Latency alive]) t
                  (en_fmt_pack E (m_name m) start_time alive)) (\<lambda>w.
         rbind (set_state w t SK_TXN_PACKED) (\<lambda>w. Inr (w, True))))))))))"

text \<open>One invocation of \<^verbatim>\<open>_run\<close>, up to the tail call.\<close>

definition wf_step ::
  "('b, 'o) sk_env \<Rightarrow> ('b, 'o) world \<Rightarrow> addr \<Rightarrow> addr \<Rightarrow> addr \<Rightarrow> (('b, 'o) world \<times> bool) res" where
  "wf_step E w cur a t = with_txn w t (\<lambda>txn.
     let state = tx_state txn
     in rbind (if sk_txn_timeout txn (sk_time_us E w) then set_state (tick w) t SK_TXN_TIMEOUT
               else Inr (tick w)) (\<lambda>w.
        case state of
          SK_TXN_INIT \<Rightarrow> rbind (set_state w t SK_TXN_RUNNING) (\<lambda>w. Inr (w, True))
        | SK_TXN_UNPACKED \<Rightarrow> rbind (set_state w t SK_TXN_RUNNING) (\<lambda>w. Inr (w, True))
        | SK_TXN_RUNNING \<Rightarrow> module_run E w cur a t
        | SK_TXN_PENDING \<Rightarrow> rbind (set_state w t SK_TXN_RUNNING) (\<lambda>w. Inr (w, True))
        | SK_TXN_COMPLETED \<Rightarrow> module_pack E w cur a t
        | SK_TXN_PACKED \<Rightarrow> rbind (set_state w t SK_TXN_DESTROYED) (\<lambda>w.
            rbind (txn_log_and_destroy E w cur t) (\<lambda>w. Inr (w, False)))
        | SK_TXN_ERROR \<Rightarrow> module_pack E w cur a t
        | SK_TXN_TIMEOUT \<Rightarrow> module_pack E w cur a t
        | SK_TXN_DESTROYED \<Rightarrow> rbind (txn_log_and_destroy E w cur t) (\<lambda>w. Inr (w, False))))"

text \<open>How far a transaction still is from its end: every tail call comes closer.\<close>

fun state_rank :: "sk_txn_state \<Rightarrow> nat" where
  "state_rank SK_TXN_INIT = 4" | "state_rank SK_TXN_UNPACKED = 4" | "state_rank SK_TXN_PENDING = 4"
| "state_rank SK_TXN_RUNNING = 3" | "state_rank SK_TXN_COMPLETED = 2" | "state_rank SK_TXN_ERROR = 2"
| "state_rank SK_TXN_TIMEOUT = 2" | "state_rank SK_TXN_PACKED = 1" | "state_rank SK_TXN_DESTROYED = 0"

definition txn_rank :: "('b, 'o) world \<Rightarrow> addr \<Rightarrow> nat" where
  "txn_rank w t = (case w_txns w t of None \<Rightarrow> 0 | Some txn \<Rightarrow> state_rank (tx_state txn))"

lemma set_state_rank: "set_state w t st = Inr w' \<Longrightarrow> txn_rank w' t = state_rank st"
  by (auto simp: set_state_def with_txn_def sk_txn_setstate_def txn_rank_def Let_def res_simps)

lemma module_after_rank: "module_after E w cur a t m st ret = Inr (w', True) \<Longrightarrow> txn_rank w' t = 2"
  by (auto simp: module_after_def res_simps with_txn_def
      split: prod.split_asm if_split_asm dest!: set_state_rank)

lemma module_run_rank: "module_run E w cur a t = Inr (w', True) \<Longrightarrow> txn_rank w' t = 2"
  by (auto simp: module_run_def res_simps with_txn_def Let_def sk_txn_next_module_def
      split: prod.split_asm list.split_asm dest!: set_state_rank module_after_rank)

lemma module_pack_rank: "module_pack E w cur a t = Inr (w', True) \<Longrightarrow> txn_rank w' t = 1"
  by (auto simp: module_pack_def res_simps with_txn_def Let_def split: prod.split_asm if_split_asm
      dest!: set_state_rank)

lemma wf_step_rank:
  assumes "wf_step E w cur a t = Inr (w', True)"
  shows "txn_rank w' t < txn_rank w t"
proof -
  obtain txn where t: "w_txns w t = Some txn"
    using assms by (auto simp: wf_step_def with_txn_def res_simps)
  with assms show ?thesis
    by (cases "tx_state txn")
       (auto simp: wf_step_def res_simps with_txn_def txn_rank_def [of w]
         dest!: set_state_rank module_run_rank module_pack_rank)
qed

function wf_run ::
  "('b, 'o) sk_env \<Rightarrow> ('b, 'o) world \<Rightarrow> addr \<Rightarrow> addr \<Rightarrow> addr \<Rightarrow> ('b, 'o) world res" where
  "wf_run E w cur a t = rbind (wf_step E w cur a t) (\<lambda>(w', again).
     if again then wf_run E w' cur a t else Inr w')"
  by pat_completeness auto
termination
  by (relation "measure (\<lambda>(E, w, cur, a, t). txn_rank w t)") (auto intro: wf_step_rank)

declare wf_run.simps [simp del]

text \<open>\<^verbatim>\<open>_run\<close> of \<^verbatim>\<open>sk_pto_entity_destroy.c\<close>.\<close>

definition entity_destroy_run ::
  "('b, 'o) sk_env \<Rightarrow> ('b, 'o) world \<Rightarrow> addr \<Rightarrow> ('b, 'o) world res" where
  "entity_destroy_run E w a = with_ent w a (\<lambda>e. deref (e_owner e) (\<lambda>m. sk_entity_mgr_del E w m a))"

end
