(* ===== verification/Workflow_Proofs.thy ===== *)
theory Workflow_Proofs
  imports Workflow_Run
begin

text \<open>
  What the workflow handler guarantees. The lemmas follow the code from the calls of user code
  up to \<^verbatim>\<open>_run\<close>; the properties at the end say how a run of the handler can end.
\<close>

section \<open>Transactions under way\<close>

text \<open>
  \<open>B\<close> bounds the sizes: the bytes of output and log, and the number of tasks ever created. The
  bounds only keep 64-bit sizes and ids from wrapping.
\<close>

definition txn_good :: "('o \<Rightarrow> u8 list) \<Rightarrow> ('o \<Rightarrow> bool) \<Rightarrow> nat \<Rightarrow> 'o sk_txn \<Rightarrow> bool" where
  "txn_good items invar B txn \<longleftrightarrow> txn_tasks_ok txn \<and>
     invar (tx_output txn) \<and> length (items (tx_output txn)) \<le> B \<and>
     invar (mb_buf (tx_transaction txn)) \<and> length (items (mb_buf (tx_transaction txn))) \<le> B \<and>
     unat (tx_latest_taskid txn) \<le> B"

lemma txn_good_mono: "txn_good items invar B txn \<Longrightarrow> B \<le> B' \<Longrightarrow> txn_good items invar B' txn"
  by (auto simp: txn_good_def)

text \<open>The fields that calls of the API from user code leave alone; tasks are only added.\<close>

definition same_core :: "'o sk_txn \<Rightarrow> 'o sk_txn \<Rightarrow> bool" where
  "same_core x y \<longleftrightarrow> tx_workflow y = tx_workflow x \<and> tx_entity y = tx_entity x \<and>
     tx_current y = tx_current x \<and> tx_workflow_idx y = tx_workflow_idx x \<and> tx_state y = tx_state x \<and>
     tx_error y = tx_error x \<and> tx_start_time y = tx_start_time x \<and> tx_task_tbl x \<subseteq>\<^sub>m tx_task_tbl y"

lemma same_core_refl [simp]: "same_core x x"
  by (simp add: same_core_def)

lemma same_core_trans: "same_core x y \<Longrightarrow> same_core y z \<Longrightarrow> same_core x z"
  by (auto simp: same_core_def intro: map_le_trans)

text \<open>The bytes that user code appends and the calls that it makes stay below \<open>n\<close> and \<open>k\<close>.\<close>

primrec uprog_fits :: "uprog \<Rightarrow> nat \<Rightarrow> nat \<Rightarrow> bool" where
  "uprog_fits (Ret r) n k \<longleftrightarrow> True"
| "uprog_fits (Append bs p) n k \<longleftrightarrow> length bs \<le> n \<and> uprog_fits p (n - length bs) k"
| "uprog_fits (Setudata d p) n k \<longleftrightarrow> uprog_fits p n k"
| "uprog_fits (Call s a req cb ud b c) n k \<longleftrightarrow> 0 < k \<and> (\<forall>r. uprog_fits (c r) n (k - 1))"

text \<open>The only events that user code causes: calls of services, sent to the master.\<close>

definition iocall_event :: "('b, 'o) sk_env \<Rightarrow> addr \<Rightarrow> sk_event \<Rightarrow> bool" where
  "iocall_event E t ev \<longleftrightarrow> ev_dst ev = Some (en_master E) \<and> ev_txn ev = Some t \<and> pto_id (ev_msg ev) = 3"

lemma task_add_shape:
  assumes "sk_txn_task_add txn td now = Inr (txn', i)" "txn_tasks_ok txn"
  shows "i = tx_latest_taskid txn \<and> tx_latest_taskid txn' = tx_latest_taskid txn + 1 \<and> same_core txn txn' \<and>
    tx_output txn' = tx_output txn \<and> tx_transaction txn' = tx_transaction txn"
proof -
  have "tx_task_tbl txn (tx_latest_taskid txn) = None"
    using assms(2) by (auto simp: txn_tasks_ok_def dom_def)
  then show ?thesis
    using assms(1) by (auto simp: sk_txn_task_add_def sk_txn_task_create_def Let_def res_simps same_core_def map_le_def)
qed

text \<open>
  What a piece of user code can make of its transaction, whatever the calls of services answer it:
  the bytes that it appends, in order, the number of its calls and the value that it returns.
\<close>

inductive uprog_out :: "uprog \<Rightarrow> u8 list \<Rightarrow> nat \<Rightarrow> int \<Rightarrow> bool" where
  out_ret: "uprog_out (Ret r) [] 0 r"
| out_append: "uprog_out p out c r \<Longrightarrow> uprog_out (Append bs p) (bs @ out) c r"
| out_setudata: "uprog_out p out c r \<Longrightarrow> uprog_out (Setudata d p) out c r"
| out_call: "uprog_out (q x) out c r \<Longrightarrow> uprog_out (Call s a req cb ud b q) out (Suc c) r"

lemma uprog_out_fits: "uprog_out p out c r \<Longrightarrow> uprog_fits p n k \<Longrightarrow> length out \<le> n \<and> c \<le> k"
  by (induction arbitrary: n k rule: uprog_out.induct) (simp, fastforce, simp, fastforce)

text \<open>A call that succeeds adds a task and sends one message; without a message nothing was added.\<close>

definition calls_only :: "nat \<Rightarrow> sk_event list \<Rightarrow> 'o sk_txn \<Rightarrow> 'o sk_txn \<Rightarrow> bool" where
  "calls_only c io x y \<longleftrightarrow> length io \<le> c \<and> (io = [] \<longrightarrow> tx_task_tbl y = tx_task_tbl x)"

lemma iocall_ok:
  assumes t: "w_txns w t = Some txn" and good: "txn_good items invar B txn" "B < 2 ^ 62"
  shows "\<exists>w' r txn' evs. skull_txn_iocall E w cur SK_ENV_POS_MODULE t name apiname req cb ud bidx = Inr (w', r) \<and>
    w_txns w' = (w_txns w)(t \<mapsto> txn') \<and> txn_good items invar (B + 1) txn' \<and> same_core txn txn' \<and>
    tx_output txn' = tx_output txn \<and> calls_only 1 evs txn txn' \<and> w_ents w' = w_ents w \<and> w_mgrs w' = w_mgrs w \<and> w_svcs w' = w_svcs w \<and> w_fx w' = w_fx w \<and>
    w_sends w' = w_sends w @ evs \<and> (\<forall>ev \<in> set evs. iocall_event E t ev)"
proof -
  have stay: "\<exists>w' r txn' evs. Inr (w, x) = Inr (w', r) \<and> w_txns w' = (w_txns w)(t \<mapsto> txn') \<and>
    txn_good items invar (B + 1) txn' \<and> same_core txn txn' \<and>
    tx_output txn' = tx_output txn \<and> calls_only 1 evs txn txn' \<and> w_ents w' = w_ents w \<and> w_mgrs w' = w_mgrs w \<and> w_svcs w' = w_svcs w \<and> w_fx w' = w_fx w \<and>
    w_sends w' = w_sends w @ evs \<and> (\<forall>ev \<in> set evs. iocall_event E t ev)" for x :: ioret
  proof -
    have "(w_txns w)(t \<mapsto> txn) = w_txns w" using t by auto
    with txn_good_mono [OF good(1), of "B + 1"] show ?thesis
      by (intro exI3 [of _ w x txn] exI [of _ "[]"]) (simp add: calls_only_def)
  qed
  show ?thesis
  proof (cases "\<exists>sv api. w_svcs w name = Some sv \<and> sk_service_api sv apiname = Some api \<and>
      tx_state txn \<noteq> SK_TXN_INIT \<and> validate_bidx E bidx")
    case False
    then show ?thesis using t stay
      by (auto simp: skull_txn_iocall_def sk_service_iocall_def with_svc_def with_txn_def split: option.splits)
  next
    case True
    then obtain sv api where c: "w_svcs w name = Some sv" "sk_service_api sv apiname = Some api"
      "tx_state txn \<noteq> SK_TXN_INIT" "validate_bidx E bidx" by blast
    let ?td = "\<lparr>td_api_name = api_name api, td_request = req, td_response = [],
        td_user_data = ud, td_caller_module = tx_current txn, td_cb = cb, td_pendings = 0, td_task_id = 0\<rparr>"
    have small: "unat (tx_latest_taskid txn) < 2 ^ 62" using good by (simp add: txn_good_def)
    have "unat (- 1 :: u64) = 2 ^ 64 - 1" by (simp add: unsigned_minus_1_eq_mask mask_eq_exp_minus_1)
    with small have "tx_latest_taskid txn \<noteq> - 1" by auto
    then obtain txn' i where a: "sk_txn_task_add txn ?td (sk_time_us E w) = Inr (txn', i)" "txn_tasks_ok txn'"
      using txn_task_add [of txn ?td "sk_time_us E w"] good by (auto simp: txn_good_def)
    have "txn_tasks_ok txn" using good by (simp add: txn_good_def)
    note sh = task_add_shape [OF a(1) this]
    have "unat (tx_latest_taskid txn + 1) = unat (tx_latest_taskid txn) + 1"
      using small by (subst unat_add_lt) simp_all
    then have "txn_good items invar (B + 1) txn'"
      using good a(2) sh by (simp add: txn_good_def)
    with c t a(1) sh show ?thesis
      by (simp add: skull_txn_iocall_def sk_service_iocall_def with_svc_def with_txn_def)
         (auto simp: iocall_event_def calls_only_def)
  qed
qed

text \<open>User code that stays within its bounds returns, and touches its transaction only.\<close>

lemma run_uprog_ok:
  assumes l: "fmbuf (en_O E) 1 items invar"
    and "w_txns w t = Some txn" "txn_good items invar B txn" "uprog_fits p n k" "B + n + k < 2 ^ 62"
  shows "\<exists>w' r txn' evs out c. run_uprog E w cur t p = Inr (w', r) \<and>
    w_txns w' = (w_txns w)(t \<mapsto> txn') \<and> txn_good items invar (B + n + k) txn' \<and> same_core txn txn' \<and>
    w_ents w' = w_ents w \<and> w_mgrs w' = w_mgrs w \<and> w_svcs w' = w_svcs w \<and> w_fx w' = w_fx w \<and>
    w_sends w' = w_sends w @ evs \<and> (\<forall>ev \<in> set evs. iocall_event E t ev) \<and>
    items (tx_output txn') = items (tx_output txn) @ out \<and> uprog_out p out c r \<and>
    calls_only c evs txn txn'"
  using assms(2-)
proof (induction p arbitrary: w txn B n k)
  case (Ret r)
  have "(w_txns w)(t \<mapsto> txn) = w_txns w" using Ret.prems(1) by auto
  with txn_good_mono [OF Ret.prems(2), of "B + n + k"] show ?case
    by (intro exI3 [of _ w r txn] exI3 [of _ "[]" "[]" 0]) (simp add: out_ret calls_only_def)
next
  case (Append bs p)
  have inv: "invar (tx_output txn)" "length (items (tx_output txn)) \<le> B"
    using Append.prems(2) by (auto simp: txn_good_def)
  have bs: "length bs \<le> n" using Append.prems(3) by simp
  then have "length (items (tx_output txn)) + length bs < 2 ^ 64" using inv Append.prems(4) by simp
  then obtain b where b: "sk_txn_output_append (en_O E) txn bs (of_nat (length bs)) = Inr (txn\<lparr>tx_output := b\<rparr>)"
    "invar b" "items b = items (tx_output txn) @ bs"
    using txn_output_append [OF l inv(1)] by blast
  let ?txn = "txn\<lparr>tx_output := b\<rparr>"
  let ?w = "set_txn w t ?txn"
  have g: "txn_good items invar (B + length bs) ?txn"
    using Append.prems(2) b inv
    by (auto simp: txn_good_def txn_tasks_ok_def running_tasks_def waited_tasks_def)
  have fit: "uprog_fits p (n - length bs) k" "B + length bs + (n - length bs) + k < 2 ^ 62"
    "B + length bs + (n - length bs) + k = B + n + k"
    using Append.prems(3,4) bs by auto
  have "w_txns ?w t = Some ?txn" by simp
  from Append.IH [OF this g fit(1,2), unfolded fit(3)] obtain w' r txn' evs out d where
    r: "run_uprog E ?w cur t p = Inr (w', r)"
    "w_txns w' = (w_txns ?w)(t \<mapsto> txn')" "txn_good items invar (B + n + k) txn'" "same_core ?txn txn'"
    "w_ents w' = w_ents ?w" "w_mgrs w' = w_mgrs ?w" "w_svcs w' = w_svcs ?w" "w_fx w' = w_fx ?w"
    "w_sends w' = w_sends ?w @ evs" "\<forall>ev \<in> set evs. iocall_event E t ev"
    "items (tx_output txn') = items (tx_output ?txn) @ out" "uprog_out p out d r" "calls_only d evs ?txn txn'" by (elim exE conjE) blast
  have "same_core txn txn'" using r(4) by (simp add: same_core_def)
  with r b Append.prems(1) show ?case
    by (intro exI3 [of _ w' r txn'] exI3 [of _ evs "bs @ out" d]) (simp add: with_txn_def out_append calls_only_def)
next
  case (Setudata d p)
  let ?txn = "sk_txn_setudata txn d"
  let ?w = "set_txn w t ?txn"
  have g: "txn_good items invar B ?txn"
    using Setudata.prems(2)
    by (auto simp: txn_good_def txn_tasks_ok_def running_tasks_def waited_tasks_def sk_txn_setudata_def)
  have fit: "uprog_fits p n k" using Setudata.prems(3) by simp
  have "w_txns ?w t = Some ?txn" by simp
  from Setudata.IH [OF this g fit Setudata.prems(4)] obtain w' r txn' evs out c where
    r: "run_uprog E ?w cur t p = Inr (w', r)"
    "w_txns w' = (w_txns ?w)(t \<mapsto> txn')" "txn_good items invar (B + n + k) txn'" "same_core ?txn txn'"
    "w_ents w' = w_ents ?w" "w_mgrs w' = w_mgrs ?w" "w_svcs w' = w_svcs ?w" "w_fx w' = w_fx ?w"
    "w_sends w' = w_sends ?w @ evs" "\<forall>ev \<in> set evs. iocall_event E t ev"
    "items (tx_output txn') = items (tx_output ?txn) @ out" "uprog_out p out c r" "calls_only c evs ?txn txn'" by (elim exE conjE) blast
  have "same_core txn txn'" using r(4) by (simp add: same_core_def sk_txn_setudata_def)
  with r Setudata.prems(1) show ?case
    by (intro exI3 [of _ w' r txn'] exI3 [of _ evs out c]) (simp add: with_txn_def out_setudata sk_txn_setudata_def calls_only_def)
next
  case (Call s a req cb ud b c)
  have k: "0 < k" "\<And>r. uprog_fits (c r) n (k - 1)" using Call.prems(3) by auto
  have B62: "B < 2 ^ 62" using Call.prems(4) by simp
  obtain w1 r1 txn1 ev1 where i: "skull_txn_iocall E w cur SK_ENV_POS_MODULE t s a req cb ud b = Inr (w1, r1)"
    "w_txns w1 = (w_txns w)(t \<mapsto> txn1)" "txn_good items invar (B + 1) txn1" "same_core txn txn1"
    "tx_output txn1 = tx_output txn" "calls_only 1 ev1 txn txn1" "w_ents w1 = w_ents w" "w_mgrs w1 = w_mgrs w" "w_svcs w1 = w_svcs w" "w_fx w1 = w_fx w"
    "w_sends w1 = w_sends w @ ev1" "\<forall>ev \<in> set ev1. iocall_event E t ev"
    using iocall_ok [OF Call.prems(1,2) B62, of E cur s a req cb ud b] by (elim exE conjE) blast
  have B: "B + 1 + n + (k - 1) < 2 ^ 62" "B + 1 + n + (k - 1) = B + n + k" using Call.prems(4) k(1) by auto
  have "w_txns w1 t = Some txn1" using i(2) by simp
  from Call.IH [OF rangeI this i(3) k(2) [of r1] B(1), unfolded B(2)] obtain w' r txn' evs out d where
    r: "run_uprog E w1 cur t (c r1) = Inr (w', r)"
    "w_txns w' = (w_txns w1)(t \<mapsto> txn')" "txn_good items invar (B + n + k) txn'" "same_core txn1 txn'"
    "w_ents w' = w_ents w1" "w_mgrs w' = w_mgrs w1" "w_svcs w' = w_svcs w1" "w_fx w' = w_fx w1"
    "w_sends w' = w_sends w1 @ evs" "\<forall>ev \<in> set evs. iocall_event E t ev"
    "items (tx_output txn') = items (tx_output txn1) @ out" "uprog_out (c r1) out d r" "calls_only d evs txn1 txn'" by (elim exE conjE) blast
  have "same_core txn txn'" by (rule same_core_trans [OF i(4) r(4)])
  moreover have "items (tx_output txn') = items (tx_output txn) @ out" using r(11) i(5) by simp
  moreover have "uprog_out (Call s a req cb ud b c) out (Suc d) r" by (rule out_call [of c r1, OF r(12)])
  moreover have "calls_only (Suc d) (ev1 @ evs) txn txn'" using i(6) r(13) by (auto simp: calls_only_def)
  ultimately show ?case
    using r(1-10) i by (intro exI3 [of _ w' r txn'] exI3 [of _ "ev1 @ evs" out "Suc d"]) auto
qed

section \<open>Steps of the handler\<close>

text \<open>
  One step replaces the transaction \<open>t\<close>, sends \<open>evs\<close>, has the effects \<open>es\<close> and leaves the rest
  of the world alone.
\<close>

definition upd :: "addr \<Rightarrow> ('b, 'o) world \<Rightarrow> 'o sk_txn \<Rightarrow> sk_event list \<Rightarrow> effect list \<Rightarrow> ('b, 'o) world \<Rightarrow> bool"
  where
  "upd t w txn evs es w' \<longleftrightarrow> w_txns w' = (w_txns w)(t \<mapsto> txn) \<and> w_ents w' = w_ents w \<and> w_mgrs w' = w_mgrs w \<and>
     w_svcs w' = w_svcs w \<and> w_sends w' = w_sends w @ evs \<and> w_fx w' = w_fx w @ es"

lemma upd_txn: "upd t w txn evs es w' \<Longrightarrow> w_txns w' t = Some txn"
  by (simp add: upd_def)

lemma upd_set_txn: "upd t w txn evs es w' \<Longrightarrow> upd t w txn' evs es (set_txn w' t txn')"
  by (simp add: upd_def)

lemma upd_tick: "upd t w txn evs es w' \<Longrightarrow> upd t w txn evs es (tick w')"
  by (simp add: upd_def)

lemma upd_fx: "upd t w txn evs es w' \<Longrightarrow> upd t w txn evs (es @ fs) (fx w' fs)"
  by (simp add: upd_def)

lemma upd_refl: "w_txns w t = Some txn \<Longrightarrow> upd t w txn [] [] w"
  by (auto simp: upd_def)

lemma upd_trans:
  "upd t w x evs es w1 \<Longrightarrow> upd t w1 y evs' es' w2 \<Longrightarrow> upd t w y (evs @ evs') (es @ es') w2"
  by (simp add: upd_def)

text \<open>The state after \<^verbatim>\<open>sk_txn_setstate\<close>.\<close>

definition in_state :: "'o sk_txn \<Rightarrow> sk_txn_state \<Rightarrow> 'o sk_txn" where
  "in_state txn st = (if st = SK_TXN_ERROR then txn\<lparr>tx_state := st, tx_error := True\<rparr> else txn\<lparr>tx_state := st\<rparr>)"

lemma in_state_sel [simp]:
  "tx_state (in_state txn st) = st" "tx_entity (in_state txn st) = tx_entity txn"
  "tx_workflow (in_state txn st) = tx_workflow txn" "tx_workflow_idx (in_state txn st) = tx_workflow_idx txn"
  "tx_current (in_state txn st) = tx_current txn" "waited_tasks (in_state txn st) = waited_tasks txn" "tx_task_tbl (in_state txn st) = tx_task_tbl txn"
  "running_tasks (in_state txn st) = running_tasks txn" "tx_output (in_state txn st) = tx_output txn"
  "tx_pending_tasks (in_state txn st) = tx_pending_tasks txn"
  "tx_start_time (in_state txn st) = tx_start_time txn"
  by (auto simp: in_state_def waited_tasks_def running_tasks_def)

lemma txn_good_in_state [simp]: "txn_good items invar B (in_state txn st) \<longleftrightarrow> txn_good items invar B txn"
  by (auto simp: in_state_def txn_good_def txn_tasks_ok_def running_tasks_def waited_tasks_def)

lemma set_state_eq:
  assumes "w_txns w t = Some txn" "tx_state txn = SK_TXN_DESTROYED \<longrightarrow> st = SK_TXN_DESTROYED"
  shows "set_state w t st = Inr (set_txn w t (in_state txn st))"
  using assms by (simp add: set_state_def with_txn_def sk_txn_setstate_def in_state_def Let_def)

lemma alivetime_eq:
  "w_txns w t = Some txn \<Longrightarrow> alivetime E w t = Inr (tick w, sk_txn_alivetime txn (sk_time_us E w))"
  by (simp add: alivetime_def with_txn_def)

lemma txn_good_io: "txn_good items invar B txn \<Longrightarrow> B < 2 ^ 62 \<Longrightarrow> txn_io_ok items invar txn"
  by (auto simp: txn_good_def txn_io_ok_def)

lemma log_add_ok:
  assumes l: "fmbuf (en_O E) 1 items invar" and t: "w_txns w t = Some txn" "txn_good items invar B txn"
    and B: "B < 2 ^ 62" and s: "s \<noteq> []"
  shows "\<exists>b. log_add E w t s = Inr (set_txn w t (txn\<lparr>tx_transaction := b\<rparr>)) \<and>
    txn_good items invar (B + 2047) (txn\<lparr>tx_transaction := b\<rparr>)"
proof -
  let ?c = "takeWhile (\<lambda>c. c \<noteq> 0) (take (SK_TXN_DEFAULT_MAX_SIZE - 1) s)"
  obtain b where b: "sk_txn_log_add (en_O E) txn s = Inr (txn\<lparr>tx_transaction := b\<rparr>)" "invar (mb_buf b)"
    "items (mb_buf b) = items (mb_buf (tx_transaction txn)) @ ?c"
    using txn_log_add_ok [OF l txn_good_io [OF t(2) B] s] by blast
  have "length ?c \<le> 2047"
    using length_takeWhile_le [of "\<lambda>c. c \<noteq> 0" "take (SK_TXN_DEFAULT_MAX_SIZE - 1) s"]
    by (simp add: SK_TXN_DEFAULT_MAX_SIZE_def)
  with b t show ?thesis
    by (intro exI [of _ b])
       (auto simp: log_add_def with_txn_def txn_good_def txn_tasks_ok_def running_tasks_def waited_tasks_def)
qed

text \<open>User code, in terms of \<open>upd\<close>.\<close>

lemma uprog_out_ok:
  assumes l: "fmbuf (en_O E) 1 items invar" and t: "w_txns w t = Some txn" "txn_good items invar B txn"
    and p: "uprog_fits p n k" "B + n + k < 2 ^ 62"
  shows "ok (run_uprog E w cur t p) (\<lambda>(w', r). \<exists>txn' evs out c. upd t w txn' evs [] w' \<and>
    txn_good items invar (B + n + k) txn' \<and> same_core txn txn' \<and> (\<forall>ev \<in> set evs. iocall_event E t ev) \<and>
    items (tx_output txn') = items (tx_output txn) @ out \<and> uprog_out p out c r \<and>
    calls_only c evs txn txn')"
  using run_uprog_ok [OF l t p, of cur] by (elim exE conjE) (simp add: upd_def, blast)

lemma uprog_ok:
  assumes l: "fmbuf (en_O E) 1 items invar" and t: "w_txns w t = Some txn" "txn_good items invar B txn"
    and p: "uprog_fits p n k" "B + n + k < 2 ^ 62"
  shows "ok (run_uprog E w cur t p) (\<lambda>(w', r). \<exists>txn' evs. upd t w txn' evs [] w' \<and>
    txn_good items invar (B + n + k) txn' \<and> same_core txn txn' \<and> (\<forall>ev \<in> set evs. iocall_event E t ev))"
  by (rule ok_mono [OF uprog_out_ok [OF l t p, of cur]]) blast

section \<open>Running a module\<close>

text \<open>
  The environment keeps its promises: the buffers obey their laws, no call of user code appends
  more than \<open>n\<close> bytes or makes more than \<open>k\<close> calls, and no printed log line is empty.
\<close>

definition env_fits :: "('b, 'o) sk_env \<Rightarrow> ('o \<Rightarrow> u8 list) \<Rightarrow> ('o \<Rightarrow> bool) \<Rightarrow> nat \<Rightarrow> nat \<Rightarrow> bool" where
  "env_fits E items invar n k \<longleftrightarrow> fmbuf (en_O E) 1 items invar \<and>
     (\<forall>m txn. uprog_fits (en_mod_run E m txn) n k \<and> uprog_fits (en_mod_pack E m txn) n k) \<and>
     (\<forall>x y z. en_fmt_run E x y z \<noteq> [] \<and> en_fmt_pack E x y z \<noteq> [])"

definition run_event :: "addr \<Rightarrow> addr \<Rightarrow> addr \<Rightarrow> sk_event" where
  "run_event cur a t = \<lparr>ev_src = cur, ev_dst = Some cur, ev_hop = 0, ev_entity = a, ev_txn = Some t,
     ev_msg = Workflow_run\<rparr>"

text \<open>
  The four ways in which a module can end; \<open>io\<close> are the calls of services it made, \<open>again\<close> is
  whether \<^verbatim>\<open>_run\<close> goes on.
\<close>

definition module_end ::
  "addr \<Rightarrow> addr \<Rightarrow> addr \<Rightarrow> 'o sk_txn \<Rightarrow> sk_event list \<Rightarrow> sk_event list \<Rightarrow> bool \<Rightarrow> bool" where
  "module_end cur a t txn io evs again \<longleftrightarrow>
     \<not> again \<and> waited_tasks txn \<noteq> {} \<and> tx_state txn \<in> {SK_TXN_PENDING, SK_TXN_ERROR} \<and> evs = io \<or>
     again \<and> waited_tasks txn = {} \<and> tx_state txn = SK_TXN_ERROR \<and> evs = io \<or>
     \<not> again \<and> waited_tasks txn = {} \<and> tx_state txn \<in> {SK_TXN_RUNNING, SK_TXN_TIMEOUT} \<and>
       \<not> sk_txn_is_last_module txn \<and> evs = io @ [run_event cur a t] \<or>
     again \<and> waited_tasks txn = {} \<and> tx_state txn = SK_TXN_COMPLETED \<and> sk_txn_is_last_module txn \<and> evs = io"

lemma txn_good_tasks: "txn_good items invar B txn \<Longrightarrow> txn_tasks_ok txn"
  by (simp add: txn_good_def)

lemma is_last_cong:
  "tx_current x = tx_current y \<Longrightarrow> tx_workflow x = tx_workflow y \<Longrightarrow>
   sk_txn_is_last_module x = sk_txn_is_last_module y"
  by (simp add: sk_txn_is_last_module_def)

text \<open>What holds when the module \<open>m\<close> has run; \<open>es\<close> are the effects.\<close>

definition module_post ::
  "('b, 'o) sk_env \<Rightarrow> ('o \<Rightarrow> u8 list) \<Rightarrow> ('o \<Rightarrow> bool) \<Rightarrow> nat \<Rightarrow> addr \<Rightarrow> addr \<Rightarrow> addr \<Rightarrow> ('b, 'o) world \<Rightarrow>
   'o sk_txn \<Rightarrow> effect list \<Rightarrow> ('b, 'o) world \<times> bool \<Rightarrow> bool" where
  "module_post E items invar B cur a t w txn es r \<longleftrightarrow> (\<exists>txn' io evs.
     upd t w txn' evs es (fst r) \<and> txn_good items invar B txn' \<and>
     tx_workflow txn' = tx_workflow txn \<and> tx_workflow_idx txn' = tx_workflow_idx txn \<and>
     tx_current txn' = tx_current txn \<and> tx_entity txn' = tx_entity txn \<and>
     (\<forall>ev \<in> set io. iocall_event E t ev) \<and> module_end cur a t txn' io evs (snd r))"

lemma module_postI:
  assumes "upd t w txn' evs es w'" "txn_good items invar B txn'"
    and "tx_workflow txn' = tx_workflow txn" "tx_workflow_idx txn' = tx_workflow_idx txn"
    and "tx_current txn' = tx_current txn" "tx_entity txn' = tx_entity txn"
    and "module_end cur a t txn' [] evs again"
  shows "module_post E items invar B cur a t w txn es (w', again)"
  unfolding module_post_def using assms by (intro exI3 [of _ txn' "[]" evs]) simp

lemma module_after_ok:
  assumes E: "env_fits E items invar n k" and t: "w_txns w t = Some txn" "txn_good items invar B txn"
    and B: "B < 2 ^ 62" and st: "tx_state txn \<in> {SK_TXN_RUNNING, SK_TXN_TIMEOUT}"
  shows "ok (module_after E w cur a t m start ret)
    (module_post E items invar (B + 2047) cur a t w txn [Stat_run (m_addr m)])"
proof -
  let ?w = "fx w [Stat_run (m_addr m)]"
  have l: "fmbuf (en_O E) 1 items invar" "en_fmt_run E x y z \<noteq> []" for x y z
    using E by (auto simp: env_fits_def)
  let ?s = "en_fmt_run E (m_name m) start (sk_txn_alivetime txn (sk_time_us E ?w))"
  have tw: "w_txns (tick ?w) t = Some txn" using t by simp
  obtain b where b: "log_add E (tick ?w) t ?s = Inr (set_txn (tick ?w) t (txn\<lparr>tx_transaction := b\<rparr>))"
    "txn_good items invar (B + 2047) (txn\<lparr>tx_transaction := b\<rparr>)"
    using log_add_ok [OF l(1) tw t(2) B l(2)] by blast
  let ?x = "txn\<lparr>tx_transaction := b\<rparr>"
  let ?w1 = "set_txn (tick ?w) t ?x"
  have x: "tx_state ?x \<noteq> SK_TXN_DESTROYED" "tx_state ?x \<in> {SK_TXN_RUNNING, SK_TXN_TIMEOUT}" using st by auto
  have w1: "w_txns ?w1 t = Some ?x" by simp
  have u1: "upd t w ?x [] [Stat_run (m_addr m)] ?w1" using t by (simp add: upd_def)
  have done1: "module_after E w cur a t m start ret =
      rbind (if ret \<noteq> 0 then Inr (set_txn ?w1 t (in_state ?x SK_TXN_ERROR)) else Inr ?w1) (\<lambda>w.
       with_txn w t (\<lambda>txn.
         if \<not> sk_txn_module_complete txn then
           rbind (if ret = 0 then set_state w t SK_TXN_PENDING else Inr w) (\<lambda>w. Inr (w, False))
         else if ret \<noteq> 0 then Inr (w, True)
         else if \<not> sk_txn_is_last_module txn then
           Inr (send w cur (Some cur) a (Some t) Workflow_run, False)
         else rbind (set_state w t SK_TXN_COMPLETED) (\<lambda>w. Inr (w, True))))"
    using set_state_eq [OF w1, of SK_TXN_ERROR] x(1) b(1) t
    by (simp only: module_after_def alivetime_eq [of ?w, simplified, OF t(1)] fx_sel rbind_simps prod.case simp_thms)
  have c: "sk_txn_module_complete ?x \<longleftrightarrow> waited_tasks ?x = {}"
    "sk_txn_module_complete (in_state ?x SK_TXN_ERROR) \<longleftrightarrow> waited_tasks ?x = {}"
    using module_complete_iff [OF txn_good_tasks [OF b(2)]] by (simp_all add: sk_txn_module_complete_def)
  show ?thesis
  proof (cases "ret = 0")
    case False
    then have "module_after E w cur a t m start ret =
        Inr (set_txn ?w1 t (in_state ?x SK_TXN_ERROR), waited_tasks ?x = {})"
      unfolding done1 using c by (simp add: with_txn_def)
    moreover have "module_end cur a t (in_state ?x SK_TXN_ERROR) [] [] (waited_tasks ?x = {})"
      by (simp add: module_end_def)
    ultimately show ?thesis
      using b(2) upd_set_txn [OF u1] by (auto intro!: module_postI)
  next
    case True
    show ?thesis
    proof (cases "waited_tasks ?x = {}")
      case False
      then have "module_after E w cur a t m start ret =
          Inr (set_txn ?w1 t (in_state ?x SK_TXN_PENDING), False)"
        unfolding done1 using True c set_state_eq [OF w1, of SK_TXN_PENDING] x(1) by (simp add: with_txn_def)
      moreover have "module_end cur a t (in_state ?x SK_TXN_PENDING) [] [] False"
        using False by (simp add: module_end_def)
      ultimately show ?thesis using b(2) upd_set_txn [OF u1] by (auto intro!: module_postI)
    next
      case wt: True
      show ?thesis
      proof (cases "sk_txn_is_last_module ?x")
        case False
        then have "module_after E w cur a t m start ret =
            Inr (send ?w1 cur (Some cur) a (Some t) Workflow_run, False)"
          unfolding done1 using True c wt by (simp add: with_txn_def)
        moreover have "module_end cur a t ?x [] [run_event cur a t] False"
          using False x wt by (simp add: module_end_def)
        moreover have "upd t w ?x [run_event cur a t] [Stat_run (m_addr m)]
            (send ?w1 cur (Some cur) a (Some t) Workflow_run)"
          using u1 by (simp add: upd_def run_event_def)
        ultimately show ?thesis using b(2) by (auto intro!: module_postI)
      next
        case last: True
        then have "module_after E w cur a t m start ret =
            Inr (set_txn ?w1 t (in_state ?x SK_TXN_COMPLETED), True)"
          unfolding done1 using True c wt set_state_eq [OF w1, of SK_TXN_COMPLETED] x(1) by (simp add: with_txn_def)
        moreover have "module_end cur a t (in_state ?x SK_TXN_COMPLETED) [] [] True"
          using last wt is_last_cong [of "in_state ?x SK_TXN_COMPLETED" ?x] by (simp add: module_end_def)
        ultimately show ?thesis using b(2) upd_set_txn [OF u1] by (auto intro!: module_postI)
      qed
    qed
  qed
qed

lemma module_post_trans:
  assumes "upd t w0 x io es w1" "\<forall>ev \<in> set io. iocall_event E t ev"
    and "module_post E items invar B cur a t w1 txn fs r"
  shows "module_post E items invar B cur a t w0 txn (es @ fs) r"
proof -
  obtain txn' io' evs where u: "upd t w1 txn' evs fs (fst r)" "txn_good items invar B txn'"
    "tx_workflow txn' = tx_workflow txn" "tx_workflow_idx txn' = tx_workflow_idx txn"
    "tx_current txn' = tx_current txn" "tx_entity txn' = tx_entity txn"
    "\<forall>ev \<in> set io'. iocall_event E t ev" "module_end cur a t txn' io' evs (snd r)"
    using assms(3) unfolding module_post_def by (elim exE conjE) blast
  have "module_end cur a t txn' (io @ io') (io @ evs) (snd r)" using u(8) by (auto simp: module_end_def)
  moreover have "\<forall>ev \<in> set (io @ io'). iocall_event E t ev" using assms(2) u(7) by auto
  ultimately show ?thesis
    unfolding module_post_def using u(2-6) upd_trans [OF assms(1) u(1)]
    by (intro exI3 [of _ txn' "io @ io'" "io @ evs"]) (intro conjI)
qed

lemma module_run_ok:
  assumes E: "env_fits E items invar n k" and t: "w_txns w t = Some txn" "txn_good items invar B txn"
    and B: "B + n + k < 2 ^ 62" and st: "tx_state txn \<in> {SK_TXN_RUNNING, SK_TXN_TIMEOUT}"
    and idx: "tx_workflow_idx txn = m # ms"
  shows "ok (module_run E w cur a t) (module_post E items invar (B + n + k + 2047) cur a t w
    (txn\<lparr>tx_current := Some m, tx_workflow_idx := ms\<rparr>) [Run_module (m_addr m) t, Stat_run (m_addr m)])"
proof -
  let ?x = "txn\<lparr>tx_current := Some m, tx_workflow_idx := ms\<rparr>"
  let ?w = "fx (set_txn (tick w) t ?x) [Run_module (m_addr m) t]"
  let ?st = "sk_txn_alivetime txn (sk_time_us E w)"
  let ?Q = "module_post E items invar (B + n + k + 2047) cur a t w ?x [Run_module (m_addr m) t, Stat_run (m_addr m)]"
  have g: "txn_good items invar B ?x"
    using t(2) by (auto simp: txn_good_def txn_tasks_ok_def running_tasks_def waited_tasks_def)
  have l: "fmbuf (en_O E) 1 items invar" "uprog_fits (en_mod_run E m ?x) n k"
    using E by (auto simp: env_fits_def)
  have "w_txns ?w t = Some ?x" by simp
  note u = uprog_ok [OF l(1) this g l(2) B, of cur]
  have "ok (run_uprog E ?w cur t (en_mod_run E m ?x)) (\<lambda>(w', ret). ok (module_after E w' cur a t m ?st ret) ?Q)"
  proof (rule ok_mono [OF u], clarify)
    fix w1 ret y io
    assume y: "upd t ?w y io [] w1" "txn_good items invar (B + n + k) y" "same_core ?x y"
      and io: "\<forall>ev \<in> set io. iocall_event E t ev"
    have sy: "tx_state y \<in> {SK_TXN_RUNNING, SK_TXN_TIMEOUT}" using y(3) st by (auto simp: same_core_def)
    have u0: "upd t w y io [Run_module (m_addr m) t] w1" using y(1) by (simp add: upd_def)
    show "ok (module_after E w1 cur a t m ?st ret) ?Q"
    proof (rule ok_mono [OF module_after_ok [OF E upd_txn [OF y(1)] y(2) B sy]])
      fix r assume "module_post E items invar (B + n + k + 2047) cur a t w1 y [Stat_run (m_addr m)] r"
      from module_post_trans [OF u0 io this] show "?Q r"
        using y(3) by (simp add: module_post_def same_core_def)
    qed
  qed
  then show ?thesis
    using t idx by (simp add: module_run_def alivetime_eq with_txn_def sk_txn_next_module_def case_prod_unfold)
qed

section \<open>Packing\<close>

text \<open>The entity changes as well.\<close>

definition upd2 :: "addr \<Rightarrow> addr \<Rightarrow> ('b, 'o) world \<Rightarrow> 'o sk_txn \<Rightarrow> sk_entity \<Rightarrow> sk_event list \<Rightarrow> effect list \<Rightarrow>
    ('b, 'o) world \<Rightarrow> bool" where
  "upd2 t a w txn e evs es w' \<longleftrightarrow> w_txns w' = (w_txns w)(t \<mapsto> txn) \<and> w_ents w' = (w_ents w)(a \<mapsto> e) \<and>
     w_mgrs w' = w_mgrs w \<and> w_svcs w' = w_svcs w \<and> w_sends w' = w_sends w @ evs \<and> w_fx w' = w_fx w @ es"

lemma txn_output_items:
  assumes l: "fmbuf F 1 items invar" and inv: "invar (tx_output txn)"
  shows "sk_txn_output F txn = (of_nat (length (items (tx_output txn))), Some (items (tx_output txn)))"
proof -
  have u: "unat (fmbuf_used F (tx_output txn)) = length (items (tx_output txn))"
    using fmbuf.used [OF l inv] by simp
  then have "fmbuf_used F (tx_output txn) = of_nat (length (items (tx_output txn)))"
    by (simp flip: u)
  then show ?thesis
    using fmbuf.rawget_ok [OF l inv, of "fmbuf_used F (tx_output txn)" "length (items (tx_output txn))"] u
    by (simp add: sk_txn_output_def)
qed

text \<open>The response: the bytes of the output, in one write, when there are any.\<close>

definition response_fx :: "sk_entity \<Rightarrow> addr \<Rightarrow> u8 list \<Rightarrow> effect list" where
  "response_fx e a bs = (if bs = [] then []
     else (case opt_write (e_opt e) of Some (Fn _) \<Rightarrow> [Write a bs] | _ \<Rightarrow> []) @
       [Metric ''worker.response'', Metric ''global.response''])"

lemma send_response_ok:
  assumes l: "fmbuf (en_O E) 1 items invar" and t: "w_txns w t = Some txn" "txn_good items invar B txn"
    and B: "B < 2 ^ 62" and e: "w_ents w a = Some e" "opt_write (e_opt e) \<noteq> None"
  shows "ok (send_response E w a t) (upd2 t a w txn e [] (response_fx e a (items (tx_output txn))))"
proof -
  let ?bs = "items (tx_output txn)"
  have o: "sk_txn_output (en_O E) txn = (of_nat (length ?bs), Some ?bs)"
    using txn_output_items [OF l, of txn] t(2) by (simp add: txn_good_def)
  have "length ?bs < 2 ^ 64" using t(2) B by (simp add: txn_good_def)
  then have "unat (of_nat (length ?bs) :: size_t) = length ?bs" by (simp add: unat_of_nat)
  then have z: "(of_nat (length ?bs) :: size_t) = 0 \<longleftrightarrow> ?bs = []"
    using arg_cong [of _ 0 unat, of "of_nat (length ?bs) :: size_t"] by (cases "?bs = []") auto
  have id: "(w_txns w)(t \<mapsto> txn) = w_txns w" "(w_ents w)(a \<mapsto> e) = w_ents w" using t e by auto
  obtain f where f: "opt_write (e_opt e) = Some f" using e(2) by auto
  show ?thesis
    using t e f z id
    by (cases f) (simp_all add: send_response_def with_txn_def with_ent_def o sk_entity_write_def upd2_def response_fx_def)
qed

text \<open>
  Packing the transaction \<open>txn\<close> with the last module \<open>m\<close>: its \<^verbatim>\<open>pack\<close> function appends \<open>out\<close> to what the
  transaction had put out, the entity is marked inactive when it fails, and everything that has been
  put out is the response. The effects are \<open>es\<close>, the messages \<open>io\<close>, the entity is \<open>e'\<close> afterwards.
\<close>

definition packed ::
  "('b, 'o) sk_env \<Rightarrow> ('o \<Rightarrow> u8 list) \<Rightarrow> addr \<Rightarrow> addr \<Rightarrow> 'o sk_txn \<Rightarrow> sk_entity \<Rightarrow> sk_module \<Rightarrow>
   sk_entity \<Rightarrow> sk_event list \<Rightarrow> effect list \<Rightarrow> bool" where
  "packed E items a t txn e m e' io es \<longleftrightarrow> (if \<not> m_pack m then e' = e \<and> io = [] \<and> es = []
     else \<exists>out c ret d. uprog_out (en_mod_pack E m txn) out c ret \<and> length io \<le> c \<and>
       e' = (if ret \<noteq> 0 then e\<lparr>e_status := SK_ENTITY_INACTIVE\<rparr> else e) \<and>
       (\<forall>ev \<in> set io. iocall_event E t ev) \<and>
       es = [Pack_module (m_addr m) t, Stat_pack (m_addr m)] @
         response_fx e a (items (tx_output txn) @ out) @ [Latency d, Latency d])"

definition pack_post ::
  "('b, 'o) sk_env \<Rightarrow> ('o \<Rightarrow> u8 list) \<Rightarrow> ('o \<Rightarrow> bool) \<Rightarrow> nat \<Rightarrow> addr \<Rightarrow> addr \<Rightarrow> ('b, 'o) world \<Rightarrow>
   'o sk_txn \<Rightarrow> sk_entity \<Rightarrow> sk_module \<Rightarrow> ('b, 'o) world \<times> bool \<Rightarrow> bool" where
  "pack_post E items invar B a t w txn e m r \<longleftrightarrow> snd r \<and> (\<exists>txn' e' io es. upd2 t a w txn' e' io es (fst r) \<and>
     txn_good items invar B txn' \<and> tx_state txn' = SK_TXN_PACKED \<and> tx_workflow txn' = tx_workflow txn \<and>
     tx_entity txn' = tx_entity txn \<and> (e' = e \<or> e' = e\<lparr>e_status := SK_ENTITY_INACTIVE\<rparr>) \<and>
     (io = [] \<longrightarrow> tx_task_tbl txn' = tx_task_tbl txn) \<and> packed E items a t txn e m e' io es)"

lemma module_pack_ok:
  assumes E: "env_fits E items invar n k" and t: "w_txns w t = Some txn" "txn_good items invar B txn"
    and B: "B + n + k < 2 ^ 62" and st: "tx_state txn \<noteq> SK_TXN_DESTROYED"
    and e: "w_ents w a = Some e" "opt_write (e_opt e) \<noteq> None"
    and m: "sk_workflow_last_module (tx_workflow txn) = Some m"
  shows "ok (module_pack E w cur a t) (pack_post E items invar (B + n + k + 2047) a t w txn e m)"
proof (cases "m_pack m")
  case False
  have "module_pack E w cur a t = Inr (set_txn (tick w) t (in_state txn SK_TXN_PACKED), True)"
    using False t m st set_state_eq [of "tick w" t txn SK_TXN_PACKED]
    by (simp add: module_pack_def with_txn_def alivetime_eq)
  moreover have "upd2 t a w (in_state txn SK_TXN_PACKED) e [] [] (set_txn (tick w) t (in_state txn SK_TXN_PACKED))"
    using e by (auto simp: upd2_def)
  ultimately show ?thesis
    using False txn_good_mono [OF t(2), of "B + n + k + 2047"]
    by (simp add: pack_post_def) (intro exI3 [of _ "in_state txn SK_TXN_PACKED" e "[]"] exI [of _ "[]"],
      simp add: packed_def)
next
  case True
  let ?w = "fx (tick w) [Pack_module (m_addr m) t]"
  let ?Q = "pack_post E items invar (B + n + k + 2047) a t w txn e m"
  have l: "fmbuf (en_O E) 1 items invar" "uprog_fits (en_mod_pack E m txn) n k" "en_fmt_pack E x y z \<noteq> []" for x y z
    using E by (auto simp: env_fits_def)
  have tw: "w_txns ?w t = Some txn" using t by simp
  define rest where "rest start w' ret =
     rbind (if ret \<noteq> (0::int) then sk_entity_mark w' a SK_ENTITY_INACTIVE else Inr w') (\<lambda>w.
     rbind (send_response E (fx w [Stat_pack (m_addr m)]) a t) (\<lambda>w.
     rbind (alivetime E w t) (\<lambda>(w, alive).
     rbind (log_add E (fx w [Latency alive, Latency alive]) t
              (en_fmt_pack E (m_name m) start alive)) (\<lambda>w.
     rbind (set_state w t SK_TXN_PACKED) (\<lambda>w. Inr (w, True))))))" for start w' ret
  have "ok (rest start w1 ret) ?Q"
    if y: "upd t ?w y io [] w1" "txn_good items invar (B + n + k) y" "same_core txn y"
      and io: "\<forall>ev \<in> set io. iocall_event E t ev"
      and out: "items (tx_output y) = items (tx_output txn) @ out" "uprog_out (en_mod_pack E m txn) out c ret" "calls_only c io txn y"
    for start w1 ret y io out c
  proof -
    define e1 where "e1 = (if ret \<noteq> 0 then e\<lparr>e_status := SK_ENTITY_INACTIVE\<rparr> else e)"
    define w2 where "w2 = (if ret \<noteq> 0 then set_ent w1 a e1 else w1)"
    have w1: "w_ents w1 a = Some e" "w_txns w1 t = Some y" using y(1) e(1) by (simp_all add: upd_def)
    have mk: "(if ret \<noteq> (0::int) then sk_entity_mark w1 a SK_ENTITY_INACTIVE else Inr w1) = Inr w2"
      using w1 by (simp add: sk_entity_mark_def with_ent_def w2_def e1_def)
    let ?w2 = "fx w2 [Stat_pack (m_addr m)]"
    have w2: "w_txns ?w2 t = Some y" "w_ents ?w2 a = Some e1" "opt_write (e_opt e1) \<noteq> None"
      using w1 e by (simp_all add: w2_def e1_def)
    obtain w3 where w3: "send_response E ?w2 a t = Inr w3"
      "upd2 t a ?w2 y e1 [] (response_fx e1 a (items (tx_output y))) w3"
      using send_response_ok [OF l(1) w2(1) y(2) B w2(2,3)] by (auto elim: ok_E)
    have "w_txns w3 t = Some y" using w3(2) by (simp add: upd2_def)
    define d where "d = sk_txn_alivetime y (sk_time_us E w3)"
    let ?w4 = "fx (tick w3) [Latency d, Latency d]"
    have w4: "w_txns ?w4 t = Some y" "alivetime E w3 t = Inr (tick w3, d)"
      using w3(2) by (simp_all add: upd2_def d_def alivetime_eq)
    obtain b where b: "log_add E ?w4 t (en_fmt_pack E (m_name m) start d) = Inr (set_txn ?w4 t (y\<lparr>tx_transaction := b\<rparr>))"
      "txn_good items invar (B + n + k + 2047) (y\<lparr>tx_transaction := b\<rparr>)"
      using log_add_ok [OF l(1) w4(1) y(2) B l(3)] by blast
    let ?z = "in_state (y\<lparr>tx_transaction := b\<rparr>) SK_TXN_PACKED"
    let ?w5 = "set_txn (set_txn ?w4 t (y\<lparr>tx_transaction := b\<rparr>)) t ?z"
    have "tx_state y \<noteq> SK_TXN_DESTROYED" using st y(3) by (simp add: same_core_def)
    then have r: "rest start w1 ret = Inr (?w5, True)"
      unfolding rest_def mk using w3(1) w4 b set_state_eq [of "set_txn ?w4 t (y\<lparr>tx_transaction := b\<rparr>)" t] by simp
    let ?es = "[Pack_module (m_addr m) t, Stat_pack (m_addr m)] @ response_fx e a (items (tx_output y)) @ [Latency d, Latency d]"
    have re: "response_fx e1 a bs = response_fx e a bs" for bs by (simp add: response_fx_def e1_def)
    have "upd2 t a w ?z e1 io ?es ?w5"
      using y(1) w3(2) e(1) re by (auto simp: upd_def upd2_def w2_def e1_def split: if_splits)
    moreover have "packed E items a t txn e m e1 io ?es"
      using True io out by (auto simp: packed_def e1_def calls_only_def intro!: exI3 [of _ out c ret])
    moreover have "e1 = e \<or> e1 = e\<lparr>e_status := SK_ENTITY_INACTIVE\<rparr>" by (simp add: e1_def)
    ultimately show ?thesis
      unfolding r ok_simps pack_post_def using b(2) y(3) out(3)
      by (intro conjI exI3 [of _ ?z e1 io] exI [of _ ?es]) (simp_all add: same_core_def calls_only_def)
  qed
  then have "ok (run_uprog E ?w cur t (en_mod_pack E m txn)) (\<lambda>(w', ret).
      ok (rest (sk_txn_alivetime txn (sk_time_us E w)) w' ret) ?Q)"
    by (intro ok_mono [OF uprog_out_ok [OF l(1) tw t(2) l(2) B, of cur]]) blast
  then show ?thesis
    using True t m by (simp add: module_pack_def with_txn_def alivetime_eq rest_def case_prod_unfold)
qed

section \<open>Destroying the transaction\<close>

text \<open>
  The entity of a transaction under way: it counts its transactions, the transactions in its
  input queue wait for their turn, and it has an owner.
\<close>

definition queue_ok :: "('b, 'o) world \<Rightarrow> addr \<Rightarrow> sk_entity \<Rightarrow> bool" where
  "queue_ok w a e \<longleftrightarrow> distinct (e_iqueue e) \<and> (\<forall>q \<in> set (e_iqueue e).
     (\<exists>x. w_txns w q = Some x \<and> tx_entity x = a) \<and> q \<notin> set (the (e_txns e)))"

definition home_ok :: "('b, 'o) world \<Rightarrow> addr \<Rightarrow> sk_entity \<Rightarrow> bool" where
  "home_ok w a e \<longleftrightarrow> w_ents w a = Some e \<and> ent_ok w a e \<and> queue_ok w a e \<and> e_workflow e \<noteq> None \<and>
     opt_write (e_opt e) \<noteq> None \<and> (\<exists>m. e_owner e = Some m \<and> w_mgrs w m \<noteq> None)"

text \<open>The transaction at the front of the input queue is delivered when the entity is idle.\<close>

definition deliverable :: "sk_entity \<Rightarrow> bool" where
  "deliverable e \<longleftrightarrow> (wc_concurrent (wf_cfg (the (e_workflow e))) \<or> e_task_cnt e \<le> 0) \<and> e_iqueue e \<noteq> []"

lemma deliver_one:
  assumes e: "home_ok w a e"
  shows "\<exists>w' e' evs d. sk_driver_util_deliver E w cur a (Some cur) 1 = Inr (w', d) \<and>
    w' = (set_ent w a e')\<lparr>w_sends := w_sends w @ evs\<rparr> \<and>
    (if deliverable e
     then \<exists>q rest. flist_pop (en_fifo E) (e_iqueue e) = (q, rest) \<and> evs = [run_event cur a q] \<and>
       e' = e\<lparr>e_iqueue := rest, e_txns := Some (the (e_txns e) @ [q]), e_task_cnt := e_task_cnt e + 1\<rparr>
     else evs = [] \<and> e' = e)"
proof -
  obtain ts where ts: "w_ents w a = Some e" "e_txns e = Some ts" "e_task_cnt e = int (length ts)"
    using e by (auto simp: home_ok_def ent_ok_def)
  obtain wflow where wflow: "e_workflow e = Some wflow" using e by (auto simp: home_ok_def)
  have id: "(set_ent w a e)\<lparr>w_sends := w_sends w\<rparr> = w"
    using ts(1) by (intro world.equality) auto
  show ?thesis
  proof (cases "deliverable e")
    case False
    have "sk_driver_util_deliver E w cur a (Some cur) 1 = Inr (w, 0)"
      using False ts wflow
      by (auto simp: sk_driver_util_deliver_def with_ent_def numeral_nat sk_entity_idle_def Let_def
          sk_entity_iqueue_pop_def deliverable_def)
    with False id show ?thesis by (intro exI3 [of _ w e "[]"]) simp
  next
    case True
    then have ne: "e_iqueue e \<noteq> []" by (simp add: deliverable_def)
    obtain q rest where p: "flist_pop (en_fifo E) (e_iqueue e) = (q, rest)"
      using flist_pop_exists [OF ne] by blast
    have "q \<in> set (e_iqueue e)" using flist_pop_set(1) [OF p ne] by auto
    then obtain x where x: "w_txns w q = Some x" "tx_entity x = a" "q \<notin> set ts"
      using e ts(2) by (auto simp: home_ok_def queue_ok_def)
    let ?e = "e\<lparr>e_iqueue := rest, e_txns := Some (ts @ [q]), e_task_cnt := e_task_cnt e + 1\<rparr>"
    have "sk_driver_util_deliver E w cur a (Some cur) 1 =
        Inr ((set_ent w a ?e)\<lparr>w_sends := w_sends w @ [run_event cur a q]\<rparr>, 1)"
      using True ts wflow p x ne
      by (simp add: sk_driver_util_deliver_def with_ent_def with_txn_def Let_def numeral_nat sk_entity_idle_def
          sk_entity_iqueue_pop_def deliverable_def sk_entity_txnadd_def hash_set_def send_def set_ent_def
          run_event_def disj_imp)
    with True p ts(2) show ?thesis
      by (intro exI3 [of _ "(set_ent w a ?e)\<lparr>w_sends := w_sends w @ [run_event cur a q]\<rparr>" ?e "[run_event cur a q]"])
         simp
  qed
qed

text \<open>An entity with an owner is not freed by \<^verbatim>\<open>sk_entity_safe_destroy\<close>: its manager does that later.\<close>

lemma safe_destroy_keeps:
  assumes e: "w_ents w a = Some e" "e_owner e = Some m" "w_mgrs w m \<noteq> None"
  shows "ok (sk_entity_safe_destroy E w cur a) (\<lambda>(w', _). w_txns w' = w_txns w \<and> w_svcs w' = w_svcs w \<and>
    (\<exists>e'. w_ents w' = (w_ents w)(a \<mapsto> e') \<and> e_txns e' = e_txns e \<and> e_task_cnt e' = e_task_cnt e \<and>
      e_timers e' = e_timers e \<and> e_iqueue e' = e_iqueue e) \<and>
    (\<exists>evs. w_sends w' = w_sends w @ evs \<and> (\<forall>ev \<in> set evs. ev_msg ev = Entity_destroy)) \<and>
    (\<exists>es. w_fx w' = w_fx w @ es \<and> set es \<subseteq> {Opt_destroy a (e_ud e)}))"
proof -
  obtain mgr where mgr: "w_mgrs w m = Some mgr" using e(3) by auto
  have id: "(w_ents w)(a \<mapsto> e) = w_ents w" using e(1) by auto
  show ?thesis
    using e mgr id
    by (auto simp: sk_entity_safe_destroy_def with_ent_def with_mgr_def sk_entity_mgr_del_def sk_entity_mark_def
        sk_entity_destroy_def Let_def fx_def set_ent_def set_mgr_def intro: exI [of _ e])
qed

text \<open>\<^verbatim>\<open>_write_txn_log\<close> reads the clock and may log; only the log of the transaction changes.\<close>

lemma write_txn_log_ok:
  assumes l: "fmbuf (en_O E) 1 items invar" and t: "w_txns w t = Some txn" "txn_good items invar B txn"
    and B: "B < 2 ^ 62"
  shows "ok (write_txn_log E w t) (\<lambda>w'. \<exists>b es. upd t w (txn\<lparr>tx_transaction := b\<rparr>) [] es w' \<and>
    (\<forall>f \<in> set es. \<exists>r d. f = Txn_log r d \<or> f = Slow_log r d))"
proof -
  obtain b where b: "sk_txn_log_end (en_O E) txn = Inr (txn\<lparr>tx_transaction := b\<rparr>)"
    using txn_log_end_ok [OF l txn_good_io [OF t(2) B]] by blast
  have id: "(w_txns w)(t \<mapsto> txn\<lparr>tx_transaction := tx_transaction txn\<rparr>) = w_txns w" using t(1) by auto
  let ?a = "sk_txn_alivetime txn (sk_time_us E w)"
  show ?thesis
  proof (cases "(0 < en_slowlog_ms E \<and> en_slowlog_ms E \<le> ?a) \<or> en_txn_logging E")
    case False
    then have "write_txn_log E w t = Inr (tick w)"
      using t by (simp add: write_txn_log_def alivetime_eq Let_def)
    then show ?thesis
      using id by (simp add: upd_def) (intro exI [of _ "tx_transaction txn"], simp)
  next
    case True
    let ?es = "(if en_txn_logging E then [Txn_log (tx_error txn) ?a] else []) @
      (if 0 < en_slowlog_ms E \<and> en_slowlog_ms E \<le> ?a then [Slow_log (tx_error txn) ?a] else [])"
    have "write_txn_log E w t = Inr (fx (set_txn (tick w) t (txn\<lparr>tx_transaction := b\<rparr>)) ?es)"
      using t b True by (auto simp: write_txn_log_def alivetime_eq Let_def with_txn_def)
    moreover have "upd t w (txn\<lparr>tx_transaction := b\<rparr>) [] ?es (fx (set_txn (tick w) t (txn\<lparr>tx_transaction := b\<rparr>)) ?es)"
      by (simp add: upd_def)
    ultimately show ?thesis unfolding ok_def by (intro exI conjI) auto
  qed
qed

text \<open>
  The end of a transaction with no task left: it is freed, its entity no longer counts it, and
  only other transactions are woken.
\<close>

fun quiet :: "effect \<Rightarrow> bool" where
  "quiet (Run_module _ _) = False"
| "quiet (Pack_module _ _) = False"
| "quiet (Write _ _) = False"
| "quiet _ = True"

definition gone :: "addr \<Rightarrow> addr \<Rightarrow> ('b, 'o) world \<Rightarrow> ('b, 'o) world \<Rightarrow> bool" where
  "gone t a w w' \<longleftrightarrow> w_txns w' = (w_txns w)(t := None) \<and>
     (\<exists>e' evs. w_ents w' = (w_ents w)(a \<mapsto> e') \<and> ent_ok w' a e' \<and> t \<notin> set (the (e_txns e')) \<and>
       w_sends w' = w_sends w @ evs \<and>
       (\<forall>ev \<in> set evs. ev_msg ev = Entity_destroy \<or> ev_msg ev = Workflow_run \<and> ev_txn ev \<noteq> Some t) \<and>
       (\<forall>e. w_ents w a = Some e \<and> \<not> deliverable e \<longrightarrow>
          e_iqueue e' = e_iqueue e \<and> (\<forall>ev \<in> set evs. ev_msg ev = Entity_destroy))) \<and>
     (\<exists>es. w_fx w' = w_fx w @ es \<and> (\<forall>f \<in> set es. quiet f))"

text \<open>Freeing the transaction itself.\<close>

lemma txn_destroy_ok:
  assumes t: "w_txns w t = Some txn" "tx_entity txn = a" and e: "w_ents w a = Some e" "ent_ok w a e"
    and reg: "t \<in> set (the (e_txns e))"
  shows "\<exists>e'. sk_txn_destroy w t = Inr (set_ent w a e'\<lparr>w_txns := (w_txns w)(t := None)\<rparr>) \<and>
    e' = e\<lparr>e_txns := Some (removeAll t (the (e_txns e))), e_task_cnt := e_task_cnt e - 1\<rparr> \<and>
    ent_ok (set_ent w a e'\<lparr>w_txns := (w_txns w)(t := None)\<rparr>) a e'"
proof -
  obtain ts where ts: "e_txns e = Some ts" "distinct ts" "e_task_cnt e = int (length ts)"
    "\<forall>q \<in> set ts. \<exists>x. w_txns w q = Some x \<and> tx_entity x = a" "e_timers e \<noteq> None"
    using e(2) by (auto simp: ent_ok_def)
  then have len: "length ts = Suc (length (removeAll t ts))"
    using reg length_removeAll_distinct [of ts t] by simp
  then have "sk_txn_destroy w t = Inr (set_ent w a
      (e\<lparr>e_txns := Some (removeAll t ts), e_task_cnt := e_task_cnt e - 1\<rparr>)\<lparr>w_txns := (w_txns w)(t := None)\<rparr>)"
    using t e(1) ts reg by (simp add: sk_txn_destroy_def sk_entity_txndel_def with_txn_def with_ent_def Let_def)
  then show ?thesis
    using ts len by (auto simp: ent_ok_def distinct_removeAll)
qed

lemma log_and_destroy_ok:
  fixes w :: "('b, 'o) world"
  assumes l: "fmbuf (en_O E) 1 items invar" and t: "w_txns w t = Some txn" "txn_good items invar B txn"
    and B: "B < 2 ^ 62" and a: "tx_entity txn = a" and e: "home_ok w a e" and reg: "t \<in> set (the (e_txns e))"
    and fin: "running_tasks txn = {}"
  shows "ok (txn_log_and_destroy E w cur t) (gone t a w)"
proof -
  have all: "sk_txn_alltask_complete txn" "\<not> tx_complete_tasks txn < tx_total_tasks txn"
    using alltask_complete_iff [OF txn_good_tasks [OF t(2)]] fin by (auto simp: sk_txn_alltask_complete_def)
  obtain w1 b es where w1: "write_txn_log E w t = Inr w1" "upd t w (txn\<lparr>tx_transaction := b\<rparr>) [] es w1"
    "\<forall>f \<in> set es. \<exists>r d. f = Txn_log r d \<or> f = Slow_log r d"
    using write_txn_log_ok [OF l t B] by (auto elim!: ok_E)
  let ?x = "txn\<lparr>tx_transaction := b\<rparr>"
  have h1: "home_ok w1 a e"
    using e w1(2) t(1) a by (auto simp: home_ok_def upd_def ent_ok_def queue_ok_def)
  obtain w2 e2 evs d where w2: "sk_driver_util_deliver E w1 cur a (Some cur) 1 = Inr (w2, d)"
    "w2 = (set_ent w1 a e2)\<lparr>w_sends := w_sends w1 @ evs\<rparr>"
    "if deliverable e
     then \<exists>q rest. flist_pop (en_fifo E) (e_iqueue e) = (q, rest) \<and> evs = [run_event cur a q] \<and>
       e2 = e\<lparr>e_iqueue := rest, e_txns := Some (the (e_txns e) @ [q]), e_task_cnt := e_task_cnt e + 1\<rparr>
     else evs = [] \<and> e2 = e"
    using deliver_one [OF h1, of E cur] by blast
  have q: "q \<noteq> t" "q \<notin> set (the (e_txns e))" "\<exists>x. w_txns w1 q = Some x \<and> tx_entity x = a"
    if "flist_pop (en_fifo E) (e_iqueue e) = (q, rest)" "deliverable e" for q rest
    using flist_pop_set(1) [OF that(1)] that(2) h1 reg by (auto simp: home_ok_def queue_ok_def deliverable_def)
  obtain ts where ts: "e_txns e = Some ts" using e by (auto simp: home_ok_def ent_ok_def)
  have e2: "ent_ok w2 a e2" "t \<in> set (the (e_txns e2))" "e_owner e2 = e_owner e"
    "\<forall>ev \<in> set evs. ev_msg ev = Workflow_run \<and> ev_txn ev \<noteq> Some t" "w_txns w2 = w_txns w1"
    "w_ents w2 = (w_ents w)(a \<mapsto> e2)" "w_mgrs w2 = w_mgrs w" "w_sends w2 = w_sends w @ evs" "w_fx w2 = w_fx w @ es"
    using w2(2,3) q h1 reg ts w1(2)
    by (auto simp: ent_ok_def home_ok_def upd_def run_event_def split: if_splits)
  have x2: "w_txns w2 t = Some ?x" "tx_entity ?x = a" "w_ents w2 a = Some e2"
    using e2 w1(2) a by (simp_all add: upd_def)
  obtain e3 where e3: "sk_txn_destroy w2 t = Inr (set_ent w2 a e3\<lparr>w_txns := (w_txns w2)(t := None)\<rparr>)"
    "e3 = e2\<lparr>e_txns := Some (removeAll t (the (e_txns e2))), e_task_cnt := e_task_cnt e2 - 1\<rparr>"
    "ent_ok (set_ent w2 a e3\<lparr>w_txns := (w_txns w2)(t := None)\<rparr>) a e3"
    using txn_destroy_ok [OF x2 e2(1,2)] by blast
  let ?w3 = "set_ent w2 a e3\<lparr>w_txns := (w_txns w2)(t := None)\<rparr>"
  have sd: "sk_txn_safe_destroy w2 t = Inr (?w3, 0)"
    using x2(1) all e3(1) by (simp add: sk_txn_safe_destroy_def with_txn_def)
  have g3: "gone t a w w4" if "w_txns w4 = w_txns ?w3" "w_ents w4 = (w_ents ?w3)(a \<mapsto> e4)"
      "e_txns e4 = e_txns e3" "e_task_cnt e4 = e_task_cnt e3" "e_timers e4 = e_timers e3" "e_iqueue e4 = e_iqueue e3"
      "w_sends w4 = w_sends ?w3 @ evs'" "\<forall>ev \<in> set evs'. ev_msg ev = Entity_destroy"
      "w_fx w4 = w_fx ?w3 @ es'" "\<forall>f \<in> set es'. quiet f" for w4 e4 evs' es'
  proof -
    have "ent_ok w4 a e4" using e3(3) that(1,3,4,5) by (simp add: ent_ok_def)
    moreover have "t \<notin> set (the (e_txns e4))" using that(3) e3(2) by simp
    moreover have "w_txns w4 = (w_txns w)(t := None)" using that(1) e2(5) w1(2) by (simp add: upd_def)
    moreover have "w_ents w4 = (w_ents w)(a \<mapsto> e4)" using that(2) e2(6) by simp
    moreover have "w_sends w4 = w_sends w @ (evs @ evs')" using that(7) e2(8) by simp
    moreover have "w_fx w4 = w_fx w @ (es @ es')" using that(9) e2(9) by simp
    moreover have "e_iqueue e4 = e_iqueue e \<and> evs = []" if "\<not> deliverable e"
      using that w2(3) e3(2) \<open>e_iqueue e4 = e_iqueue e3\<close> by simp
    moreover have "w_ents w a = Some e" using e by (simp add: home_ok_def)
    ultimately show ?thesis
      unfolding gone_def using e2(4) that(8,10) w1(3)
      by (intro conjI exI2 [of _ e4 "evs @ evs'"] exI [of _ "es @ es'"]) auto
  qed
  have w3: "w_ents ?w3 a = Some e3" by simp
  have own: "\<exists>m. e_owner e3 = Some m \<and> w_mgrs ?w3 m \<noteq> None"
    using e e2(3,7) e3(2) by (simp add: home_ok_def)
  show ?thesis
  proof (cases "(e_status e3 \<noteq> SK_ENTITY_ACTIVE \<or> and (e_flags e3) SK_ENTITY_F_DESTROY_NOTXN \<noteq> 0) \<and> e_task_cnt e3 = 0")
    case False
    then have "txn_log_and_destroy E w cur t = Inr ?w3"
      using t(1) a all w1(1) w2(1) sd w3 by (auto simp: txn_log_and_destroy_def with_txn_def with_ent_def Let_def)
    then show ?thesis using g3 [of ?w3 e3 "[]" "[]"] by simp
  next
    case True
    then have eq: "txn_log_and_destroy E w cur t = rbind (sk_entity_safe_destroy E ?w3 cur a) (\<lambda>(w, _). Inr w)"
      using t(1) a all w1(1) w2(1) sd w3 by (simp add: txn_log_and_destroy_def with_txn_def with_ent_def Let_def)
    obtain m where m: "e_owner e3 = Some m" "w_mgrs ?w3 m \<noteq> None" using own by blast
    show ?thesis
      unfolding eq ok_simps
    proof (rule ok_mono [OF safe_destroy_keeps [OF w3 m]], clarify)
      fix w4 :: "('b, 'o) world" and r e4 evs' es'
      assume k: "w_txns w4 = w_txns ?w3" "w_svcs w4 = w_svcs ?w3" "w_ents w4 = (w_ents ?w3)(a \<mapsto> e4)"
        "e_txns e4 = e_txns e3" "e_task_cnt e4 = e_task_cnt e3" "e_timers e4 = e_timers e3"
        "e_iqueue e4 = e_iqueue e3" "w_sends w4 = w_sends ?w3 @ evs'" "\<forall>ev \<in> set evs'. ev_msg ev = Entity_destroy"
        "w_fx w4 = w_fx ?w3 @ es'" "set es' \<subseteq> {Opt_destroy a (e_ud e3)}"
      have "\<forall>f \<in> set es'. quiet f" using k(11) by auto
      from g3 [OF k(1,3-10) this] show "ok (Inr w4) (gone t a w)" by simp
    qed
  qed
qed

section \<open>Runs of the handler\<close>

text \<open>The world in which the handler is called for transaction \<open>t\<close> of entity \<open>a\<close>.\<close>

definition flow_ok :: "('o \<Rightarrow> u8 list) \<Rightarrow> ('o \<Rightarrow> bool) \<Rightarrow> nat \<Rightarrow> ('b, 'o) world \<Rightarrow> addr \<Rightarrow> addr \<Rightarrow> 'o sk_txn \<Rightarrow>
    sk_entity \<Rightarrow> bool" where
  "flow_ok items invar B w a t txn e \<longleftrightarrow> w_txns w t = Some txn \<and> txn_good items invar B txn \<and> tx_entity txn = a \<and>
     wf_modules (tx_workflow txn) \<noteq> [] \<and> home_ok w a e \<and> t \<in> set (the (e_txns e))"

lemma home_ok_upd:
  assumes "home_ok w a e" "upd t w x evs es w'" "tx_entity x = a"
  shows "home_ok w' a e"
  using assms by (auto simp: home_ok_def ent_ok_def queue_ok_def upd_def)

lemma flow_ok_upd:
  assumes f: "flow_ok items invar B w a t txn e" and u: "upd t w x evs es w'"
    and x: "txn_good items invar B' x" "tx_entity x = a" "tx_workflow x = tx_workflow txn"
  shows "flow_ok items invar B' w' a t x e"
  using assms home_ok_upd [OF _ u x(2)] by (auto simp: flow_ok_def upd_def)

lemma flow_ok_upd2:
  assumes f: "flow_ok items invar B w a t txn e" and u: "upd2 t a w x e' evs es w'"
    and x: "txn_good items invar B' x" "tx_entity x = a" "tx_workflow x = tx_workflow txn"
    and e': "e' = e \<or> e' = e\<lparr>e_status := SK_ENTITY_INACTIVE\<rparr>"
  shows "flow_ok items invar B' w' a t x e'"
  using assms by (auto simp: flow_ok_def home_ok_def ent_ok_def queue_ok_def upd2_def)

text \<open>The check of the timeout, which comes before the switch over the state read before it.\<close>

definition timed :: "('b, 'o) sk_env \<Rightarrow> ('b, 'o) world \<Rightarrow> 'o sk_txn \<Rightarrow> 'o sk_txn" where
  "timed E w txn = (if sk_txn_timeout txn (sk_time_us E w) then in_state txn SK_TXN_TIMEOUT else txn)"

lemma timed_sel [simp]:
  "txn_good items invar B (timed E w txn) \<longleftrightarrow> txn_good items invar B txn"
  "tx_entity (timed E w txn) = tx_entity txn" "tx_workflow (timed E w txn) = tx_workflow txn"
  "tx_workflow_idx (timed E w txn) = tx_workflow_idx txn" "running_tasks (timed E w txn) = running_tasks txn"
  "tx_state (timed E w txn) \<in> {tx_state txn, SK_TXN_TIMEOUT}" "tx_task_tbl (timed E w txn) = tx_task_tbl txn"
  "tx_output (timed E w txn) = tx_output txn"
  by (simp_all add: timed_def)

lemma wf_step_timed:
  assumes "w_txns w t = Some txn" "tx_state txn \<noteq> SK_TXN_DESTROYED"
  shows "(if sk_txn_timeout txn (sk_time_us E w) then set_state (tick w) t SK_TXN_TIMEOUT else Inr (tick w)) =
    Inr (set_txn (tick w) t (timed E w txn))"
proof -
  have "set_txn (tick w) t txn = tick w" using assms(1) by (intro world.equality) auto
  then show ?thesis
    using assms set_state_eq [of "tick w" t txn SK_TXN_TIMEOUT] by (simp add: timed_def)
qed

text \<open>A run ends with the transaction freed, or kept for the tasks that nobody waits for.\<close>

definition ended :: "addr \<Rightarrow> addr \<Rightarrow> ('b, 'o) world \<Rightarrow> ('b, 'o) world \<Rightarrow> bool" where
  "ended t a w w' \<longleftrightarrow> gone t a w w' \<or>
     (\<exists>txn x. w_txns w t = Some txn \<and> upd t w x [] [] w' \<and> tx_state x = SK_TXN_DESTROYED \<and>
        tx_task_tbl x = tx_task_tbl txn \<and> running_tasks x \<noteq> {})"

text \<open>In state \<open>PACKED\<close> the handler only destroys the transaction.\<close>

lemma packed_start:
  assumes f: "flow_ok items invar B w a t txn e" and st: "tx_state txn = SK_TXN_PACKED"
  shows "\<exists>w1. wf_run E w cur a t = txn_log_and_destroy E w1 cur t \<and>
    upd t w (in_state (timed E w txn) SK_TXN_DESTROYED) [] [] w1 \<and>
    flow_ok items invar B w1 a t (in_state (timed E w txn) SK_TXN_DESTROYED) e"
proof -
  have t: "w_txns w t = Some txn" using f by (simp add: flow_ok_def)
  let ?x = "in_state (timed E w txn) SK_TXN_DESTROYED"
  let ?w = "set_txn (set_txn (tick w) t (timed E w txn)) t ?x"
  have u: "upd t w ?x [] [] ?w" by (simp add: upd_def)
  have f1: "flow_ok items invar B ?w a t ?x e"
    by (rule flow_ok_upd [OF f u]) (use f in \<open>simp_all add: flow_ok_def\<close>)
  have "tx_state (timed E w txn) \<noteq> SK_TXN_DESTROYED" using timed_sel(6) [of E w txn] st by auto
  then have ss: "set_state (set_txn (tick w) t (timed E w txn)) t SK_TXN_DESTROYED = Inr ?w"
    by (intro set_state_eq) auto
  have step: "wf_step E w cur a t = rbind (txn_log_and_destroy E ?w cur t) (\<lambda>w. Inr (w, False))"
    using t st wf_step_timed [of w t txn E] ss by (simp add: wf_step_def with_txn_def Let_def)
  have "wf_run E w cur a t = txn_log_and_destroy E ?w cur t"
    by (subst wf_run.simps) (simp add: step rbind_assoc rbind_def split: sum.split)
  with u f1 show ?thesis by blast
qed

lemma packed_run_gone:
  assumes E: "env_fits E items invar n k" and f: "flow_ok items invar B w a t txn e" and B: "B < 2 ^ 62"
    and st: "tx_state txn = SK_TXN_PACKED" and r: "running_tasks txn = {}"
  shows "ok (wf_run E w cur a t) (gone t a w)"
proof -
  let ?x = "in_state (timed E w txn) SK_TXN_DESTROYED"
  obtain w1 where w1: "wf_run E w cur a t = txn_log_and_destroy E w1 cur t" "upd t w ?x [] [] w1"
    "flow_ok items invar B w1 a t ?x e" using packed_start [OF f st] by blast
  have l: "fmbuf (en_O E) 1 items invar" using E by (simp add: env_fits_def)
  have x: "w_txns w1 t = Some ?x" "txn_good items invar B ?x" "tx_entity ?x = a" "home_ok w1 a e" "t \<in> set (the (e_txns e))"
    "running_tasks ?x = {}"
    using w1(3) r by (auto simp: flow_ok_def)
  show ?thesis
    unfolding w1(1) by (rule ok_mono [OF log_and_destroy_ok [OF l x(1,2) B x(3-6)]])
      (use w1(2) in \<open>simp add: gone_def upd_def\<close>)
qed

lemma packed_run:
  assumes E: "env_fits E items invar n k" and f: "flow_ok items invar B w a t txn e" and B: "B < 2 ^ 62"
    and st: "tx_state txn = SK_TXN_PACKED"
  shows "ok (wf_run E w cur a t) (ended t a w)"
proof (cases "running_tasks txn = {}")
  case True
  then show ?thesis using ok_mono [OF packed_run_gone [OF E f B st]] by (simp add: ended_def)
next
  case False
  let ?x = "in_state (timed E w txn) SK_TXN_DESTROYED"
  obtain w1 where w1: "wf_run E w cur a t = txn_log_and_destroy E w1 cur t" "upd t w ?x [] [] w1"
    "flow_ok items invar B w1 a t ?x e" using packed_start [OF f st] by blast
  have x: "w_txns w1 t = Some ?x" "txn_tasks_ok ?x" "running_tasks ?x \<noteq> {}"
    using w1(3) False by (auto simp: flow_ok_def txn_good_def)
  have "\<not> sk_txn_alltask_complete ?x" "tx_complete_tasks ?x < tx_total_tasks ?x"
    using alltask_complete_iff [OF x(2)] txn_complete_running [OF x(2)] x(3)
    by (auto simp: sk_txn_alltask_complete_def)
  then have "txn_log_and_destroy E w1 cur t = Inr w1"
    using x(1) by (simp add: txn_log_and_destroy_def with_txn_def Let_def sk_txn_safe_destroy_def)
  then show ?thesis
    unfolding w1(1) ended_def using w1(2) x(3) f by (auto simp: flow_ok_def intro!: exI [of _ ?x])
qed

lemma packed_gone:
  assumes "env_fits E items invar n k" "flow_ok items invar B w a t txn e" "B < 2 ^ 62"
    and st: "tx_state txn = SK_TXN_PACKED" and r: "running_tasks txn = {}" and w': "wf_run E w cur a t = Inr w'"
  shows "gone t a w w'"
  using packed_run_gone [OF assms(1-5), of cur] w' by (simp add: ok_def)

text \<open>Packing, then the end.\<close>

definition pack_end ::
  "('b, 'o) sk_env \<Rightarrow> ('o \<Rightarrow> u8 list) \<Rightarrow> addr \<Rightarrow> addr \<Rightarrow> ('b, 'o) world \<Rightarrow> sk_entity \<Rightarrow> sk_module \<Rightarrow>
   ('b, 'o) world \<Rightarrow> bool" where
  "pack_end E items a t w e m w' \<longleftrightarrow> (\<exists>txn txn' e1 io es w1. w_txns w t = Some txn \<and>
     upd2 t a w txn' e1 io es w1 \<and> tx_state txn' = SK_TXN_PACKED \<and>
     (io = [] \<longrightarrow> tx_task_tbl txn' = tx_task_tbl txn) \<and>
     packed E items a t (timed E w txn) e m e1 io es \<and> ended t a w1 w')"

lemma pack_run:
  assumes E: "env_fits E items invar n k" and f: "flow_ok items invar B w a t txn e"
    and B: "B + n + k + 2047 < 2 ^ 62" and st: "tx_state txn \<in> {SK_TXN_COMPLETED, SK_TXN_ERROR, SK_TXN_TIMEOUT}"
    and m: "sk_workflow_last_module (tx_workflow txn) = Some m"
  shows "ok (wf_run E w cur a t) (pack_end E items a t w e m)"
proof -
  have t: "w_txns w t = Some txn" using f by (simp add: flow_ok_def)
  let ?x = "timed E w txn"
  let ?w = "set_txn (tick w) t ?x"
  have u: "upd t w ?x [] [] ?w" by (simp add: upd_def)
  have f1: "flow_ok items invar B ?w a t ?x e"
    by (rule flow_ok_upd [OF f u]) (use f in \<open>simp_all add: flow_ok_def\<close>)
  then have x: "w_txns ?w t = Some ?x" "txn_good items invar B ?x" "tx_entity ?x = a" "w_ents ?w a = Some e"
    "opt_write (e_opt e) \<noteq> None" by (auto simp: flow_ok_def home_ok_def)
  have nd: "tx_state ?x \<noteq> SK_TXN_DESTROYED" using timed_sel(6) [of E w txn] st by auto
  have m1: "sk_workflow_last_module (tx_workflow ?x) = Some m" using m by simp
  have B1: "B + n + k < 2 ^ 62" using B by simp
  have step: "wf_step E w cur a t = module_pack E ?w cur a t"
    using t st wf_step_timed [of w t txn E] by (auto simp: wf_step_def with_txn_def Let_def)
  have "ok (module_pack E ?w cur a t) (\<lambda>(w', again). ok (if again then wf_run E w' cur a t else Inr w') (pack_end E items a t w e m))"
  proof (rule ok_mono [OF module_pack_ok [OF E x(1,2) B1 nd x(4,5) m1]], clarify)
    fix w1 again
    assume "pack_post E items invar (B + n + k + 2047) a t ?w ?x e m (w1, again)"
    then obtain y e1 io es where y: "again" "upd2 t a ?w y e1 io es w1"
      "txn_good items invar (B + n + k + 2047) y" "tx_state y = SK_TXN_PACKED" "tx_workflow y = tx_workflow ?x"
      "tx_entity y = tx_entity ?x" "e1 = e \<or> e1 = e\<lparr>e_status := SK_ENTITY_INACTIVE\<rparr>"
      "io = [] \<longrightarrow> tx_task_tbl y = tx_task_tbl ?x" "packed E items a t ?x e m e1 io es"
      unfolding pack_post_def fst_conv snd_conv by (elim exE conjE) blast
    have "flow_ok items invar (B + n + k + 2047) w1 a t y e1"
      by (rule flow_ok_upd2 [OF f1 y(2,3) _ y(5,7)]) (use y(6) x(3) in simp)
    note p = packed_run [OF E this B y(4)]
    have "upd2 t a w y e1 io es w1" using y(2) by (simp add: upd2_def)
    then have "pack_end E items a t w e m w'" if "ended t a w1 w'" for w'
      unfolding pack_end_def using t y(4,8,9) that timed_sel(7) by metis
    from ok_mono [OF p this] y(1) show "ok (if again then wf_run E w1 cur a t else Inr w1) (pack_end E items a t w e m)"
      by simp
  qed
  then show ?thesis
    by (subst wf_run.simps) (simp add: step case_prod_unfold)
qed

text \<open>
  One call of the handler while modules are left: the next module runs, once. Then the
  transaction waits for its tasks, or the handler is sent to itself again, or the transaction is
  packed. With no module left it is packed at once.
\<close>

definition flow_end ::
  "('b, 'o) sk_env \<Rightarrow> ('o \<Rightarrow> u8 list) \<Rightarrow> addr \<Rightarrow> addr \<Rightarrow> addr \<Rightarrow> ('b, 'o) world \<Rightarrow> 'o sk_txn \<Rightarrow>
   sk_entity \<Rightarrow> sk_module \<Rightarrow> ('b, 'o) world \<Rightarrow> bool" where
  "flow_end E items cur a t w txn e lm w' \<longleftrightarrow> (case tx_workflow_idx txn of
     [] \<Rightarrow> \<exists>w1 x. upd t w x [] [] w1 \<and> tx_state x = SK_TXN_COMPLETED \<and> tx_task_tbl x = tx_task_tbl txn \<and>
       tx_output x = tx_output txn \<and> pack_end E items a t w1 e lm w'
   | m # ms \<Rightarrow> \<exists>w1 x io evs again.
       upd t w x evs [Run_module (m_addr m) t, Stat_run (m_addr m)] w1 \<and>
       tx_current x = Some m \<and> tx_workflow_idx x = ms \<and> (\<forall>ev \<in> set io. iocall_event E t ev) \<and>
       module_end cur a t x io evs again \<and> (if again then pack_end E items a t w1 e lm w' else w' = w1))"

lemma running_run:
  assumes E: "env_fits E items invar n k" and f: "flow_ok items invar B w a t txn e"
    and B: "B + n + k + 2047 + n + k + 2047 < 2 ^ 62" and st: "tx_state txn = SK_TXN_RUNNING"
    and lm: "sk_workflow_last_module (tx_workflow txn) = Some lm"
  shows "ok (wf_run E w cur a t) (flow_end E items cur a t w txn e lm)"
proof -
  have t: "w_txns w t = Some txn" using f by (simp add: flow_ok_def)
  let ?x = "timed E w txn"
  let ?w = "set_txn (tick w) t ?x"
  have u: "upd t w ?x [] [] ?w" by (simp add: upd_def)
  have f1: "flow_ok items invar B ?w a t ?x e"
    by (rule flow_ok_upd [OF f u]) (use f in \<open>simp_all add: flow_ok_def\<close>)
  then have x: "w_txns ?w t = Some ?x" "txn_good items invar B ?x" "tx_entity ?x = a" by (auto simp: flow_ok_def)
  have sx: "tx_state ?x \<in> {SK_TXN_RUNNING, SK_TXN_TIMEOUT}" using timed_sel(6) [of E w txn] st by simp
  have step: "wf_step E w cur a t = module_run E ?w cur a t"
    using t st wf_step_timed [of w t txn E] by (simp add: wf_step_def with_txn_def Let_def)
  have run: "wf_run E w cur a t = rbind (module_run E ?w cur a t) (\<lambda>(w', again). if again then wf_run E w' cur a t else Inr w')"
    by (subst wf_run.simps) (simp add: step)
  show ?thesis
  proof (cases "tx_workflow_idx txn")
    case Nil
    let ?y = "in_state (?x\<lparr>tx_current := None\<rparr>) SK_TXN_COMPLETED"
    let ?w1 = "set_txn (set_txn (tick ?w) t (?x\<lparr>tx_current := None\<rparr>)) t ?y"
    have "set_state (set_txn (tick ?w) t (?x\<lparr>tx_current := None\<rparr>)) t SK_TXN_COMPLETED = Inr ?w1"
      by (rule set_state_eq) (use sx in auto)
    then have mr: "module_run E ?w cur a t = Inr (?w1, True)"
      using Nil by (simp add: module_run_def alivetime_eq with_txn_def sk_txn_next_module_def)
    have g: "txn_good items invar B ?y"
      using x(2) by (auto simp: txn_good_def txn_tasks_ok_def running_tasks_def waited_tasks_def in_state_def)
    have u1: "upd t w ?y [] [] ?w1" by (simp add: upd_def)
    have "flow_ok items invar B ?w1 a t ?y e" by (rule flow_ok_upd [OF f u1 g]) (use x(3) in simp_all)
    from pack_run [OF E this] have "ok (wf_run E ?w1 cur a t) (pack_end E items a t ?w1 e lm)" using B lm by simp
    moreover have "flow_end E items cur a t w txn e lm w'" if "pack_end E items a t ?w1 e lm w'" for w'
      unfolding flow_end_def Nil list.case using u1 that
      by (intro exI2 [of _ ?w1 ?y]) simp
    ultimately show ?thesis unfolding run mr by (auto elim: ok_mono)
  next
    case (Cons m ms)
    then have idx: "tx_workflow_idx ?x = m # ms" by simp
    have B1: "B + n + k < 2 ^ 62" using B by simp
    let ?z = "?x\<lparr>tx_current := Some m, tx_workflow_idx := ms\<rparr>"
    let ?es = "[Run_module (m_addr m) t, Stat_run (m_addr m)]"
    show ?thesis
      unfolding run ok_simps
    proof (rule ok_mono [OF module_run_ok [OF E x(1,2) B1 sx idx]], clarify)
      fix w1 again
      assume "module_post E items invar (B + n + k + 2047) cur a t ?w ?z ?es (w1, again)"
      then obtain y io evs where y: "upd t ?w y evs ?es w1" "txn_good items invar (B + n + k + 2047) y"
        "tx_workflow y = tx_workflow ?z" "tx_workflow_idx y = tx_workflow_idx ?z" "tx_current y = tx_current ?z"
        "tx_entity y = tx_entity ?z" "\<forall>ev \<in> set io. iocall_event E t ev" "module_end cur a t y io evs again"
        unfolding module_post_def fst_conv snd_conv by (elim exE conjE) blast
      have u1: "upd t w y evs ?es w1" using y(1) by (simp add: upd_def)
      have fe: "flow_end E items cur a t w txn e lm w'" if "if again then pack_end E items a t w1 e lm w' else w' = w1" for w'
        unfolding flow_end_def Cons list.case using u1 y that
        by (intro exI3 [of _ w1 y io] exI2 [of _ evs again]) simp
      show "ok (if again then wf_run E w1 cur a t else Inr w1) (flow_end E items cur a t w txn e lm)"
      proof (cases again)
        case True
        have "flow_ok items invar (B + n + k + 2047) w1 a t y e"
          by (rule flow_ok_upd [OF f u1 y(2)]) (use x(3) y(3,6) in simp_all)
        moreover have "tx_state y \<in> {SK_TXN_COMPLETED, SK_TXN_ERROR, SK_TXN_TIMEOUT}"
          using y(8) True by (auto simp: module_end_def)
        ultimately have "ok (wf_run E w1 cur a t) (pack_end E items a t w1 e lm)"
          using pack_run [OF E, of "B + n + k + 2047" w1 a t y e lm cur] B lm y(3) by simp
        from ok_mono [OF this, of "flow_end E items cur a t w txn e lm"] fe True show ?thesis by simp
      qed (use fe in simp)
    qed
  qed
qed

lemma early_run:
  assumes E: "env_fits E items invar n k" and f: "flow_ok items invar B w a t txn e"
    and B: "B + n + k + 2047 + n + k + 2047 < 2 ^ 62"
    and st: "tx_state txn \<in> {SK_TXN_INIT, SK_TXN_UNPACKED, SK_TXN_PENDING}"
    and lm: "sk_workflow_last_module (tx_workflow txn) = Some lm"
  shows "ok (wf_run E w cur a t) (flow_end E items cur a t w txn e lm)"
proof -
  have t: "w_txns w t = Some txn" using f by (simp add: flow_ok_def)
  let ?x = "timed E w txn"
  let ?w = "set_txn (tick w) t ?x"
  let ?y = "in_state ?x SK_TXN_RUNNING"
  let ?w1 = "set_txn ?w t ?y"
  have u: "upd t w ?y [] [] ?w1" by (simp add: upd_def)
  have f1: "flow_ok items invar B ?w1 a t ?y e"
    by (rule flow_ok_upd [OF f u]) (use f in \<open>simp_all add: flow_ok_def\<close>)
  have "tx_state ?x \<noteq> SK_TXN_DESTROYED" using timed_sel(6) [of E w txn] st by auto
  then have ss: "set_state ?w t SK_TXN_RUNNING = Inr ?w1" by (intro set_state_eq) auto
  have "wf_step E w cur a t = Inr (?w1, True)"
    using t st wf_step_timed [of w t txn E] ss by (auto simp: wf_step_def with_txn_def Let_def)
  then have "wf_run E w cur a t = wf_run E ?w1 cur a t" by (subst wf_run.simps) simp
  moreover have "ok (wf_run E ?w1 cur a t) (flow_end E items cur a t ?w1 ?y e lm)"
    using running_run [OF E f1 B] lm by simp
  moreover have up: "upd t ?w1 = upd t w" and idx: "tx_workflow_idx ?y = tx_workflow_idx txn"
    "tx_task_tbl ?y = tx_task_tbl txn" "tx_output ?y = tx_output txn"
    by (simp_all add: upd_def fun_eq_iff)
  have "flow_end E items cur a t ?w1 ?y e lm w' = flow_end E items cur a t w txn e lm w'" for w'
    by (simp only: flow_end_def up idx)
  ultimately show ?thesis by (auto elim: ok_mono)
qed

lemma last_module_some: "wf_modules wflow \<noteq> [] \<Longrightarrow> sk_workflow_last_module wflow = Some (last (wf_modules wflow))"
  by (cases "wf_modules wflow") (auto simp: sk_workflow_last_module_def)

section \<open>Properties\<close>

text \<open>The small world of \<open>Sk_Entity\<close>: transaction 5 of entity 1 has just been created.\<close>

abbreviation demo_home :: sk_entity where
  "demo_home \<equiv> demo_entity (Some 10) SK_ENTITY_ACTIVE [5] []"

lemma demo_env_fits: "env_fits demo_env cb_cells (cellbuf_invar 1) 1 0"
  using fmbuf_cellbuf [of 1] by (simp add: env_fits_def demo_env_def)

lemma demo_txn_good: "txn_good cb_cells (cellbuf_invar 1) 0 demo_txn"
proof -
  have "txn_tasks_ok demo_txn" by (simp add: demo_txn_def txn_create_ok)
  then show ?thesis
    by (simp add: txn_good_def demo_txn_def sk_txn_create_def sk_mbuf_create_def)
qed

lemma demo_flow_ok: "flow_ok cb_cells (cellbuf_invar 1) 0 demo_world 1 5 demo_txn demo_home"
  using demo_txn_good
  by (auto simp: flow_ok_def home_ok_def ent_ok_def queue_ok_def demo_world_def demo_entity_def demo_txn_entity
      demo_mgr_def default_opt_def)
     (simp add: demo_txn_def sk_txn_create_def demo_workflow_def)

text \<open>
  C11: while modules are left, a call of the workflow handler never aborts and ends in one of
  three ways. It runs exactly the next module of the transaction, exactly once. Then, if the
  module made service calls with a callback, the transaction is left waiting (state \<open>PENDING\<close>,
  or \<open>ERROR\<close> after a failure) and no further run is scheduled; else, if the module succeeded and
  is not the last one, exactly one further run is sent to the same scheduler; else the
  transaction is packed at most once and ends.
\<close>
theorem workflow_run_modules:
  assumes "env_fits E items invar n k" and "flow_ok items invar B w a t txn e"
    and "B + n + k + 2047 + n + k + 2047 < 2 ^ 62"
    and "tx_state txn \<in> {SK_TXN_INIT, SK_TXN_UNPACKED, SK_TXN_PENDING, SK_TXN_RUNNING}"
  shows "\<exists>w'. wf_run E w cur a t = Inr w' \<and>
    flow_end E items cur a t w txn e (last (wf_modules (tx_workflow txn))) w'"
proof -
  have lm: "sk_workflow_last_module (tx_workflow txn) = Some (last (wf_modules (tx_workflow txn)))"
    using assms(2) by (simp add: flow_ok_def last_module_some)
  show ?thesis
    using early_run [OF assms(1-3) _ lm, of cur] running_run [OF assms(1-3) _ lm, of cur] assms(4)
    by (auto simp: ok_def)
qed

theorem workflow_run_modules_witness:
  "\<exists>w'. wf_run demo_env demo_world 100 1 5 = Inr w' \<and>
     flow_end demo_env cb_cells 100 1 5 demo_world demo_txn demo_home (demo_module 2) w'"
proof -
  have "tx_state demo_txn = SK_TXN_INIT" "last (wf_modules (tx_workflow demo_txn)) = demo_module 2"
    by (simp_all add: demo_txn_def sk_txn_create_def demo_workflow_def)
  then show ?thesis
    using workflow_run_modules [OF demo_env_fits demo_flow_ok, of 100] by simp
qed

text \<open>
  C12: a transaction that is complete, failed or timed out is packed by one call of the handler:
  the \<^verbatim>\<open>pack\<close> function of the last module runs once, its output is written to the entity in one
  piece, and the transaction is then freed and no longer counted by its entity, or, when tasks
  that nobody waits for still run, kept in state \<open>DESTROYED\<close>.
\<close>
theorem workflow_run_packs:
  assumes "env_fits E items invar n k" and "flow_ok items invar B w a t txn e"
    and "B + n + k + 2047 < 2 ^ 62"
    and "tx_state txn \<in> {SK_TXN_COMPLETED, SK_TXN_ERROR, SK_TXN_TIMEOUT}"
  shows "\<exists>w'. wf_run E w cur a t = Inr w' \<and> pack_end E items a t w e (last (wf_modules (tx_workflow txn))) w'"
proof -
  have lm: "sk_workflow_last_module (tx_workflow txn) = Some (last (wf_modules (tx_workflow txn)))"
    using assms(2) by (simp add: flow_ok_def last_module_some)
  show ?thesis using pack_run [OF assms lm, of cur] by (simp add: ok_def)
qed

definition demo_late :: "(sk_srv_task cellbuf, u8 cellbuf) world" where
  "demo_late = set_txn demo_world 5 (demo_txn\<lparr>tx_state := SK_TXN_COMPLETED\<rparr>)"

theorem workflow_run_packs_witness:
  "\<exists>w'. wf_run demo_env demo_late 100 1 5 = Inr w' \<and> pack_end demo_env cb_cells 1 5 demo_late demo_home (demo_module 2) w'"
proof -
  let ?x = "demo_txn\<lparr>tx_state := SK_TXN_COMPLETED\<rparr>"
  have "upd 5 demo_world ?x [] [] demo_late" by (simp add: upd_def demo_late_def)
  moreover have "txn_good cb_cells (cellbuf_invar 1) 0 ?x"
    using txn_good_in_state [of cb_cells "cellbuf_invar 1" 0 demo_txn SK_TXN_COMPLETED] demo_txn_good
    by (simp add: in_state_def)
  ultimately have "flow_ok cb_cells (cellbuf_invar 1) 0 demo_late 1 5 ?x demo_home"
    by (rule flow_ok_upd [OF demo_flow_ok]) (simp_all add: demo_txn_entity)
  moreover have "last (wf_modules (tx_workflow ?x)) = demo_module 2"
    by (simp add: demo_txn_def sk_txn_create_def demo_workflow_def)
  ultimately show ?thesis
    using workflow_run_packs [OF demo_env_fits, of 0 demo_late 1 5 ?x demo_home 100] by simp
qed

text \<open>
  C13: when a transaction of an entity without concurrency ends, the transactions that wait in the
  input queue of the entity stay there and no run is scheduled for them: the input queue is
  consulted while the ending transaction is still counted.
\<close>
theorem workflow_end_leaves_queue:
  assumes "env_fits E items invar n k" and "flow_ok items invar B w a t txn e" and "B < 2 ^ 62"
    and "tx_state txn = SK_TXN_PACKED" and "running_tasks txn = {}"
    and "\<not> wc_concurrent (wf_cfg (the (e_workflow e)))"
  shows "\<exists>w' e' evs. wf_run E w cur a t = Inr w' \<and> w_txns w' t = None \<and> w_ents w' a = Some e' \<and>
    e_iqueue e' = e_iqueue e \<and> w_sends w' = w_sends w @ evs \<and> (\<forall>ev \<in> set evs. ev_msg ev = Entity_destroy)"
proof -
  obtain w' where w': "wf_run E w cur a t = Inr w'" "ended t a w w'"
    using packed_run [OF assms(1-4), of cur] by (auto simp: ok_def)
  have h: "home_ok w a e" "t \<in> set (the (e_txns e))" "w_ents w a = Some e"
    using assms(2) by (auto simp: flow_ok_def home_ok_def)
  obtain ts where "e_txns e = Some ts" "e_task_cnt e = int (length ts)" using h(1) by (auto simp: home_ok_def ent_ok_def)
  then have "\<not> deliverable e" using h(2) assms(6) by (auto simp: deliverable_def)
  moreover have "gone t a w w'" using w' packed_gone [OF assms(1-5) w'(1)] by simp
  ultimately show ?thesis
    using w'(1) h(3) unfolding gone_def by (elim conjE exE) (intro exI3, auto)
qed

definition demo_queue :: "(sk_srv_task cellbuf, u8 cellbuf) world" where
  "demo_queue = set_ent (set_txn (set_txn demo_world 5 (demo_txn\<lparr>tx_state := SK_TXN_PACKED\<rparr>)) 7 demo_txn) 1
     (demo_entity (Some 10) SK_ENTITY_ACTIVE [5] [7])"

theorem workflow_end_leaves_queue_witness:
  "\<exists>w' e'. wf_run demo_env demo_queue 100 1 5 = Inr w' \<and> w_txns w' 5 = None \<and> w_ents w' 1 = Some e' \<and> e_iqueue e' = [7]"
proof -
  let ?x = "demo_txn\<lparr>tx_state := SK_TXN_PACKED\<rparr>" and ?e = "demo_entity (Some 10) SK_ENTITY_ACTIVE [5] [7]"
  have "txn_good cb_cells (cellbuf_invar 1) 0 ?x"
    using txn_good_in_state [of cb_cells "cellbuf_invar 1" 0 demo_txn SK_TXN_PACKED] demo_txn_good
    by (simp add: in_state_def)
  then have f: "flow_ok cb_cells (cellbuf_invar 1) 0 demo_queue 1 5 ?x ?e"
    by (auto simp: flow_ok_def home_ok_def ent_ok_def queue_ok_def demo_queue_def demo_world_def demo_entity_def
        demo_txn_entity demo_mgr_def default_opt_def)
       (simp add: demo_txn_def sk_txn_create_def demo_workflow_def)
  have r: "running_tasks ?x = {}" "\<not> wc_concurrent (wf_cfg (the (e_workflow ?e)))" "tx_state ?x = SK_TXN_PACKED"
    by (simp_all add: running_tasks_def demo_txn_def sk_txn_create_def demo_entity_def demo_workflow_def)
  have "e_iqueue ?e = [7]" by (simp add: demo_entity_def)
  then show ?thesis
    using workflow_end_leaves_queue [OF demo_env_fits f _ r(3,1,2), of 100] by auto
qed

text \<open>
  A transaction in state \<open>DESTROYED\<close> (packed, but kept for a task that nobody waits for)
  whose time is over aborts the process when its last task makes the handler run again: the
  timeout check comes first, and no state may follow \<open>DESTROYED\<close>.
\<close>
theorem workflow_run_destroyed_timeout:
  assumes "w_txns w t = Some txn" and "tx_state txn = SK_TXN_DESTROYED"
    and "sk_txn_timeout txn (sk_time_us E w)"
  shows "wf_run E w cur a t = Inl Assert"
proof -
  have "wf_step E w cur a t = Inl Assert"
    using assms by (simp add: wf_step_def with_txn_def set_state_def sk_txn_setstate_def)
  then show ?thesis by (subst wf_run.simps) simp
qed

definition demo_stale :: "u8 cellbuf sk_txn" where
  "demo_stale = demo_txn\<lparr>tx_state := SK_TXN_DESTROYED, tx_start_time := - 9000,
     tx_workflow := demo_workflow\<lparr>wf_cfg := (wf_cfg demo_workflow)\<lparr>wc_timeout := 5\<rparr>\<rparr>\<rparr>"

theorem workflow_run_destroyed_timeout_witness:
  "wf_run demo_env (set_txn demo_world 5 demo_stale) 100 1 5 = Inl Assert"
proof -
  have "sk_txn_timeout demo_stale (sk_time_us demo_env (set_txn demo_world 5 demo_stale))"
    by (simp add: sk_txn_timeout_def demo_stale_def sk_time_us_def demo_env_def demo_world_def empty_world_def
        sdiv_c_def sk_txn_alivetime_def SK_US_PER_MS_def)
  then show ?thesis
    by (intro workflow_run_destroyed_timeout [of _ _ demo_stale]) (simp_all add: demo_stale_def)
qed

section \<open>Termination\<close>

text \<open>The tail calls of \<^verbatim>\<open>_run\<close>, bounded by \<open>n\<close>.\<close>

fun wf_fuel :: "nat \<Rightarrow> ('b, 'o) sk_env \<Rightarrow> ('b, 'o) world \<Rightarrow> addr \<Rightarrow> addr \<Rightarrow> addr \<Rightarrow> ('b, 'o) world res" where
  "wf_fuel 0 E w cur a t = Inl Fuel"
| "wf_fuel (Suc n) E w cur a t = rbind (wf_step E w cur a t) (\<lambda>(w', again).
     if again then wf_fuel n E w' cur a t else Inr w')"

lemma wf_fuel_rank: "txn_rank w t < n \<Longrightarrow> wf_fuel n E w cur a t = wf_run E w cur a t"
proof (induction n arbitrary: w)
  case (Suc n)
  have "wf_fuel n E w' cur a t = wf_run E w' cur a t" if "wf_step E w cur a t = Inr (w', True)" for w'
    using wf_step_rank [OF that] Suc by simp
  then show ?case by (cases "wf_step E w cur a t") (auto simp: wf_run.simps [of E w])
qed simp

text \<open>
  C40: the handler of a workflow event terminates: whatever the state of the transaction and whatever
  user code does, it calls itself at most four times.
\<close>
theorem workflow_run_terminates: "wf_fuel 5 E w cur a t = wf_run E w cur a t"
proof (rule wf_fuel_rank)
  have "state_rank st \<le> 4" for st by (cases st) simp_all
  then show "txn_rank w t < 5" by (auto simp: txn_rank_def le_imp_less_Suc split: option.split intro: le_imp_less_Suc [of _ 4, simplified])
qed

end
