(* ===== verification/Service_Pto.thy ===== *)
theory Service_Pto
  imports Workflow_Proofs
begin

text \<open>
  The handlers of the messages between modules and services:
  \<^verbatim>\<open>src/src/pto/sk_pto_service_iocall.c\<close>, \<^verbatim>\<open>sk_pto_service_task_run.c\<close>,
  \<^verbatim>\<open>sk_pto_service_task_cb.c\<close> and \<^verbatim>\<open>sk_pto_service_task_done.c\<close>.

  A call of a service takes four messages. The worker sends \<open>Svc_iocall\<close> to the master, which
  queues a task and hands tasks out (\<open>Svc_task_run\<close>); the worker (or a background engine) runs the
  service and sends \<open>Svc_task_cb\<close> to the caller, which completes the task of the transaction, runs
  the callback and sends \<open>Svc_task_done\<close> to the master, which completes the task of the service and
  resumes the workflow.

  \<open>cur\<close> is the scheduler that runs the handler, \<open>src\<close> the one that sent the message, \<open>a\<close> the
  entity and \<open>t\<close> the transaction of the event.
\<close>

section \<open>The call\<close>

definition elem_type_of :: "sk_service_api_type \<Rightarrow> sk_queue_elem_type" where
  "elem_type_of ty = (if ty = SK_SRV_API_READ then SK_QUEUE_ELEM_READ else SK_QUEUE_ELEM_WRITE)"

definition api_task :: "addr \<Rightarrow> addr \<Rightarrow> sk_service_api \<Rightarrow> u64 \<Rightarrow> int \<Rightarrow> tdref \<Rightarrow> sk_srv_task" where
  "api_task src t api task_id bidx td =
     \<lparr>ts_base_type = elem_type_of (api_type api), ts_io_status = SK_SRV_IO_STATUS_OK, ts_bidx = bidx, ts_src = src,
      ts_data = SK_SRV_TASK_API_QUERY t (api_name api) td task_id\<rparr>"

definition srv_iocall_run ::
  "('b, 'o) sk_env \<Rightarrow> ('b, 'o) world \<Rightarrow> addr \<Rightarrow> addr \<Rightarrow> addr \<Rightarrow> u64 \<Rightarrow> string \<Rightarrow> string \<Rightarrow> int \<Rightarrow> tdref \<Rightarrow>
   (('b, 'o) world \<times> int) res" where
  "srv_iocall_run E w cur src t task_id service_name apiname bidx td =
     sk_assert (cur = en_master E) (with_svc w service_name (\<lambda>sv.
       case sk_service_api sv apiname of
         None \<Rightarrow> Inl Assert
       | Some api \<Rightarrow>
           (let task = api_task src t api task_id bidx td
            in rbind (sk_service_push_task (en_F E) sv task) (\<lambda>(sv, srv_status).
               let w = set_svc w service_name sv
               in if srv_status = SK_SRV_STATUS_BUSY then
                    rbind (sk_service_schedule_task E
                             (fx w [Metric ''worker.srv_iocall_busy'', Metric ''global.srv_iocall_busy''])
                             cur service_name (task\<lparr>ts_io_status := SK_SRV_IO_STATUS_BUSY\<rparr>)) (\<lambda>w. Inr (w, 1))
                  else
                    rbind (sk_service_schedule_tasks E
                             (fx w [Metric ''worker.srv_iocall'', Metric ''global.srv_iocall''])
                             cur service_name) (\<lambda>(w, _). Inr (w, 0))))))"

section \<open>Running the task\<close>

definition srv_task_run ::
  "('b, 'o) sk_env \<Rightarrow> ('b, 'o) world \<Rightarrow> addr \<Rightarrow> addr \<Rightarrow> addr \<Rightarrow> addr \<Rightarrow> string \<Rightarrow> string \<Rightarrow> addr \<Rightarrow> tdref \<Rightarrow>
   (('b, 'o) world \<times> int) res" where
  "srv_task_run E w cur src a t service_name apiname api_caller td =
     sk_assert (src = en_master E) (with_svc w service_name (\<lambda>_.
       rbind (sk_service_run_iocall E w service_name td apiname) (\<lambda>(w, srv_status).
       sk_assert (srv_status = SK_SRV_STATUS_OK)
         (with_txn w (fst td) (\<lambda>owner. get_task owner (snd td) (\<lambda>task.
            with_svc w service_name (\<lambda>sv. deref (sk_service_api sv apiname) (\<lambda>api.
              let txn_status = (if sk_txn_task_done (tk_data task) then SK_TXN_TASK_DONE else SK_TXN_TASK_PENDING)
              in Inr (fx (send w cur (Some api_caller) a (Some t)
                           (Svc_task_cb td service_name (api_name api) txn_status True))
                        [Metric ''worker.srv_iocall_execute'', Metric ''global.srv_iocall_execute''], 0)))))))))"

section \<open>The callback\<close>

text \<open>\<^verbatim>\<open>taskdata\<close> points into the table of the transaction; its owner gives the id of the task.\<close>

definition set_complete ::
  "('b, 'o) sk_env \<Rightarrow> ('b, 'o) world \<Rightarrow> addr \<Rightarrow> u64 \<Rightarrow> sk_txn_task_status_t \<Rightarrow> ('b, 'o) world res" where
  "set_complete E w t task_id status = with_txn w t (\<lambda>txn.
     rbind (sk_txn_task_setcomplete txn task_id status (sk_time_us E w)) (\<lambda>txn.
       Inr (set_txn (tick w) t txn)))"

fun task_status_code :: "sk_txn_task_status_t \<Rightarrow> int" where
  "task_status_code SK_TXN_TASK_RUNNING = 0" | "task_status_code SK_TXN_TASK_DONE = 1"
| "task_status_code SK_TXN_TASK_PENDING = 2" | "task_status_code SK_TXN_TASK_BUSY = 3"

text \<open>Steps 2 to 4 of the handler: the task is complete.\<close>

definition run_callback ::
  "('b, 'o) sk_env \<Rightarrow> ('b, 'o) world \<Rightarrow> addr \<Rightarrow> addr \<Rightarrow> u64 \<Rightarrow> string \<Rightarrow> string \<Rightarrow> sk_txn_task_status_t \<Rightarrow>
   ('b, 'o) world res" where
  "run_callback E w cur t task_id service_name apiname task_status =
     rbind (set_complete E w t task_id task_status) (\<lambda>w.
     with_svc w service_name (\<lambda>_.
     rbind (sk_service_run_iocall_cb E w cur service_name t task_id apiname) (\<lambda>(w, ret).
     rbind (if ret \<noteq> 0 then set_state w t SK_TXN_ERROR else Inr w) (\<lambda>w.
     rbind (alivetime E w t) (\<lambda>(w, txn_alivetime).
     with_txn w t (\<lambda>txn.
     rbind (sk_txn_task_starttime txn task_id) (\<lambda>task_starttime.
       log_add E w t (en_fmt_task E service_name apiname
         (task_status_code task_status) ret
         (task_starttime - tx_start_time txn) txn_alivetime))))))))"

definition srv_task_cb ::
  "('b, 'o) sk_env \<Rightarrow> ('b, 'o) world \<Rightarrow> addr \<Rightarrow> addr \<Rightarrow> addr \<Rightarrow> tdref \<Rightarrow> string \<Rightarrow> string \<Rightarrow>
   sk_txn_task_status_t \<Rightarrow> bool \<Rightarrow> ('b, 'o) world res" where
  "srv_task_cb E w cur a t td service_name apiname task_status svc_task_done =
     rbind (sk_entity_sched w a) (\<lambda>esched. sk_assert (esched = Some cur)
       (with_txn w (fst td) (\<lambda>owner. get_task owner (snd td) (\<lambda>task.
        deref (td_caller_module (tk_data task)) (\<lambda>caller_module.
        rbind (if task_status = SK_TXN_TASK_DONE \<or> task_status = SK_TXN_TASK_BUSY
               then run_callback E w cur t (snd td) service_name apiname task_status
               else Inr w) (\<lambda>w.
        with_txn w t (\<lambda>txn.
        rbind (sk_txn_task_lifetime txn (snd td)) (\<lambda>_.
        with_txn w (fst td) (\<lambda>owner. get_task owner (snd td) (\<lambda>task.
          let resume_wf = (if td_cb (tk_data task) \<noteq> None then sk_txn_module_complete txn
                           else sk_txn_alltask_complete txn)
          in Inr (send w cur (Some (en_master E)) a (Some t)
                   (Svc_task_done service_name resume_wf svc_task_done))))))))))))"

section \<open>Completion\<close>

definition srv_task_done ::
  "('b, 'o) sk_env \<Rightarrow> ('b, 'o) world \<Rightarrow> addr \<Rightarrow> addr \<Rightarrow> addr \<Rightarrow> addr \<Rightarrow> string \<Rightarrow> bool \<Rightarrow> bool \<Rightarrow>
   ('b, 'o) world res" where
  "srv_task_done E w cur src a t service_name resume_wf svc_task_done =
     sk_assert (cur = en_master E) (with_svc w service_name (\<lambda>sv.
       rbind (if svc_task_done then
                rbind (sk_service_task_setcomplete sv) (\<lambda>sv.
                  Inr (fx (set_svc w service_name sv)
                    [Metric ''worker.srv_iocall_complete'', Metric ''global.srv_iocall_complete'']))
              else Inr w) (\<lambda>w.
       rbind (sk_service_schedule_tasks E
                (if resume_wf then send w cur (Some src) a (Some t) Workflow_run else w)
                cur service_name) (\<lambda>(w, _). Inr w))))"

section \<open>A call is queued or refused\<close>

lemma task_event_cong: "w_txns w' = w_txns w \<Longrightarrow> task_event E w' name = task_event E w name"
  by (auto simp: task_event_def fun_eq_iff split: srv_task_data.splits)

lemma svc_inv_cong:
  "w_svcs w' = w_svcs w \<Longrightarrow> w_txns w' = w_txns w \<Longrightarrow>
   svc_inv E items invar name (w', run) = svc_inv E items invar name (w, run)"
  by (simp add: svc_inv_def task_ready_cong [of w' w])

definition busy_event :: "('b, 'o) sk_env \<Rightarrow> addr \<Rightarrow> addr \<Rightarrow> addr \<Rightarrow> tdref \<Rightarrow> string \<Rightarrow> string \<Rightarrow> sk_event" where
  "busy_event E src a t td name apiname = \<lparr>ev_src = en_master E, ev_dst = Some src, ev_hop = 0, ev_entity = a,
     ev_txn = Some t, ev_msg = Svc_task_cb td name apiname SK_TXN_TASK_BUSY False\<rparr>"

lemma api_task_sel [simp]:
  "ts_io_status (api_task src t api i bidx td) = SK_SRV_IO_STATUS_OK"
  "ts_bidx (api_task src t api i bidx td) = bidx" "ts_src (api_task src t api i bidx td) = src"
  "ts_data (api_task src t api i bidx td) = SK_SRV_TASK_API_QUERY t (api_name api) td i"
  "ts_base_type (api_task src t api i bidx td) = elem_type_of (api_type api)"
  by (simp_all add: api_task_def)

lemma elem_type_of_rw [simp]: "elem_type_of ty \<in> rw_elems"
  by (simp add: elem_type_of_def)

context srv_buf
begin

text \<open>Pushing a task and handing out what may start: the common part of calls and timer jobs.\<close>

lemma push_schedule_ok:
  assumes F: "en_F E = F" and inv: "svc_inv E items invar name (w, run)" and sv: "w_svcs w name = Some sv"
    and t: "ts_base_type t \<in> rw_elems" "ts_io_status t = SK_SRV_IO_STATUS_OK" "task_ready E w t"
  shows "\<exists>sv1 st. sk_service_push_task F sv t = Inr (sv1, st) \<and>
    (\<not> srv_room items sv t \<and> st = SK_SRV_STATUS_BUSY \<and> svc_waiting items sv1 = svc_waiting items sv \<and>
       svc_inv E items invar name (set_svc w name sv1, run) \<or>
     srv_room items sv t \<and> st = SK_SRV_STATUS_OK \<and> (\<exists>w' ts sv'.
       sk_service_schedule_tasks E (fx (set_svc w name sv1) es) (en_master E) name = Inr (w', ts) \<and>
       w_svcs w' name = Some sv' \<and> svc_inv E items invar name (w', run @ ts) \<and> w_txns w' = w_txns w \<and>
       add_mset t (mset (svc_waiting items sv)) = mset ts + mset (svc_waiting items sv') \<and>
       w_sends w' = w_sends w @ map (task_event E w name) ts))"
proof -
  have s: "svc_ok F items invar sv" "\<forall>t \<in> set (svc_waiting items sv). task_ready E w t"
    "sv_running_task_cnt sv = int (length run)" "excl ts_base_type (svc_state sv) run"
    using inv sv F by (auto simp: svc_inv_def)
  obtain sv1 st where p: "sk_service_push_task F sv t = Inr (sv1, st)" "svc_ok F items invar sv1"
    "svc_state sv1 = svc_state sv" "sv_running_task_cnt sv1 = sv_running_task_cnt sv"
    "if srv_room items sv t
     then st = SK_SRV_STATUS_OK \<and> mset (svc_waiting items sv1) = add_mset t (mset (svc_waiting items sv))
     else st = SK_SRV_STATUS_BUSY \<and> svc_waiting items sv1 = svc_waiting items sv"
    using push_task_ok [OF s(1) t(1,2)] by blast
  show ?thesis
  proof (cases "srv_room items sv t")
    case False
    then have b: "st = SK_SRV_STATUS_BUSY \<and> svc_waiting items sv1 = svc_waiting items sv"
      using p(5) by simp
    then have "svc_inv E items invar name (set_svc w name sv1, run)" using s p F by (simp add: svc_inv_def)
    with False b p(1) show ?thesis by blast
  next
    case True
    then have o: "st = SK_SRV_STATUS_OK \<and> mset (svc_waiting items sv1) = add_mset t (mset (svc_waiting items sv))"
      using p(5) by simp
    let ?w = "fx (set_svc w name sv1) es"
    have "set (svc_waiting items sv1) = insert t (set (svc_waiting items sv))"
      using o by (metis list.simps(15) mset.simps(2) mset_eq_setD)
    then have "svc_inv E items invar name (?w, run)"
      using s p t(3) F by (auto simp: svc_inv_def task_ready_cong [of ?w w])
    from schedule_tasks_ok [OF F this] obtain w' ts sv2 sv' where
      c: "w_svcs ?w name = Some sv2" "w_svcs w' = (w_svcs ?w)(name \<mapsto> sv')"
      "sk_service_schedule_tasks E ?w (en_master E) name = Inr (w', ts)" "svc_inv E items invar name (w', run @ ts)"
      "mset (svc_waiting items sv2) = mset ts + mset (svc_waiting items sv')"
      "w_sends w' = w_sends ?w @ map (task_event E ?w name) ts" "w_txns w' = w_txns ?w"
      by (elim exE conjE) blast
    then have "\<exists>w' ts sv'. sk_service_schedule_tasks E ?w (en_master E) name = Inr (w', ts) \<and>
       w_svcs w' name = Some sv' \<and> svc_inv E items invar name (w', run @ ts) \<and> w_txns w' = w_txns w \<and>
       add_mset t (mset (svc_waiting items sv)) = mset ts + mset (svc_waiting items sv') \<and>
       w_sends w' = w_sends w @ map (task_event E w name) ts"
      using o task_event_cong [of ?w w E name] by (intro exI3 [of _ w' ts sv']) simp
    with True o p(1) show ?thesis by blast
  qed
qed

lemma iocall_run_ok:
  assumes F: "en_F E = F" and inv: "svc_inv E items invar name (w, run)"
    and sv: "w_svcs w name = Some sv" "sk_service_api sv apiname = Some api"
    and rdy: "validate_bidx E bidx" "w_txns w t = Some txn"
  shows "\<exists>w' r ts sv'. srv_iocall_run E w (en_master E) src t i name apiname bidx td = Inr (w', r) \<and>
    w_svcs w' name = Some sv' \<and> svc_inv E items invar name (w', run @ ts) \<and> w_txns w' = w_txns w \<and>
    (if srv_room items sv (api_task src t api i bidx td)
     then r = 0 \<and> add_mset (api_task src t api i bidx td) (mset (svc_waiting items sv)) = mset ts + mset (svc_waiting items sv') \<and>
       w_sends w' = w_sends w @ map (task_event E w name) ts
     else r = 1 \<and> ts = [] \<and> svc_waiting items sv' = svc_waiting items sv \<and>
       w_sends w' = w_sends w @ [busy_event E src (tx_entity txn) t td name (api_name api)])"
proof -
  let ?t = "api_task src t api i bidx td"
  let ?fx = "[Metric ''worker.srv_iocall'', Metric ''global.srv_iocall'']"
  let ?bx = "[Metric ''worker.srv_iocall_busy'', Metric ''global.srv_iocall_busy'']"
  have ty: "ts_base_type ?t \<in> rw_elems" "ts_io_status ?t = SK_SRV_IO_STATUS_OK"
    by (simp_all only: api_task_sel elem_type_of_rw)
  have rd: "task_ready E w ?t" using rdy by (simp add: task_ready_def)
  obtain sv1 st where p: "sk_service_push_task F sv ?t = Inr (sv1, st)"
    "\<not> srv_room items sv ?t \<and> st = SK_SRV_STATUS_BUSY \<and> svc_waiting items sv1 = svc_waiting items sv \<and>
       svc_inv E items invar name (set_svc w name sv1, run) \<or>
     srv_room items sv ?t \<and> st = SK_SRV_STATUS_OK \<and> (\<exists>w' ts sv'.
       sk_service_schedule_tasks E (fx (set_svc w name sv1) ?fx) (en_master E) name = Inr (w', ts) \<and>
       w_svcs w' name = Some sv' \<and> svc_inv E items invar name (w', run @ ts) \<and> w_txns w' = w_txns w \<and>
       add_mset ?t (mset (svc_waiting items sv)) = mset ts + mset (svc_waiting items sv') \<and>
       w_sends w' = w_sends w @ map (task_event E w name) ts)"
    using push_schedule_ok [OF F inv sv(1) ty rd, of ?fx] by blast
  from p(2) show ?thesis
  proof (elim disjE conjE exE)
    fix w' ts sv'
    assume c: "srv_room items sv ?t" "st = SK_SRV_STATUS_OK" "sk_service_schedule_tasks E (fx (set_svc w name sv1) ?fx) (en_master E) name = Inr (w', ts)"
      "w_svcs w' name = Some sv'" "svc_inv E items invar name (w', run @ ts)" "w_txns w' = w_txns w"
      "add_mset ?t (mset (svc_waiting items sv)) = mset ts + mset (svc_waiting items sv')"
      "w_sends w' = w_sends w @ map (task_event E w name) ts"
    have "srv_iocall_run E w (en_master E) src t i name apiname bidx td = Inr (w', 0)"
      using sv F p(1) c(2,3) by (simp add: srv_iocall_run_def with_svc_def)
    with c show ?thesis by (intro exI [of _ w'] exI3 [of _ 0 ts sv']) simp
  next
    assume nb: "\<not> srv_room items sv ?t"
      and b: "st = SK_SRV_STATUS_BUSY" "svc_waiting items sv1 = svc_waiting items sv"
      "svc_inv E items invar name (set_svc w name sv1, run)"
    let ?w' = "send (fx (set_svc w name sv1) ?bx) (en_master E) (Some src) (tx_entity txn) (Some t)
      (Svc_task_cb td name (api_name api) SK_TXN_TASK_BUSY False)"
    have "srv_iocall_run E w (en_master E) src t i name apiname bidx td = Inr (?w', 1)"
      using sv F p(1) b(1) rdy(2)
      by (simp add: srv_iocall_run_def with_svc_def sk_service_schedule_task_def sk_service_schedule_errortask_def
          schedule_api_errortask_def with_txn_def api_task_def)
    moreover have "svc_inv E items invar name (?w', run)"
      using b(3) svc_inv_cong [of ?w' "set_svc w name sv1"] by simp
    ultimately show ?thesis
      using nb b(2) by (intro exI [of _ ?w'] exI3 [of _ 1 "[]" sv1]) (simp add: busy_event_def)
  qed
qed

lemma task_done_ok:
  assumes F: "en_F E = F" and inv: "svc_inv E items invar name (w, run)"
    and x: "svc_done \<longrightarrow> x \<in> set run"
  shows "\<exists>w' ts. srv_task_done E w (en_master E) src a t name resume svc_done = Inr w' \<and>
    svc_inv E items invar name (w', (if svc_done then remove1 x run else run) @ ts) \<and> w_txns w' = w_txns w \<and>
    w_sends w' = w_sends w @ (if resume then [\<lparr>ev_src = en_master E, ev_dst = Some src, ev_hop = 0, ev_entity = a,
        ev_txn = Some t, ev_msg = Workflow_run\<rparr>] else []) @ map (task_event E w name) ts"
proof -
  obtain sv where sv: "w_svcs w name = Some sv" "svc_ok F items invar sv"
    "\<forall>t \<in> set (svc_waiting items sv). task_ready E w t"
    "sv_running_task_cnt sv = int (length run)" "excl ts_base_type (svc_state sv) run"
    using inv F by (auto simp: svc_inv_def)
  define run' where "run' = (if svc_done then remove1 x run else run)"
  have "\<exists>w1. (if svc_done then rbind (sk_service_task_setcomplete sv) (\<lambda>sv. Inr (fx (set_svc w name sv)
      [Metric ''worker.srv_iocall_complete'', Metric ''global.srv_iocall_complete''])) else Inr w) = Inr w1 \<and>
      svc_inv E items invar name (w1, run') \<and> w_txns w1 = w_txns w \<and> w_sends w1 = w_sends w"
  proof (cases svc_done)
    case True
    then have "x \<in> set run" using x by simp
    from setcomplete_ok [OF sv(2) this sv(4,5)] obtain sv' where s': "sk_service_task_setcomplete sv = Inr sv'"
      "svc_ok F items invar sv'" "svc_waiting items sv' = svc_waiting items sv"
      "sv_running_task_cnt sv' = int (length (remove1 x run))" "excl ts_base_type (svc_state sv') (remove1 x run)"
      by blast
    then have "svc_inv E items invar name (set_svc w name sv', run')"
      using True sv(3) F by (simp add: svc_inv_def run'_def)
    then show ?thesis using True s'(1) svc_inv_cong [of "fx (set_svc w name sv') _" "set_svc w name sv'"] by simp
  qed (use inv in \<open>simp add: run'_def\<close>)
  then obtain w1 where w1: "(if svc_done then rbind (sk_service_task_setcomplete sv) (\<lambda>sv. Inr (fx (set_svc w name sv)
      [Metric ''worker.srv_iocall_complete'', Metric ''global.srv_iocall_complete''])) else Inr w) = Inr w1"
    "svc_inv E items invar name (w1, run')" "w_txns w1 = w_txns w" "w_sends w1 = w_sends w" by blast
  let ?w2 = "if resume then send w1 (en_master E) (Some src) a (Some t) Workflow_run else w1"
  have i2: "svc_inv E items invar name (?w2, run')" using w1(2) svc_inv_cong [of ?w2 w1] by simp
  obtain w' ts where c: "sk_service_schedule_tasks E ?w2 (en_master E) name = Inr (w', ts)"
    "svc_inv E items invar name (w', run' @ ts)"
    "w_sends w' = w_sends ?w2 @ map (task_event E ?w2 name) ts" "w_txns w' = w_txns ?w2"
    using schedule_tasks_ok [OF F i2] by blast
  have "srv_task_done E w (en_master E) src a t name resume svc_done = Inr w'"
    using sv(1) w1(1) c(1) by (simp add: srv_task_done_def with_svc_def del: if_image_distrib)
  then show ?thesis
    using c w1 task_event_cong [of ?w2 w E name] by (intro exI2 [of _ w' ts]) (simp add: run'_def)
qed

end

section \<open>A completed call\<close>

text \<open>The transactions belong to the same entity and stand at the same place of their workflow.\<close>

definition same_flow :: "'o sk_txn \<Rightarrow> 'o sk_txn \<Rightarrow> bool" where
  "same_flow x y \<longleftrightarrow> tx_workflow y = tx_workflow x \<and> tx_entity y = tx_entity x \<and>
     tx_workflow_idx y = tx_workflow_idx x"

lemma setcomplete_shape:
  assumes "sk_txn_task_setcomplete txn i st now = Inr txn'" "tx_task_tbl txn i = Some task"
  shows "tx_task_tbl txn' = (tx_task_tbl txn)(i \<mapsto> task\<lparr>tk_end := now, tk_status := st\<rparr>) \<and>
    tx_output txn' = tx_output txn \<and> tx_transaction txn' = tx_transaction txn \<and>
    tx_latest_taskid txn' = tx_latest_taskid txn \<and> tx_state txn' = tx_state txn \<and> same_flow txn txn'"
  using assms by (auto simp: sk_txn_task_setcomplete_def get_task_def res_simps same_flow_def)

lemma set_complete_ok:
  assumes t: "w_txns w t = Some txn" "txn_good items invar B txn" and i: "i \<in> running_tasks txn"
    "tx_task_tbl txn i = Some task" and st: "st \<noteq> SK_TXN_TASK_RUNNING"
  shows "\<exists>x now. set_complete E w t i st = Inr (set_txn (tick w) t x) \<and> txn_good items invar B x \<and>
    tx_task_tbl x = (tx_task_tbl txn)(i \<mapsto> task\<lparr>tk_end := now, tk_status := st\<rparr>) \<and>
    tx_state x = tx_state txn \<and> same_flow txn x \<and> tx_output x = tx_output txn"
proof -
  obtain x where x: "sk_txn_task_setcomplete txn i st (sk_time_us E w) = Inr x" "txn_tasks_ok x"
    using txn_task_setcomplete [OF txn_good_tasks [OF t(2)] i(1) st] by blast
  with setcomplete_shape [OF x(1) i(2)] t show ?thesis
    by (intro exI2 [of _ x "sk_time_us E w"]) (simp add: set_complete_def with_txn_def txn_good_def)
qed

text \<open>What the environment promises about callbacks.\<close>

definition cb_fits :: "('b, 'o) sk_env \<Rightarrow> ('o \<Rightarrow> u8 list) \<Rightarrow> ('o \<Rightarrow> bool) \<Rightarrow> nat \<Rightarrow> nat \<Rightarrow> bool" where
  "cb_fits E items invar n k \<longleftrightarrow> fmbuf (en_O E) 1 items invar \<and>
     (\<forall>c s f td. uprog_fits (en_iocall_cb E c s f td) n k) \<and> (\<forall>s f st r b d. en_fmt_task E s f st r b d \<noteq> [])"

text \<open>
  The transaction \<open>x\<close> is \<open>txn\<close> after its task \<open>i\<close> has been completed with the status \<open>st\<close>; tasks may
  have been added, but none when no call of a service was sent.
\<close>

definition completed ::
  "u64 \<Rightarrow> sk_txn_task \<Rightarrow> sk_txn_task_status_t \<Rightarrow> sk_event list \<Rightarrow> 'o sk_txn \<Rightarrow> 'o sk_txn \<Rightarrow> bool" where
  "completed i task st io txn x \<longleftrightarrow> same_flow txn x \<and> (\<exists>now.
     (tx_task_tbl txn)(i \<mapsto> task\<lparr>tk_end := now, tk_status := st\<rparr>) \<subseteq>\<^sub>m tx_task_tbl x \<and>
     (io = [] \<longrightarrow> tx_task_tbl x = (tx_task_tbl txn)(i \<mapsto> task\<lparr>tk_end := now, tk_status := st\<rparr>)))"

lemma completed_task:
  assumes "completed i task st io txn x"
  shows "\<exists>tk. tx_task_tbl x i = Some tk \<and> tk_data tk = tk_data task \<and> tk_status tk = st"
proof -
  obtain now where "(tx_task_tbl txn)(i \<mapsto> task\<lparr>tk_end := now, tk_status := st\<rparr>) \<subseteq>\<^sub>m tx_task_tbl x"
    using assms unfolding completed_def by blast
  then have "tx_task_tbl x i = Some (task\<lparr>tk_end := now, tk_status := st\<rparr>)" by (auto simp: map_le_def)
  then show ?thesis by simp
qed

text \<open>
  The callback of a task: its one effect, if there is one, and the bytes that it may append, the
  number of calls it makes and the value that it returns.
\<close>

definition cb_fx :: "addr \<Rightarrow> u64 \<Rightarrow> sk_txn_taskdata_t \<Rightarrow> effect list" where
  "cb_fx t i td = (if td_cb td = None then [] else [Iocall_cb t i])"

definition cb_out ::
  "('b, 'o) sk_env \<Rightarrow> nat \<Rightarrow> string \<Rightarrow> string \<Rightarrow> sk_txn_taskdata_t \<Rightarrow> u8 list \<Rightarrow> nat \<Rightarrow> int \<Rightarrow> bool" where
  "cb_out E now name apiname td out c ret \<longleftrightarrow> (if td_cb td = None then out = [] \<and> c = 0 \<and> ret = 0
     else uprog_out (en_iocall_cb E now name apiname td) out c ret)"

lemma iocall_cb_ok:
  assumes E: "cb_fits E items invar n k" and t: "w_txns w t = Some x" "txn_good items invar B x"
    and i: "tx_task_tbl x i = Some task'" "tk_status task' \<in> {SK_TXN_TASK_DONE, SK_TXN_TASK_BUSY}"
    and B: "B + n + k < 2 ^ 62"
  shows "ok (sk_service_run_iocall_cb E w cur name t i apiname) (\<lambda>(w', ret). \<exists>y io out c.
    upd t w y io (cb_fx t i (tk_data task')) w' \<and>
    txn_good items invar (B + n + k) y \<and> same_core x y \<and> (\<forall>ev \<in> set io. iocall_event E t ev) \<and>
    items (tx_output y) = items (tx_output x) @ out \<and> cb_out E (w_tick w) name apiname (tk_data task') out c ret \<and> calls_only c io x y)"
proof (cases "td_cb (tk_data task')")
  case None
  then have "sk_service_run_iocall_cb E w cur name t i apiname = Inr (w, 0)"
    using t(1) i(1) by (simp add: sk_service_run_iocall_cb_def with_txn_def sk_txn_taskdata_def get_task_def)
  with None upd_refl [OF t(1)] txn_good_mono [OF t(2), of "B + n + k"] show ?thesis
    by (simp add: cb_fx_def cb_out_def) (auto simp: calls_only_def intro!: exI [of _ x] exI [of _ "[]"])
next
  case (Some f)
  let ?w = "fx (tick w) [Iocall_cb t i]" and ?p = "en_iocall_cb E (w_tick w) name apiname (tk_data task')"
  have eq: "sk_service_run_iocall_cb E w cur name t i apiname = run_uprog E ?w cur t ?p"
    using t(1) i Some
    by (auto simp: sk_service_run_iocall_cb_def with_txn_def sk_txn_taskdata_def sk_txn_task_status_def get_task_def)
  have l: "fmbuf (en_O E) 1 items invar" "uprog_fits ?p n k" using E by (auto simp: cb_fits_def)
  have tw: "w_txns ?w t = Some x" using t(1) by simp
  show ?thesis
    unfolding eq
  proof (rule ok_mono [OF uprog_out_ok [OF l(1) tw t(2) l(2) B, of cur]], clarify)
    fix w' r y io out c
    assume y: "upd t ?w y io [] w'" "txn_good items invar (B + n + k) y" "same_core x y"
      "\<forall>ev \<in> set io. iocall_event E t ev" "items (tx_output y) = items (tx_output x) @ out" "uprog_out ?p out c r" "calls_only c io x y"
    have "upd t w y io (cb_fx t i (tk_data task')) w'" using y(1) Some by (simp add: upd_def cb_fx_def)
    moreover have "cb_out E (w_tick w) name apiname (tk_data task') out c r" using y(6) Some by (simp add: cb_out_def)
    ultimately show "\<exists>y io out c. upd t w y io (cb_fx t i (tk_data task')) w' \<and> txn_good items invar (B + n + k) y \<and>
      same_core x y \<and> (\<forall>ev \<in> set io. iocall_event E t ev) \<and> items (tx_output y) = items (tx_output x) @ out \<and>
      cb_out E (w_tick w) name apiname (tk_data task') out c r \<and> calls_only c io x y" using y(2-5,7) by blast
  qed
qed

text \<open>
  The transaction \<open>txn\<close> of the world \<open>w\<close> has become \<open>x\<close>: task \<open>i\<close> is completed and its callback has
  run, and sent the calls \<open>io\<close>; a callback that fails puts the transaction into the state \<open>ERROR\<close>.
\<close>

definition cb_post ::
  "('b, 'o) sk_env \<Rightarrow> ('o \<Rightarrow> u8 list) \<Rightarrow> ('o \<Rightarrow> bool) \<Rightarrow> nat \<Rightarrow> addr \<Rightarrow> u64 \<Rightarrow> sk_txn_task \<Rightarrow> string \<Rightarrow> string \<Rightarrow>
   sk_txn_task_status_t \<Rightarrow> sk_event list \<Rightarrow> ('b, 'o) world \<Rightarrow> 'o sk_txn \<Rightarrow> 'o sk_txn \<Rightarrow> bool" where
  "cb_post E items invar B t i task name apiname st io w txn x \<longleftrightarrow> (\<exists>out c ret.
     (\<forall>ev \<in> set io. iocall_event E t ev) \<and> length io \<le> c \<and>
     txn_good items invar B x \<and> completed i task st io txn x \<and> items (tx_output x) = items (tx_output txn) @ out \<and>
     cb_out E (Suc (w_tick w)) name apiname (tk_data task) out c ret \<and>
     tx_state x = (if ret \<noteq> 0 then SK_TXN_ERROR else tx_state txn))"

lemma run_callback_ok:
  assumes E: "cb_fits E items invar n k" and t: "w_txns w t = Some txn" "txn_good items invar B txn"
    and i: "i \<in> running_tasks txn" "tx_task_tbl txn i = Some task"
    and st: "st \<in> {SK_TXN_TASK_DONE, SK_TXN_TASK_BUSY}" and B: "B + n + k < 2 ^ 62"
    and sv: "w_svcs w name \<noteq> None"
    and nd: "td_cb (tk_data task) \<noteq> None \<longrightarrow> tx_state txn \<noteq> SK_TXN_DESTROYED"
  shows "ok (run_callback E w cur t i name apiname st) (\<lambda>w'. \<exists>x io.
    upd t w x io (cb_fx t i (tk_data task)) w' \<and>
    cb_post E items invar (B + n + k + 2047) t i task name apiname st io w txn x)"
    (is "ok _ ?Q")
proof -
  have nr: "st \<noteq> SK_TXN_TASK_RUNNING" using st by auto
  obtain x now where x: "set_complete E w t i st = Inr (set_txn (tick w) t x)" "txn_good items invar B x"
    "tx_task_tbl x = (tx_task_tbl txn)(i \<mapsto> task\<lparr>tk_end := now, tk_status := st\<rparr>)" "tx_state x = tx_state txn"
    "tx_output x = tx_output txn" "same_flow txn x"
    using set_complete_ok [OF t i nr] by blast
  let ?w = "set_txn (tick w) t x" and ?task = "task\<lparr>tk_end := now, tk_status := st\<rparr>"
  have l: "fmbuf (en_O E) 1 items invar" "en_fmt_task E s f u r b d \<noteq> []" for s f u r b d
    using E by (auto simp: cb_fits_def)
  have tw: "w_txns ?w t = Some x" "tx_task_tbl x i = Some ?task" using x(3) by simp_all
  have sw: "\<exists>sv. w_svcs ?w name = Some sv" using sv by simp
  define rest where "rest w' ret = rbind (if ret \<noteq> 0 then set_state w' t SK_TXN_ERROR else Inr w') (\<lambda>w.
     rbind (alivetime E w t) (\<lambda>(w, txn_alivetime).
     with_txn w t (\<lambda>txn.
     rbind (sk_txn_task_starttime txn i) (\<lambda>task_starttime.
       log_add E w t (en_fmt_task E name apiname (task_status_code st) ret
         (task_starttime - tx_start_time txn) txn_alivetime)))))" for w' and ret :: int
  have r: "ok (rest w' ret) ?Q"
    if y: "upd t ?w y io (cb_fx t i (tk_data ?task)) w'" "txn_good items invar (B + n + k) y" "same_core x y"
      and io: "\<forall>ev \<in> set io. iocall_event E t ev" and out: "items (tx_output y) = items (tx_output x) @ out" "cb_out E (w_tick ?w) name apiname (tk_data ?task) out c ret" "calls_only c io x y"
    for w' ret y io out c
  proof -
    define y1 where "y1 = (if ret \<noteq> 0 then in_state y SK_TXN_ERROR else y)"
    define w1 where "w1 = (if ret \<noteq> 0 then set_txn w' t y1 else w')"
    have z: "td_cb (tk_data ?task) = None \<longrightarrow> ret = 0" using out(2) by (simp add: cb_out_def)
    have u1: "upd t ?w y1 io (cb_fx t i (tk_data task)) w1" using y(1) by (simp add: y1_def w1_def upd_def)
    have g1: "txn_good items invar (B + n + k) y1" using y(2) by (simp add: y1_def)
    have "tx_task_tbl y1 = tx_task_tbl y" "same_flow y y1" by (simp_all add: y1_def in_state_def same_flow_def)
    then have c1: "completed i task st io txn y1"
      using y(3) x(3,6) out(3) unfolding completed_def same_core_def calls_only_def
      by (intro conjI exI [of _ now]) (simp_all add: same_flow_def)
    have sy: "tx_state y = tx_state txn" using y(3) x(4) by (simp add: same_core_def)
    have s1: "tx_state y1 = (if ret \<noteq> 0 then SK_TXN_ERROR else tx_state txn)" "tx_output y1 = tx_output y"
      using sy by (simp_all add: y1_def)
    from sy have ss: "(if ret \<noteq> 0 then set_state w' t SK_TXN_ERROR else Inr w') = Inr w1"
      using set_state_eq [OF upd_txn [OF y(1)], of SK_TXN_ERROR] nd z by (auto simp: w1_def y1_def)
    obtain tk where tk: "tx_task_tbl y1 i = Some tk" using completed_task [OF c1] by blast
    have w2: "w_txns (tick w1) t = Some y1" using upd_txn [OF u1] by simp
    let ?s = "en_fmt_task E name apiname (task_status_code st) ret (tk_start tk - tx_start_time y1)
      (sk_txn_alivetime y1 (sk_time_us E w1))"
    obtain b where b: "log_add E (tick w1) t ?s = Inr (set_txn (tick w1) t (y1\<lparr>tx_transaction := b\<rparr>))"
      "txn_good items invar (B + n + k + 2047) (y1\<lparr>tx_transaction := b\<rparr>)"
      using log_add_ok [OF l(1) w2 g1 B l(2)] by blast
    have "rest w' ret = Inr (set_txn (tick w1) t (y1\<lparr>tx_transaction := b\<rparr>))"
      unfolding rest_def ss using b(1) w2 tk upd_txn [OF u1]
      by (simp add: alivetime_eq with_txn_def sk_txn_task_starttime_def get_task_def)
    moreover have "upd t w (y1\<lparr>tx_transaction := b\<rparr>) io (cb_fx t i (tk_data task)) (set_txn (tick w1) t (y1\<lparr>tx_transaction := b\<rparr>))"
      using u1 by (simp add: upd_def)
    moreover have "cb_post E items invar (B + n + k + 2047) t i task name apiname st io w txn (y1\<lparr>tx_transaction := b\<rparr>)"
      unfolding cb_post_def using b(2) c1 s1 out x(5) io
      by (intro exI3 [of _ out c ret]) (simp add: completed_def same_flow_def calls_only_def)
    ultimately show ?thesis by (simp, blast)
  qed
  have "ok (sk_service_run_iocall_cb E ?w cur name t i apiname) (\<lambda>(w', ret). ok (rest w' ret) ?Q)"
  proof (rule ok_mono [OF iocall_cb_ok [OF E tw(1) x(2) tw(2) _ B]], goal_cases)
    case (2 p)
    then show ?case by (cases p) (simp only: prod.case, elim exE conjE, rule r)
  qed (use st in simp)
  moreover have "run_callback E w cur t i name apiname st =
      rbind (sk_service_run_iocall_cb E ?w cur name t i apiname) (\<lambda>(w', ret). rest w' ret)"
    using sw x(1) by (auto simp: run_callback_def with_svc_def rest_def)
  ultimately show ?thesis by (simp add: case_prod_unfold)
qed

definition done_event :: "('b, 'o) sk_env \<Rightarrow> addr \<Rightarrow> addr \<Rightarrow> addr \<Rightarrow> string \<Rightarrow> bool \<Rightarrow> bool \<Rightarrow> sk_event" where
  "done_event E cur a t name resume svc_done = \<lparr>ev_src = cur, ev_dst = Some (en_master E), ev_hop = 0, ev_entity = a,
     ev_txn = Some t, ev_msg = Svc_task_done name resume svc_done\<rparr>"

text \<open>
  The message to the master resumes the workflow exactly when, after the callback, no task that
  the module waits for runs (or, for a task without a callback, when no task at all runs).
\<close>

definition resumes :: "sk_txn_task \<Rightarrow> 'o sk_txn \<Rightarrow> bool" where
  "resumes task x \<longleftrightarrow> (if td_cb (tk_data task) \<noteq> None then waited_tasks x = {} else running_tasks x = {})"

definition task_cb_post ::
  "('b, 'o) sk_env \<Rightarrow> ('o \<Rightarrow> u8 list) \<Rightarrow> ('o \<Rightarrow> bool) \<Rightarrow> nat \<Rightarrow> addr \<Rightarrow> addr \<Rightarrow> addr \<Rightarrow> u64 \<Rightarrow> sk_txn_task \<Rightarrow> string \<Rightarrow>
   string \<Rightarrow> sk_txn_task_status_t \<Rightarrow> bool \<Rightarrow> ('b, 'o) world \<Rightarrow> 'o sk_txn \<Rightarrow> ('b, 'o) world \<Rightarrow> bool" where
  "task_cb_post E items invar B cur a t i task name apiname st svc_done w txn w' \<longleftrightarrow> (\<exists>x io.
     upd t w x (io @ [done_event E cur a t name (resumes task x) svc_done]) (cb_fx t i (tk_data task)) w' \<and>
     cb_post E items invar B t i task name apiname st io w txn x)"

lemma task_cb_ok:
  fixes w :: "('b, 'o) world"
  assumes E: "cb_fits E items invar n k" and t: "w_txns w t = Some txn" "txn_good items invar B txn"
    and i: "i \<in> running_tasks txn" "tx_task_tbl txn i = Some task" "td_caller_module (tk_data task) \<noteq> None"
    and st: "st \<in> {SK_TXN_TASK_DONE, SK_TXN_TASK_BUSY}" and B: "B + n + k + 2047 < 2 ^ 62"
    and sv: "w_svcs w name \<noteq> None" and home: "sk_entity_sched w a = Inr (Some cur)"
    and nd: "td_cb (tk_data task) \<noteq> None \<longrightarrow> tx_state txn \<noteq> SK_TXN_DESTROYED"
  shows "ok (srv_task_cb E w cur a t (t, i) name apiname st svc_done)
    (task_cb_post E items invar (B + n + k + 2047) cur a t i task name apiname st svc_done w txn)"
proof -
  obtain cm where cm: "td_caller_module (tk_data task) = Some cm" using i(3) by auto
  have B1: "B + n + k < 2 ^ 62" using B by simp
  define rest where "rest w' = with_txn w' t (\<lambda>txn.
     rbind (sk_txn_task_lifetime txn i) (\<lambda>_.
     with_txn w' t (\<lambda>owner. get_task owner i (\<lambda>task.
       let resume_wf = (if td_cb (tk_data task) \<noteq> None then sk_txn_module_complete txn
                        else sk_txn_alltask_complete txn)
       in Inr (send w' cur (Some (en_master E)) a (Some t) (Svc_task_done name resume_wf svc_done))))))" for w' :: "('b, 'o) world"
  have "srv_task_cb E w cur a t (t, i) name apiname st svc_done =
      rbind (run_callback E w cur t i name apiname st) rest"
    using home t(1) i(2) cm st by (auto simp: srv_task_cb_def with_txn_def get_task_def rest_def [abs_def])
  moreover have "ok (rest w') (task_cb_post E items invar (B + n + k + 2047) cur a t i task name apiname st svc_done w txn)"
    if u: "upd t w x io (cb_fx t i (tk_data task)) w'"
      "cb_post E items invar (B + n + k + 2047) t i task name apiname st io w txn x" for w' x io
  proof -
    have x: "txn_good items invar (B + n + k + 2047) x" "completed i task st io txn x"
      using u(2) by (auto simp: cb_post_def)
    obtain tk where tk: "tx_task_tbl x i = Some tk" "tk_data tk = tk_data task"
      using completed_task [OF x(2)] by blast
    have c: "sk_txn_module_complete x \<longleftrightarrow> waited_tasks x = {}" "sk_txn_alltask_complete x \<longleftrightarrow> running_tasks x = {}"
      using module_complete_iff [OF txn_good_tasks [OF x(1)]] alltask_complete_iff [OF txn_good_tasks [OF x(1)]]
      by simp_all
    have "rest w' = Inr (send w' cur (Some (en_master E)) a (Some t) (Svc_task_done name (resumes task x) svc_done))"
      using upd_txn [OF u(1)] tk c
      by (simp add: rest_def with_txn_def sk_txn_task_lifetime_def get_task_def resumes_def)
    moreover have "upd t w x (io @ [done_event E cur a t name (resumes task x) svc_done]) (cb_fx t i (tk_data task))
        (send w' cur (Some (en_master E)) a (Some t) (Svc_task_done name (resumes task x) svc_done))"
      using u(1) by (simp add: upd_def done_event_def)
    ultimately show ?thesis
      unfolding task_cb_post_def using u(2) by auto
  qed
  ultimately show ?thesis
    by (simp, intro ok_mono [OF run_callback_ok [OF E t i(1,2) st B1 sv nd]]) blast
qed

section \<open>Properties\<close>

text \<open>Transaction 5 has called the service \<open>s\<close>, which is idle; scheduler 100 is master and worker.\<close>

definition demo_api :: sk_service_api where
  "demo_api = \<lparr>api_type = SK_SRV_API_READ, api_name = ''get''\<rparr>"

definition demo_call :: "(sk_srv_task cellbuf, u8 cellbuf) world" where
  "demo_call = set_txn (set_svc demo_world ''s'' (demo_svc\<lparr>sv_apis := [''get'' \<mapsto> demo_api]\<rparr>)) 5 demo_txn1"

lemma demo_call_inv: "svc_inv demo_env cb_cells (cellbuf_invar SK_SRV_TASK_SZ) ''s'' (demo_call, [])"
  using demo_svc_inv
  by (simp add: svc_inv_def demo_svc_world_def demo_call_def svc_ok_def svc_waiting_def demo_svc_def q_main_def q_writes_def)

text \<open>
  C14: the master accepts or refuses a service call, and never aborts or loses it. When the queue
  of the service has room, the task is queued, and the tasks that waited, this one among them, are
  those handed out now, each by one message, and those that still wait. When the queue is full,
  the caller gets exactly one message that the call is busy, which does not count as a completed
  task of the service, and the service is left as it was.
\<close>
theorem srv_iocall_queued_or_busy:
  assumes "fmbuf (en_F E) SK_SRV_TASK_SZ items invar" and "svc_inv E items invar name (w, run)"
    and "w_svcs w name = Some sv" "sk_service_api sv apiname = Some api"
    and "validate_bidx E bidx" "w_txns w t = Some txn"
  shows "\<exists>w' r ts sv'. srv_iocall_run E w (en_master E) src t i name apiname bidx td = Inr (w', r) \<and>
    w_svcs w' name = Some sv' \<and> svc_inv E items invar name (w', run @ ts) \<and> w_txns w' = w_txns w \<and>
    (if srv_room items sv (api_task src t api i bidx td)
     then r = 0 \<and> add_mset (api_task src t api i bidx td) (mset (svc_waiting items sv)) = mset ts + mset (svc_waiting items sv') \<and>
       w_sends w' = w_sends w @ map (task_event E w name) ts
     else r = 1 \<and> ts = [] \<and> svc_waiting items sv' = svc_waiting items sv \<and>
       w_sends w' = w_sends w @ [busy_event E src (tx_entity txn) t td name (api_name api)])"
  by (rule srv_buf.iocall_run_ok [OF srv_bufI [OF assms(1)] refl assms(2-6)])

theorem srv_iocall_queued_or_busy_witness:
  "\<exists>w' r ts. srv_iocall_run demo_env demo_call 100 100 5 0 ''s'' ''get'' 0 (5, 0) = Inr (w', r) \<and>
     svc_inv demo_env cb_cells (cellbuf_invar SK_SRV_TASK_SZ) ''s'' (w', ts)"
proof -
  have "en_master demo_env = 100" by (simp add: demo_env_def)
  then show ?thesis
    using srv_iocall_queued_or_busy [OF demo_svc_buf demo_call_inv, of "demo_svc\<lparr>sv_apis := [''get'' \<mapsto> demo_api]\<rparr>"
        "''get''" demo_api 0 5 demo_txn1 100 0 "(5, 0)"]
    by (simp add: demo_call_def sk_service_api_def validate_bidx_def) blast
qed

lemma demo_cb_fits: "cb_fits demo_env cb_cells (cellbuf_invar 1) 0 0"
  using fmbuf_cellbuf [of 1] by (simp add: cb_fits_def demo_env_def)

lemma demo_txn1_good: "txn_good cb_cells (cellbuf_invar 1) 1 demo_txn1"
  using demo_txn1_ok demo_txn_good by (simp add: txn_good_def demo_txn1_eq)

text \<open>
  C15: when a call is done (or was refused), the caller completes the task of the transaction with
  that status, runs its callback exactly once if it has one, appends to the output just what the
  callback appends and goes into the state \<open>ERROR\<close> exactly when the callback fails. It tells the
  master exactly once; the message asks for the workflow to be resumed exactly when no task of the
  transaction that the module waits for is left (for a task without a callback: no task at all),
  counting the calls that the callback itself has made.
\<close>
theorem srv_task_cb_reports:
  assumes "cb_fits E items invar n k" and "w_txns w t = Some txn" "txn_good items invar B txn"
    and "i \<in> running_tasks txn" "tx_task_tbl txn i = Some task" "td_caller_module (tk_data task) \<noteq> None"
    and "st \<in> {SK_TXN_TASK_DONE, SK_TXN_TASK_BUSY}" and "B + n + k + 2047 < 2 ^ 62"
    and "w_svcs w name \<noteq> None" and "sk_entity_sched w a = Inr (Some cur)"
    and "td_cb (tk_data task) \<noteq> None \<longrightarrow> tx_state txn \<noteq> SK_TXN_DESTROYED"
  shows "\<exists>w' x io out c ret. srv_task_cb E w cur a t (t, i) name apiname st svc_done = Inr w' \<and>
    upd t w x (io @ [done_event E cur a t name (resumes task x) svc_done])
      (if td_cb (tk_data task) = None then [] else [Iocall_cb t i]) w' \<and>
    (\<forall>ev \<in> set io. iocall_event E t ev) \<and> length io \<le> c \<and> txn_good items invar (B + n + k + 2047) x \<and> completed i task st io txn x \<and>
    items (tx_output x) = items (tx_output txn) @ out \<and>
    cb_out E (Suc (w_tick w)) name apiname (tk_data task) out c ret \<and>
    tx_state x = (if ret \<noteq> 0 then SK_TXN_ERROR else tx_state txn)"
  using task_cb_ok [OF assms] unfolding ok_def task_cb_post_def cb_post_def cb_fx_def by blast

theorem srv_task_cb_reports_witness:
  "\<exists>w' x io. srv_task_cb demo_env demo_call 100 1 5 (5, 0) ''s'' ''get'' SK_TXN_TASK_DONE True = Inr w' \<and>
     upd 5 demo_call x (io @ [done_event demo_env 100 1 5 ''s'' (waited_tasks x = {}) True]) [Iocall_cb 5 0] w'"
proof -
  let ?tk = "\<lparr>tk_id = 0, tk_start = 7, tk_end = 0, tk_data = demo_taskdata, tk_status = SK_TXN_TASK_RUNNING\<rparr>"
  have tk: "tx_task_tbl demo_txn1 0 = Some ?tk" "0 \<in> running_tasks demo_txn1" "w_txns demo_call 5 = Some demo_txn1"
    "tx_state demo_txn1 = SK_TXN_INIT" "w_svcs demo_call ''s'' \<noteq> None"
    by (simp_all add: demo_txn1_eq running_tasks_def demo_call_def demo_txn_def sk_txn_create_def)
  have home: "sk_entity_sched demo_call 1 = Inr (Some 100)"
    by (simp add: sk_entity_sched_def demo_call_def demo_world_def demo_entity_def demo_mgr_def with_ent_def with_mgr_def)
  have "resumes ?tk x \<longleftrightarrow> waited_tasks x = {}" for x :: "u8 cellbuf sk_txn"
    by (simp add: resumes_def demo_taskdata_def)
  then show ?thesis
    using srv_task_cb_reports [OF demo_cb_fits tk(3) demo_txn1_good tk(2,1) _ _ _ tk(5) home, of SK_TXN_TASK_DONE "''get''" True] tk(4)
    by (simp add: demo_taskdata_def) blast
qed

text \<open>
  When the master learns that a task is done, it never aborts; it keeps the books of the
  service (the task leaves the list of running tasks, the readers and writers still exclude each
  other), resumes the workflow by exactly one message when it is asked to, and hands out the tasks
  that may start now.
\<close>
theorem srv_task_done_resumes:
  assumes "fmbuf (en_F E) SK_SRV_TASK_SZ items invar" and "svc_inv E items invar name (w, run)"
    and "svc_done \<longrightarrow> x \<in> set run"
  shows "\<exists>w' ts. srv_task_done E w (en_master E) src a t name resume svc_done = Inr w' \<and>
    svc_inv E items invar name (w', (if svc_done then remove1 x run else run) @ ts) \<and> w_txns w' = w_txns w \<and>
    w_sends w' = w_sends w @ (if resume then [\<lparr>ev_src = en_master E, ev_dst = Some src, ev_hop = 0, ev_entity = a,
        ev_txn = Some t, ev_msg = Workflow_run\<rparr>] else []) @ map (task_event E w name) ts"
  by (rule srv_buf.task_done_ok [OF srv_bufI [OF assms(1)] refl assms(2-3)])

theorem srv_task_done_resumes_witness:
  "\<exists>w' ts. srv_task_done demo_env demo_call 100 101 1 5 ''s'' True False = Inr w' \<and>
     w_sends w' = \<lparr>ev_src = 100, ev_dst = Some 101, ev_hop = 0, ev_entity = 1, ev_txn = Some 5, ev_msg = Workflow_run\<rparr>
       # map (task_event demo_env demo_call ''s'') ts"
proof -
  have "w_sends demo_call = []" "en_master demo_env = 100"
    by (simp_all add: demo_call_def demo_world_def empty_world_def demo_env_def)
  then show ?thesis
    using srv_task_done_resumes [OF demo_svc_buf demo_call_inv, of False undefined 101 1 5 True] by auto
qed

end
