(* ===== verification/Sk_Timer.thy ===== *)
theory Sk_Timer
  imports Service_Pto
begin

text \<open>
  Timers: the timer service (\<^verbatim>\<open>src/src/common/sk_timer_service.c\<close>), the timer jobs of a service
  (\<^verbatim>\<open>sk_service_job_create\<close> of \<^verbatim>\<open>src/src/components/sk_service.c\<close>) and the handlers
  \<^verbatim>\<open>sk_pto_timer_triggered.c\<close>, \<^verbatim>\<open>sk_pto_timer_emit.c\<close>, \<^verbatim>\<open>sk_pto_service_timer_run.c\<close> and
  \<^verbatim>\<open>sk_pto_service_timer_done.c\<close> of \<^verbatim>\<open>src/src/pto\<close>.

  The timer wheel is code of the library: adding and removing a node are effects, and
  \<open>timer_fired\<close> is what the library calls when a node expires. A job of a service lives in an
  object of its own (\<open>w_jobs\<close>); other objects are opaque, destroying them is an effect.
\<close>

section \<open>The timer service\<close>

definition sk_timersvc_create :: "('b, 'o) world \<Rightarrow> addr \<Rightarrow> ('b, 'o) world" where
  "sk_timersvc_create w sv = w\<lparr>w_tmsvcs := (w_tmsvcs w)(sv \<mapsto> \<lparr>tv_timer_alive = 0, tv_timers = []\<rparr>)\<rparr>"

text \<open>\<^verbatim>\<open>sk_obj_destroy\<close>; \<^verbatim>\<open>_jobdata_destroyer\<close> for the object of a job.\<close>

definition sk_obj_destroy :: "('b, 'o) world \<Rightarrow> addr \<Rightarrow> ('b, 'o) world res" where
  "sk_obj_destroy w obj = (if obj = 0 then Inr w else case w_jobs w obj of
     Some jd \<Rightarrow> with_ent w (jd_entity jd) (\<lambda>e. sk_assert (e_owner e \<noteq> None)
       (Inr (w\<lparr>w_jobs := (w_jobs w)(obj := None)\<rparr>)))
   | None \<Rightarrow> Inr (fx w [Obj_destroy obj]))"

definition with_tmsvc :: "('b, 'o) world \<Rightarrow> addr \<Rightarrow> (sk_timersvc \<Rightarrow> 'a res) \<Rightarrow> 'a res" where
  "with_tmsvc w sv k = live (w_tmsvcs w sv) k"

definition with_timer :: "('b, 'o) world \<Rightarrow> addr \<Rightarrow> (sk_timer \<Rightarrow> 'a res) \<Rightarrow> 'a res" where
  "with_timer w tm k = live (w_timers w tm) k"

definition set_timer :: "('b, 'o) world \<Rightarrow> addr \<Rightarrow> sk_timer \<Rightarrow> ('b, 'o) world" where
  "set_timer w tm x = w\<lparr>w_timers := (w_timers w)(tm \<mapsto> x)\<rparr>"

definition set_tmsvc :: "('b, 'o) world \<Rightarrow> addr \<Rightarrow> sk_timersvc \<Rightarrow> ('b, 'o) world" where
  "set_tmsvc w sv x = w\<lparr>w_tmsvcs := (w_tmsvcs w)(sv \<mapsto> x)\<rparr>"

definition sk_timersvc_timer_create ::
  "('b, 'o) world \<Rightarrow> addr \<Rightarrow> addr \<Rightarrow> u32 \<Rightarrow> u32 \<Rightarrow> addr \<Rightarrow> addr \<Rightarrow> (('b, 'o) world \<times> addr) res" where
  "sk_timersvc_timer_create w sv entity delay interval trigger ud = with_tmsvc w sv (\<lambda>svc.
     let tm = w_next w;
         timer = \<lparr>tm_owner = sv, tm_entity = entity, tm_trigger = trigger, tm_ud = ud, tm_valid = True,
                  tm_triggered = False, tm_interval = interval\<rparr>;
         w = fx (w\<lparr>w_next := Suc tm\<rparr>) [Timer_add tm delay interval];
         w = set_tmsvc (set_timer w tm timer) sv
               (svc\<lparr>tv_timer_alive := tv_timer_alive svc + 1, tv_timers := hash_set (tv_timers svc) tm\<rparr>)
     in Inr (fx w [Metric ''global.timer_created'', Metric ''worker.timer_created''], tm))"

definition sk_timersvc_timer_destroy :: "('b, 'o) world \<Rightarrow> addr \<Rightarrow> addr \<Rightarrow> ('b, 'o) world res" where
  "sk_timersvc_timer_destroy w sv tm = (if tm = 0 then Inr w else with_timer w tm (\<lambda>timer.
     sk_assert (sv = tm_owner timer) (with_tmsvc w sv (\<lambda>svc.
       let w = (if tm_triggered timer then w else fx w [Timer_del tm]);
           w = set_tmsvc w sv (svc\<lparr>tv_timers := removeAll tm (tv_timers svc)\<rparr>)
       in rbind (sk_obj_destroy w (tm_ud timer)) (\<lambda>w. with_tmsvc w sv (\<lambda>svc.
            let w = set_tmsvc (w\<lparr>w_timers := (w_timers w)(tm := None)\<rparr>) sv
                      (svc\<lparr>tv_timer_alive := tv_timer_alive svc - 1\<rparr>)
            in Inr (fx w [Metric ''global.timer_completed'', Metric ''worker.timer_completed'']))))))) "

text \<open>\<^verbatim>\<open>sk_timersvc_destroy\<close>: the loop over the timers that are left, then the service.\<close>

fun destroy_timers :: "('b, 'o) world \<Rightarrow> addr list \<Rightarrow> ('b, 'o) world res" where
  "destroy_timers w [] = Inr w"
| "destroy_timers w (tm # tms) = with_timer w tm (\<lambda>timer.
     rbind (sk_obj_destroy w (tm_ud timer)) (\<lambda>w.
       destroy_timers (w\<lparr>w_timers := (w_timers w)(tm := None)\<rparr>) tms))"

definition sk_timersvc_destroy :: "('b, 'o) world \<Rightarrow> addr \<Rightarrow> ('b, 'o) world res" where
  "sk_timersvc_destroy w sv = with_tmsvc w sv (\<lambda>svc.
     rbind (destroy_timers w (tv_timers svc)) (\<lambda>w.
       Inr (w\<lparr>w_tmsvcs := (w_tmsvcs w)(sv := None)\<rparr>)))"

text \<open>The library calls \<^verbatim>\<open>_timer_triggered\<close> when a node expires; \<open>cur\<close> is \<^verbatim>\<open>SK_ENV_SCHED\<close>.\<close>

definition timer_fired :: "('b, 'o) world \<Rightarrow> addr \<Rightarrow> addr \<Rightarrow> ('b, 'o) world res" where
  "timer_fired w cur tm = with_timer w tm (\<lambda>timer.
     let w = fx (set_timer w tm (timer\<lparr>tm_triggered := True\<rparr>))
               [Metric ''global.timer_triggered'', Metric ''worker.timer_triggered'',
                Metric ''global.timer_delayed'', Metric ''worker.timer_delayed'']
     in Inr (send w cur (Some cur) (tm_entity timer) None (Timer_triggered tm (tm_trigger timer) (tm_ud timer))))"

definition sk_timer_valid :: "('b, 'o) world \<Rightarrow> addr \<Rightarrow> bool res" where
  "sk_timer_valid w tm = (if tm = 0 then Inr False else with_timer w tm (\<lambda>timer. Inr (tm_valid timer)))"

definition sk_timer_cancel :: "('b, 'o) world \<Rightarrow> addr \<Rightarrow> ('b, 'o) world res" where
  "sk_timer_cancel w tm = (if tm = 0 then Inr w else with_timer w tm (\<lambda>timer.
     Inr (fx (set_timer w tm (timer\<lparr>tm_valid := False\<rparr>))
       [Metric ''global.timer_canceled'', Metric ''worker.timer_canceled''])))"

text \<open>\<open>ret\<close> is what \<^verbatim>\<open>fev_tmsvc_timer_reset\<close> (or \<^verbatim>\<open>resetn\<close>) of the library returns.\<close>

definition sk_timer_reset :: "int \<Rightarrow> ('b, 'o) world \<Rightarrow> addr \<Rightarrow> int res" where
  "sk_timer_reset ret w tm = (if tm = 0 then Inr 1 else with_timer w tm (\<lambda>timer.
     if tm_triggered timer then Inr 1 else sk_assert (ret = 0) (Inr 0)))"

section \<open>Timer jobs of a service\<close>

text \<open>The address of \<^verbatim>\<open>_job_triggered\<close>.\<close>

definition JOB_TRIGGERED :: addr where
  "JOB_TRIGGERED = 1"

definition job_triggered ::
  "('b, 'o) sk_env \<Rightarrow> ('b, 'o) world \<Rightarrow> addr \<Rightarrow> addr \<Rightarrow> bool \<Rightarrow> addr \<Rightarrow> ('b, 'o) world res" where
  "job_triggered E w cur a valid ud = live (w_jobs w ud) (\<lambda>jd.
     Inr (send w cur (Some (en_master E)) a None
       (Timer_emit (jd_service jd) (jd_job jd) (jd_ud jd) valid (jd_bidx jd) (jd_type jd) (jd_interval jd))))"

text \<open>\<open>emgr\<close> is \<^verbatim>\<open>SK_ENV_ENTITY_MGR\<close>, the manager of the running engine; \<open>cur\<close> has its timer service.\<close>

definition sk_service_job_create ::
  "('b, 'o) sk_env \<Rightarrow> ('b, 'o) world \<Rightarrow> addr \<Rightarrow> addr \<Rightarrow> string \<Rightarrow> u32 \<Rightarrow> u32 \<Rightarrow> sk_service_job_rw \<Rightarrow> addr \<Rightarrow> addr \<Rightarrow> int \<Rightarrow>
   (('b, 'o) world \<times> sk_service_job_ret) res" where
  "sk_service_job_create E w cur emgr name delayed interval rw job ud bidx =
     (if \<not> validate_bidx E bidx then Inr (w, SK_SRV_JOB_ERROR_BIO)
      else
        (let (w, a) = sk_entity_create w None SK_ENTITY_TIMER;
             jd = \<lparr>jd_service = name, jd_entity = a, jd_job = job, jd_ud = ud, jd_bidx = bidx, jd_type = rw,
                   jd_interval = interval\<rparr>
         in rbind (sk_entity_mgr_add w emgr a) (\<lambda>w.
            rbind (sk_entity_timeradd w a ud) (\<lambda>w.
              let obj = w_next w; w = w\<lparr>w_next := Suc obj, w_jobs := (w_jobs w)(obj \<mapsto> jd)\<rparr>
              in rbind (sk_timersvc_timer_create w cur a delayed interval JOB_TRIGGERED obj) (\<lambda>(w, tm).
                   Inr (fx w [Metric ''global.srv_timer_emit'', Metric ''worker.srv_timer_emit''],
                        SK_SRV_JOB_OK))))))"

section \<open>Handlers\<close>

definition timer_triggered_run ::
  "('b, 'o) sk_env \<Rightarrow> ('b, 'o) world \<Rightarrow> addr \<Rightarrow> addr \<Rightarrow> addr \<Rightarrow> addr \<Rightarrow> addr \<Rightarrow> ('b, 'o) world res" where
  "timer_triggered_run E w cur a tm trigger ud = with_timer w tm (\<lambda>timer.
     rbind (sk_timer_valid w tm) (\<lambda>valid.
     rbind (if trigger = JOB_TRIGGERED then job_triggered E w cur a valid ud
            else Inr (fx w [Timer_cb trigger ud valid])) (\<lambda>w.
     with_timer w tm (\<lambda>timer'.
       if tm_interval timer' = 0 then sk_timersvc_timer_destroy w (tm_owner timer) tm else Inr w))))"

definition timer_task :: "addr \<Rightarrow> addr \<Rightarrow> addr \<Rightarrow> addr \<Rightarrow> bool \<Rightarrow> int \<Rightarrow> sk_service_job_rw \<Rightarrow> u32 \<Rightarrow> sk_srv_task" where
  "timer_task src a job ud valid bidx rw interval =
     \<lparr>ts_base_type = (if rw = SK_SRV_JOB_READ then SK_QUEUE_ELEM_READ else SK_QUEUE_ELEM_WRITE),
      ts_io_status = SK_SRV_IO_STATUS_OK, ts_bidx = bidx, ts_src = src,
      ts_data = SK_SRV_TASK_TIMER a job ud valid interval\<rparr>"

definition timer_emit_run ::
  "('b, 'o) sk_env \<Rightarrow> ('b, 'o) world \<Rightarrow> addr \<Rightarrow> addr \<Rightarrow> addr \<Rightarrow> string \<Rightarrow> addr \<Rightarrow> addr \<Rightarrow> bool \<Rightarrow> int \<Rightarrow>
   sk_service_job_rw \<Rightarrow> u32 \<Rightarrow> (('b, 'o) world \<times> int) res" where
  "timer_emit_run E w cur src a name job ud valid bidx rw interval =
     sk_assert (cur = en_master E) (with_svc w name (\<lambda>sv.
       let task = timer_task src a job ud valid bidx rw interval
       in rbind (sk_service_push_task (en_F E) sv task) (\<lambda>(sv, ret).
          let w = set_svc w name sv
          in if ret \<noteq> SK_SRV_STATUS_OK then
               sk_assert (ret = SK_SRV_STATUS_BUSY)
                 (rbind (sk_service_schedule_task E w cur name (task\<lparr>ts_io_status := SK_SRV_IO_STATUS_BUSY\<rparr>)) (\<lambda>w.
                    Inr (w, 1)))
             else rbind (sk_service_schedule_tasks E w cur name) (\<lambda>(w, _). Inr (w, 0)))))"

text \<open>The job itself is code of the user.\<close>

definition svc_timer_run ::
  "('b, 'o) sk_env \<Rightarrow> ('b, 'o) world \<Rightarrow> addr \<Rightarrow> addr \<Rightarrow> addr \<Rightarrow> string \<Rightarrow> addr \<Rightarrow> addr \<Rightarrow> bool \<Rightarrow> sk_service_job_ret \<Rightarrow> u32 \<Rightarrow>
   ('b, 'o) world res" where
  "svc_timer_run E w cur src a name job ud valid status interval =
     sk_assert (src = en_master E) (with_svc w name (\<lambda>_.
       Inr (send (fx w [Job_run job status valid]) cur (Some src) a None (Svc_timer_done name status interval))))"

definition svc_timer_done ::
  "('b, 'o) sk_env \<Rightarrow> ('b, 'o) world \<Rightarrow> addr \<Rightarrow> addr \<Rightarrow> string \<Rightarrow> sk_service_job_ret \<Rightarrow> u32 \<Rightarrow> ('b, 'o) world res" where
  "svc_timer_done E w cur a name status interval =
     sk_assert (cur = en_master E) (with_svc w name (\<lambda>sv.
       rbind (if status = SK_SRV_JOB_OK
              then rbind (sk_service_task_setcomplete sv) (\<lambda>sv. Inr (set_svc w name sv)) else Inr w) (\<lambda>w.
       rbind (if interval = 0 then rbind (sk_entity_safe_destroy E w cur a) (\<lambda>(w, _). Inr w) else Inr w) (\<lambda>w.
       rbind (if status = SK_SRV_JOB_OK
              then Inr (fx w [Metric ''global.srv_timer_complete'', Metric ''worker.srv_timer_complete''])
              else sk_assert (status = SK_SRV_JOB_ERROR_BUSY)
                     (Inr (fx w [Metric ''worker.srv_timer_busy'', Metric ''global.srv_timer_busy'']))) (\<lambda>w.
       rbind (sk_service_schedule_tasks E w cur name) (\<lambda>(w, _). Inr w))))))"

section \<open>One-shot jobs\<close>

lemma set_timer_sel [simp]:
  "w_timers (set_timer w tm x) = (w_timers w)(tm \<mapsto> x)" "w_tmsvcs (set_timer w tm x) = w_tmsvcs w"
  "w_ents (set_timer w tm x) = w_ents w" "w_mgrs (set_timer w tm x) = w_mgrs w" "w_txns (set_timer w tm x) = w_txns w"
  "w_jobs (set_timer w tm x) = w_jobs w" "w_sends (set_timer w tm x) = w_sends w" "w_svcs (set_timer w tm x) = w_svcs w"
  "w_fx (set_timer w tm x) = w_fx w"
  by (simp_all add: set_timer_def)

lemma set_tmsvc_sel [simp]:
  "w_timers (set_tmsvc w sv x) = w_timers w" "w_tmsvcs (set_tmsvc w sv x) = (w_tmsvcs w)(sv \<mapsto> x)"
  "w_ents (set_tmsvc w sv x) = w_ents w" "w_mgrs (set_tmsvc w sv x) = w_mgrs w" "w_txns (set_tmsvc w sv x) = w_txns w"
  "w_jobs (set_tmsvc w sv x) = w_jobs w" "w_sends (set_tmsvc w sv x) = w_sends w" "w_svcs (set_tmsvc w sv x) = w_svcs w"
  "w_fx (set_tmsvc w sv x) = w_fx w"
  by (simp_all add: set_tmsvc_def)

text \<open>Addresses from the next free one on are not in use.\<close>

definition fresh :: "('b, 'o) world \<Rightarrow> bool" where
  "fresh w \<longleftrightarrow> 0 < w_next w \<and> (\<forall>a \<ge> w_next w. w_ents w a = None \<and> w_timers w a = None \<and> w_jobs w a = None \<and>
     (\<forall>sv svc. w_tmsvcs w sv = Some svc \<longrightarrow> a \<notin> set (tv_timers svc)))"

text \<open>The books of a manager do not depend on the timers of an entity.\<close>

lemma mgr_ok_set_ent:
  assumes ok: "mgr_ok w m mgr" and e: "w_ents w a = Some e" "w_ents w' = (w_ents w)(a \<mapsto> e')"
    and w': "w_mgrs w' = w_mgrs w" "w_txns w' = w_txns w"
    and e': "e_owner e' = e_owner e" "e_txns e' = e_txns e" "e_task_cnt e' = e_task_cnt e" "e_timers e' \<noteq> None"
      "e_status e' = e_status e" "e_type e' = e_type e"
  shows "mgr_ok w' m mgr"
proof -
  have inv: "mgr_inv w m mgr" "mg_tmp mgr = []" using ok by (auto simp: mgr_ok_def)
  have ty: "ent_type_at w' = ent_type_at w" using e e'(6) by (auto simp: ent_type_at_def fun_eq_iff)
  have "\<exists>f. w_ents w' b = Some f \<and> e_owner f = Some m \<and> ent_ok w' b f \<and>
      (e_status f = SK_ENTITY_DEAD \<longleftrightarrow> b \<in> set (mg_inactive mgr @ mg_tmp mgr))"
    if b: "b \<in> set (mg_entities mgr)" for b
  proof -
    obtain f where f: "w_ents w b = Some f" "e_owner f = Some m" "ent_ok w b f"
      "e_status f = SK_ENTITY_DEAD \<longleftrightarrow> b \<in> set (mg_inactive mgr @ mg_tmp mgr)"
      by (rule mgr_inv_ent [OF inv(1) b])
    show ?thesis
      using f e e' w'(2) by (cases "b = a") (simp_all add: ent_ok_def)
  qed
  then show ?thesis
    using inv w'(1) ty unfolding mgr_ok_def mgr_inv_def by simp
qed

definition jobdata_of :: "string \<Rightarrow> addr \<Rightarrow> addr \<Rightarrow> addr \<Rightarrow> int \<Rightarrow> sk_service_job_rw \<Rightarrow> u32 \<Rightarrow> srv_jobdata" where
  "jobdata_of name a job ud bidx rw interval = \<lparr>jd_service = name, jd_entity = a, jd_job = job, jd_ud = ud,
     jd_bidx = bidx, jd_type = rw, jd_interval = interval\<rparr>"

text \<open>
  What \<^verbatim>\<open>sk_service_job_create\<close> builds: an entity at \<open>a\<close> owned by the manager, the object of the
  job at \<open>Suc a\<close>, and a timer at \<open>Suc (Suc a)\<close>.
\<close>

definition job_built ::
  "('b, 'o) world \<Rightarrow> addr \<Rightarrow> addr \<Rightarrow> sk_timersvc \<Rightarrow> srv_jobdata \<Rightarrow> u32 \<Rightarrow> ('b, 'o) world \<Rightarrow> bool" where
  "job_built w cur emgr svc jd interval w1 \<longleftrightarrow> (let a = w_next w in
     w_jobs w1 = (w_jobs w)(Suc a \<mapsto> jd) \<and>
     w_timers w1 = (w_timers w)(Suc (Suc a) \<mapsto> \<lparr>tm_owner = cur, tm_entity = a, tm_trigger = JOB_TRIGGERED,
       tm_ud = Suc a, tm_valid = True, tm_triggered = False, tm_interval = interval\<rparr>) \<and>
     w_tmsvcs w1 = (w_tmsvcs w)(cur \<mapsto> svc\<lparr>tv_timer_alive := tv_timer_alive svc + 1,
       tv_timers := tv_timers svc @ [Suc (Suc a)]\<rparr>) \<and>
     (\<exists>e. w_ents w1 = (w_ents w)(a \<mapsto> e) \<and> e_owner e = Some emgr \<and> e_timers e = Some [jd_ud jd] \<and>
       e_status e = SK_ENTITY_ACTIVE) \<and>
     w_txns w1 = w_txns w \<and> w_svcs w1 = w_svcs w \<and> w_sends w1 = w_sends w)"

lemma job_create_ok:
  assumes f: "fresh w" and v: "validate_bidx E bidx" and m: "mgr_ok w emgr mgr" and sv: "w_tmsvcs w cur = Some svc"
  shows "\<exists>w1 mgr'. sk_service_job_create E w cur emgr name delayed interval rw job ud bidx = Inr (w1, SK_SRV_JOB_OK) \<and>
    job_built w cur emgr svc (jobdata_of name (w_next w) job ud bidx rw interval) interval w1 \<and>
    mgr_ok w1 emgr mgr' \<and> mg_entities mgr' = mg_entities mgr @ [w_next w]"
proof -
  define a where "a = w_next w"
  define e where "e = \<lparr>e_owner = None, e_workflow = None, e_half_txn = None, e_opt = default_opt,
       e_txns = Some [], e_timers = Some [], e_type = SK_ENTITY_TIMER, e_status = SK_ENTITY_ACTIVE,
       e_flags = 0, e_task_cnt = 0, e_ud = 0, e_iqueue = []\<rparr>"
  define w0 where "w0 = fx ((set_ent w a e)\<lparr>w_next := Suc a\<rparr>) [Metric ''global.entity_create'']"
  have c: "sk_entity_create w None SK_ENTITY_TIMER = (w0, a)"
    by (simp add: sk_entity_create_def w0_def a_def e_def Let_def)
  have na: "a \<notin> set (mg_entities mgr)"
    using m f mgr_inv_ents [of w emgr mgr] by (force simp: mgr_ok_def fresh_def a_def)
  have "mgr_ok w0 emgr mgr"
  proof -
    have *: "w_ents w0 b = w_ents w b" if "b \<in> set (mg_entities mgr)" for b using that na by (auto simp: w0_def)
    have "filter (ent_type_at w0 t) (mg_entities mgr) = filter (ent_type_at w t) (mg_entities mgr)" for t
      using * by (intro filter_cong) (auto simp: ent_type_at_def)
    with m * show ?thesis by (auto simp: mgr_ok_def mgr_inv_def ent_ok_def w0_def)
  qed
  moreover have "ent_ok w0 a e" "w_ents w0 a = Some e" by (simp_all add: ent_ok_def e_def w0_def)
  ultimately obtain w2 mgr' where w2: "sk_entity_mgr_add w0 emgr a = Inr w2" "mgr_ok w2 emgr mgr'"
    "mg_entities mgr' = mg_entities mgr @ [a]" "w_ents w2 = (w_ents w0)(a \<mapsto> e\<lparr>e_owner := Some emgr\<rparr>)"
    "w_txns w2 = w_txns w0"
    using mgr_add_counts [of w0 emgr mgr a e] by (auto simp: e_def)
  have w2': "w_timers w2 = w_timers w" "w_tmsvcs w2 = w_tmsvcs w" "w_jobs w2 = w_jobs w" "w_next w2 = Suc a"
    "w_svcs w2 = w_svcs w" "w_sends w2 = w_sends w"
    using w2(1) by (auto simp: sk_entity_mgr_add_def with_mgr_def with_ent_def res_simps Let_def w0_def)
  let ?e = "e\<lparr>e_owner := Some emgr, e_timers := Some [ud]\<rparr>"
  let ?w3 = "set_ent w2 a ?e"
  have w3: "sk_entity_timeradd w2 a ud = Inr ?w3"
    using w2(4) by (simp add: sk_entity_timeradd_def with_ent_def e_def hash_set_def)
  let ?jd = "jobdata_of name a job ud bidx rw interval"
  let ?w4 = "?w3\<lparr>w_next := Suc (Suc a), w_jobs := (w_jobs ?w3)(Suc a \<mapsto> ?jd)\<rparr>"
  have nt: "Suc (Suc a) \<notin> set (tv_timers svc)"
    using f sv unfolding fresh_def a_def by (metis le_SucI order_refl)
  obtain w5 where w5: "sk_timersvc_timer_create ?w4 cur a delayed interval JOB_TRIGGERED (Suc a) = Inr (w5, Suc (Suc a))"
    "w_jobs w5 = w_jobs ?w4" "w_ents w5 = w_ents ?w4" "w_mgrs w5 = w_mgrs ?w4" "w_txns w5 = w_txns ?w4"
    "w_svcs w5 = w_svcs ?w4" "w_sends w5 = w_sends ?w4"
    "w_timers w5 = (w_timers w)(Suc (Suc a) \<mapsto> \<lparr>tm_owner = cur, tm_entity = a, tm_trigger = JOB_TRIGGERED,
       tm_ud = Suc a, tm_valid = True, tm_triggered = False, tm_interval = interval\<rparr>)"
    "w_tmsvcs w5 = (w_tmsvcs w)(cur \<mapsto> svc\<lparr>tv_timer_alive := tv_timer_alive svc + 1,
       tv_timers := tv_timers svc @ [Suc (Suc a)]\<rparr>)"
    using sv w2' nt by (simp add: sk_timersvc_timer_create_def with_tmsvc_def Let_def hash_set_def)
  let ?w6 = "fx w5 [Metric ''global.srv_timer_emit'', Metric ''worker.srv_timer_emit'']"
  have "sk_service_job_create E w cur emgr name delayed interval rw job ud bidx = Inr (?w6, SK_SRV_JOB_OK)"
    using v c w2(1) w3 w5(1) w2'(4) by (simp add: sk_service_job_create_def Let_def jobdata_of_def)
  moreover have "job_built w cur emgr svc ?jd interval ?w6"
    using w5 w2 w2' by (auto simp: job_built_def Let_def a_def jobdata_of_def e_def w0_def intro!: exI)
  moreover have "mgr_ok ?w6 emgr mgr'"
    by (rule mgr_ok_set_ent [OF w2(2), of a "e\<lparr>e_owner := Some emgr\<rparr>" _ ?e]) (use w2(4) w5 in simp_all)
  ultimately show ?thesis using w2(3) by (intro exI2 [of _ ?w6 mgr']) (simp add: a_def)
qed

text \<open>A point at which the timer may be cancelled; \<open>c\<close> tells whether it is.\<close>

definition maybe_cancel :: "bool \<Rightarrow> ('b, 'o) world \<Rightarrow> addr \<Rightarrow> ('b, 'o) world res" where
  "maybe_cancel c w tm = (if c then sk_timer_cancel w tm else Inr w)"

text \<open>
  Firing and the handler, for the timer of a one-shot job, which is cancelled before it expires
  (\<open>c1\<close>), between its expiry and the handler (\<open>c2\<close>), both or never.
\<close>

lemma job_fires:
  assumes f: "fresh w" and sv: "w_tmsvcs w cur = Some svc" and jb: "job_built w cur emgr svc jd 0 w1"
    and jd: "jd_entity jd = w_next w"
  shows "\<exists>w1' w2 w2' w3. maybe_cancel c1 w1 (Suc (Suc (w_next w))) = Inr w1' \<and>
    timer_fired w1' cur (Suc (Suc (w_next w))) = Inr w2 \<and> maybe_cancel c2 w2 (Suc (Suc (w_next w))) = Inr w2' \<and>
    timer_triggered_run E w2' cur (w_next w) (Suc (Suc (w_next w))) JOB_TRIGGERED (Suc (w_next w)) = Inr w3 \<and>
    w_timers w3 = w_timers w \<and> w_jobs w3 = w_jobs w \<and> w_tmsvcs w3 = w_tmsvcs w \<and>
    w_ents w3 = w_ents w1 \<and> w_mgrs w3 = w_mgrs w1 \<and> w_txns w3 = w_txns w1 \<and>
    map ev_msg (w_sends w3) = map ev_msg (w_sends w) @
      [Timer_triggered (Suc (Suc (w_next w))) JOB_TRIGGERED (Suc (w_next w)),
       Timer_emit (jd_service jd) (jd_job jd) (jd_ud jd) (\<not> c1 \<and> \<not> c2) (jd_bidx jd) (jd_type jd) (jd_interval jd)]"
proof -
  define a where "a = w_next w"
  let ?tm = "Suc (Suc a)"
  let ?t = "\<lparr>tm_owner = cur, tm_entity = a, tm_trigger = JOB_TRIGGERED,
       tm_ud = Suc a, tm_valid = True, tm_triggered = False, tm_interval = 0\<rparr>"
  have fr: "w_timers w ?tm = None" "w_jobs w (Suc a) = None" "?tm \<notin> set (tv_timers svc)"
    using f sv by (auto simp: fresh_def a_def)
  obtain e where b: "w_jobs w1 = (w_jobs w)(Suc a \<mapsto> jd)" "w_timers w1 = (w_timers w)(?tm \<mapsto> ?t)"
    "w_tmsvcs w1 = (w_tmsvcs w)(cur \<mapsto> svc\<lparr>tv_timer_alive := tv_timer_alive svc + 1, tv_timers := tv_timers svc @ [?tm]\<rparr>)"
    "w_ents w1 = (w_ents w)(a \<mapsto> e)" "e_owner e = Some emgr" "w_sends w1 = w_sends w"
    using jb by (auto simp: job_built_def Let_def a_def)
  have id: "(w_timers w)(?tm := None) = w_timers w" "(w_jobs w)(Suc a := None) = w_jobs w"
    "(w_tmsvcs w)(cur \<mapsto> svc) = w_tmsvcs w"
    using fr sv by auto
  have svc: "removeAll ?tm (tv_timers svc) = tv_timers svc" using fr(3) by simp
  show ?thesis
    using b id svc jd fr
    by (cases c1; cases c2)
       (simp_all add: a_def [symmetric] maybe_cancel_def sk_timer_cancel_def timer_fired_def with_timer_def with_tmsvc_def
        timer_triggered_run_def sk_timer_valid_def job_triggered_def sk_timersvc_timer_destroy_def sk_obj_destroy_def with_ent_def Let_def)
qed

section \<open>Jobs in the queue of the service\<close>

lemma timer_task_sel [simp]:
  "ts_io_status (timer_task src a job ud valid bidx rw iv) = SK_SRV_IO_STATUS_OK"
  "ts_bidx (timer_task src a job ud valid bidx rw iv) = bidx" "ts_src (timer_task src a job ud valid bidx rw iv) = src"
  "ts_data (timer_task src a job ud valid bidx rw iv) = SK_SRV_TASK_TIMER a job ud valid iv"
  by (simp_all add: timer_task_def)

lemma timer_task_rw: "ts_base_type (timer_task src a job ud valid bidx rw iv) \<in> rw_elems"
  by (simp add: timer_task_def)

definition timer_busy_event :: "('b, 'o) sk_env \<Rightarrow> addr \<Rightarrow> addr \<Rightarrow> string \<Rightarrow> addr \<Rightarrow> addr \<Rightarrow> bool \<Rightarrow> u32 \<Rightarrow> sk_event" where
  "timer_busy_event E src a name job ud valid iv = \<lparr>ev_src = en_master E, ev_dst = Some src, ev_hop = 0, ev_entity = a,
     ev_txn = None, ev_msg = Svc_timer_run name job ud valid SK_SRV_JOB_ERROR_BUSY iv\<rparr>"

lemma fx_Nil [simp]: "fx w [] = w"
  by (simp add: fx_def)

context srv_buf
begin

lemma timer_emit_ok:
  assumes F: "en_F E = F" and inv: "svc_inv E items invar name (w, run)"
    and sv: "w_svcs w name = Some sv" and v: "validate_bidx E bidx"
  shows "\<exists>w' r ts sv'. timer_emit_run E w (en_master E) src a name job ud valid bidx rw iv = Inr (w', r) \<and>
    w_svcs w' name = Some sv' \<and> svc_inv E items invar name (w', run @ ts) \<and>
    (if srv_room items sv (timer_task src a job ud valid bidx rw iv)
     then r = 0 \<and> add_mset (timer_task src a job ud valid bidx rw iv) (mset (svc_waiting items sv)) = mset ts + mset (svc_waiting items sv') \<and>
       w_sends w' = w_sends w @ map (task_event E w name) ts
     else r = 1 \<and> ts = [] \<and> svc_waiting items sv' = svc_waiting items sv \<and>
       w_sends w' = w_sends w @ [timer_busy_event E src a name job ud valid iv])"
proof -
  let ?t = "timer_task src a job ud valid bidx rw iv"
  have rd: "task_ready E w ?t" using v by (simp add: task_ready_def)
  obtain sv1 st where p: "sk_service_push_task F sv ?t = Inr (sv1, st)"
    "\<not> srv_room items sv ?t \<and> st = SK_SRV_STATUS_BUSY \<and> svc_waiting items sv1 = svc_waiting items sv \<and>
       svc_inv E items invar name (set_svc w name sv1, run) \<or>
     srv_room items sv ?t \<and> st = SK_SRV_STATUS_OK \<and> (\<exists>w' ts sv'.
       sk_service_schedule_tasks E (fx (set_svc w name sv1) []) (en_master E) name = Inr (w', ts) \<and>
       w_svcs w' name = Some sv' \<and> svc_inv E items invar name (w', run @ ts) \<and> w_txns w' = w_txns w \<and>
       add_mset ?t (mset (svc_waiting items sv)) = mset ts + mset (svc_waiting items sv') \<and>
       w_sends w' = w_sends w @ map (task_event E w name) ts)"
    using push_schedule_ok [OF F inv sv timer_task_rw timer_task_sel(1) rd, of "[]"] by blast
  from p(2) show ?thesis
  proof (elim disjE conjE exE)
    fix w' ts sv'
    assume c: "srv_room items sv ?t" "st = SK_SRV_STATUS_OK" "sk_service_schedule_tasks E (fx (set_svc w name sv1) []) (en_master E) name = Inr (w', ts)"
      "w_svcs w' name = Some sv'" "svc_inv E items invar name (w', run @ ts)" "w_txns w' = w_txns w"
      "add_mset ?t (mset (svc_waiting items sv)) = mset ts + mset (svc_waiting items sv')"
      "w_sends w' = w_sends w @ map (task_event E w name) ts"
    have "timer_emit_run E w (en_master E) src a name job ud valid bidx rw iv = Inr (w', 0)"
      using sv F p(1) c(2,3) by (simp add: timer_emit_run_def with_svc_def)
    with c show ?thesis by (intro exI [of _ w'] exI3 [of _ 0 ts sv']) simp
  next
    assume nb: "\<not> srv_room items sv ?t"
      and b: "st = SK_SRV_STATUS_BUSY" "svc_waiting items sv1 = svc_waiting items sv"
      "svc_inv E items invar name (set_svc w name sv1, run)"
    let ?w' = "send (set_svc w name sv1) (en_master E) (Some src) a None (Svc_timer_run name job ud valid SK_SRV_JOB_ERROR_BUSY iv)"
    have "timer_emit_run E w (en_master E) src a name job ud valid bidx rw iv = Inr (?w', 1)"
      using sv F p(1) b(1)
      by (simp add: timer_emit_run_def with_svc_def sk_service_schedule_task_def sk_service_schedule_errortask_def
          schedule_timer_task_def timer_task_def)
    moreover have "svc_inv E items invar name (?w', run)"
      using b(3) svc_inv_cong [of ?w' "set_svc w name sv1"] by simp
    ultimately show ?thesis
      using nb b(2) by (intro exI [of _ ?w'] exI3 [of _ 1 "[]" sv1]) (simp add: timer_busy_event_def)
  qed
qed

lemma timer_done_ok:
  assumes F: "en_F E = F" and inv: "svc_inv E items invar name (w, run)"
    and st: "status = SK_SRV_JOB_OK \<longrightarrow> x \<in> set run" "status \<noteq> SK_SRV_JOB_ERROR_BIO"
    and e: "w_ents w a = Some e" "e_owner e = Some m" "w_mgrs w m \<noteq> None"
  shows "\<exists>w' ts evs. svc_timer_done E w (en_master E) a name status iv = Inr w' \<and>
    svc_inv E items invar name (w', (if status = SK_SRV_JOB_OK then remove1 x run else run) @ ts) \<and>
    w_sends w' = w_sends w @ evs @ map (task_event E w name) ts \<and>
    (\<forall>ev \<in> set evs. iv = 0 \<and> ev_msg ev = Entity_destroy)"
proof -
  obtain sv where sv: "w_svcs w name = Some sv" "svc_ok F items invar sv"
    "\<forall>t \<in> set (svc_waiting items sv). task_ready E w t"
    "sv_running_task_cnt sv = int (length run)" "excl ts_base_type (svc_state sv) run"
    using inv F by (auto simp: svc_inv_def)
  define run' where "run' = (if status = SK_SRV_JOB_OK then remove1 x run else run)"
  have "\<exists>sv1. (if status = SK_SRV_JOB_OK then rbind (sk_service_task_setcomplete sv) (\<lambda>sv. Inr (set_svc w name sv)) else Inr w)
      = Inr (set_svc w name sv1) \<and> svc_inv E items invar name (set_svc w name sv1, run')"
  proof (cases "status = SK_SRV_JOB_OK")
    case True
    then have "x \<in> set run" using st(1) by simp
    from setcomplete_ok [OF sv(2) this sv(4,5)] obtain sv' where "sk_service_task_setcomplete sv = Inr sv'"
      "svc_ok F items invar sv'" "svc_waiting items sv' = svc_waiting items sv"
      "sv_running_task_cnt sv' = int (length (remove1 x run))" "excl ts_base_type (svc_state sv') (remove1 x run)"
      by blast
    then show ?thesis using True sv(3) F by (intro exI [of _ sv']) (simp add: svc_inv_def run'_def)
  next
    case False
    have "set_svc w name sv = w" using sv(1) by (intro world.equality) auto
    with False inv show ?thesis by (intro exI [of _ sv]) (simp add: run'_def)
  qed
  then obtain sv1 where w1: "(if status = SK_SRV_JOB_OK then rbind (sk_service_task_setcomplete sv) (\<lambda>sv. Inr (set_svc w name sv))
      else Inr w) = Inr (set_svc w name sv1)" "svc_inv E items invar name (set_svc w name sv1, run')" by blast
  let ?w1 = "set_svc w name sv1"
  have "ok (if iv = 0 then rbind (sk_entity_safe_destroy E ?w1 (en_master E) a) (\<lambda>(w, _). Inr w) else Inr ?w1)
      (\<lambda>w2. w_txns w2 = w_txns w \<and> w_svcs w2 = w_svcs ?w1 \<and> (\<exists>evs. w_sends w2 = w_sends w @ evs \<and>
        (\<forall>ev \<in> set evs. iv = 0 \<and> ev_msg ev = Entity_destroy)))"
  proof (cases "iv = 0")
    case True
    have "w_ents ?w1 a = Some e" "w_mgrs ?w1 m \<noteq> None" using e by simp_all
    note k = safe_destroy_keeps [OF this(1) e(2) this(2), of E "en_master E"]
    from True show ?thesis
      by (simp add: case_prod_unfold) (rule ok_mono [OF k], auto)
  qed simp
  then obtain w2 evs where w2: "(if iv = 0 then rbind (sk_entity_safe_destroy E ?w1 (en_master E) a) (\<lambda>(w, _). Inr w) else Inr ?w1) = Inr w2"
    "w_txns w2 = w_txns w" "w_svcs w2 = w_svcs ?w1" "w_sends w2 = w_sends w @ evs"
    "\<forall>ev \<in> set evs. iv = 0 \<and> ev_msg ev = Entity_destroy" unfolding ok_def by blast
  define w3 where "w3 = fx w2 (if status = SK_SRV_JOB_OK
    then [Metric ''global.srv_timer_complete'', Metric ''worker.srv_timer_complete'']
    else [Metric ''worker.srv_timer_busy'', Metric ''global.srv_timer_busy''])"
  have w3: "(if status = SK_SRV_JOB_OK
      then Inr (fx w2 [Metric ''global.srv_timer_complete'', Metric ''worker.srv_timer_complete''])
      else sk_assert (status = SK_SRV_JOB_ERROR_BUSY)
             (Inr (fx w2 [Metric ''worker.srv_timer_busy'', Metric ''global.srv_timer_busy'']))) = Inr w3"
    using st(2) by (cases status) (simp_all add: w3_def)
  have i3: "svc_inv E items invar name (w3, run')"
    using w1(2) svc_inv_cong [of w3 ?w1] w2(2,3) by (simp add: w3_def)
  obtain w' ts where c: "sk_service_schedule_tasks E w3 (en_master E) name = Inr (w', ts)"
    "svc_inv E items invar name (w', run' @ ts)" "w_sends w' = w_sends w3 @ map (task_event E w3 name) ts"
    using schedule_tasks_ok [OF F i3] by blast
  have "svc_timer_done E w (en_master E) a name status iv = Inr w'"
    unfolding svc_timer_done_def with_svc_def sv(1) by (simp only: option.case w1(1) w2(1) w3 c(1) rbind_simps sk_assert_simps prod.case refl)
  moreover have "w_sends w' = w_sends w @ evs @ map (task_event E w name) ts"
    using c(3) w2(2,4) task_event_cong [of w3 w E name] by (simp add: w3_def)
  ultimately show ?thesis using c(2) w2(5) by (intro exI3 [of _ w' ts evs]) (simp add: run'_def)
qed

end

section \<open>Properties\<close>


definition demo_timer_world :: "(sk_srv_task cellbuf, u8 cellbuf) world" where
  "demo_timer_world = sk_timersvc_create (demo_world\<lparr>w_next := 50\<rparr>) 100"


text \<open>
  The request of a timer job is accepted or refused like a call: when the queue of the
  service has room the job is queued, and every task that may start is handed out by one message;
  when it is full the worker gets exactly one message to run the job with the status busy, and the
  service is left as it was. The books of the service stay exact.
\<close>
theorem timer_emit_queued_or_busy:
  assumes "fmbuf (en_F E) SK_SRV_TASK_SZ items invar" and "svc_inv E items invar name (w, run)"
    and "w_svcs w name = Some sv" and "validate_bidx E bidx"
  shows "\<exists>w' r ts sv'. timer_emit_run E w (en_master E) src a name job ud valid bidx rw iv = Inr (w', r) \<and>
    w_svcs w' name = Some sv' \<and> svc_inv E items invar name (w', run @ ts) \<and>
    (if srv_room items sv (timer_task src a job ud valid bidx rw iv)
     then r = 0 \<and> add_mset (timer_task src a job ud valid bidx rw iv) (mset (svc_waiting items sv)) = mset ts + mset (svc_waiting items sv') \<and>
       w_sends w' = w_sends w @ map (task_event E w name) ts
     else r = 1 \<and> ts = [] \<and> svc_waiting items sv' = svc_waiting items sv \<and>
       w_sends w' = w_sends w @ [timer_busy_event E src a name job ud valid iv])"
  by (rule srv_buf.timer_emit_ok [OF srv_bufI [OF assms(1)] refl assms(2-4)])

theorem timer_emit_queued_or_busy_witness:
  "\<exists>w' r ts. timer_emit_run demo_env demo_call 100 100 1 ''s'' 3 4 True 0 SK_SRV_JOB_READ 0 = Inr (w', r) \<and>
     svc_inv demo_env cb_cells (cellbuf_invar SK_SRV_TASK_SZ) ''s'' (w', ts)"
proof -
  have "w_svcs demo_call ''s'' = Some (demo_svc\<lparr>sv_apis := [''get'' \<mapsto> demo_api]\<rparr>)" "en_master demo_env = 100"
    "validate_bidx demo_env 0"
    by (simp_all add: demo_call_def demo_env_def validate_bidx_def)
  then show ?thesis
    using timer_emit_queued_or_busy [OF demo_svc_buf demo_call_inv, of _ 0 100 1 3 4 True SK_SRV_JOB_READ 0]
    by fastforce
qed

text \<open>
  When a timer job is done, the master never aborts and keeps the books of the service: a job
  that ran leaves the list of running tasks, one that was refused does not count; the entity of the
  job is given back to its manager only when the job is not periodic; the tasks that may start now
  are handed out.
\<close>
theorem svc_timer_done_books:
  assumes "fmbuf (en_F E) SK_SRV_TASK_SZ items invar" and "svc_inv E items invar name (w, run)"
    and "status = SK_SRV_JOB_OK \<longrightarrow> x \<in> set run" "status \<noteq> SK_SRV_JOB_ERROR_BIO"
    and "w_ents w a = Some e" "e_owner e = Some m" "w_mgrs w m \<noteq> None"
  shows "\<exists>w' ts evs. svc_timer_done E w (en_master E) a name status iv = Inr w' \<and>
    svc_inv E items invar name (w', (if status = SK_SRV_JOB_OK then remove1 x run else run) @ ts) \<and>
    w_sends w' = w_sends w @ evs @ map (task_event E w name) ts \<and>
    (\<forall>ev \<in> set evs. iv = 0 \<and> ev_msg ev = Entity_destroy)"
  by (rule srv_buf.timer_done_ok [OF srv_bufI [OF assms(1)] refl assms(2-7)])

theorem svc_timer_done_books_witness:
  "\<exists>w' ts. svc_timer_done demo_env demo_call 100 1 ''s'' SK_SRV_JOB_ERROR_BUSY 0 = Inr w' \<and>
     svc_inv demo_env cb_cells (cellbuf_invar SK_SRV_TASK_SZ) ''s'' (w', ts)"
proof -
  have "w_ents demo_call 1 = Some demo_home" "w_mgrs demo_call 10 \<noteq> None" "e_owner demo_home = Some 10"
    "en_master demo_env = 100"
    by (simp_all add: demo_call_def demo_world_def demo_entity_def demo_env_def)
  then show ?thesis
    using svc_timer_done_books [OF demo_svc_buf demo_call_inv, of SK_SRV_JOB_ERROR_BUSY undefined 1 demo_home 10 0] by auto
qed

end
