(* ===== verification/Drivers.thy ===== *)
theory Drivers
  imports Workflow_Proofs
begin

text \<open>
  Where transactions come from: the drivers (\<^verbatim>\<open>src/src/drivers\<close>), the kinds of entities they
  create (\<^verbatim>\<open>src/src/entities/sk_entity_evb.c\<close>, \<^verbatim>\<open>sk_entity_tcp.c\<close>, \<^verbatim>\<open>sk_entity_std.c\<close>,
  \<^verbatim>\<open>sk_entity_udp.c\<close>) and the handlers \<^verbatim>\<open>sk_pto_tcp_accept.c\<close> and \<^verbatim>\<open>sk_pto_std_start.c\<close> of
  \<^verbatim>\<open>src/src/pto\<close>.

  The buffered event of the library behind a TCP connection or standard input is opaque: its
  address is the user data of the entity and its answers are those of the environment. The buffer of
  a datagram is code of the program and is modelled in full.
\<close>

section \<open>Entities on a buffered event\<close>

text \<open>The numbers stand for the functions of \<^verbatim>\<open>sk_entity_evb_ops\<close> and \<^verbatim>\<open>sk_entity_std_opt\<close>.\<close>

definition sk_entity_evb_ops :: sk_entity_opt where
  "sk_entity_evb_ops = \<lparr>opt_read = Some (Fn 1), opt_write = Some (Fn 2), opt_destroy = Some (Fn 3),
     opt_rbufget = Some (Fn 4), opt_rbufsz = Some (Fn 5), opt_rbufpop = Some (Fn 6), opt_peer = Some (Fn 7)\<rparr>"

definition sk_entity_std_opt :: sk_entity_opt where
  "sk_entity_std_opt = \<lparr>opt_read = Some (Fn 11), opt_write = Some (Fn 12), opt_destroy = Some (Fn 13),
     opt_rbufget = Some (Fn 14), opt_rbufsz = Some (Fn 15), opt_rbufpop = Some (Fn 16), opt_peer = None\<rparr>"

definition sk_entity_evb_create :: "('b, 'o) world \<Rightarrow> addr \<Rightarrow> addr \<Rightarrow> ('b, 'o) world res" where
  "sk_entity_evb_create w a evbuff = with_ent w a (\<lambda>e. Inr (set_ent w a (sk_entity_setopt e sk_entity_evb_ops evbuff)))"

definition sk_entity_tcp_create :: "('b, 'o) world \<Rightarrow> addr \<Rightarrow> addr \<Rightarrow> ('b, 'o) world res" where
  "sk_entity_tcp_create w a ud = sk_entity_evb_create w a ud"

text \<open>\<open>data\<close> is the address of the new \<^verbatim>\<open>sk_entity_std_data_t\<close>, which only holds \<open>evbuff\<close>.\<close>

definition sk_entity_std_create :: "('b, 'o) world \<Rightarrow> addr \<Rightarrow> addr \<Rightarrow> ('b, 'o) world res" where
  "sk_entity_std_create w a evbuff = with_ent w a (\<lambda>e.
     let data = w_next w
     in Inr (set_ent (w\<lparr>w_next := Suc data\<rparr>) a (sk_entity_setopt e sk_entity_std_opt data)))"

text \<open>\<^verbatim>\<open>_stdout_write\<close>: \<open>printed\<close> and \<open>flushed\<close> are what \<^verbatim>\<open>fprintf\<close> and \<^verbatim>\<open>fflush\<close> return.\<close>

definition stdout_write :: "int \<Rightarrow> int \<Rightarrow> u8 list \<Rightarrow> int res" where
  "stdout_write printed flushed buf =
     sk_assert (int (length buf) = printed) (if flushed = 0 then Inr (- 1) else Inr printed)"

section \<open>Datagrams\<close>

type_synonym u16 = "16 word"

record sk_udp_data =
  ud_fd :: int
  ud_buf_sz :: u16
  ud_sidx :: u16
  ud_readbuf :: "u8 list"

definition SK_PADDING_SZ :: nat where
  "SK_PADDING_SZ = 2"

text \<open>The structure has room for \<^verbatim>\<open>SK_PADDING_SZ\<close> bytes and for what is added to it.\<close>

definition udp_data_create :: "int \<Rightarrow> u8 list \<Rightarrow> u16 \<Rightarrow> sk_udp_data" where
  "udp_data_create fd buf buf_sz =
     (let extra_sz = (if SK_PADDING_SZ < unat buf_sz then unat buf_sz - SK_PADDING_SZ else 0);
          room = SK_PADDING_SZ + extra_sz
      in \<lparr>ud_fd = fd, ud_buf_sz = buf_sz, ud_sidx = 0,
          ud_readbuf = take (unat buf_sz) buf @ replicate (room - unat buf_sz) 0\<rparr>)"

definition udp_rbufsz :: "sk_udp_data \<Rightarrow> size_t" where
  "udp_rbufsz d = ucast (ud_buf_sz d) - ucast (ud_sidx d)"

definition udp_rbufget :: "sk_udp_data \<Rightarrow> u8 list" where
  "udp_rbufget d = drop (unat (ud_sidx d)) (ud_readbuf d)"

text \<open>The bytes copied into the buffer of the caller, and the return value.\<close>

definition udp_read :: "sk_udp_data \<Rightarrow> size_t \<Rightarrow> u8 list \<times> int" where
  "udp_read d len =
     (let rbufsz = udp_rbufsz d; readlen = (if len < rbufsz then len else rbufsz)
      in if readlen = 0 then ([], 0) else (take (unat readlen) (udp_rbufget d), sint readlen))"

definition udp_rbufpop :: "sk_udp_data \<Rightarrow> size_t \<Rightarrow> sk_udp_data \<times> size_t" where
  "udp_rbufpop d popsz =
     (let rbufsz = udp_rbufsz d; final_popsz = (if popsz < rbufsz then popsz else rbufsz)
      in (d\<lparr>ud_sidx := ucast (ucast (ud_sidx d) + final_popsz)\<rparr>, final_popsz))"

text \<open>Which of the two address families \<^verbatim>\<open>_udp_peer\<close> prints: \<open>True\<close> for IPv4.\<close>

definition udp_peer_v4 :: "sk_entity_type \<Rightarrow> bool" where
  "udp_peer_v4 ty \<longleftrightarrow> ty = SK_ENTITY_SOCK_V4TCP"

definition sk_entity_udp_opt :: sk_entity_opt where
  "sk_entity_udp_opt = \<lparr>opt_read = Some (Fn 21), opt_write = Some (Fn 22), opt_destroy = Some (Fn 23),
     opt_rbufget = Some (Fn 24), opt_rbufsz = Some (Fn 25), opt_rbufpop = Some (Fn 26), opt_peer = Some (Fn 27)\<rparr>"

definition sk_entity_udp_create :: "('b, 'o) world \<Rightarrow> addr \<Rightarrow> ('b, 'o) world res" where
  "sk_entity_udp_create w a = with_ent w a (\<lambda>e.
     let data = w_next w;
         w = set_ent (w\<lparr>w_next := Suc data\<rparr>) a (sk_entity_setopt e sk_entity_udp_opt data)
     in sk_entity_setflags w a (or (e_flags e) SK_ENTITY_F_DESTROY_NOTXN))"

section \<open>Callbacks of the event loop\<close>

text \<open>\<^verbatim>\<open>_read_cb\<close> and \<^verbatim>\<open>_error\<close> of the two handlers below; \<open>cur\<close> is \<^verbatim>\<open>SK_ENV_SCHED\<close>.\<close>

definition read_cb :: "('b, 'o) sk_env \<Rightarrow> ('b, 'o) world \<Rightarrow> addr \<Rightarrow> addr \<Rightarrow> ('b, 'o) world res" where
  "read_cb E w cur a = with_ent w a (\<lambda>e.
     if e_status e \<noteq> SK_ENTITY_ACTIVE then Inr w
     else rbind (sk_driver_util_unpack E w cur a) (\<lambda>(w, consumed).
            if 0 < consumed then rbind (sk_driver_util_deliver E w cur a (Some cur) 1) (\<lambda>(w, _). Inr w)
            else Inr w))"

definition error_cb :: "('b, 'o) sk_env \<Rightarrow> ('b, 'o) world \<Rightarrow> addr \<Rightarrow> addr \<Rightarrow> ('b, 'o) world res" where
  "error_cb E w cur a = rbind (sk_entity_safe_destroy E w cur a) (\<lambda>(w, _). Inr w)"

text \<open>The address of the buffered event is new; the library can always create one.\<close>

definition tcp_accept_run :: "('b, 'o) world \<Rightarrow> addr \<Rightarrow> addr option \<Rightarrow> int \<Rightarrow> ('b, 'o) world res" where
  "tcp_accept_run w a t fd = sk_assert (t = None)
     (let evbuff = w_next w; w = fx (w\<lparr>w_next := Suc evbuff\<rparr>) [Accept a fd]
      in rbind (sk_entity_tcp_create w a evbuff) (\<lambda>w. Inr (fx w [Metric ''worker.accept''])))"

definition std_start_run :: "int \<Rightarrow> ('b, 'o) world \<Rightarrow> addr \<Rightarrow> addr option \<Rightarrow> ('b, 'o) world res" where
  "std_start_run nonblocking w a t = sk_assert (t = None) (sk_assert (0 \<le> nonblocking)
     (let evbuff = w_next w; w = fx (w\<lparr>w_next := Suc evbuff\<rparr>) [Accept a 0]
      in sk_entity_std_create w a evbuff))"

section \<open>Drivers\<close>

datatype sk_driver_type = SK_DRIVER_APP | SK_DRIVER_STD | SK_DRIVER_TCP | SK_DRIVER_UDP

definition driver_type :: "sk_workflow_cfg \<Rightarrow> sk_driver_type" where
  "driver_type cfg = (if wc_enable_stdin cfg then SK_DRIVER_STD
     else if 0 < wc_port cfg then (if wc_sock_type cfg = 0 then SK_DRIVER_TCP else SK_DRIVER_UDP)
     else SK_DRIVER_APP)"

text \<open>\<open>fd\<close> is the descriptor that the library returns for the port.\<close>

definition driver_sock_create :: "sk_workflow_cfg \<Rightarrow> int \<Rightarrow> int res" where
  "driver_sock_create cfg fd = sk_assert (0 < wc_port cfg \<and> wc_port cfg \<le> 65535) (sk_assert (0 \<le> fd) (Inr fd))"

definition sk_driver_create :: "sk_workflow_cfg \<Rightarrow> int \<Rightarrow> sk_driver_type res" where
  "sk_driver_create cfg fd = (case driver_type cfg of
     SK_DRIVER_TCP \<Rightarrow> rbind (driver_sock_create cfg fd) (\<lambda>_. Inr SK_DRIVER_TCP)
   | SK_DRIVER_UDP \<Rightarrow> rbind (driver_sock_create cfg fd) (\<lambda>_. Inr SK_DRIVER_UDP)
   | d \<Rightarrow> Inr d)"

definition is_v4 :: "sk_workflow_cfg \<Rightarrow> bool" where
  "is_v4 cfg \<longleftrightarrow> CHR '':'' \<notin> set (wc_bind cfg)"

text \<open>\<^verbatim>\<open>_sk_accept\<close>; \<open>nonblocking\<close> is what \<^verbatim>\<open>fnet_set_nonblocking\<close> returns, \<open>cur\<close> the scheduler of the driver.\<close>

definition tcp_accept_cb :: "int \<Rightarrow> ('b, 'o) world \<Rightarrow> addr \<Rightarrow> sk_workflow \<Rightarrow> int \<Rightarrow> ('b, 'o) world" where
  "tcp_accept_cb nonblocking w cur wflow fd =
     (if fd < 0 then w else if nonblocking = - 1 then w
      else (let (w, a) = sk_entity_create w (Some wflow)
                           (if is_v4 (wf_cfg wflow) then SK_ENTITY_SOCK_V4TCP else SK_ENTITY_SOCK_V6TCP)
            in send w cur None a None (Tcp_accept fd)))"

text \<open>\<^verbatim>\<open>_readcb\<close> of the UDP driver; \<open>bytes\<close> is what \<^verbatim>\<open>recvfrom\<close> returns.\<close>

definition udp_readcb ::
  "('b, 'o) sk_env \<Rightarrow> ('b, 'o) world \<Rightarrow> addr \<Rightarrow> sk_workflow \<Rightarrow> bool \<Rightarrow> bool \<Rightarrow> int \<Rightarrow> ('b, 'o) world res" where
  "udp_readcb E w cur wflow err v4 bytes =
     (if err then Inr w else if bytes < 0 then Inr w else if bytes = 0 then Inr w
      else (let (w, a) = sk_entity_create w (Some wflow) (if v4 then SK_ENTITY_SOCK_V4UDP else SK_ENTITY_SOCK_V6UDP)
            in rbind (sk_entity_udp_create w a) (\<lambda>w.
               rbind (sk_driver_util_unpack E w cur a) (\<lambda>(w, consumed).
                 if 0 < consumed
                 then rbind (sk_driver_util_deliver E w cur a None 1) (\<lambda>(w, cnt). sk_assert (cnt = 1) (Inr w))
                 else Inr w))))"

definition driver_std_run :: "('b, 'o) world \<Rightarrow> addr \<Rightarrow> sk_workflow \<Rightarrow> ('b, 'o) world" where
  "driver_std_run w cur wflow =
     (let (w, a) = sk_entity_create w (Some wflow) SK_ENTITY_STD in send w cur None a None Std_start)"

definition driver_app_run :: "('b, 'o) sk_env \<Rightarrow> ('b, 'o) world \<Rightarrow> addr \<Rightarrow> sk_workflow \<Rightarrow> ('b, 'o) world res" where
  "driver_app_run E w cur wflow =
     (if sk_workflow_module_cnt wflow = 0 then Inr w
      else (let (w, a) = sk_entity_create w (Some wflow) SK_ENTITY_NONE;
                t = w_next w;
                w = (set_txn (tick w) t (sk_txn_create (en_O E) wflow a (sk_time_us E w)))\<lparr>w_next := Suc t\<rparr>
            in rbind (set_state w t SK_TXN_RUNNING) (\<lambda>w.
               rbind (sk_entity_txnadd w a t) (\<lambda>w. Inr (send w cur None a (Some t) Workflow_run)))))"

section \<open>A datagram is a stream of bytes\<close>

text \<open>\<open>rest\<close> is what has not been consumed of the datagram \<open>buf\<close>.\<close>

definition udp_inv :: "u8 list \<Rightarrow> u8 list \<Rightarrow> sk_udp_data \<Rightarrow> bool" where
  "udp_inv buf rest d \<longleftrightarrow> unat (ud_buf_sz d) = length buf \<and> unat (ud_sidx d) \<le> length buf \<and>
     (\<exists>pad. ud_readbuf d = buf @ pad) \<and> rest = drop (unat (ud_sidx d)) buf"

lemma unat_u16_size [simp]: "unat (ucast x :: size_t) = unat x" for x :: u16
proof -
  have "unat x < 2 ^ 64" using unsigned_less [of x, where ?'a = nat] by simp
  then show ?thesis by (simp add: unsigned_ucast_eq take_bit_nat_eq_self)
qed

lemma udp_rbufsz_rest:
  assumes "udp_inv buf rest d"
  shows "unat (udp_rbufsz d) = length rest"
proof -
  have "unat (udp_rbufsz d) = unat (ud_buf_sz d) - unat (ud_sidx d)"
    using assms unfolding udp_rbufsz_def by (subst unat_sub_le) (auto simp: word_le_nat_alt udp_inv_def)
  with assms show ?thesis by (simp add: udp_inv_def)
qed

lemma udp_create_inv: "length buf = unat sz \<Longrightarrow> udp_inv buf buf (udp_data_create fd buf sz)"
  by (simp add: udp_inv_def udp_data_create_def Let_def)

lemma udp_pop_inv:
  assumes "udp_inv buf rest d"
  shows "udp_inv buf (drop (unat n) rest) (fst (udp_rbufpop d n)) \<and> unat (snd (udp_rbufpop d n)) = min (unat n) (length rest)"
proof -
  let ?f = "if n < udp_rbufsz d then n else udp_rbufsz d"
  have f: "unat ?f = min (unat n) (length rest)"
    using udp_rbufsz_rest [OF assms] by (auto simp: word_less_nat_alt min_def)
  have r: "length rest = length buf - unat (ud_sidx d)" "unat (ud_sidx d) \<le> length buf" "length buf < 2 ^ 16"
    using assms unsigned_less [of "ud_buf_sz d", where ?'a = nat] by (auto simp: udp_inv_def)
  have "unat (ucast (ud_sidx d) + ?f) = unat (ud_sidx d) + unat ?f"
    using f r by (subst unat_add_lt) auto
  then have "unat (ucast (ucast (ud_sidx d) + ?f) :: u16) = unat (ud_sidx d) + min (unat n) (length rest)"
    using f r by (simp only: unsigned_ucast_eq) (simp add: take_bit_nat_eq_self)
  moreover have "drop (unat n) rest = drop (unat (ud_sidx d) + min (unat n) (length rest)) buf"
    using assms r(1) by (auto simp: udp_inv_def min_def add.commute)
  ultimately show ?thesis using assms f r
    by (simp add: udp_rbufpop_def Let_def udp_inv_def)
qed

lemma sint_small: "unat w < 2 ^ 63 \<Longrightarrow> sint w = int (unat w)" for w :: size_t
proof -
  assume w: "unat w < 2 ^ 63"
  have "sint w = signed_take_bit 63 (uint w)" by (simp add: sint_uint)
  also have "\<dots> = uint w"
  proof (rule signed_take_bit_int_eq_self)
    show "- (2 ^ 63) \<le> uint w" by (rule order_trans [OF _ uint_ge_0]) simp
    show "uint w < 2 ^ 63" using w unfolding uint_nat by (metis of_nat_less_iff of_nat_numeral of_nat_power)
  qed
  also have "\<dots> = int (unat w)" by (rule uint_nat)
  finally show ?thesis .
qed

lemma udp_read_rest:
  assumes "udp_inv buf rest d"
  shows "udp_read d n = (take (unat n) rest, int (min (unat n) (length rest)))"
proof -
  let ?f = "if n < udp_rbufsz d then n else udp_rbufsz d"
  have f: "unat ?f = min (unat n) (length rest)"
    using udp_rbufsz_rest [OF assms] by (auto simp: word_less_nat_alt min_def)
  have "length rest < 2 ^ 16"
    using assms unsigned_less [of "ud_buf_sz d", where ?'a = nat] by (auto simp: udp_inv_def)
  then have s: "sint ?f = int (unat ?f)" using f by (intro sint_small) simp
  have "take (unat ?f) (udp_rbufget d) = take (unat n) rest"
    using assms f by (auto simp: udp_inv_def udp_rbufget_def min_def)
  with f s show ?thesis by (auto simp: udp_read_def Let_def)
qed

fun udp_pops :: "sk_udp_data \<Rightarrow> size_t list \<Rightarrow> sk_udp_data" where
  "udp_pops d [] = d"
| "udp_pops d (n # ns) = udp_pops (fst (udp_rbufpop d n)) ns"

lemma udp_pops_inv: "udp_inv buf rest d \<Longrightarrow> udp_inv buf (drop (sum_list (map unat ns)) rest) (udp_pops d ns)"
proof (induction ns arbitrary: d rest)
  case (Cons n ns)
  show ?case using Cons.IH [OF conjunct1 [OF udp_pop_inv [OF Cons.prems, of n]]] by (simp add: add.commute)
qed simp

text \<open>
  C39: the entity of a datagram is a stream over its bytes. After any sequence of pops, however large,
  the buffer holds exactly the bytes of the datagram that were not popped; a read of \<open>len\<close> bytes
  gives the next \<open>len\<close> of them or all that are left, never a byte of the padding or beyond; a pop
  reports what it really dropped. The 16-bit index never wraps around.
\<close>
theorem udp_buffer_stream:
  assumes "length buf = unat sz"
  shows "let d = udp_pops (udp_data_create fd buf sz) ns; rest = drop (sum_list (map unat ns)) buf
    in unat (udp_rbufsz d) = length rest \<and>
       udp_read d len = (take (unat len) rest, int (min (unat len) (length rest))) \<and>
       unat (snd (udp_rbufpop d len)) = min (unat len) (length rest)"
proof -
  note inv = udp_pops_inv [OF udp_create_inv [OF assms, of fd], of ns]
  show ?thesis
    using udp_rbufsz_rest [OF inv] udp_read_rest [OF inv, of len] udp_pop_inv [OF inv, of len] by (simp add: Let_def)
qed

theorem udp_buffer_stream_witness:
  "udp_read (udp_pops (udp_data_create 3 [1, 2, 3, 4] 4) [1, 1]) 100 = ([3, 4], 2)"
  using udp_buffer_stream [of "[1, 2, 3, 4]" 4 3 "[1, 1]" 100] by (simp add: Let_def)

end
