(* ===== verification/Sched_Run.thy ===== *)
theory Sched_Run
  imports Sk_Sched Sk_Timer Drivers
begin

text \<open>
  Running events: the rounds of the event loop of \<^verbatim>\<open>src/src/components/sk_sched.c\<close>, with the table
  of handlers of \<^verbatim>\<open>src/src/pto/sk_pto.c\<close>.
\<close>

section \<open>Running events\<close>

text \<open>The handlers, as \<^verbatim>\<open>sk_pto_tbl\<close> has them; \<open>a\<close>, \<open>ot\<close> are the entity and the transaction.\<close>

definition need_txn :: "addr option \<Rightarrow> (addr \<Rightarrow> 'a res) \<Rightarrow> 'a res" where
  "need_txn ot k = (case ot of None \<Rightarrow> Inl Assert | Some t \<Rightarrow> k t)"

definition pto_run ::
  "('b, 'o) sk_env \<Rightarrow> ('b, 'o) world \<Rightarrow> addr \<Rightarrow> addr \<Rightarrow> addr \<Rightarrow> addr option \<Rightarrow> pto_msg \<Rightarrow> ('b, 'o) world res" where
  "pto_run E w cur src a ot msg = (case msg of
     Tcp_accept fd \<Rightarrow> tcp_accept_run w a ot fd
   | Workflow_run \<Rightarrow> need_txn ot (\<lambda>t. wf_run E w cur a t)
   | Entity_destroy \<Rightarrow> entity_destroy_run E w a
   | Svc_iocall i s f b td \<Rightarrow> need_txn ot (\<lambda>t. rbind (srv_iocall_run E w cur src t i s f b td) (\<lambda>(w, _). Inr w))
   | Svc_task_run s f io caller td \<Rightarrow> need_txn ot (\<lambda>t. rbind (srv_task_run E w cur src a t s f caller td) (\<lambda>(w, _). Inr w))
   | Svc_task_done s r d \<Rightarrow> need_txn ot (\<lambda>t. srv_task_done E w cur src a t s r d)
   | Timer_triggered tm trg ud \<Rightarrow> timer_triggered_run E w cur a tm trg ud
   | Timer_emit s j ud v b rw iv \<Rightarrow> rbind (timer_emit_run E w cur src a s j ud v b rw iv) (\<lambda>(w, _). Inr w)
   | Std_start \<Rightarrow> std_start_run 0 w a ot
   | Svc_timer_run s j ud v st iv \<Rightarrow> svc_timer_run E w cur src a s j ud v st iv
   | Svc_timer_done s st iv \<Rightarrow> svc_timer_done E w cur a s st iv
   | Svc_task_cb td s f st d \<Rightarrow> need_txn ot (\<lambda>t. srv_task_cb E w cur a t td s f st d))"

definition sched_run_event ::
  "('v, sk_event) fmbuf_ops \<Rightarrow> ('b, 'o) sk_env \<Rightarrow> ('b, 'o) world \<Rightarrow> addr \<Rightarrow> 'v sk_sched \<Rightarrow> sk_event \<Rightarrow>
   (('b, 'o) world \<times> 'v sk_sched) res" where
  "sched_run_event F E w me sd ev =
     sk_assert (ev_dst ev = Some me) (with_ent w (ev_entity ev) (\<lambda>e.
       rbind (if e_owner e = None then sk_entity_mgr_add w (sd_entity_mgr sd) (ev_entity ev) else Inr w) (\<lambda>w.
       rbind (pto_run E w me (ev_src ev) (ev_entity ev) (ev_txn ev) (ev_msg ev)) (\<lambda>w.
       rbind (flush F sd (w_sends w)) (\<lambda>sd. Inr (w\<lparr>w_sends := []\<rparr>, sd))))))"

fun run_events ::
  "('v, sk_event) fmbuf_ops \<Rightarrow> ('b, 'o) sk_env \<Rightarrow> ('b, 'o) world \<Rightarrow> addr \<Rightarrow> 'v sk_sched \<Rightarrow> sk_event list \<Rightarrow>
   (('b, 'o) world \<times> 'v sk_sched) res" where
  "run_events F E w me sd [] = Inr (w, sd)"
| "run_events F E w me sd (ev # evs) = rbind (sched_run_event F E w me sd ev) (\<lambda>(w, sd). run_events F E w me sd evs)"

definition pull_and_run ::
  "('v, sk_event) fmbuf_ops \<Rightarrow> ('b, 'o) sk_env \<Rightarrow> ('b, 'o) world \<Rightarrow> addr \<Rightarrow> 'v sk_sched \<Rightarrow> nat \<Rightarrow>
   (('b, 'o) world \<times> 'v sk_sched \<times> nat) res" where
  "pull_and_run F E w me sd p = get_io sd p (\<lambda>io.
     rbind (sk_io_pull F io SK_IO_INPUT SK_SCHED_PULL_NUM) (\<lambda>(io, evs).
     rbind (run_events F E w me (set_io sd p io) evs) (\<lambda>(w, sd). Inr (w, sd, length evs))))"

fun run_pris ::
  "('v, sk_event) fmbuf_ops \<Rightarrow> ('b, 'o) sk_env \<Rightarrow> nat \<Rightarrow> ('b, 'o) world \<Rightarrow> addr \<Rightarrow> 'v sk_sched \<Rightarrow>
   (('b, 'o) world \<times> 'v sk_sched \<times> nat) res" where
  "run_pris F E 0 w me sd = Inr (w, sd, 0)"
| "run_pris F E (Suc p) w me sd = rbind (pull_and_run F E w me sd p) (\<lambda>(w, sd, n).
     rbind (run_pris F E p w me sd) (\<lambda>(w, sd, m). Inr (w, sd, n + m)))"

definition process_events_once ::
  "('v, sk_event) fmbuf_ops \<Rightarrow> ('b, 'o) sk_env \<Rightarrow> (addr \<Rightarrow> u32) \<Rightarrow> ('b, 'o) world \<Rightarrow> addr \<Rightarrow> 'v sk_sched \<Rightarrow>
   (('b, 'o) world \<times> 'v sk_sched \<times> nat) res" where
  "process_events_once F E flags w me sd =
     rbind (deliver_msg F flags sd) (\<lambda>sd.
     rbind (run_pris F E SK_PTO_PRI_SZ w me sd) (\<lambda>(w, sd, n).
     rbind (sk_entity_mgr_clean_dead E w (sd_entity_mgr sd)) (\<lambda>w. Inr (w, sd, n))))"

text \<open>
  The loop of \<^verbatim>\<open>_process_events\<close> runs until a round has found no event, which may be never; the
  argument \<open>n\<close> bounds the rounds.
\<close>

fun process_events ::
  "('v, sk_event) fmbuf_ops \<Rightarrow> ('b, 'o) sk_env \<Rightarrow> (addr \<Rightarrow> u32) \<Rightarrow> nat \<Rightarrow> ('b, 'o) world \<Rightarrow> addr \<Rightarrow> 'v sk_sched \<Rightarrow>
   (('b, 'o) world \<times> 'v sk_sched) res" where
  "process_events F E flags 0 w me sd = Inl Fuel"
| "process_events F E flags (Suc n) w me sd = rbind (process_events_once F E flags w me sd) (\<lambda>(w, sd, k).
     if 0 < k then process_events F E flags n w me sd else Inr (w, sd))"

section \<open>The loop of a scheduler\<close>

text \<open>
  \<^verbatim>\<open>sk_sched_start\<close>. What it uses of the library and of the outside is in a record: which timers have
  expired, how long the first one still has, what the event loop does within a time (the callbacks of
  descriptors, which fill the queues), and whether another thread calls \<^verbatim>\<open>sk_sched_stop\<close> during a round. The flag is
  read at the end of a round only, so it does not matter when in the round it was cleared.
\<close>

record ('b, 'o, 'v) sched_outside =
  so_F :: "('v, sk_event) fmbuf_ops"
  so_E :: "('b, 'o) sk_env"
  so_flags :: "addr \<Rightarrow> u32"
  so_expired :: "('b, 'o) world \<Rightarrow> addr \<Rightarrow> addr list"
  so_remaining :: "('b, 'o) world \<Rightarrow> addr \<Rightarrow> int option"
  so_dispatch :: "int \<Rightarrow> ('b, 'o) world \<Rightarrow> addr \<Rightarrow> 'v sk_sched \<Rightarrow> (('b, 'o) world \<times> 'v sk_sched) res"
  so_stop :: "('b, 'o) world \<Rightarrow> addr \<Rightarrow> bool"

text \<open>\<^verbatim>\<open>sk_timersvc_process\<close>: the library calls \<^verbatim>\<open>_timer_triggered\<close> for every timer that has expired.\<close>

fun fire_timers ::
  "('v, sk_event) fmbuf_ops \<Rightarrow> ('b, 'o) world \<Rightarrow> addr \<Rightarrow> 'v sk_sched \<Rightarrow> addr list \<Rightarrow> (('b, 'o) world \<times> 'v sk_sched) res" where
  "fire_timers F w me sd [] = Inr (w, sd)"
| "fire_timers F w me sd (tm # tms) = rbind (timer_fired w me tm) (\<lambda>w.
     rbind (flush F sd (w_sends w)) (\<lambda>sd. fire_timers F (w\<lparr>w_sends := []\<rparr>) me sd tms))"

text \<open>One turn of the loop; \<open>n\<close> bounds the rounds of \<^verbatim>\<open>_process_events\<close>.\<close>

definition sched_round ::
  "('b, 'o, 'v) sched_outside \<Rightarrow> nat \<Rightarrow> ('b, 'o) world \<Rightarrow> addr \<Rightarrow> 'v sk_sched \<Rightarrow> (('b, 'o) world \<times> 'v sk_sched) res" where
  "sched_round S n w me sd =
     rbind (fire_timers (so_F S) w me sd (so_expired S w me)) (\<lambda>(w, sd).
     rbind (process_events (so_F S) (so_E S) (so_flags S) n w me sd) (\<lambda>(w, sd).
     with_tmsvc w me (\<lambda>svc.
       let waitms = sched_waitms (tv_timer_alive svc) (so_remaining S w me)
       in rbind (so_dispatch S waitms w me sd) (\<lambda>(w, sd).
            Inr (w, if so_stop S w me then sk_sched_stop sd else sd)))))"

text \<open>The loop may run forever: \<open>k\<close> bounds its turns.\<close>

fun sched_loop ::
  "('b, 'o, 'v) sched_outside \<Rightarrow> nat \<Rightarrow> nat \<Rightarrow> ('b, 'o) world \<Rightarrow> addr \<Rightarrow> 'v sk_sched \<Rightarrow> (('b, 'o) world \<times> 'v sk_sched) res" where
  "sched_loop S 0 n w me sd = Inl Fuel"
| "sched_loop S (Suc k) n w me sd = rbind (sched_round S n w me sd) (\<lambda>(w, sd).
     if sd_running sd then sched_loop S k n w me sd else Inr (w, sd))"

definition sk_sched_start ::
  "('b, 'o, 'v) sched_outside \<Rightarrow> nat \<Rightarrow> nat \<Rightarrow> ('b, 'o) world \<Rightarrow> addr \<Rightarrow> 'v sk_sched \<Rightarrow> (('b, 'o) world \<times> 'v sk_sched) res" where
  "sk_sched_start S k n w me sd = sched_loop S k n w me (sched_begin sd)"

section \<open>What can end the loop\<close>

text \<open>The event loop itself does not touch the flag.\<close>

definition keeps_running :: "('b, 'o, 'v) sched_outside \<Rightarrow> bool" where
  "keeps_running S \<longleftrightarrow> (\<forall>ms w me sd w' sd'. so_dispatch S ms w me sd = Inr (w', sd') \<longrightarrow> sd_running sd' = sd_running sd)"

definition flag_kept :: "'v sk_sched \<Rightarrow> 'v sk_sched \<Rightarrow> bool" where
  "flag_kept sd sd' \<longleftrightarrow> sd_running sd' = sd_running sd"

lemma flag_kept_simps [simp]:
  "flag_kept sd sd" "flag_kept (set_io sd p io) sd' \<longleftrightarrow> flag_kept sd sd'" "flag_kept sd (set_io sd' p io) \<longleftrightarrow> flag_kept sd sd'"
  "flag_kept sd (sd'\<lparr>sd_bridge_tbl := brs\<rparr>) \<longleftrightarrow> flag_kept sd sd'" "flag_kept sd (sd'\<lparr>sd_last_delivery_idx := i\<rparr>) \<longleftrightarrow> flag_kept sd sd'"
  by (auto simp: flag_kept_def set_io_def)

lemma flag_kept_trans: "flag_kept sd sd1 \<Longrightarrow> flag_kept sd1 sd2 \<Longrightarrow> flag_kept sd sd2"
  by (simp add: flag_kept_def)

lemma send_flag: "sk_sched_send F sd ev = Inr sd' \<Longrightarrow> flag_kept sd sd'"
  by (auto simp: res_simps sk_sched_send_def emit_event_def get_io_def Let_def split: if_splits)

lemma flush_flag: "flush F sd evs = Inr sd' \<Longrightarrow> flag_kept sd sd'"
  by (induction F sd evs rule: flush.induct; auto simp: res_simps; blast intro: flag_kept_trans send_flag)

lemma fire_timers_flag: "fire_timers F w me sd tms = Inr (w', sd') \<Longrightarrow> flag_kept sd sd'"
  by (induction F w me sd tms rule: fire_timers.induct; auto simp: res_simps; blast intro: flag_kept_trans flush_flag)

lemma run_event_flag: "sched_run_event F E w me sd ev = Inr (w', sd') \<Longrightarrow> flag_kept sd sd'"
  by (auto simp: sched_run_event_def with_ent_def res_simps intro: flush_flag)

lemma run_events_flag: "run_events F E w me sd evs = Inr (w', sd') \<Longrightarrow> flag_kept sd sd'"
  by (induction F E w me sd evs rule: run_events.induct; auto simp: res_simps; blast intro: flag_kept_trans run_event_flag)

lemma pull_and_run_flag: "pull_and_run F E w me sd p = Inr (w', sd', n) \<Longrightarrow> flag_kept sd sd'"
  by (auto simp: pull_and_run_def get_io_def res_simps split: if_splits dest: run_events_flag)

lemma run_pris_flag: "run_pris F E p w me sd = Inr (w', sd', n) \<Longrightarrow> flag_kept sd sd'"
  by (induction F E p w me sd arbitrary: n rule: run_pris.induct; auto simp: res_simps; blast intro: flag_kept_trans pull_and_run_flag)

lemma roundrobin_flag: "find_bridge_roundrobin flags sd = Inr (sd', i) \<Longrightarrow> flag_kept sd sd'"
  by (auto simp: find_bridge_roundrobin_def res_simps split: if_splits)

lemma choose_bridge_flag: "choose_bridge flags sd ev = Inr (sd', i, ev') \<Longrightarrow> flag_kept sd sd'"
  by (auto simp: choose_bridge_def res_simps split: option.splits intro: roundrobin_flag)

lemma deliver_event_flag: "deliver_event F flags sd dl ev = Inr (sd', dl') \<Longrightarrow> flag_kept sd sd'"
  by (auto simp: deliver_event_def res_simps Let_def split: option.splits) (erule choose_bridge_flag)

lemma deliver_one_io_flag: "deliver_one_io F flags n sd p dl = Inr (sd', dl') \<Longrightarrow> flag_kept sd sd'"
proof (induction F flags n sd p dl rule: deliver_one_io.induct)
  case (2 F flags n sd p dl)
  show ?case
  proof (cases "sk_io_used F (sd_io_tbl sd ! p) SK_IO_OUTPUT = 0")
    case False
    then obtain io evs where p: "p < length (sd_io_tbl sd)" "sk_io_pull F (sd_io_tbl sd ! p) SK_IO_OUTPUT 1 = Inr (io, evs)"
      using "2.prems" by (auto simp: res_simps get_io_def split: if_splits)
    with False "2.prems" obtain ev sd1 dl1 where d: "evs = [ev]" "deliver_event F flags (set_io sd p io) dl ev = Inr (sd1, dl1)"
      "deliver_one_io F flags n sd1 p dl1 = Inr (sd', dl')"
      by (cases evs; cases "tl evs") (auto simp: res_simps get_io_def)
    have "flag_kept sd1 sd'" using "2.IH" p d False by simp
    then show ?thesis
      using deliver_event_flag [OF d(2)] by (auto intro: flag_kept_trans)
  qed (use "2.prems" in \<open>auto simp: get_io_def split: if_splits\<close>)
qed simp

lemma deliver_pris_flag: "deliver_pris F flags p sd dl = Inr (sd', dl') \<Longrightarrow> flag_kept sd sd'"
  by (induction F flags p sd dl rule: deliver_pris.induct; auto simp: res_simps deliver_all_def get_io_def split: if_splits; blast intro: flag_kept_trans deliver_one_io_flag)

lemma events_once_flag: "process_events_once F E flags w me sd = Inr (w', sd', n) \<Longrightarrow> flag_kept sd sd'"
  by (auto simp: process_events_once_def deliver_msg_def res_simps dest!: deliver_pris_flag run_pris_flag simp: flag_kept_def)

lemma process_events_flag: "process_events F E flags n w me sd = Inr (w', sd') \<Longrightarrow> flag_kept sd sd'"
  by (induction F E flags n w me sd rule: process_events.induct; auto simp: res_simps split: if_splits; blast intro: flag_kept_trans events_once_flag)

text \<open>Whatever the handlers do, the flag after a round is cleared only by a stop from outside.\<close>

lemma round_running:
  assumes "keeps_running S" "sched_round S n w me sd = Inr (w', sd')"
  shows "sd_running sd' \<longleftrightarrow> sd_running sd \<and> \<not> so_stop S w' me"
proof -
  obtain w1 sd1 w2 sd2 svc sd3 where r: "fire_timers (so_F S) w me sd (so_expired S w me) = Inr (w1, sd1)"
    "process_events (so_F S) (so_E S) (so_flags S) n w1 me sd1 = Inr (w2, sd2)" "w_tmsvcs w2 me = Some svc"
    "so_dispatch S (sched_waitms (tv_timer_alive svc) (so_remaining S w2 me)) w2 me sd2 = Inr (w', sd3)"
    "sd' = (if so_stop S w' me then sk_sched_stop sd3 else sd3)"
    using assms(2) by (auto simp: sched_round_def res_simps with_tmsvc_def Let_def)
  have "sd_running sd3 = sd_running sd2" using assms(1) r(4) unfolding keeps_running_def by blast
  with fire_timers_flag [OF r(1)] process_events_flag [OF r(2)] r(5) show ?thesis
    by (simp add: flag_kept_def sk_sched_stop_def)
qed

lemma loop_stopped:
  assumes "keeps_running S" "\<not> sd_running sd"
  shows "sched_loop S (Suc k) n w me sd = sched_round S n w me sd"
  using round_running [OF assms(1)] assms(2) by (cases "sched_round S n w me sd") auto

lemma loop_needs_stop:
  assumes "keeps_running S" "sd_running sd" "sched_loop S k n w me sd = Inr (w', sd')"
  shows "so_stop S w' me \<and> \<not> sd_running sd'"
  using assms(2,3)
proof (induction k arbitrary: w sd)
  case (Suc k)
  obtain w1 sd1 where r: "sched_round S n w me sd = Inr (w1, sd1)" using Suc.prems(2) by (auto simp: res_simps)
  with Suc.IH [of sd1 w1] Suc.prems round_running [OF assms(1) r] show ?case by (auto split: if_splits)
qed simp

end
