(* ===== verification/Sched_Proofs.thy ===== *)
theory Sched_Proofs
  imports Sk_Sched
begin

text \<open>
  Properties of the routing of events between schedulers: the choice of a bridge, the delivery of
  the output queues and the way of an event from its sender to the input queue of its receiver.
\<close>

section \<open>Round robin\<close>

definition routable :: "(addr \<Rightarrow> u32) \<Rightarrow> addr \<Rightarrow> bool" where
  "routable flags d \<longleftrightarrow> and (flags d) SK_SCHED_NON_RR_ROUTABLE = 0"

text \<open>The order in which the bridges are tried, from the one after the last delivery.\<close>

definition rr_order :: "'v sk_sched \<Rightarrow> nat list" where
  "rr_order sd = rotate (sd_last_delivery_idx sd) [0 ..< length (sd_bridge_tbl sd)]"

definition rr_pick :: "(addr \<Rightarrow> u32) \<Rightarrow> 'v sk_sched \<Rightarrow> nat option" where
  "rr_pick flags sd = find (\<lambda>i. routable flags (br_dst (sd_bridge_tbl sd ! i))) (rr_order sd)"

lemma mod_next_eq:
  assumes "e < n" "k < n"
  shows "(e + Suc k) mod n = e \<longleftrightarrow> Suc k = n"
proof (cases "e + Suc k < n")
  case False
  then have "(e + Suc k) mod n = (e + Suc k) - n"
    using assms by (simp add: mod_if)
  with False assms show ?thesis by linarith
qed (use assms in simp)

lemma rr_loop_find:
  assumes "e < length tbl" "k < length tbl" "length tbl - k \<le> m"
  shows "rr_loop flags tbl m ((e + k) mod length tbl) e =
    (case find (\<lambda>i. routable flags (br_dst (tbl ! i))) (drop k (rotate e [0 ..< length tbl])) of
       None \<Rightarrow> Inr (e, False) | Some i \<Rightarrow> Inr (i, True))"
  using assms
proof (induction m arbitrary: k)
  case (Suc m)
  let ?n = "length tbl"
  let ?xs = "rotate e [0 ..< ?n]"
  have n: "0 < ?n" using Suc.prems by linarith
  have lt: "(e + k) mod ?n < ?n" using n by simp
  have h: "drop k ?xs = ((e + k) mod ?n) # drop (Suc k) ?xs"
    using Suc.prems n by (simp add: Cons_nth_drop_Suc [symmetric] nth_rotate)
  have s: "Suc ((e + k) mod ?n) mod ?n = (e + Suc k) mod ?n"
    using mod_Suc_eq [of "e + k" ?n] by simp
  show ?case
  proof (cases "Suc k = ?n")
    case True
    then have "(e + Suc k) mod ?n = e" using mod_next_eq [of e ?n k] Suc.prems by simp
    with True lt h s show ?thesis by (simp add: routable_def)
  next
    case False
    then have "(e + Suc k) mod ?n \<noteq> e" using mod_next_eq [of e ?n k] Suc.prems by simp
    moreover have "rr_loop flags tbl m ((e + Suc k) mod ?n) e =
      (case find (\<lambda>i. routable flags (br_dst (tbl ! i))) (drop (Suc k) ?xs) of
         None \<Rightarrow> Inr (e, False) | Some i \<Rightarrow> Inr (i, True))"
      using Suc.prems False by (intro Suc.IH) simp_all
    ultimately show ?thesis using lt h s by (simp add: routable_def)
  qed
qed simp

lemma find_SomeD: "find P xs = Some x \<Longrightarrow> x \<in> set xs \<and> P x"
  by (auto simp: find_Some_iff)

lemma rr_pick_SomeD:
  "rr_pick flags sd = Some i \<Longrightarrow> i < length (sd_bridge_tbl sd) \<and> routable flags (br_dst (sd_bridge_tbl sd ! i))"
  unfolding rr_pick_def by (drule find_SomeD) (simp add: rr_order_def)

lemma rr_pick_None_iff:
  "rr_pick flags sd = None \<longleftrightarrow> (\<forall>br \<in> set (sd_bridge_tbl sd). \<not> routable flags (br_dst br))"
  by (auto simp: rr_pick_def rr_order_def find_None_iff all_set_conv_all_nth)

lemma roundrobin_find:
  assumes "sd_last_delivery_idx sd < length (sd_bridge_tbl sd)"
  shows "find_bridge_roundrobin flags sd = Inr (case rr_pick flags sd of
      None \<Rightarrow> (sd, None)
    | Some i \<Rightarrow> (sd\<lparr>sd_last_delivery_idx := Suc i mod length (sd_bridge_tbl sd)\<rparr>, Some i))"
proof -
  have "sd_bridge_tbl sd \<noteq> []" using assms by auto
  then have "rr_loop flags (sd_bridge_tbl sd) (Suc (length (sd_bridge_tbl sd))) (sd_last_delivery_idx sd)
          (sd_last_delivery_idx sd) = (case rr_pick flags sd of
            None \<Rightarrow> Inr (sd_last_delivery_idx sd, False) | Some i \<Rightarrow> Inr (i, True))"
    using rr_loop_find [OF assms, of 0 "Suc (length (sd_bridge_tbl sd))" flags] assms
    by (simp add: rr_pick_def rr_order_def del: rr_loop.simps)
  then show ?thesis
    by (auto simp: find_bridge_roundrobin_def simp del: rr_loop.simps split: option.split dest: rr_pick_SomeD)
qed

section \<open>Routes\<close>

definition bridge_dsts :: "'v sk_sched \<Rightarrow> addr list" where
  "bridge_dsts sd = map br_dst (sd_bridge_tbl sd)"

text \<open>The bridges an event may take: the one to its receiver if there is one, else any in turn.\<close>

definition good_route :: "(addr \<Rightarrow> u32) \<Rightarrow> addr list \<Rightarrow> sk_event \<Rightarrow> nat \<Rightarrow> bool" where
  "good_route flags dsts ev i \<longleftrightarrow> i < length dsts \<and>
     (case ev_dst ev of
        Some d \<Rightarrow> if d \<in> set dsts then dsts ! i = d else routable flags (dsts ! i)
      | None \<Rightarrow> routable flags (dsts ! i))"

text \<open>The event as it comes out of bridge \<open>i\<close>.\<close>

definition arrived :: "addr list \<Rightarrow> nat \<Rightarrow> sk_event \<Rightarrow> sk_event" where
  "arrived dsts i ev = ev\<lparr>ev_hop := ev_hop ev + 1,
     ev_dst := Some (case ev_dst ev of None \<Rightarrow> dsts ! i | Some d \<Rightarrow> d)\<rparr>"

lemma affinity_find:
  "find_affinity_bridge sd d = find (\<lambda>i. br_dst (sd_bridge_tbl sd ! i) = d) [0 ..< length (sd_bridge_tbl sd)]"
proof -
  have "(case filter P xs of [] \<Rightarrow> None | x # _ \<Rightarrow> Some x) = find P xs" for P and xs :: "nat list"
    by (induction xs) auto
  then show ?thesis by (simp add: find_affinity_bridge_def)
qed

lemma affinity_SomeD:
  "find_affinity_bridge sd d = Some i \<Longrightarrow> i < length (sd_bridge_tbl sd) \<and> br_dst (sd_bridge_tbl sd ! i) = d"
  unfolding affinity_find by (drule find_SomeD) simp

lemma affinity_None_iff: "find_affinity_bridge sd d = None \<longleftrightarrow> d \<notin> set (bridge_dsts sd)"
  unfolding bridge_dsts_def in_set_conv_nth by (auto simp: affinity_find find_None_iff)

lemma roundrobin_ok:
  assumes "sd_last_delivery_idx sd < length (sd_bridge_tbl sd)" "routable flags (bridge_dsts sd ! j)"
    and "j < length (bridge_dsts sd)"
  shows "\<exists>i l. find_bridge_roundrobin flags sd = Inr (sd\<lparr>sd_last_delivery_idx := l\<rparr>, Some i) \<and>
    l < length (sd_bridge_tbl sd) \<and> i < length (sd_bridge_tbl sd) \<and> routable flags (bridge_dsts sd ! i)"
proof -
  have "rr_pick flags sd \<noteq> None"
    using assms(2,3) by (auto simp: rr_pick_None_iff bridge_dsts_def)
  then obtain i where "rr_pick flags sd = Some i" by blast
  moreover have "0 < length (sd_bridge_tbl sd)" using assms(1) by linarith
  ultimately show ?thesis
    using roundrobin_find [OF assms(1), of flags] rr_pick_SomeD [of flags sd i]
    by (intro exI2 [of _ i "Suc i mod length (sd_bridge_tbl sd)"]) (simp add: bridge_dsts_def)
qed

lemma choose_bridge_ok:
  assumes l: "sd_last_delivery_idx sd < length (sd_bridge_tbl sd)" and r: "good_route flags (bridge_dsts sd) ev j"
  shows "\<exists>i l ev'. choose_bridge flags sd ev = Inr (sd\<lparr>sd_last_delivery_idx := l\<rparr>, Some i, ev') \<and>
    ev'\<lparr>ev_hop := ev_hop ev' + 1\<rparr> = arrived (bridge_dsts sd) i ev \<and> ev_hop ev' = ev_hop ev \<and>
    good_route flags (bridge_dsts sd) ev i \<and> l < length (sd_bridge_tbl sd)"
proof (cases "ev_dst ev")
  case None
  then obtain i m where "find_bridge_roundrobin flags sd = Inr (sd\<lparr>sd_last_delivery_idx := m\<rparr>, Some i)"
    "m < length (sd_bridge_tbl sd)" "i < length (sd_bridge_tbl sd)" "routable flags (bridge_dsts sd ! i)"
    using roundrobin_ok [OF l, of flags j] r by (auto simp: good_route_def)
  with None show ?thesis
    by (intro exI3 [of _ i m "ev\<lparr>ev_dst := Some (bridge_dsts sd ! i)\<rparr>"])
       (simp add: choose_bridge_def good_route_def arrived_def bridge_dsts_def)
next
  case (Some d)
  show ?thesis
  proof (cases "find_affinity_bridge sd d")
    case (Some i)
    with \<open>ev_dst ev = Some d\<close> l affinity_SomeD [OF Some] show ?thesis
      by (intro exI3 [of _ i "sd_last_delivery_idx sd" ev])
         (auto simp: choose_bridge_def good_route_def arrived_def bridge_dsts_def)
  next
    case None
    then obtain i m where "find_bridge_roundrobin flags sd = Inr (sd\<lparr>sd_last_delivery_idx := m\<rparr>, Some i)"
      "m < length (sd_bridge_tbl sd)" "i < length (sd_bridge_tbl sd)" "routable flags (bridge_dsts sd ! i)"
      using roundrobin_ok [OF l, of flags j] r \<open>ev_dst ev = Some d\<close> by (auto simp: good_route_def affinity_None_iff)
    moreover have "d \<notin> set (bridge_dsts sd)" using None by (simp add: affinity_None_iff)
    moreover have "length (bridge_dsts sd) = length (sd_bridge_tbl sd)" by (simp add: bridge_dsts_def)
    ultimately show ?thesis using None \<open>ev_dst ev = Some d\<close>
      by (intro exI3 [of _ i m ev]) (simp add: choose_bridge_def good_route_def arrived_def)
  qed
qed

section \<open>Delivery\<close>

definition sd_queue :: "('v \<Rightarrow> sk_event list) \<Rightarrow> 'v sk_sched \<Rightarrow> sk_io_type \<Rightarrow> nat \<Rightarrow> sk_event list" where
  "sd_queue items sd t p = items (io_mq (sd_io_tbl sd ! p) t)"

definition br_queue :: "('v \<Rightarrow> sk_event list) \<Rightarrow> 'v sk_sched \<Rightarrow> nat \<Rightarrow> sk_event list" where
  "br_queue items sd i = items (br_mq (sd_bridge_tbl sd ! i))"

definition sched_ok :: "('v, sk_event) fmbuf_ops \<Rightarrow> ('v \<Rightarrow> bool) \<Rightarrow> nat \<Rightarrow> 'v sk_sched \<Rightarrow> bool" where
  "sched_ok F invar N sd \<longleftrightarrow> length (sd_io_tbl sd) = SK_PTO_PRI_SZ \<and>
     (\<forall>io \<in> set (sd_io_tbl sd). io_ok F invar N io) \<and> (\<forall>br \<in> set (sd_bridge_tbl sd). invar (br_mq br))"

text \<open>Every bridge has room for \<open>n\<close> more events.\<close>

definition room :: "('v, sk_event) fmbuf_ops \<Rightarrow> ('v \<Rightarrow> sk_event list) \<Rightarrow> 'v sk_sched \<Rightarrow> nat \<Rightarrow> bool" where
  "room F items sd n \<longleftrightarrow> (\<forall>br \<in> set (sd_bridge_tbl sd).
     56 * (length (items (br_mq br)) + n) \<le> unat (fmbuf_size F (br_mq br)))"

text \<open>What bridge \<open>i\<close> gets when event \<open>es ! k\<close> takes bridge \<open>ps ! k\<close>, for every \<open>k\<close>.\<close>

definition sent_to :: "addr list \<Rightarrow> nat \<Rightarrow> sk_event list \<Rightarrow> nat list \<Rightarrow> sk_event list" where
  "sent_to dsts i es ps = map (\<lambda>(e, j). arrived dsts i e) (filter (\<lambda>(e, j). j = i) (zip es ps))"

lemma sent_to_simps [simp]:
  "sent_to dsts i [] [] = []"
  "sent_to dsts i (e # es) (j # ps) = (if j = i then [arrived dsts i e] else []) @ sent_to dsts i es ps"
  by (auto simp: sent_to_def)

lemma sent_to_append:
  "length es = length ps \<Longrightarrow> sent_to dsts i (es @ es') (ps @ ps') = sent_to dsts i es ps @ sent_to dsts i es' ps'"
  by (simp add: sent_to_def)

lemma length_sent_to: "length es = length ps \<Longrightarrow> length (sent_to dsts i es ps) = count_list ps i"
  by (induction es ps rule: list_induct2) auto

text \<open>
  \<open>moved \<dots> sd dl es ps sd' dl'\<close>: the events \<open>es\<close> have been put on the bridges \<open>ps\<close>, the counters \<open>dl\<close> of
  the deliveries are up to date, and the queues and everything else of the scheduler are as before.
\<close>

definition moved ::
  "('v, sk_event) fmbuf_ops \<Rightarrow> ('v \<Rightarrow> sk_event list) \<Rightarrow> (addr \<Rightarrow> u32) \<Rightarrow> 'v sk_sched \<Rightarrow> nat list \<Rightarrow> sk_event list \<Rightarrow>
   nat list \<Rightarrow> 'v sk_sched \<Rightarrow> nat list \<Rightarrow> bool" where
  "moved F items flags sd dl es ps sd' dl' \<longleftrightarrow>
     list_all2 (good_route flags (bridge_dsts sd)) es ps \<and> bridge_dsts sd' = bridge_dsts sd \<and>
     map br_evfd (sd_bridge_tbl sd') = map br_evfd (sd_bridge_tbl sd) \<and>
     map (\<lambda>br. fmbuf_size F (br_mq br)) (sd_bridge_tbl sd') = map (\<lambda>br. fmbuf_size F (br_mq br)) (sd_bridge_tbl sd) \<and>
     sd_last_delivery_idx sd' < length (sd_bridge_tbl sd') \<and> length dl' = length dl \<and>
     (\<forall>i < length (sd_bridge_tbl sd).
        br_queue items sd' i = br_queue items sd i @ sent_to (bridge_dsts sd) i es ps \<and>
        dl' ! i = dl ! i + count_list ps i) \<and>
     sd_entity_mgr sd' = sd_entity_mgr sd \<and> sd_running sd' = sd_running sd \<and> sd_flags sd' = sd_flags sd"

lemma bridges_length: "bridge_dsts sd' = bridge_dsts sd \<Longrightarrow> length (sd_bridge_tbl sd') = length (sd_bridge_tbl sd)"
  unfolding bridge_dsts_def by (metis length_map)

lemma moved_refl: "sd_last_delivery_idx sd < length (sd_bridge_tbl sd) \<Longrightarrow> moved F items flags sd dl [] [] sd dl"
  by (simp add: moved_def)

lemma moved_trans:
  assumes "moved F items flags sd dl es ps sd' dl'" "moved F items flags sd' dl' es' ps' sd'' dl''"
  shows "moved F items flags sd dl (es @ es') (ps @ ps') sd'' dl''"
proof -
  have "length es = length ps" using assms(1) by (auto simp: moved_def dest: list_all2_lengthD)
  with assms bridges_length [of sd' sd] show ?thesis
    by (simp add: moved_def list_all2_appendI sent_to_append)
qed

lemma set_io_sel [simp]:
  "sd_io_tbl (set_io sd p io) = (sd_io_tbl sd)[p := io]" "sd_bridge_tbl (set_io sd p io) = sd_bridge_tbl sd"
  "sd_last_delivery_idx (set_io sd p io) = sd_last_delivery_idx sd" "bridge_dsts (set_io sd p io) = bridge_dsts sd"
  "room F items (set_io sd p io) n = room F items sd n" "br_queue items (set_io sd p io) i = br_queue items sd i"
  by (simp_all add: set_io_def bridge_dsts_def room_def br_queue_def)

lemma moved_set_io [simp]:
  "moved F items flags (set_io sd p io) dl es ps sd' dl' = moved F items flags sd dl es ps sd' dl'"
  by (simp add: moved_def set_io_def bridge_dsts_def br_queue_def)

lemma moved_room:
  assumes "moved F items flags sd dl es ps sd' dl'" "room F items sd (length es + n)"
  shows "room F items sd' n"
  unfolding room_def all_set_conv_all_nth
proof (intro allI impI)
  fix i assume i: "i < length (sd_bridge_tbl sd')"
  let ?b = "sd_bridge_tbl sd ! i" and ?b' = "sd_bridge_tbl sd' ! i"
  have l: "length (sd_bridge_tbl sd') = length (sd_bridge_tbl sd)"
    using assms(1) by (intro bridges_length) (simp add: moved_def)
  have q: "items (br_mq ?b') = items (br_mq ?b) @ sent_to (bridge_dsts sd) i es ps"
    and len: "length es = length ps"
    using assms(1) i l by (auto simp: moved_def br_queue_def dest: list_all2_lengthD)
  have "map (\<lambda>br. fmbuf_size F (br_mq br)) (sd_bridge_tbl sd') ! i = map (\<lambda>br. fmbuf_size F (br_mq br)) (sd_bridge_tbl sd) ! i"
    using assms(1) by (simp only: moved_def)
  then have sz: "fmbuf_size F (br_mq ?b') = fmbuf_size F (br_mq ?b)" using i l by simp
  have "length (sent_to (bridge_dsts sd) i es ps) \<le> length es"
    using count_le_length [of ps i] len by (simp add: length_sent_to)
  moreover have "56 * (length (items (br_mq ?b)) + (length es + n)) \<le> unat (fmbuf_size F (br_mq ?b))"
    using assms(2) i l by (simp add: room_def all_set_conv_all_nth)
  ultimately show "56 * (length (items (br_mq ?b')) + n) \<le> unat (fmbuf_size F (br_mq ?b'))"
    using q sz by simp
qed

text \<open>The events of the output queues below priority \<open>n\<close>, the highest priority first.\<close>

definition pending :: "('v \<Rightarrow> sk_event list) \<Rightarrow> 'v sk_sched \<Rightarrow> nat \<Rightarrow> sk_event list" where
  "pending items sd n = concat (map (sd_queue items sd SK_IO_OUTPUT) (rev [0 ..< n]))"

text \<open>The events of \<open>es\<close> that belong into the queue of type \<open>t\<close> and priority \<open>p\<close> of scheduler \<open>me\<close>.\<close>

definition belong :: "addr \<Rightarrow> sk_io_type \<Rightarrow> nat \<Rightarrow> sk_event list \<Rightarrow> sk_event list" where
  "belong me t p es = filter (\<lambda>ev. pto_pri (ev_msg ev) = p \<and> (t = SK_IO_INPUT \<longleftrightarrow> ev_dst ev = Some me)) es"

lemma belong_simps [simp]:
  "belong me t p [] = []"
  "belong me t p (ev # es) =
     (if pto_pri (ev_msg ev) = p \<and> t = (if ev_dst ev = Some me then SK_IO_INPUT else SK_IO_OUTPUT) then [ev] else []) @
     belong me t p es"
  by (cases t; auto simp: belong_def)+

lemma pto_pri_less [simp]: "pto_pri msg < SK_PTO_PRI_SZ"
  by (cases msg) (simp_all add: pto_pri_def sk_pto_tbl_def SK_PTO_PRI_SZ_def)

text \<open>No queue has more than \<open>N\<close> events when \<open>n\<close> more arrive.\<close>

definition fits :: "('v \<Rightarrow> sk_event list) \<Rightarrow> nat \<Rightarrow> 'v sk_sched \<Rightarrow> nat \<Rightarrow> bool" where
  "fits items N sd n \<longleftrightarrow> (\<forall>t p. p < SK_PTO_PRI_SZ \<longrightarrow> length (sd_queue items sd t p) + n \<le> N)"

lemma fitsD: "fits items N sd (Suc n) \<Longrightarrow> p < SK_PTO_PRI_SZ \<Longrightarrow> Suc (length (sd_queue items sd t p)) \<le> N"
  unfolding fits_def by (metis add_Suc_right add_leD1 Suc_le_mono add.commute add_Suc)

lemma fits_step:
  assumes "fits items N sd (Suc n)"
    and "\<And>t p. p < SK_PTO_PRI_SZ \<Longrightarrow> length (sd_queue items sd' t p) \<le> Suc (length (sd_queue items sd t p))"
  shows "fits items N sd' n"
  unfolding fits_def
proof (intro allI impI)
  fix t p assume p: "p < SK_PTO_PRI_SZ"
  then have "length (sd_queue items sd t p) + Suc n \<le> N" using assms(1) by (simp only: fits_def)
  with assms(2) [OF p, of t] show "length (sd_queue items sd' t p) + n \<le> N" by linarith
qed

locale ev_buf = fmbuf F SK_EVENT_SZ items invar
  for F :: "('v, sk_event) fmbuf_ops" and items :: "'v \<Rightarrow> sk_event list" and invar :: "'v \<Rightarrow> bool"
begin

lemma free_slots:
  assumes "invar b" "56 * Suc (length (items b)) \<le> unat (fmbuf_size F b)"
  shows "fmbuf_free F b div SK_EVENT_SZ \<noteq> 0"
proof -
  have "unat (fmbuf_free F b) = unat (fmbuf_size F b) - 56 * length (items b)"
    using assms(1) free used used_le_size by (simp add: unat_sub_le)
  then have "56 \<le> unat (fmbuf_free F b)" using assms(2) by simp
  then have "0 < unat (fmbuf_free F b div SK_EVENT_SZ)" by (simp add: unat_div div_greater_zero_iff)
  then show ?thesis by (metis less_irrefl unat_0)
qed

lemma bridge_deliver_ok:
  assumes "invar (br_mq br)" "56 * Suc (length (items (br_mq br))) \<le> unat (fmbuf_size F (br_mq br))"
  shows "\<exists>mq. sk_io_bridge_deliver F br ev = Inr (br\<lparr>br_mq := mq\<rparr>) \<and> invar mq \<and>
    items mq = items (br_mq br) @ [ev\<lparr>ev_hop := ev_hop ev + 1\<rparr>] \<and> fmbuf_size F mq = fmbuf_size F (br_mq br)"
  using push1 [OF assms(1), of "ev\<lparr>ev_hop := ev_hop ev + 1\<rparr>"] assms(2)
  by (auto simp: sk_io_bridge_deliver_def)

lemma deliver_event_ok:
  assumes ok: "sched_ok F invar N sd" and l: "sd_last_delivery_idx sd < length (sd_bridge_tbl sd)"
    and dl: "length dl = length (sd_bridge_tbl sd)"
    and r: "good_route flags (bridge_dsts sd) ev j" and hop: "ev_hop ev \<noteq> SK_SCHED_MAX_ROUTING_HOP"
    and room: "room F items sd (Suc n)"
  shows "\<exists>sd' dl' i. deliver_event F flags sd dl ev = Inr (sd', dl') \<and> moved F items flags sd dl [ev] [i] sd' dl' \<and>
    sd_io_tbl sd' = sd_io_tbl sd \<and> sched_ok F invar N sd'"
proof -
  obtain i m ev' where c: "choose_bridge flags sd ev = Inr (sd\<lparr>sd_last_delivery_idx := m\<rparr>, Some i, ev')"
    "ev'\<lparr>ev_hop := ev_hop ev' + 1\<rparr> = arrived (bridge_dsts sd) i ev" "ev_hop ev' = ev_hop ev"
    "good_route flags (bridge_dsts sd) ev i" "m < length (sd_bridge_tbl sd)"
    using choose_bridge_ok [OF l r] by blast
  let ?br = "sd_bridge_tbl sd ! i"
  have i: "i < length (sd_bridge_tbl sd)" using c(4) by (simp add: good_route_def bridge_dsts_def)
  have inv: "invar (br_mq ?br)" using ok i by (simp add: sched_ok_def)
  have sz: "56 * Suc (length (items (br_mq ?br))) \<le> unat (fmbuf_size F (br_mq ?br))"
    using bspec [OF room [unfolded room_def] nth_mem [OF i]] by simp
  obtain mq where d: "sk_io_bridge_deliver F ?br ev' = Inr (?br\<lparr>br_mq := mq\<rparr>)" "invar mq"
    "items mq = items (br_mq ?br) @ [arrived (bridge_dsts sd) i ev]" "fmbuf_size F mq = fmbuf_size F (br_mq ?br)"
    using bridge_deliver_ok [OF inv sz, of ev'] c(2) by auto
  let ?sd = "sd\<lparr>sd_last_delivery_idx := m, sd_bridge_tbl := (sd_bridge_tbl sd)[i := ?br\<lparr>br_mq := mq\<rparr>]\<rparr>"
  let ?dl = "dl[i := dl ! i + 1]"
  have "deliver_event F flags sd dl ev = Inr (?sd, ?dl)"
    using hop c(1) d(1) free_slots [OF inv sz] by (simp add: deliver_event_def)
  moreover have "moved F items flags sd dl [ev] [i] ?sd ?dl"
    using c(4,5) d i dl
    by (simp add: moved_def bridge_dsts_def map_update nth_list_update br_queue_def list_update_same_conv)
  moreover have "sched_ok F invar N ?sd"
    using ok d(2) by (auto simp: sched_ok_def dest!: subsetD [OF set_update_subset_insert])
  ultimately show ?thesis by (intro exI3 [of _ ?sd ?dl i]) simp
qed

lemma io_used_iff:
  assumes "io_ok F invar N io"
  shows "unat (sk_io_used F io t) = length (items (io_mq io t))"
proof -
  have "invar (io_mq io t)" using assms by (simp add: io_ok_def)
  then show ?thesis using used by (simp add: sk_io_used_def unat_div)
qed

lemma sched_ok_io: "sched_ok F invar N sd \<Longrightarrow> p < SK_PTO_PRI_SZ \<Longrightarrow> io_ok F invar N (sd_io_tbl sd ! p)"
  by (simp add: sched_ok_def)

lemma sched_ok_set_io:
  "sched_ok F invar N sd \<Longrightarrow> io_ok F invar N io \<Longrightarrow> sched_ok F invar N (set_io sd p io)"
  by (auto simp: sched_ok_def set_io_def dest!: subsetD [OF set_update_subset_insert])

text \<open>The output queue of one priority: everything in it is delivered.\<close>

lemma deliver_one_io_ok:
  assumes "sched_ok F invar N sd" "sd_last_delivery_idx sd < length (sd_bridge_tbl sd)"
    and "length dl = length (sd_bridge_tbl sd)" and "p < SK_PTO_PRI_SZ"
    and "\<forall>ev \<in> set (sd_queue items sd SK_IO_OUTPUT p). ev_hop ev \<noteq> SK_SCHED_MAX_ROUTING_HOP \<and>
           (\<exists>j. good_route flags (bridge_dsts sd) ev j)"
    and "room F items sd (length (sd_queue items sd SK_IO_OUTPUT p) + n)"
    and "length (sd_queue items sd SK_IO_OUTPUT p) \<le> k"
  shows "\<exists>sd' dl' ps io. deliver_one_io F flags k sd p dl = Inr (sd', dl') \<and>
    moved F items flags sd dl (sd_queue items sd SK_IO_OUTPUT p) ps sd' dl' \<and>
    sd_io_tbl sd' = (sd_io_tbl sd)[p := io] \<and> items (io_mq io SK_IO_OUTPUT) = [] \<and>
    io_mq io SK_IO_INPUT = io_mq (sd_io_tbl sd ! p) SK_IO_INPUT \<and> sched_ok F invar N sd'"
  using assms
proof (induction k arbitrary: sd dl)
  case 0
  then show ?case
    by (intro exI3 [of _ sd dl "[]"] exI [of _ "sd_io_tbl sd ! p"]) (auto simp: sd_queue_def moved_refl)
next
  case (Suc k)
  note ok = Suc.prems(1) and p = Suc.prems(4)
  let ?io = "sd_io_tbl sd ! p"
  have io: "io_ok F invar N ?io" by (rule sched_ok_io [OF ok p])
  have len: "p < length (sd_io_tbl sd)" using ok p by (simp add: sched_ok_def)
  show ?case
  proof (cases "sd_queue items sd SK_IO_OUTPUT p")
    case Nil
    then have "sk_io_used F ?io SK_IO_OUTPUT = 0"
      using io_used_iff [OF io, of SK_IO_OUTPUT] by (simp add: sd_queue_def unat_eq_zero)
    with Nil len ok Suc.prems(2) show ?thesis
      by (intro exI3 [of _ sd dl "[]"] exI [of _ ?io]) (auto simp: get_io_def moved_refl sd_queue_def)
  next
    case (Cons ev evs)
    then have used: "sk_io_used F ?io SK_IO_OUTPUT \<noteq> 0"
      using io_used_iff [OF io, of SK_IO_OUTPUT] by (auto simp: sd_queue_def)
    obtain io1 where io1: "sk_io_pull F ?io SK_IO_OUTPUT 1 = Inr (io1, [ev])" "io_ok F invar N io1"
      "items (io_mq io1 SK_IO_OUTPUT) = evs" "io_mq io1 SK_IO_INPUT = io_mq ?io SK_IO_INPUT"
      using io_pull_items [OF fmbuf_axioms io, of SK_IO_OUTPUT 1] Cons by (auto simp: sd_queue_def)
    let ?sd = "set_io sd p io1"
    obtain j where j: "good_route flags (bridge_dsts ?sd) ev j" "ev_hop ev \<noteq> SK_SCHED_MAX_ROUTING_HOP"
      using Suc.prems(5) Cons by auto
    obtain sd1 dl1 i where d: "deliver_event F flags ?sd dl ev = Inr (sd1, dl1)" "moved F items flags sd dl [ev] [i] sd1 dl1"
      "sd_io_tbl sd1 = (sd_io_tbl sd)[p := io1]" "sched_ok F invar N sd1"
      using deliver_event_ok [OF sched_ok_set_io [OF ok io1(2)] _ _ j, of dl "length evs + n"] Suc.prems(2,3,6) Cons
      by auto
    have q: "sd_queue items sd1 SK_IO_OUTPUT p = evs" using d(3) len io1(3) by (simp add: sd_queue_def)
    have m: "sd_last_delivery_idx sd1 < length (sd_bridge_tbl sd1)" "bridge_dsts sd1 = bridge_dsts sd" "length dl1 = length dl"
      using d(2) by (simp_all add: moved_def)
    have l1: "length dl1 = length (sd_bridge_tbl sd1)" using m(3) Suc.prems(3) bridges_length [OF m(2)] by simp
    have r: "room F items sd1 (length evs + n)" using moved_room [OF d(2)] Suc.prems(6) Cons by simp
    obtain sd2 dl2 ps io2 where e: "deliver_one_io F flags k sd1 p dl1 = Inr (sd2, dl2)"
      "moved F items flags sd1 dl1 evs ps sd2 dl2" "sd_io_tbl sd2 = (sd_io_tbl sd1)[p := io2]"
      "items (io_mq io2 SK_IO_OUTPUT) = []" "io_mq io2 SK_IO_INPUT = io_mq (sd_io_tbl sd1 ! p) SK_IO_INPUT" "sched_ok F invar N sd2"
      using Suc.IH [OF d(4) m(1) l1 p] m(2) Suc.prems(5,7) Cons q r by auto
    have "moved F items flags sd dl (ev # evs) (i # ps) sd2 dl2" using moved_trans [OF d(2) e(2)] by simp
    with Cons d(1,3) e io1 len used show ?thesis
      by (intro exI3 [of _ sd2 dl2 "i # ps"] exI [of _ io2]) (simp add: get_io_def)
  qed
qed

lemma deliver_pris_ok:
  assumes "sched_ok F invar N sd" "sd_last_delivery_idx sd < length (sd_bridge_tbl sd)"
    and "length dl = length (sd_bridge_tbl sd)" and "n \<le> SK_PTO_PRI_SZ"
    and "\<forall>ev \<in> set (pending items sd n). ev_hop ev \<noteq> SK_SCHED_MAX_ROUTING_HOP \<and> (\<exists>j. good_route flags (bridge_dsts sd) ev j)"
    and "room F items sd (length (pending items sd n))"
  shows "\<exists>sd' dl' ps. deliver_pris F flags n sd dl = Inr (sd', dl') \<and>
    moved F items flags sd dl (pending items sd n) ps sd' dl' \<and> sched_ok F invar N sd' \<and>
    (\<forall>p < SK_PTO_PRI_SZ. sd_queue items sd' SK_IO_INPUT p = sd_queue items sd SK_IO_INPUT p \<and>
       sd_queue items sd' SK_IO_OUTPUT p = (if p < n then [] else sd_queue items sd SK_IO_OUTPUT p))"
  using assms
proof (induction n arbitrary: sd dl)
  case 0
  then show ?case by (intro exI3 [of _ sd dl "[]"]) (simp add: moved_refl pending_def)
next
  case (Suc n)
  let ?q = "sd_queue items sd SK_IO_OUTPUT n"
  note ok = Suc.prems(1)
  have n: "n < SK_PTO_PRI_SZ" and io: "io_ok F invar N (sd_io_tbl sd ! n)" and len: "length (sd_io_tbl sd) = SK_PTO_PRI_SZ"
    using Suc.prems(4) ok by (simp_all add: sched_ok_def)
  have pd: "pending items sd (Suc n) = ?q @ pending items sd n" by (simp add: pending_def)
  obtain sd1 dl1 ps io1 where d: "deliver_all F flags sd n dl = Inr (sd1, dl1)" "moved F items flags sd dl ?q ps sd1 dl1"
    "sd_io_tbl sd1 = (sd_io_tbl sd)[n := io1]" "items (io_mq io1 SK_IO_OUTPUT) = []"
    "io_mq io1 SK_IO_INPUT = io_mq (sd_io_tbl sd ! n) SK_IO_INPUT" "sched_ok F invar N sd1"
    using deliver_one_io_ok [OF ok Suc.prems(2,3) n, of flags "length (pending items sd n)" "length ?q"] Suc.prems(5,6) pd n len
      io_used_iff [OF io, of SK_IO_OUTPUT]
    by (auto simp: deliver_all_def get_io_def sd_queue_def)
  have m: "sd_last_delivery_idx sd1 < length (sd_bridge_tbl sd1)" "bridge_dsts sd1 = bridge_dsts sd" "length dl1 = length dl"
    using d(2) by (simp_all add: moved_def)
  have l1: "length dl1 = length (sd_bridge_tbl sd1)" using m(3) Suc.prems(3) bridges_length [OF m(2)] by simp
  have q1: "sd_queue items sd1 t p = (if p = n \<and> t = SK_IO_OUTPUT then [] else sd_queue items sd t p)" if "p < SK_PTO_PRI_SZ" for t p
    using d(3-5) len that by (cases t; cases "p = n") (auto simp: sd_queue_def)
  have p1: "pending items sd1 n = pending items sd n"
    unfolding pending_def using q1 n by (intro arg_cong [of _ _ concat] map_cong) auto
  have r: "room F items sd1 (length (pending items sd1 n))" using moved_room [OF d(2)] Suc.prems(6) pd p1 by simp
  have "\<forall>ev \<in> set (pending items sd1 n). ev_hop ev \<noteq> SK_SCHED_MAX_ROUTING_HOP \<and> (\<exists>j. good_route flags (bridge_dsts sd1) ev j)"
    using Suc.prems(5) p1 pd m(2) by simp
  then obtain sd2 dl2 ps' where e: "deliver_pris F flags n sd1 dl1 = Inr (sd2, dl2)"
    "moved F items flags sd1 dl1 (pending items sd1 n) ps' sd2 dl2" "sched_ok F invar N sd2"
    "\<forall>p < SK_PTO_PRI_SZ. sd_queue items sd2 SK_IO_INPUT p = sd_queue items sd1 SK_IO_INPUT p \<and>
       sd_queue items sd2 SK_IO_OUTPUT p = (if p < n then [] else sd_queue items sd1 SK_IO_OUTPUT p)"
    using Suc.IH [OF d(6) m(1) l1 _ _ r] n by auto
  have "moved F items flags sd dl (pending items sd (Suc n)) (ps @ ps') sd2 dl2"
    using moved_trans [OF d(2) e(2)] pd p1 by simp
  with d(1) e q1 show ?case by (intro exI3 [of _ sd2 dl2 "ps @ ps'"]) (auto simp: less_Suc_eq)
qed

lemma deliver_msg_ok:
  assumes "sched_ok F invar N sd" "sd_last_delivery_idx sd < length (sd_bridge_tbl sd)"
    and "\<forall>ev \<in> set (pending items sd SK_PTO_PRI_SZ). ev_hop ev \<noteq> SK_SCHED_MAX_ROUTING_HOP \<and>
           (\<exists>j. good_route flags (bridge_dsts sd) ev j)"
    and "room F items sd (length (pending items sd SK_PTO_PRI_SZ))"
  shows "\<exists>sd' ps. deliver_msg F flags sd = Inr sd' \<and> sched_ok F invar N sd' \<and> bridge_dsts sd' = bridge_dsts sd \<and>
    list_all2 (good_route flags (bridge_dsts sd)) (pending items sd SK_PTO_PRI_SZ) ps \<and>
    (\<forall>i < length (sd_bridge_tbl sd).
       br_queue items sd' i = br_queue items sd i @ sent_to (bridge_dsts sd) i (pending items sd SK_PTO_PRI_SZ) ps \<and>
       br_evfd (sd_bridge_tbl sd' ! i) =
         br_evfd (sd_bridge_tbl sd ! i) + length (sent_to (bridge_dsts sd) i (pending items sd SK_PTO_PRI_SZ) ps)) \<and>
    (\<forall>p < SK_PTO_PRI_SZ. sd_queue items sd' SK_IO_OUTPUT p = [] \<and>
       sd_queue items sd' SK_IO_INPUT p = sd_queue items sd SK_IO_INPUT p)"
proof -
  let ?es = "pending items sd SK_PTO_PRI_SZ" and ?n = "length (sd_bridge_tbl sd)"
  obtain sd1 dl ps where d: "deliver_pris F flags SK_PTO_PRI_SZ sd (replicate ?n 0) = Inr (sd1, dl)"
    "moved F items flags sd (replicate ?n 0) ?es ps sd1 dl" "sched_ok F invar N sd1"
    "\<forall>p < SK_PTO_PRI_SZ. sd_queue items sd1 SK_IO_INPUT p = sd_queue items sd SK_IO_INPUT p \<and>
       sd_queue items sd1 SK_IO_OUTPUT p = []"
    using deliver_pris_ok [OF assms(1,2) _ order_refl assms(3,4), of "replicate ?n 0"] by auto
  let ?sd = "sd1\<lparr>sd_bridge_tbl := map2 io_bridge_notify (sd_bridge_tbl sd1) dl\<rparr>"
  have m: "list_all2 (good_route flags (bridge_dsts sd)) ?es ps" "bridge_dsts sd1 = bridge_dsts sd"
    "map br_evfd (sd_bridge_tbl sd1) = map br_evfd (sd_bridge_tbl sd)" "length dl = ?n"
    "\<forall>i < ?n. br_queue items sd1 i = br_queue items sd i @ sent_to (bridge_dsts sd) i ?es ps \<and> dl ! i = count_list ps i"
    using d(2) by (simp_all add: moved_def)
  have l: "length (sd_bridge_tbl sd1) = ?n" using bridges_length [OF m(2)] .
  have len: "length ?es = length ps" using m(1) by (rule list_all2_lengthD)
  have nt: "br_dst (io_bridge_notify br c) = br_dst br" "br_mq (io_bridge_notify br c) = br_mq br"
    "br_evfd (io_bridge_notify br c) = br_evfd br + c" for br :: "'v sk_io_bridge" and c
    by (simp_all add: io_bridge_notify_def)
  have "bridge_dsts ?sd = bridge_dsts sd1"
    using l m(4) nt(1) by (simp add: bridge_dsts_def list_eq_iff_nth_eq)
  moreover have "sched_ok F invar N ?sd"
    using d(3) nt(2) by (auto simp: sched_ok_def set_zip)
  moreover have "br_queue items ?sd i = br_queue items sd1 i" "br_evfd (sd_bridge_tbl ?sd ! i) = br_evfd (sd_bridge_tbl sd ! i) + dl ! i"
    if "i < ?n" for i
    using that l m(4) nt nth_map [of i "sd_bridge_tbl sd1" br_evfd] by (simp_all add: br_queue_def m(3))
  moreover have "sd_queue items ?sd = sd_queue items sd1" by (simp add: fun_eq_iff sd_queue_def)
  ultimately show ?thesis using d(1,4) m len
    by (intro exI2 [of _ ?sd ps]) (simp add: deliver_msg_def length_sent_to)
qed

text \<open>Pushing one event into a queue of a scheduler.\<close>

lemma push_queue:
  assumes ok: "sched_ok F invar N sd" and N: "Suc (length (sd_queue items sd t p)) \<le> N" and p: "p < SK_PTO_PRI_SZ"
  shows "\<exists>io. sk_io_push F (sd_io_tbl sd ! p) t [ev] = Inr io \<and> sched_ok F invar N (set_io sd p io) \<and>
    sk_io_used F io t \<noteq> 0 \<and> (\<forall>n. fits items N sd (Suc n) \<longrightarrow> fits items N (set_io sd p io) n) \<and>
    (\<forall>t' q. q < SK_PTO_PRI_SZ \<longrightarrow> sd_queue items (set_io sd p io) t' q =
       sd_queue items sd t' q @ (if t' = t \<and> q = p then [ev] else []))"
proof -
  have io: "io_ok F invar N (sd_io_tbl sd ! p)" and len: "length (sd_io_tbl sd) = SK_PTO_PRI_SZ"
    using ok p by (simp_all add: sched_ok_def)
  obtain io' where r: "sk_io_push F (sd_io_tbl sd ! p) t [ev] = Inr io'" "io_ok F invar N io'"
    "items (io_mq io' t) = sd_queue items sd t p @ [ev]" "\<forall>t'. t' \<noteq> t \<longrightarrow> io_mq io' t' = io_mq (sd_io_tbl sd ! p) t'"
    using io_push_items [OF fmbuf_axioms io, of t "[ev]"] N by (auto simp: sd_queue_def)
  have "sk_io_used F io' t \<noteq> 0" using io_used_iff [OF r(2), of t] r(3) by auto
  moreover have q: "sd_queue items (set_io sd p io') t' q = sd_queue items sd t' q @ (if t' = t \<and> q = p then [ev] else [])"
    if "q < SK_PTO_PRI_SZ" for t' q
    using r(3,4) len that by (cases "q = p"; cases "t' = t") (auto simp: sd_queue_def)
  moreover have "fits items N sd (Suc n) \<Longrightarrow> fits items N (set_io sd p io') n" for n
    by (erule fits_step) (simp add: q)
  ultimately show ?thesis using r(1) sched_ok_set_io [OF ok r(2)] by blast
qed

text \<open>The receiving side.\<close>

lemma copy_loop_ok:
  assumes "sched_ok F invar N dst" "fits items N dst (length (items mq))" "invar mq" "length (items mq) < n"
  shows "\<exists>mq' dst'. copy_loop F n mq me dst = Inr (mq', dst') \<and> invar mq' \<and> items mq' = [] \<and> sched_ok F invar N dst' \<and>
    sd_bridge_tbl dst' = sd_bridge_tbl dst \<and>
    (\<forall>t p. p < SK_PTO_PRI_SZ \<longrightarrow> sd_queue items dst' t p = sd_queue items dst t p @ belong me t p (items mq))"
  using assms
proof (induction n arbitrary: mq dst)
  case (Suc n)
  show ?case
  proof (cases "items mq")
    case Nil
    then show ?thesis using pop1 [OF Suc.prems(3)] Suc.prems
      by (intro exI2 [of _ mq dst]) simp
  next
    case (Cons ev evs)
    obtain mq1 where mq1: "fmbuf_pop F mq SK_EVENT_SZ = Some ([ev], mq1)" "invar mq1" "items mq1 = evs"
      using pop1 [OF Suc.prems(3)] Cons by auto
    let ?p = "pto_pri (ev_msg ev)" and ?t = "if ev_dst ev = Some me then SK_IO_INPUT else SK_IO_OUTPUT"
    have "Suc (length (sd_queue items dst ?t ?p)) \<le> N"
      using Suc.prems(2) Cons by (simp add: fitsD)
    then obtain io where io: "sk_io_push F (sd_io_tbl dst ! ?p) ?t [ev] = Inr io" "sched_ok F invar N (set_io dst ?p io)"
      "\<forall>t' q. q < SK_PTO_PRI_SZ \<longrightarrow> sd_queue items (set_io dst ?p io) t' q =
         sd_queue items dst t' q @ (if t' = ?t \<and> q = ?p then [ev] else [])"
      "\<forall>n. fits items N dst (Suc n) \<longrightarrow> fits items N (set_io dst ?p io) n"
      using push_queue [OF Suc.prems(1) _ pto_pri_less, of ?t "ev_msg ev" ev] by blast
    have "fits items N (set_io dst ?p io) (length (items mq1))"
      using Suc.prems(2) io(4) Cons mq1(3) by simp
    then obtain mq2 dst2 where r: "copy_loop F n mq1 me (set_io dst ?p io) = Inr (mq2, dst2)" "invar mq2" "items mq2 = []"
      "sched_ok F invar N dst2" "sd_bridge_tbl dst2 = sd_bridge_tbl dst"
      "\<forall>t p. p < SK_PTO_PRI_SZ \<longrightarrow> sd_queue items dst2 t p = sd_queue items (set_io dst ?p io) t p @ belong me t p evs"
      using Suc.IH [OF io(2) _ mq1(2)] Suc.prems(4) Cons mq1(3) by auto
    have "length (sd_io_tbl dst) = SK_PTO_PRI_SZ" using Suc.prems(1) by (simp add: sched_ok_def)
    then have "copy_loop F (Suc n) mq me dst = Inr (mq2, dst2)"
      using mq1(1) io(1) r(1) by (simp add: get_io_def Let_def)
    with r io(3) Cons show ?thesis by (intro exI2 [of _ mq2 dst2]) simp
  qed
qed simp

lemma copy_event_ok:
  assumes "sched_ok F invar N dst" "fits items N dst (length (items (br_mq br)))" "invar (br_mq br)" "br_evfd br \<noteq> 0"
  shows "\<exists>mq dst'. copy_event F br me dst = Inr (br\<lparr>br_mq := mq, br_evfd := 0\<rparr>, dst') \<and> items mq = [] \<and> sched_ok F invar N dst' \<and>
    (\<forall>t p. p < SK_PTO_PRI_SZ \<longrightarrow> sd_queue items dst' t p = sd_queue items dst t p @ belong me t p (items (br_mq br)))"
proof -
  have "length (items (br_mq br)) < Suc (unat (fmbuf_used F (br_mq br)))"
    using used [OF assms(3)] by simp
  from copy_loop_ok [OF assms(1-3) this, of me] obtain mq' dst' where
    "copy_loop F (Suc (unat (fmbuf_used F (br_mq br)))) (br_mq br) me dst = Inr (mq', dst')" "items mq' = []" "sched_ok F invar N dst'"
    "\<forall>t p. p < SK_PTO_PRI_SZ \<longrightarrow> sd_queue items dst' t p = sd_queue items dst t p @ belong me t p (items (br_mq br))"
    by blast
  with assms(4) show ?thesis by (intro exI2 [of _ mq' dst']) (simp add: copy_event_def del: copy_loop.simps)
qed

text \<open>The sending side.\<close>

lemma flush_ok:
  assumes "sched_ok F invar N sd" "fits items N sd (length es)" "\<forall>ev \<in> set es. ev_src ev = me"
  shows "\<exists>sd'. flush F sd es = Inr sd' \<and> sched_ok F invar N sd' \<and> sd_bridge_tbl sd' = sd_bridge_tbl sd \<and>
    sd_last_delivery_idx sd' = sd_last_delivery_idx sd \<and>
    (\<forall>t p. p < SK_PTO_PRI_SZ \<longrightarrow> sd_queue items sd' t p = sd_queue items sd t p @ belong me t p es)"
  using assms
proof (induction es arbitrary: sd)
  case (Cons ev es)
  let ?p = "pto_pri (ev_msg ev)" and ?t = "if ev_dst ev = Some me then SK_IO_INPUT else SK_IO_OUTPUT"
  have "Suc (length (sd_queue items sd ?t ?p)) \<le> N"
    using Cons.prems(2) by (simp add: fitsD)
  then obtain io where io: "sk_io_push F (sd_io_tbl sd ! ?p) ?t [ev] = Inr io" "sched_ok F invar N (set_io sd ?p io)"
    "sk_io_used F io ?t \<noteq> 0"
    "\<forall>t' q. q < SK_PTO_PRI_SZ \<longrightarrow> sd_queue items (set_io sd ?p io) t' q =
       sd_queue items sd t' q @ (if t' = ?t \<and> q = ?p then [ev] else [])"
    "\<forall>n. fits items N sd (Suc n) \<longrightarrow> fits items N (set_io sd ?p io) n"
    using push_queue [OF Cons.prems(1) _ pto_pri_less, of ?t "ev_msg ev" ev] by blast
  have "length (sd_io_tbl sd) = SK_PTO_PRI_SZ" using Cons.prems(1) by (simp add: sched_ok_def)
  then have s: "sk_sched_send F sd ev = Inr (set_io sd ?p io)"
    using io(1,3) Cons.prems(3) by (simp add: sk_sched_send_def emit_event_def get_io_def word_neq_0_conv Let_def)
  have "fits items N (set_io sd ?p io) (length es)"
    using Cons.prems(2) io(5) by simp
  then obtain sd2 where "flush F (set_io sd ?p io) es = Inr sd2" "sched_ok F invar N sd2" "sd_bridge_tbl sd2 = sd_bridge_tbl sd"
    "sd_last_delivery_idx sd2 = sd_last_delivery_idx sd"
    "\<forall>t p. p < SK_PTO_PRI_SZ \<longrightarrow> sd_queue items sd2 t p = sd_queue items (set_io sd ?p io) t p @ belong me t p es"
    using Cons.IH [OF io(2)] Cons.prems(3) by auto
  with s io(4) show ?case by (intro exI [of _ sd2]) simp
qed simp

lemma create_ok: "32 \<le> N \<Longrightarrow> N < 2 ^ 50 \<Longrightarrow> sched_ok F invar N (sched_init F emgr fl)"
  by (auto simp: sched_ok_def sched_init_def io_ok_def sk_io_create_def io_mq_def SK_SCHED_IO_INIT_SZ_def
      SK_EVENT_SZ_def split: sk_io_type.splits)

lemma setup_bridge_ok:
  "sched_ok F invar N sd \<Longrightarrow> length (sd_bridge_tbl sd) < SK_SCHED_MAX_IO_BRIDGE \<Longrightarrow>
   \<exists>br. sk_sched_setup_bridge F sd d = (sd\<lparr>sd_bridge_tbl := sd_bridge_tbl sd @ [br]\<rparr>, 0) \<and> br_dst br = d \<and>
     items (br_mq br) = [] \<and> unat (fmbuf_size F (br_mq br)) = 56 * 65535 \<and>
     sched_ok F invar N (sd\<lparr>sd_bridge_tbl := sd_bridge_tbl sd @ [br]\<rparr>)"
  by (auto simp: sk_sched_setup_bridge_def sk_io_bridge_create_def sched_ok_def SK_SCHED_IO_BRIDGE_SZ_def SK_EVENT_SZ_def)

text \<open>Destruction.\<close>

lemma drain_mq_ok: "invar mq \<Longrightarrow> length (items mq) < n \<Longrightarrow> drain_mq F n mq = Inr (items mq)"
proof (induction n arbitrary: mq)
  case (Suc n)
  show ?case
  proof (cases "items mq")
    case (Cons ev evs)
    then obtain mq' where "fmbuf_pop F mq SK_EVENT_SZ = Some ([ev], mq')" "invar mq'" "items mq' = evs"
      using pop1 [OF Suc.prems(1)] by auto
    with Suc Cons show ?thesis by simp
  qed (use pop1 [OF Suc.prems(1)] in simp)
qed simp

lemma drain_io_ok:
  assumes "io_ok F invar N io" "length (items (io_mq io t)) < n"
  shows "\<exists>io'. drain_io F n io t = Inr (io', items (io_mq io t)) \<and> io_ok F invar N io' \<and>
    (\<forall>t'. t' \<noteq> t \<longrightarrow> io_mq io' t' = io_mq io t')"
  using assms
proof (induction n arbitrary: io)
  case (Suc n)
  obtain io1 where p: "sk_io_pull F io t 1 = Inr (io1, take 1 (items (io_mq io t)))" "io_ok F invar N io1"
    "items (io_mq io1 t) = drop 1 (items (io_mq io t))" "\<forall>t'. t' \<noteq> t \<longrightarrow> io_mq io1 t' = io_mq io t'"
    using io_pull_items [OF fmbuf_axioms Suc.prems(1), of t 1] by auto
  show ?case
  proof (cases "items (io_mq io t)")
    case (Cons ev evs)
    then obtain io2 where "drain_io F n io1 t = Inr (io2, evs)" "io_ok F invar N io2" "\<forall>t'. t' \<noteq> t \<longrightarrow> io_mq io2 t' = io_mq io1 t'"
      using Suc.IH [OF p(2)] p(3) Suc.prems(2) by auto
    with p Cons show ?thesis by (intro exI [of _ io2]) simp
  qed (use p in \<open>intro exI [of _ io1], simp\<close>)
qed simp

lemma cleanup_ok:
  assumes "io_ok F invar N io"
  shows "cleanup_skio_events F io = Inr (items (io_mq io SK_IO_INPUT) @ items (io_mq io SK_IO_OUTPUT))"
proof -
  obtain io1 where a: "drain_io F (Suc (unat (sk_io_used F io SK_IO_INPUT))) io SK_IO_INPUT = Inr (io1, items (io_mq io SK_IO_INPUT))"
    "io_ok F invar N io1" "io_mq io1 SK_IO_OUTPUT = io_mq io SK_IO_OUTPUT"
    using drain_io_ok [OF assms, of SK_IO_INPUT "Suc (unat (sk_io_used F io SK_IO_INPUT))"] io_used_iff [OF assms, of SK_IO_INPUT]
    by (auto simp del: drain_io.simps)
  obtain io2 where "drain_io F (Suc (unat (sk_io_used F io1 SK_IO_OUTPUT))) io1 SK_IO_OUTPUT = Inr (io2, items (io_mq io SK_IO_OUTPUT))"
    using drain_io_ok [OF a(2), of SK_IO_OUTPUT "Suc (unat (sk_io_used F io1 SK_IO_OUTPUT))"] io_used_iff [OF a(2), of SK_IO_OUTPUT] a(3)
    by (auto simp del: drain_io.simps)
  with a show ?thesis by (simp add: cleanup_skio_events_def del: drain_io.simps)
qed

lemma destroy_each_ok: "\<forall>x \<in> set xs. f x = Inr (g x) \<Longrightarrow> destroy_each f xs = Inr (concat (map g xs))"
  by (induction xs) auto

lemma destroy_ok:
  assumes "sched_ok F invar N sd"
  shows "sk_sched_destroy F sd = Inr (concat (map (\<lambda>br. items (br_mq br)) (sd_bridge_tbl sd)) @
    concat (map (\<lambda>io. items (io_mq io SK_IO_INPUT) @ items (io_mq io SK_IO_OUTPUT)) (sd_io_tbl sd)))"
proof -
  have "sk_io_bridge_destroy F br = Inr (items (br_mq br))" if "br \<in> set (sd_bridge_tbl sd)" for br
    using that assms drain_mq_ok used by (simp add: sk_io_bridge_destroy_def sched_ok_def del: drain_mq.simps)
  moreover have "cleanup_skio_events F io = Inr (items (io_mq io SK_IO_INPUT) @ items (io_mq io SK_IO_OUTPUT))"
    if "io \<in> set (sd_io_tbl sd)" for io
    using that assms by (intro cleanup_ok [of N]) (simp add: sched_ok_def)
  ultimately show ?thesis
    using destroy_each_ok [of "sd_bridge_tbl sd" "sk_io_bridge_destroy F" "\<lambda>br. items (br_mq br)"]
      destroy_each_ok [of "sd_io_tbl sd" "cleanup_skio_events F" "\<lambda>io. items (io_mq io SK_IO_INPUT) @ items (io_mq io SK_IO_OUTPUT)"]
    by (simp add: sk_sched_destroy_def)
qed

end

interpretation evbuf: ev_buf "cellbuf_ops SK_EVENT_SZ" cb_cells "cellbuf_invar SK_EVENT_SZ"
  by (simp add: ev_buf_def, rule fmbuf_cellbuf) (simp add: SK_EVENT_SZ_def)

section \<open>End to end\<close>

lemma filter_by_class:
  "distinct ks \<Longrightarrow> filter (\<lambda>x. f x = k) (concat (map (\<lambda>k. filter (\<lambda>x. f x = k) xs) ks)) =
     (if k \<in> set ks then filter (\<lambda>x. f x = k) xs else [])"
proof (induction ks)
  case (Cons a ks)
  have "filter (\<lambda>x. f x = k) (filter (\<lambda>x. f x = a) xs) = (if k = a then filter (\<lambda>x. f x = k) xs else [])"
    by (auto simp: filter_filter intro!: filter_cong)
  with Cons show ?case by auto
qed simp

lemma sent_to_all:
  "list_all2 (\<lambda>e j. j = i) es ps \<Longrightarrow> sent_to dsts i es ps = map (arrived dsts i) es"
  by (induction rule: list_all2_induct) auto

lemma length_by_class:
  "distinct ks \<Longrightarrow> length (concat (map (\<lambda>k. filter (\<lambda>x. f x = k) xs) ks)) = length (filter (\<lambda>x. f x \<in> set ks) xs)"
proof (induction ks)
  case (Cons a ks)
  have "length (filter P xs) + length (filter Q xs) = length (filter (\<lambda>x. P x \<or> Q x) xs)"
    if "\<And>x. \<not> (P x \<and> Q x)" for P Q
    using that by (induction xs) auto
  from this [of "\<lambda>x. f x = a" "\<lambda>x. f x \<in> set ks"] Cons show ?case by auto
qed simp

lemma room_mono: "room F items sd n \<Longrightarrow> m \<le> n \<Longrightarrow> room F items sd m"
  unfolding room_def by (meson add_left_mono le_trans mult_le_mono2)

lemma room_cong: "sd_bridge_tbl sd' = sd_bridge_tbl sd \<Longrightarrow> room F items sd' n = room F items sd n"
  by (simp add: room_def)

lemma affine_routes:
  assumes "list_all2 (good_route flags dsts) es ps" "\<forall>ev \<in> set es. ev_dst ev = Some (dsts ! i)"
    and "i < length dsts" "distinct dsts"
  shows "list_all2 (\<lambda>e j. j = i) es ps"
  using assms(1,2)
proof (induction rule: list_all2_induct)
  case (Cons e es j ps)
  then have "j < length dsts" "dsts ! j = dsts ! i" using assms(3) by (auto simp: good_route_def)
  then have "j = i" using assms(3,4) by (simp add: nth_eq_iff_index_eq)
  with Cons show ?case by simp
qed simp

text \<open>
  C19: round robin. The search for the next bridge, which walks over the table from the last delivery
  with an index that wraps around, finds the first routable bridge in cyclic order, and the next
  search starts after it; it always ends, and it finds none only if no bridge is routable, when it
  leaves the scheduler as it was.
\<close>
theorem roundrobin_reference:
  assumes "sd_last_delivery_idx sd < length (sd_bridge_tbl sd)"
  shows "find_bridge_roundrobin flags sd = Inr (case rr_pick flags sd of
      None \<Rightarrow> (sd, None)
    | Some i \<Rightarrow> (sd\<lparr>sd_last_delivery_idx := Suc i mod length (sd_bridge_tbl sd)\<rparr>, Some i)) \<and>
    (rr_pick flags sd = None \<longleftrightarrow> (\<forall>br \<in> set (sd_bridge_tbl sd). \<not> routable flags (br_dst br)))"
  using roundrobin_find [OF assms] rr_pick_None_iff by blast

text \<open>Two bridges, to the schedulers 200 and 300; the second may not be chosen in turn.\<close>

definition demo_sched :: "sk_event cellbuf sk_sched" where
  "demo_sched = (let F = cellbuf_ops SK_EVENT_SZ
     in fst (sk_sched_setup_bridge F (fst (sk_sched_setup_bridge F (sched_init F 10 0) 200)) 300))"

definition demo_flags :: "addr \<Rightarrow> u32" where
  "demo_flags d = (if d = 300 then SK_SCHED_NON_RR_ROUTABLE else 0)"

lemma demo_sched_tbl:
  "sd_bridge_tbl demo_sched =
    [\<lparr>br_dst = 200, br_mq = \<lparr>cb_cap = 56 * 65535, cb_cells = []\<rparr>, br_evfd = 0\<rparr>,
     \<lparr>br_dst = 300, br_mq = \<lparr>cb_cap = 56 * 65535, cb_cells = []\<rparr>, br_evfd = 0\<rparr>]"
  "sd_last_delivery_idx demo_sched = 0"
  by (simp_all add: demo_sched_def sk_sched_setup_bridge_def sk_io_bridge_create_def sched_init_def cellbuf_ops_def
      SK_EVENT_SZ_def SK_SCHED_MAX_IO_BRIDGE_def SK_SCHED_IO_BRIDGE_SZ_def)

lemma demo_sched_ok: "sched_ok (cellbuf_ops SK_EVENT_SZ) (cellbuf_invar SK_EVENT_SZ) 64 demo_sched"
  using evbuf.create_ok [of 64 10 0]
  by (simp add: demo_sched_def Let_def sched_ok_def sk_sched_setup_bridge_def sk_io_bridge_create_def sched_init_def
      SK_SCHED_MAX_IO_BRIDGE_def)

theorem roundrobin_reference_witness:
  "find_bridge_roundrobin demo_flags (demo_sched\<lparr>sd_last_delivery_idx := 1\<rparr>) =
     Inr (demo_sched\<lparr>sd_last_delivery_idx := 1\<rparr>, Some 0)"
proof -
  have "rr_pick demo_flags (demo_sched\<lparr>sd_last_delivery_idx := 1\<rparr>) = Some 0"
    by (simp add: rr_pick_def rr_order_def demo_sched_tbl routable_def demo_flags_def SK_SCHED_NON_RR_ROUTABLE_def)
  then show ?thesis
    using roundrobin_reference [of "demo_sched\<lparr>sd_last_delivery_idx := 1\<rparr>" demo_flags] by (simp add: demo_sched_tbl)
qed

lemma demo_sched_queues: "p < SK_PTO_PRI_SZ \<Longrightarrow> sd_queue cb_cells demo_sched t p = []"
  by (cases t) (simp_all add: demo_sched_def Let_def sk_sched_setup_bridge_def sched_init_def sd_queue_def
    SK_SCHED_MAX_IO_BRIDGE_def sk_io_create_def io_mq_def)

lemma ev_bufI: "fmbuf F SK_EVENT_SZ items invar \<Longrightarrow> ev_buf F items invar"
  by (simp add: ev_buf_def)

lemma demo_ev_buf: "fmbuf (cellbuf_ops SK_EVENT_SZ) SK_EVENT_SZ cb_cells (cellbuf_invar SK_EVENT_SZ)"
  by (rule fmbuf_cellbuf) (simp add: SK_EVENT_SZ_def)

text \<open>
  Delivery loses, duplicates and reorders nothing. If every waiting event has a bridge to take, has
  not used up its hops and the bridges have the room, delivery never aborts; afterwards the output
  queues are empty and the input queues untouched; every event has been put on exactly one
  bridge, in the order of the priorities and of arrival, with one more hop and its receiver filled
  in: the bridge to its receiver if there is one, a routable bridge else; and the counter of every
  bridge has grown by the number of events put on it.
\<close>
theorem deliver_msg_moves:
  assumes "fmbuf F SK_EVENT_SZ items invar" and "sched_ok F invar N sd"
    and "sd_last_delivery_idx sd < length (sd_bridge_tbl sd)"
    and "\<forall>ev \<in> set (pending items sd SK_PTO_PRI_SZ). ev_hop ev \<noteq> SK_SCHED_MAX_ROUTING_HOP \<and>
           (\<exists>j. good_route flags (bridge_dsts sd) ev j)"
    and "room F items sd (length (pending items sd SK_PTO_PRI_SZ))"
  shows "\<exists>sd' ps. deliver_msg F flags sd = Inr sd' \<and> sched_ok F invar N sd' \<and> bridge_dsts sd' = bridge_dsts sd \<and>
    list_all2 (good_route flags (bridge_dsts sd)) (pending items sd SK_PTO_PRI_SZ) ps \<and>
    (\<forall>i < length (sd_bridge_tbl sd).
       br_queue items sd' i = br_queue items sd i @ sent_to (bridge_dsts sd) i (pending items sd SK_PTO_PRI_SZ) ps \<and>
       br_evfd (sd_bridge_tbl sd' ! i) =
         br_evfd (sd_bridge_tbl sd ! i) + length (sent_to (bridge_dsts sd) i (pending items sd SK_PTO_PRI_SZ) ps)) \<and>
    (\<forall>p < SK_PTO_PRI_SZ. sd_queue items sd' SK_IO_OUTPUT p = [] \<and>
       sd_queue items sd' SK_IO_INPUT p = sd_queue items sd SK_IO_INPUT p)"
  by (rule ev_buf.deliver_msg_ok [OF ev_bufI [OF assms(1)] assms(2-5)])

definition demo_ev :: "nat \<Rightarrow> pto_msg \<Rightarrow> sk_event" where
  "demo_ev d msg = \<lparr>ev_src = 100, ev_dst = Some d, ev_hop = 0, ev_entity = 1, ev_txn = None, ev_msg = msg\<rparr>"

definition demo_sched1 :: "sk_event cellbuf sk_sched" where
  "demo_sched1 = set_io demo_sched 5
     \<lparr>io_in = \<lparr>cb_cap = 56, cb_cells = []\<rparr>, io_out = \<lparr>cb_cap = 56, cb_cells = [demo_ev 300 Workflow_run]\<rparr>\<rparr>"

lemma demo_sched1_ok: "sched_ok (cellbuf_ops SK_EVENT_SZ) (cellbuf_invar SK_EVENT_SZ) 64 demo_sched1"
  unfolding demo_sched1_def
  by (rule evbuf.sched_ok_set_io [OF demo_sched_ok])
     (simp add: io_ok_def io_mq_def cellbuf_invar_def cellbuf_ops_def split: sk_io_type.split)

lemma demo_sched_pri: "length (sd_io_tbl demo_sched) = SK_PTO_PRI_SZ"
  using demo_sched_ok by (simp add: sched_ok_def)

lemma demo_sched1_queue:
  "p < SK_PTO_PRI_SZ \<Longrightarrow> sd_queue cb_cells demo_sched1 t p =
     (if p = 5 \<and> t = SK_IO_OUTPUT then [demo_ev 300 Workflow_run] else [])"
  using demo_sched_queues [of p t] demo_sched_pri
  by (cases t; cases "p = 5") (auto simp: demo_sched1_def sd_queue_def io_mq_def)

theorem deliver_msg_moves_witness:
  "\<exists>sd'. deliver_msg (cellbuf_ops SK_EVENT_SZ) demo_flags demo_sched1 = Inr sd' \<and> bridge_dsts sd' = [200, 300] \<and>
     (\<forall>p < SK_PTO_PRI_SZ. sd_queue cb_cells sd' SK_IO_OUTPUT p = [])"
proof -
  have p: "pending cb_cells demo_sched1 SK_PTO_PRI_SZ = [demo_ev 300 Workflow_run]"
    using demo_sched1_queue unfolding SK_PTO_PRI_SZ_def by (simp add: pending_def upt_rec)
  have t: "sd_bridge_tbl demo_sched1 = sd_bridge_tbl demo_sched" "sd_last_delivery_idx demo_sched1 = 0"
    by (simp_all add: demo_sched1_def demo_sched_tbl)
  have d: "bridge_dsts demo_sched1 = [200, 300]" by (simp add: bridge_dsts_def t demo_sched_tbl)
  have "\<exists>j. good_route demo_flags [200, 300] (demo_ev 300 Workflow_run) j"
    by (rule exI [of _ 1]) (simp add: good_route_def demo_ev_def)
  moreover have "ev_hop (demo_ev 300 Workflow_run) \<noteq> SK_SCHED_MAX_ROUTING_HOP"
    by (simp add: demo_ev_def SK_SCHED_MAX_ROUTING_HOP_def)
  moreover have "room (cellbuf_ops SK_EVENT_SZ) cb_cells demo_sched1 1"
    by (simp add: room_def t demo_sched_tbl cellbuf_ops_def)
  ultimately show ?thesis
    using deliver_msg_moves [OF demo_ev_buf demo_sched1_ok, of demo_flags] unfolding p t d demo_sched_tbl by auto
qed

text \<open>
  C18: from the sender to the receiver. A list of messages from scheduler \<open>me\<close> to another scheduler
  \<open>d\<close> that it has a bridge to is sent, delivered and copied without an abort, and the input
  queue of every priority of \<open>d\<close> gets exactly the messages of that priority, once each, in
  the order they were sent; nothing is left in the output queues of the sender, nothing on the
  bridge, and nothing gets into the output queues of the receiver.
\<close>
theorem events_reach_receiver:
  assumes "fmbuf F SK_EVENT_SZ items invar" and ok: "sched_ok F invar N sd" "sched_ok F invar N dst"
    and idle: "\<forall>p < SK_PTO_PRI_SZ. sd_queue items sd SK_IO_OUTPUT p = []"
    and l: "sd_last_delivery_idx sd < length (sd_bridge_tbl sd)"
    and i: "i < length (bridge_dsts sd)" "bridge_dsts sd ! i = d" "distinct (bridge_dsts sd)" "br_queue items sd i = []"
    and fit: "room F items sd (length es)" "fits items N sd (length es)" "fits items N dst (length es)"
    and es: "es \<noteq> []" "d \<noteq> me" "\<forall>ev \<in> set es. ev_src ev = me \<and> ev_dst ev = Some d \<and> ev_hop ev = 0"
  shows "\<exists>sd1 sd2 br dst'. flush F sd es = Inr sd1 \<and> deliver_msg F flags sd1 = Inr sd2 \<and>
    copy_event F (sd_bridge_tbl sd2 ! i) d dst = Inr (br, dst') \<and> items (br_mq br) = [] \<and>
    (\<forall>p < SK_PTO_PRI_SZ. sd_queue items sd2 SK_IO_OUTPUT p = [] \<and>
       sd_queue items dst' SK_IO_OUTPUT p = sd_queue items dst SK_IO_OUTPUT p \<and>
       sd_queue items dst' SK_IO_INPUT p = sd_queue items dst SK_IO_INPUT p @
         map (\<lambda>ev. ev\<lparr>ev_hop := 1\<rparr>) (filter (\<lambda>ev. pto_pri (ev_msg ev) = p) es))"
proof -
  note b = ev_bufI [OF assms(1)]
  let ?P = "SK_PTO_PRI_SZ" and ?dsts = "bridge_dsts sd"
  obtain sd1 where s1: "flush F sd es = Inr sd1" "sched_ok F invar N sd1" "sd_bridge_tbl sd1 = sd_bridge_tbl sd"
    "sd_last_delivery_idx sd1 = sd_last_delivery_idx sd"
    "\<forall>t p. p < ?P \<longrightarrow> sd_queue items sd1 t p = sd_queue items sd t p @ belong me t p es"
    using ev_buf.flush_ok [OF b ok(1) fit(2), of me] es(3) by auto
  have d1: "bridge_dsts sd1 = ?dsts" using s1(3) by (simp add: bridge_dsts_def)
  let ?pend = "concat (map (\<lambda>p. filter (\<lambda>ev. pto_pri (ev_msg ev) = p) es) (rev [0 ..< ?P]))"
  have "sd_queue items sd1 SK_IO_OUTPUT p = filter (\<lambda>ev. pto_pri (ev_msg ev) = p) es" if "p < ?P" for p
    using s1(5) idle es(2,3) that by (auto simp: belong_def intro!: filter_cong)
  then have pend: "pending items sd1 ?P = ?pend"
    unfolding pending_def by (intro arg_cong [of _ _ concat] map_cong) auto
  have set: "set ?pend \<subseteq> set es" by auto
  have len: "length ?pend \<le> length es" using length_by_class [of "rev [0 ..< ?P]" "\<lambda>ev. pto_pri (ev_msg ev)" es] by simp
  have route: "ev_hop ev \<noteq> SK_SCHED_MAX_ROUTING_HOP \<and> (\<exists>j. good_route flags (bridge_dsts sd1) ev j)" if "ev \<in> set es" for ev
    using that es(3) i d1 by (auto simp: good_route_def SK_SCHED_MAX_ROUTING_HOP_def intro!: exI [of _ i])
  obtain sd2 ps where s2: "deliver_msg F flags sd1 = Inr sd2" "sched_ok F invar N sd2"
    "list_all2 (good_route flags ?dsts) ?pend ps" "br_queue items sd2 i = sent_to ?dsts i ?pend ps"
    "br_evfd (sd_bridge_tbl sd2 ! i) = br_evfd (sd_bridge_tbl sd ! i) + length (sent_to ?dsts i ?pend ps)"
    "\<forall>p < ?P. sd_queue items sd2 SK_IO_OUTPUT p = []" "bridge_dsts sd2 = ?dsts"
    using ev_buf.deliver_msg_ok [OF b s1(2), of flags] route set i(1,4) l d1 pend s1(3,4)
      room_mono [OF fit(1) len] room_cong [OF s1(3), of F items]
    by (auto simp: bridge_dsts_def br_queue_def)
  let ?arr = "map (arrived ?dsts i) ?pend"
  have sent: "sent_to ?dsts i ?pend ps = ?arr"
    using affine_routes [OF s2(3)] set es(3) i by (intro sent_to_all) auto
  have "?pend \<noteq> []"
    using es(1) by (cases es) (auto intro!: exI [of _ "pto_pri (ev_msg (hd es))"])
  then have fd: "br_evfd (sd_bridge_tbl sd2 ! i) \<noteq> 0" using s2(5) sent by simp
  have mq: "items (br_mq (sd_bridge_tbl sd2 ! i)) = ?arr" using s2(4) sent by (simp add: br_queue_def)
  have i2: "i < length (sd_bridge_tbl sd2)" using i(1) bridges_length [OF s2(7)] by (simp add: bridge_dsts_def)
  have "fits items N dst (length ?arr)"
    using fit(3) len by (simp add: fits_def) (meson add_left_mono le_trans)
  then obtain mq' dst' where c: "copy_event F (sd_bridge_tbl sd2 ! i) d dst = Inr ((sd_bridge_tbl sd2 ! i)\<lparr>br_mq := mq', br_evfd := 0\<rparr>, dst')"
    "items mq' = []" "\<forall>t p. p < ?P \<longrightarrow> sd_queue items dst' t p = sd_queue items dst t p @ belong d t p ?arr"
    using ev_buf.copy_event_ok [OF b ok(2) _ _ fd, of d] mq i2 s2(2) by (auto simp: sched_ok_def)
  have arr: "arrived ?dsts i ev = ev\<lparr>ev_hop := 1\<rparr>" if "ev \<in> set es" for ev
    using that es(3) by (simp add: arrived_def)
  have out: "belong d SK_IO_OUTPUT p ?arr = []" for p
    using set es(3) by (auto simp: belong_def arrived_def filter_empty_conv)
  have "belong d SK_IO_INPUT p ?arr = map (arrived ?dsts i) (filter (\<lambda>ev. pto_pri (ev_msg ev) = p) ?pend)" for p
    using set es(3) unfolding belong_def filter_map
    by (intro arg_cong [of _ _ "map (arrived ?dsts i)"] filter_cong) (auto simp: arrived_def)
  then have inp: "belong d SK_IO_INPUT p ?arr = map (\<lambda>ev. ev\<lparr>ev_hop := 1\<rparr>) (filter (\<lambda>ev. pto_pri (ev_msg ev) = p) es)"
    if "p < ?P" for p
    using that filter_by_class [of "rev [0 ..< ?P]" "\<lambda>ev. pto_pri (ev_msg ev)" p es] arr by simp
  show ?thesis using s1(1) s2(1,6) c out inp
    by (intro exI3 [of _ sd1 sd2 "(sd_bridge_tbl sd2 ! i)\<lparr>br_mq := mq', br_evfd := 0\<rparr>"] exI [of _ dst']) simp
qed

theorem events_reach_receiver_witness:
  "\<exists>sd1 sd2 br dst'. flush (cellbuf_ops SK_EVENT_SZ) demo_sched [demo_ev 300 Workflow_run, demo_ev 300 Std_start, demo_ev 300 Workflow_run] = Inr sd1 \<and>
     deliver_msg (cellbuf_ops SK_EVENT_SZ) demo_flags sd1 = Inr sd2 \<and>
     copy_event (cellbuf_ops SK_EVENT_SZ) (sd_bridge_tbl sd2 ! 1) 300 demo_sched = Inr (br, dst') \<and>
     map ev_msg (sd_queue cb_cells dst' SK_IO_INPUT 5) = [Workflow_run, Workflow_run]"
proof -
  let ?es = "[demo_ev 300 Workflow_run, demo_ev 300 Std_start, demo_ev 300 Workflow_run]"
  have d: "bridge_dsts demo_sched = [200, 300]" by (simp add: bridge_dsts_def demo_sched_tbl)
  have r: "room (cellbuf_ops SK_EVENT_SZ) cb_cells demo_sched (length ?es)"
    by (simp add: room_def demo_sched_tbl cellbuf_ops_def)
  have f: "fits cb_cells 64 demo_sched (length ?es)" by (simp add: fits_def demo_sched_queues)
  have q: "\<forall>p < SK_PTO_PRI_SZ. sd_queue cb_cells demo_sched SK_IO_OUTPUT p = []" by (simp add: demo_sched_queues)
  have e: "\<forall>ev \<in> set ?es. ev_src ev = 100 \<and> ev_dst ev = Some 300 \<and> ev_hop ev = 0" by (simp add: demo_ev_def)
  have m: "ev_msg (demo_ev 300 x) = x" for x by (simp add: demo_ev_def)
  have p: "pto_pri Workflow_run = 5" "pto_pri Std_start = 7" "5 < SK_PTO_PRI_SZ" "sd_queue cb_cells demo_sched SK_IO_INPUT 5 = []"
    by (simp_all add: pto_pri_def sk_pto_tbl_def SK_PTO_PRI_SZ_def demo_sched_queues)
  show ?thesis
    using events_reach_receiver [OF demo_ev_buf demo_sched_ok demo_sched_ok q _ _ _ _ _ r f f _ _ e, of 1 demo_flags] p
    by (auto simp: d demo_sched_tbl br_queue_def m)
qed

text \<open>
  Destroying a scheduler frees the data of every event still on its bridges and in its queues, each
  exactly once, and the loops that empty the buffers end.
\<close>
theorem sched_destroy_frees:
  assumes "fmbuf F SK_EVENT_SZ items invar" and "sched_ok F invar N sd"
  shows "sk_sched_destroy F sd = Inr (concat (map (\<lambda>br. items (br_mq br)) (sd_bridge_tbl sd)) @
    concat (map (\<lambda>io. items (io_mq io SK_IO_INPUT) @ items (io_mq io SK_IO_OUTPUT)) (sd_io_tbl sd)))"
  by (rule ev_buf.destroy_ok [OF ev_bufI [OF assms(1)] assms(2)])

theorem sched_destroy_frees_witness:
  "\<exists>evs. sk_sched_destroy (cellbuf_ops SK_EVENT_SZ) demo_sched1 = Inr evs \<and> demo_ev 300 Workflow_run \<in> set evs"
proof -
  have "5 < length (sd_io_tbl demo_sched1)" "cb_cells (io_mq (sd_io_tbl demo_sched1 ! 5) SK_IO_OUTPUT) = [demo_ev 300 Workflow_run]"
    using demo_sched_pri by (simp_all add: demo_sched1_def SK_PTO_PRI_SZ_def io_mq_def)
  then have "\<exists>io \<in> set (sd_io_tbl demo_sched1). demo_ev 300 Workflow_run \<in> set (cb_cells (io_mq io SK_IO_OUTPUT))"
    by (metis list.set_intros(1) nth_mem)
  then show ?thesis using sched_destroy_frees [OF demo_ev_buf demo_sched1_ok] by auto
qed

end
