(* ===== verification/Double_Resume.thy ===== *)
theory Double_Resume
  imports Service_Pto
begin

text \<open>
  The handlers of a service call composed with the handler of the workflow: a transaction that
  waits for a task with a callback, and has left one without a callback running, is resumed twice.
\<close>

section \<open>What the master leaves alone\<close>

lemma schedule_task_frame:
  "sk_service_schedule_task E w cur name task = Inr w' \<Longrightarrow> w_ents w' = w_ents w \<and> w_mgrs w' = w_mgrs w"
  by (auto simp: sk_service_schedule_task_def sk_service_schedule_normaltask_def sk_service_schedule_errortask_def
      schedule_api_task_def schedule_timer_task_def schedule_api_errortask_def with_svc_def with_txn_def res_simps Let_def
      split: srv_task_data.splits option.splits if_splits)

lemma schedule_loop_frame:
  "schedule_loop E n w cur name = Inr (w', ts) \<Longrightarrow> w_ents w' = w_ents w \<and> w_mgrs w' = w_mgrs w"
proof (induction n arbitrary: w ts)
  case (Suc n)
  obtain sv sv1 t where sv: "w_svcs w name = Some sv" "service_next (en_F E) sv = Inr (sv1, t)"
    using Suc.prems by (auto simp: with_svc_def res_simps split: option.splits)
  show ?case
  proof (cases t)
    case None
    with sv Suc.prems show ?thesis by (auto simp: with_svc_def sk_service_handle_exception_def)
  next
    case (Some task)
    with sv Suc.prems obtain w1 us where "sk_service_schedule_task E (set_svc w name sv1) cur name task = Inr w1"
      "schedule_loop E n w1 cur name = Inr (w', us)"
      by (auto simp: with_svc_def res_simps)
    with schedule_task_frame [of E "set_svc w name sv1" cur name task w1] Suc.IH show ?thesis by auto
  qed
qed simp

lemma task_done_frame:
  "srv_task_done E w cur src a t name resume svc_done = Inr w' \<Longrightarrow> w_ents w' = w_ents w \<and> w_mgrs w' = w_mgrs w"
  by (auto simp: srv_task_done_def sk_service_schedule_tasks_def with_svc_def res_simps
      split: option.splits if_splits dest!: schedule_loop_frame)

text \<open>A handler that only changes a transaction keeps the books of the services.\<close>

lemma svc_inv_upd:
  assumes u: "upd t w x evs es w'" and i: "svc_inv E items invar name (w, run)"
  shows "svc_inv E items invar name (w', run)"
proof -
  have r: "task_ready E w' k" if "task_ready E w k" for k
    using that u by (auto simp: task_ready_def upd_def split: srv_task_data.splits)
  have s: "w_svcs w' = w_svcs w" using u by (simp add: upd_def)
  show ?thesis using i r unfolding svc_inv_def fst_conv snd_conv s by blast
qed

lemma entity_sched_cong:
  "w_ents w' = w_ents w \<Longrightarrow> w_mgrs w' = w_mgrs w \<Longrightarrow> sk_entity_sched w' a = sk_entity_sched w a"
  by (simp add: sk_entity_sched_def with_ent_def with_mgr_def cong: option.case_cong)

lemma flow_ok_frame:
  assumes f: "flow_ok items invar B w a t txn e"
    and w': "w_txns w' = (w_txns w)(t \<mapsto> x)" "w_ents w' = w_ents w" "w_mgrs w' = w_mgrs w"
    and x: "txn_good items invar B' x" "tx_entity x = a" "tx_workflow x = tx_workflow txn"
  shows "flow_ok items invar B' w' a t x e"
  using assms by (auto simp: flow_ok_def home_ok_def ent_ok_def queue_ok_def)

section \<open>A callback that makes no calls\<close>

definition cb_silent :: "('b, 'o) sk_env \<Rightarrow> bool" where
  "cb_silent E \<longleftrightarrow> (\<forall>c s f td. \<exists>n. uprog_fits (en_iocall_cb E c s f td) n 0)"

definition pack_silent :: "('b, 'o) sk_env \<Rightarrow> bool" where
  "pack_silent E \<longleftrightarrow> (\<forall>m x. \<exists>n. uprog_fits (en_mod_pack E m x) n 0)"

lemma silent_cb:
  assumes "cb_silent E" "cb_post E items invar B t i task name apiname st io w txn x"
  shows "io = [] \<and> completed i task st [] txn x"
proof -
  obtain out c ret where p: "length io \<le> c" "completed i task st io txn x"
    "cb_out E (Suc (w_tick w)) name apiname (tk_data task) out c ret"
    using assms(2) unfolding cb_post_def by blast
  obtain n where "uprog_fits (en_iocall_cb E (Suc (w_tick w)) name apiname (tk_data task)) n 0"
    using assms(1) unfolding cb_silent_def by blast
  then have "c = 0" using p(3) uprog_out_fits [of _ out c ret n 0] by (auto simp: cb_out_def split: if_splits)
  with p show ?thesis by simp
qed

lemma completed_sets:
  assumes "completed i task st [] txn x" "st \<noteq> SK_TXN_TASK_RUNNING"
  shows "running_tasks x = running_tasks txn - {i}" "waited_tasks x = waited_tasks txn - {i}"
    "\<And>j. j \<noteq> i \<Longrightarrow> tx_task_tbl x j = tx_task_tbl txn j"
    "tx_workflow x = tx_workflow txn" "tx_entity x = tx_entity txn" "tx_workflow_idx x = tx_workflow_idx txn"
  using assms by (auto simp: completed_def same_flow_def running_tasks_def waited_tasks_def split: if_splits)

text \<open>A task is done, seen by its worker: the transaction and the one message.\<close>

lemma silent_task_cb:
  assumes "cb_fits E items invar n k" "w_txns w t = Some txn" "txn_good items invar B txn"
    and "i \<in> running_tasks txn" "tx_task_tbl txn i = Some task" "td_caller_module (tk_data task) \<noteq> None"
    and "B + n + k + 2047 < 2 ^ 62" "w_svcs w name \<noteq> None" "sk_entity_sched w a = Inr (Some cur)"
    and "tx_state txn \<in> {SK_TXN_PENDING, SK_TXN_ERROR}" and s: "cb_silent E"
  obtains w' x where "srv_task_cb E w cur a t (t, i) name apiname SK_TXN_TASK_DONE True = Inr w'"
    "upd t w x [done_event E cur a t name (resumes task x) True] (cb_fx t i (tk_data task)) w'"
    "txn_good items invar (B + n + k + 2047) x" "completed i task SK_TXN_TASK_DONE [] txn x"
    "tx_state x \<in> {SK_TXN_PENDING, SK_TXN_ERROR}"
proof -
  have "td_cb (tk_data task) \<noteq> None \<longrightarrow> tx_state txn \<noteq> SK_TXN_DESTROYED" using assms(10) by auto
  with task_cb_ok [OF assms(1-6) _ assms(7-9), of SK_TXN_TASK_DONE apiname True] obtain w' x io where
    w': "srv_task_cb E w cur a t (t, i) name apiname SK_TXN_TASK_DONE True = Inr w'"
    "upd t w x (io @ [done_event E cur a t name (resumes task x) True]) (cb_fx t i (tk_data task)) w'"
    "cb_post E items invar (B + n + k + 2047) t i task name apiname SK_TXN_TASK_DONE io w txn x"
    by (auto simp: ok_def task_cb_post_def)
  have io: "io = []" "completed i task SK_TXN_TASK_DONE [] txn x" using silent_cb [OF s w'(3)] by auto
  have "txn_good items invar (B + n + k + 2047) x" "tx_state x \<in> {SK_TXN_PENDING, SK_TXN_ERROR}"
    using w'(3) assms(10) by (auto simp: cb_post_def split: if_splits)
  with that w' io show ?thesis by simp
qed

text \<open>Both tasks done, seen by the worker.\<close>

lemma both_tasks_done:
  assumes cb: "cb_fits E items invar n k" "cb_silent E" and sv: "w_svcs w name \<noteq> None"
    and t: "w_txns w t = Some txn" "txn_good items invar B txn" and B: "B + (n + k + 2047) + n + k + 2047 < 2 ^ 62"
    and st: "tx_state txn = SK_TXN_PENDING" and r: "running_tasks txn = {i, j}" "i \<noteq> j"
    and ti: "tx_task_tbl txn i = Some ti" "td_cb (tk_data ti) \<noteq> None" "td_caller_module (tk_data ti) \<noteq> None"
    and tj: "tx_task_tbl txn j = Some tj" "td_cb (tk_data tj) = None" "td_caller_module (tk_data tj) \<noteq> None"
    and home: "sk_entity_sched w a = Inr (Some cur)"
  obtains w1 w2 x1 x2 where "srv_task_cb E w cur a t (t, i) name apiname SK_TXN_TASK_DONE True = Inr w1"
    "srv_task_cb E w1 cur a t (t, j) name apiname SK_TXN_TASK_DONE True = Inr w2"
    "upd t w x1 [done_event E cur a t name True True] (cb_fx t i (tk_data ti)) w1"
    "upd t w1 x2 [done_event E cur a t name True True] (cb_fx t j (tk_data tj)) w2"
    "txn_good items invar (B + 2 * (n + k + 2047)) x2" "tx_state x2 \<in> {SK_TXN_PENDING, SK_TXN_ERROR}"
    "running_tasks x2 = {}" "tx_workflow x2 = tx_workflow txn" "tx_entity x2 = tx_entity txn"
    "tx_workflow_idx x2 = tx_workflow_idx txn"
proof -
  let ?d = "n + k + 2047"
  have i: "i \<in> running_tasks txn" "tx_state txn \<in> {SK_TXN_PENDING, SK_TXN_ERROR}" using st r by auto
  have wi: "waited_tasks txn \<subseteq> {i}" using r tj by (auto simp: waited_tasks_def running_tasks_def)
  have b: "B + n + k + 2047 < 2 ^ 62" "B + ?d + n + k + 2047 = B + 2 * ?d" using B by simp_all
  obtain w1 x1 where w1: "srv_task_cb E w cur a t (t, i) name apiname SK_TXN_TASK_DONE True = Inr w1"
    "upd t w x1 [done_event E cur a t name (resumes ti x1) True] (cb_fx t i (tk_data ti)) w1"
    "txn_good items invar (B + n + k + 2047) x1" "completed i ti SK_TXN_TASK_DONE [] txn x1"
    "tx_state x1 \<in> {SK_TXN_PENDING, SK_TXN_ERROR}"
    by (rule silent_task_cb [OF cb(1) t i(1) ti(1,3) b(1) sv home i(2) cb(2)])
  note c1 = completed_sets [OF w1(4) sk_txn_task_status_t.distinct(2)]
  have g1: "txn_good items invar (B + ?d) x1" using w1(3) by (simp add: add.assoc)
  have j: "j \<in> running_tasks x1" "tx_task_tbl x1 j = Some tj" using c1(1,3) r tj(1) by auto
  have u1: "w_svcs w1 name \<noteq> None" "sk_entity_sched w1 a = Inr (Some cur)"
    using w1(2) sv home entity_sched_cong [of w1 w a] by (simp_all add: upd_def)
  obtain w2 x2 where w2: "srv_task_cb E w1 cur a t (t, j) name apiname SK_TXN_TASK_DONE True = Inr w2"
    "upd t w1 x2 [done_event E cur a t name (resumes tj x2) True] (cb_fx t j (tk_data tj)) w2"
    "txn_good items invar (B + ?d + n + k + 2047) x2" "completed j tj SK_TXN_TASK_DONE [] x1 x2"
    "tx_state x2 \<in> {SK_TXN_PENDING, SK_TXN_ERROR}"
    by (rule silent_task_cb [OF cb(1) upd_txn [OF w1(2)] g1 j tj(3) B u1 w1(5) cb(2)])
  note c2 = completed_sets [OF w2(4) sk_txn_task_status_t.distinct(2)]
  have "resumes ti x1" "resumes tj x2" "running_tasks x2 = {}"
    using c1(1,2) c2(1) wi r ti(2) tj(2) by (auto simp: resumes_def)
  with that [OF w1(1) w2(1)] w1(2) w2(2,5) w2(3)[unfolded b(2)] c1(4-6) c2(4-6) show ?thesis by simp
qed

section \<open>The last run\<close>

lemma pack_end_frees:
  assumes p: "pack_end E items a t w e m w'" and t: "w_txns w t = Some txn" "running_tasks txn = {}"
    and s: "pack_silent E"
  shows "w_txns w' t = None"
proof -
  obtain txn' e1 io es w1 where k: "upd2 t a w txn' e1 io es w1" "io = [] \<longrightarrow> tx_task_tbl txn' = tx_task_tbl txn"
    "packed E items a t (timed E w txn) e m e1 io es" "ended t a w1 w'"
    using p t(1) unfolding pack_end_def by auto
  obtain n where n: "uprog_fits (en_mod_pack E m (timed E w txn)) n 0" using s unfolding pack_silent_def by blast
  have "io = []"
    using k(3) uprog_out_fits [OF _ n] by (auto simp: packed_def split: if_splits)
  then have "running_tasks txn' = {}" using k(2) t(2) by (simp add: running_tasks_def)
  moreover have "w_txns w1 t = Some txn'" using k(1) by (simp add: upd2_def)
  ultimately show ?thesis using k(4) by (auto simp: ended_def gone_def running_tasks_def)
qed

lemma last_run_frees:
  assumes E: "env_fits E items invar n k" and f: "flow_ok items invar B w a t x e"
    and B: "B + n + k + 2047 + n + k + 2047 < 2 ^ 62"
    and x: "tx_state x \<in> {SK_TXN_PENDING, SK_TXN_ERROR}" "tx_workflow_idx x = []" "running_tasks x = {}"
    and s: "pack_silent E"
  shows "\<exists>w'. wf_run E w cur a t = Inr w' \<and> w_txns w' t = None"
proof -
  have t: "w_txns w t = Some x" using f by (simp add: flow_ok_def)
  have lm: "sk_workflow_last_module (tx_workflow x) = Some (last (wf_modules (tx_workflow x)))"
    using f by (simp add: flow_ok_def last_module_some)
  show ?thesis
  proof (cases "tx_state x = SK_TXN_ERROR")
    case True
    have "B + n + k + 2047 < 2 ^ 62" using B by simp
    then obtain w' where w': "wf_run E w cur a t = Inr w'" "pack_end E items a t w e (last (wf_modules (tx_workflow x))) w'"
      using pack_run [OF E f _ _ lm, of cur] True by (auto simp: ok_def)
    with pack_end_frees [OF w'(2) t x(3) s] show ?thesis by blast
  next
    case False
    then have "tx_state x \<in> {SK_TXN_INIT, SK_TXN_UNPACKED, SK_TXN_PENDING}" using x(1) by simp
    from early_run [OF E f B this lm, of cur] x(2) obtain w' w1 y where w': "wf_run E w cur a t = Inr w'"
      "upd t w y [] [] w1" "tx_task_tbl y = tx_task_tbl x" "pack_end E items a t w1 e (last (wf_modules (tx_workflow x))) w'"
      by (auto simp: ok_def flow_end_def)
    have "running_tasks y = {}" using w'(3) x(3) by (simp add: running_tasks_def)
    with pack_end_frees [OF w'(4) upd_txn [OF w'(2)] _ s] w'(1) show ?thesis by blast
  qed
qed

lemma wf_run_freed: "w_txns w t = None \<Longrightarrow> wf_run E w cur a t = Inl Freed"
  by (subst wf_run.simps) (simp add: wf_step_def with_txn_def)

section \<open>Properties\<close>

definition resume_event :: "('b, 'o) sk_env \<Rightarrow> addr \<Rightarrow> addr \<Rightarrow> addr \<Rightarrow> sk_event" where
  "resume_event E src a t = \<lparr>ev_src = en_master E, ev_dst = Some src, ev_hop = 0, ev_entity = a,
     ev_txn = Some t, ev_msg = Workflow_run\<rparr>"

text \<open>
  C16: a transaction can be resumed twice. Its last module has run and waits for task \<open>i\<close>, which has
  a callback; task \<open>j\<close>, which has none, runs as well and nothing else does. When \<open>i\<close> and then \<open>j\<close>
  complete before the workflow handler runs, both messages to the master ask for the workflow to be
  resumed, the master sends a run for each of them, the first run packs and frees the transaction,
  and the second uses it after it has been freed. (Neither the callback nor the \<^verbatim>\<open>pack\<close> function
  makes calls of services here.)
\<close>
theorem workflow_double_resume:
  fixes w :: "('b, 'o) world"
  assumes "env_fits E items invar n k" and "cb_fits E items invar n k" and "cb_silent E" "pack_silent E"
    and "fmbuf (en_F E) SK_SRV_TASK_SZ qitems qinvar" and "svc_inv E qitems qinvar name (w, run)"
    and "y \<in> set run" "z \<in> set (remove1 y run)"
    and "flow_ok items invar B w a t txn e" and "B + 3 * (n + k + 2047) + n + k + 2047 < 2 ^ 62"
    and "tx_state txn = SK_TXN_PENDING" "tx_workflow_idx txn = []" and "running_tasks txn = {i, j}" "i \<noteq> j"
    and "tx_task_tbl txn i = Some ti" "td_cb (tk_data ti) \<noteq> None" "td_caller_module (tk_data ti) \<noteq> None"
    and "tx_task_tbl txn j = Some tj" "td_cb (tk_data tj) = None" "td_caller_module (tk_data tj) \<noteq> None"
    and "sk_entity_sched w a = Inr (Some cur)"
  shows "\<exists>w1 w2 w3 w4 w5 ts us.
    srv_task_cb E w cur a t (t, i) name apiname SK_TXN_TASK_DONE True = Inr w1 \<and>
    srv_task_cb E w1 cur a t (t, j) name apiname SK_TXN_TASK_DONE True = Inr w2 \<and>
    w_sends w2 = w_sends w @ [done_event E cur a t name True True, done_event E cur a t name True True] \<and>
    srv_task_done E w2 (en_master E) cur a t name True True = Inr w3 \<and>
    srv_task_done E w3 (en_master E) cur a t name True True = Inr w4 \<and>
    w_sends w4 = w_sends w2 @ resume_event E cur a t # map (task_event E w2 name) ts @
      resume_event E cur a t # map (task_event E w2 name) us \<and>
    wf_run E w4 cur a t = Inr w5 \<and> w_txns w5 t = None \<and> wf_run E w5 cur a t = Inl Freed"
proof -
  let ?d = "n + k + 2047"
  have t: "w_txns w t = Some txn" "txn_good items invar B txn" "tx_entity txn = a"
    using assms(9) by (simp_all add: flow_ok_def)
  have sv: "w_svcs w name \<noteq> None" using assms(6) by (auto simp: svc_inv_def)
  have b: "B + ?d + n + k + 2047 < 2 ^ 62" using assms(10) by simp
  obtain w1 w2 x1 x2 where w1: "srv_task_cb E w cur a t (t, i) name apiname SK_TXN_TASK_DONE True = Inr w1"
      "srv_task_cb E w1 cur a t (t, j) name apiname SK_TXN_TASK_DONE True = Inr w2"
      "upd t w x1 [done_event E cur a t name True True] (cb_fx t i (tk_data ti)) w1"
    and w2: "upd t w1 x2 [done_event E cur a t name True True] (cb_fx t j (tk_data tj)) w2"
    and x2: "txn_good items invar (B + 2 * ?d) x2" "tx_state x2 \<in> {SK_TXN_PENDING, SK_TXN_ERROR}"
      "running_tasks x2 = {}" "tx_workflow x2 = tx_workflow txn" "tx_entity x2 = tx_entity txn"
      "tx_workflow_idx x2 = tx_workflow_idx txn"
    by (rule both_tasks_done [OF assms(2,3) sv t(1,2) b assms(11,13-21)])
  have s2: "w_sends w2 = w_sends w @ [done_event E cur a t name True True, done_event E cur a t name True True]"
    using w1(3) w2 by (simp add: upd_def)
  have v2: "svc_inv E qitems qinvar name (w2, run)"
    by (rule svc_inv_upd [OF w2 svc_inv_upd [OF w1(3) assms(6)]])
  note d = srv_buf.task_done_ok [OF srv_bufI [OF assms(5)] refl]
  obtain w3 ts where w3: "srv_task_done E w2 (en_master E) cur a t name True True = Inr w3"
    "svc_inv E qitems qinvar name (w3, remove1 y run @ ts)" "w_txns w3 = w_txns w2"
    "w_sends w3 = w_sends w2 @ resume_event E cur a t # map (task_event E w2 name) ts"
    using d [OF v2, of True y cur a t True] assms(7) unfolding resume_event_def by simp blast
  have z: "z \<in> set (remove1 y run @ ts)" using assms(8) by simp
  obtain w4 us where w4: "srv_task_done E w3 (en_master E) cur a t name True True = Inr w4"
    "w_txns w4 = w_txns w3"
    "w_sends w4 = w_sends w3 @ resume_event E cur a t # map (task_event E w3 name) us"
    using d [OF w3(2), of True z cur a t True] z unfolding resume_event_def by simp blast
  have fr: "w_ents w4 = w_ents w" "w_mgrs w4 = w_mgrs w" "w_txns w4 = (w_txns w)(t \<mapsto> x2)"
    using task_done_frame [OF w3(1)] task_done_frame [OF w4(1)] w1(3) w2 w3(3) w4(2) by (simp_all add: upd_def)
  have f4: "flow_ok items invar (B + 2 * ?d) w4 a t x2 e" by (rule flow_ok_frame [OF assms(9) fr(3,1,2) x2(1) x2(5)[unfolded t(3)] x2(4)])
  have b4: "B + 2 * ?d + n + k + 2047 + n + k + 2047 < 2 ^ 62" using assms(10) by simp
  have idx: "tx_workflow_idx x2 = []" using x2(6) assms(12) by simp
  obtain w5 where w5: "wf_run E w4 cur a t = Inr w5" "w_txns w5 t = None"
    using last_run_frees [OF assms(1) f4 b4 x2(2) idx x2(3) assms(4)] by blast
  have "w_sends w4 = w_sends w2 @ resume_event E cur a t # map (task_event E w2 name) ts @
      resume_event E cur a t # map (task_event E w2 name) us"
    using w3(4) w4(3) task_event_cong [OF w3(3), of E name] by simp
  with w1(1,2) s2 w3(1) w4(1) w5 wf_run_freed [OF w5(2)] show ?thesis by blast
qed

text \<open>Transaction 5 of the small world, with two tasks of which the second has no callback.\<close>

definition demo_txn2 :: "u8 cellbuf sk_txn" where
  "demo_txn2 = (case sk_txn_task_add demo_txn1 (demo_taskdata\<lparr>td_cb := None\<rparr>) 8 of
     Inr (txn, _) \<Rightarrow> txn\<lparr>tx_state := SK_TXN_PENDING, tx_workflow_idx := []\<rparr> | Inl _ \<Rightarrow> demo_txn1)"

lemma demo_txn2_eq: "demo_txn2 = demo_txn1\<lparr>tx_latest_taskid := 2, tx_state := SK_TXN_PENDING, tx_workflow_idx := [],
    tx_task_tbl := (tx_task_tbl demo_txn1)(1 \<mapsto> \<lparr>tk_id = 1, tk_start = 8, tk_end = 0,
      tk_data = demo_taskdata\<lparr>td_cb := None, td_task_id := 1\<rparr>, tk_status = SK_TXN_TASK_RUNNING\<rparr>),
    tx_total_tasks := 2\<rparr>"
  by (simp add: demo_txn2_def sk_txn_task_add_def sk_txn_task_create_def Let_def demo_txn1_eq demo_txn_def
      sk_txn_create_def demo_taskdata_def cb_weight_def)

definition demo_two :: "(sk_srv_task cellbuf, u8 cellbuf) world" where
  "demo_two = set_txn (set_svc demo_world ''s'' (demo_svc\<lparr>sv_running_task_cnt := 2,
     sv_pending_tasks := (sv_pending_tasks demo_svc)\<lparr>q_state := SK_QUEUE_STATE_READ\<rparr>\<rparr>)) 5 demo_txn2"

lemma demo_txn2_good: "txn_good cb_cells (cellbuf_invar 1) 2 demo_txn2"
proof -
  obtain x i where "sk_txn_task_add demo_txn1 (demo_taskdata\<lparr>td_cb := None\<rparr>) 8 = Inr (x, i)" "txn_tasks_ok x"
    using txn_task_add [OF demo_txn1_ok, of "demo_taskdata\<lparr>td_cb := None\<rparr>" 8] by (auto simp: demo_txn1_eq)
  then have "txn_tasks_ok demo_txn2"
    by (simp add: demo_txn2_def txn_tasks_ok_def running_tasks_def waited_tasks_def)
  then show ?thesis using demo_txn_good by (simp add: txn_good_def demo_txn2_eq demo_txn1_eq)
qed

lemma demo_two_inv: "svc_inv demo_env cb_cells (cellbuf_invar SK_SRV_TASK_SZ) ''s''
    (demo_two, [demo_task SK_QUEUE_ELEM_READ, demo_task SK_QUEUE_ELEM_READ])"
  using demo_svc_inv
  by (simp add: svc_inv_def demo_svc_world_def demo_two_def svc_ok_def svc_waiting_def demo_svc_def q_main_def q_writes_def
      excl_def demo_task_def sk_queue_wf_defs)

theorem workflow_double_resume_witness:
  "\<exists>w1 w2 w3 w4 w5. srv_task_cb demo_env demo_two 100 1 5 (5, 0) ''s'' ''get'' SK_TXN_TASK_DONE True = Inr w1 \<and>
     srv_task_cb demo_env w1 100 1 5 (5, 1) ''s'' ''get'' SK_TXN_TASK_DONE True = Inr w2 \<and>
     srv_task_done demo_env w2 100 100 1 5 ''s'' True True = Inr w3 \<and>
     srv_task_done demo_env w3 100 100 1 5 ''s'' True True = Inr w4 \<and>
     wf_run demo_env w4 100 1 5 = Inr w5 \<and> wf_run demo_env w5 100 1 5 = Inl Freed"
proof -
  have f: "cb_fits demo_env cb_cells (cellbuf_invar 1) 1 0"
    using fmbuf_cellbuf [of 1] by (simp add: cb_fits_def demo_env_def)
  have s: "cb_silent demo_env" "pack_silent demo_env"
    by (auto simp: cb_silent_def pack_silent_def demo_env_def intro!: exI [of _ 1])
  have x: "tx_entity demo_txn2 = 1" "tx_state demo_txn2 = SK_TXN_PENDING" "tx_workflow_idx demo_txn2 = []"
    "tx_workflow demo_txn2 = demo_workflow"
    by (simp_all add: demo_txn2_eq demo_txn1_eq demo_txn_def sk_txn_create_def)
  have fl: "flow_ok cb_cells (cellbuf_invar 1) 2 demo_two 1 5 demo_txn2 demo_home"
    using demo_txn2_good x demo_flow_ok
    by (auto simp: flow_ok_def home_ok_def ent_ok_def queue_ok_def demo_two_def demo_entity_def demo_workflow_def)
  have m: "en_master demo_env = 100" by (simp add: demo_env_def)
  have r: "running_tasks demo_txn2 = {0, 1}"
    by (auto simp: running_tasks_def demo_txn2_eq demo_txn1_eq split: if_splits)
  have tk: "tx_task_tbl demo_txn2 0 = Some \<lparr>tk_id = 0, tk_start = 7, tk_end = 0, tk_data = demo_taskdata,
      tk_status = SK_TXN_TASK_RUNNING\<rparr>"
    "tx_task_tbl demo_txn2 1 = Some \<lparr>tk_id = 1, tk_start = 8, tk_end = 0,
      tk_data = demo_taskdata\<lparr>td_cb := None, td_task_id := 1\<rparr>, tk_status = SK_TXN_TASK_RUNNING\<rparr>"
    by (simp_all add: demo_txn2_eq demo_txn1_eq)
  have home: "sk_entity_sched demo_two 1 = Inr (Some 100)"
    by (simp add: sk_entity_sched_def demo_two_def demo_world_def demo_entity_def demo_mgr_def with_ent_def with_mgr_def)
  have y: "demo_task SK_QUEUE_ELEM_READ \<in> set [demo_task SK_QUEUE_ELEM_READ, demo_task SK_QUEUE_ELEM_READ]"
    "demo_task SK_QUEUE_ELEM_READ \<in> set (remove1 (demo_task SK_QUEUE_ELEM_READ) [demo_task SK_QUEUE_ELEM_READ, demo_task SK_QUEUE_ELEM_READ])"
    by simp_all
  show ?thesis
    using workflow_double_resume [OF demo_env_fits f s demo_svc_buf demo_two_inv y fl _ x(2,3) r _ tk(1) _ _ tk(2) _ _ home,
        of "''get''"] m
    by (simp add: demo_taskdata_def) blast
qed

end
