(* ===== verification/Unpack_Proofs.thy ===== *)
theory Unpack_Proofs
  imports Drivers
begin

text \<open>
  What unpacking makes of the bytes of an entity: properties of
  \<^verbatim>\<open>sk_driver_util_unpack\<close> and of the callbacks that run it.
\<close>

text \<open>
  The environment keeps its promises: the buffers obey their laws, the \<^verbatim>\<open>unpack\<close> function of a module
  appends at most \<open>n\<close> bytes and makes at most \<open>k\<close> calls, no log line is empty, and the buffer of
  the entity, looked at right after it was filled, holds what \<^verbatim>\<open>read\<close> says it does.
\<close>

definition unpack_fits :: "('b, 'o) sk_env \<Rightarrow> ('o \<Rightarrow> u8 list) \<Rightarrow> ('o \<Rightarrow> bool) \<Rightarrow> nat \<Rightarrow> nat \<Rightarrow> bool" where
  "unpack_fits E items invar n k \<longleftrightarrow> fmbuf (en_O E) 1 items invar \<and>
     (\<forall>m txn data. uprog_fits (snd (en_mod_unpack E m txn data)) n k) \<and> (\<forall>x y z. en_fmt_unpack E x y z \<noteq> []) \<and>
     (\<forall>i j a len. i < j \<and> j \<le> i + 2 \<longrightarrow> en_read E i a len \<le> int (length (en_rbufget E j a)))"

text \<open>A readable entity of a workflow whose first module is \<open>m\<close>.\<close>

definition readable :: "('b, 'o) world \<Rightarrow> addr \<Rightarrow> sk_entity \<Rightarrow> sk_workflow \<Rightarrow> sk_module \<Rightarrow> bool" where
  "readable w a e wflow m \<longleftrightarrow> w_ents w a = Some e \<and> e_workflow e = Some wflow \<and>
     sk_workflow_first_module wflow = Some m \<and> m_unpack m \<and>
     (\<exists>i j k l. opt_read (e_opt e) = Some (Fn i) \<and> opt_rbufsz (e_opt e) = Some (Fn j) \<and>
        opt_rbufget (e_opt e) = Some (Fn k) \<and> opt_rbufpop (e_opt e) = Some (Fn l))"

text \<open>The transaction that is being assembled: the one left from the last call, or a new one.\<close>

definition target :: "('b, 'o) world \<Rightarrow> sk_entity \<Rightarrow> addr" where
  "target w e = (case e_half_txn e of Some t \<Rightarrow> t | None \<Rightarrow> w_next w)"

definition half_ok :: "('o \<Rightarrow> u8 list) \<Rightarrow> ('o \<Rightarrow> bool) \<Rightarrow> nat \<Rightarrow> ('b, 'o) world \<Rightarrow> sk_entity \<Rightarrow> bool" where
  "half_ok items invar B w e \<longleftrightarrow> (\<forall>t. e_half_txn e = Some t \<longrightarrow>
     (\<exists>txn. w_txns w t = Some txn \<and> txn_good items invar B txn \<and> tx_state txn = SK_TXN_INIT))"

lemma txn_create_good:
  "fmbuf (en_O E) 1 items invar \<Longrightarrow> txn_good items invar B (sk_txn_create (en_O E) wflow a now)"
  using fmbuf.create [of "en_O E" 1 items invar]
  by (simp add: txn_good_def txn_create_ok, simp add: sk_txn_create_def sk_mbuf_create_def Let_def)

lemma upd2_refl_half:
  assumes "w_ents w a = Some e" "w_txns w t = Some txn" "e_half_txn e = Some t"
  shows "upd2 t a w txn (e\<lparr>e_half_txn := Some t\<rparr>) [] [] w"
  using assms by (auto simp: upd2_def fun_upd_idem)

lemma half_txn_ok:
  assumes "fmbuf (en_O E) 1 items invar" "half_ok items invar B w e" "w_ents w a = Some e"
  shows "\<exists>w' txn. half_txn E w a wflow = Inr (w', target w e) \<and>
    upd2 (target w e) a w txn (e\<lparr>e_half_txn := Some (target w e)\<rparr>) [] [] w' \<and>
    txn_good items invar B txn \<and> tx_state txn = SK_TXN_INIT \<and> w_tick w \<le> w_tick w' \<and> w_tick w' \<le> Suc (w_tick w) \<and>
    (case e_half_txn e of Some s \<Rightarrow> w_txns w s = Some txn
     | None \<Rightarrow> txn = sk_txn_create (en_O E) wflow a (sk_time_us E w))"
proof (cases "e_half_txn e")
  case None
  let ?x = "sk_txn_create (en_O E) wflow a (sk_time_us E w)"
  have "tx_state ?x = SK_TXN_INIT" by (simp add: sk_txn_create_def)
  with None assms(3) txn_create_good [OF assms(1), of B wflow a "sk_time_us E w"] show ?thesis
    by (intro exI2 [of _ "set_ent ((set_txn (tick w) (w_next w) ?x)\<lparr>w_next := Suc (w_next w)\<rparr>) a (e\<lparr>e_half_txn := Some (w_next w)\<rparr>)" ?x])
       (simp add: half_txn_def with_ent_def target_def Let_def sk_entity_sethalftxn_def upd2_def)
next
  case (Some t)
  then obtain txn where "w_txns w t = Some txn" "txn_good items invar B txn" "tx_state txn = SK_TXN_INIT"
    using assms(2) by (auto simp: half_ok_def)
  with Some assms(3) upd2_refl_half [OF assms(3)] show ?thesis
    by (intro exI2 [of _ w txn]) (simp add: half_txn_def with_ent_def target_def)
qed

text \<open>A complete package.\<close>

definition packaged :: "'o sk_txn \<Rightarrow> u8 list \<Rightarrow> 'o sk_txn \<Rightarrow> bool" where
  "packaged x data y \<longleftrightarrow> tx_state y = SK_TXN_UNPACKED \<and> tx_input y = Some data \<and> tx_workflow y = tx_workflow x \<and>
     tx_entity y = tx_entity x \<and> tx_workflow_idx y = tx_workflow_idx x \<and> tx_task_tbl x \<subseteq>\<^sub>m tx_task_tbl y"

lemma packaged_from: "same_core x0 x \<Longrightarrow> packaged x data y \<Longrightarrow> packaged x0 data y"
  by (auto simp: packaged_def same_core_def intro: map_le_trans)

lemma unpack_done_ok:
  assumes l: "fmbuf (en_O E) 1 items invar" "\<forall>x y z. en_fmt_unpack E x y z \<noteq> []"
    and t: "w_txns w t = Some x" "txn_good items invar B x" "B < 2 ^ 62" "tx_state x = SK_TXN_INIT"
    and e: "w_ents w a = Some e" "opt_rbufpop (e_opt e) = Some (Fn i)" and d: "data \<noteq> []"
  shows "\<exists>w' y. unpack_done E w a t m data c = Inr (w', c) \<and> packaged x data y \<and> txn_good items invar (B + 2047) y \<and>
    tx_output y = tx_output x \<and> tx_task_tbl y = tx_task_tbl x \<and> upd2 t a w y (e\<lparr>e_half_txn := None, e_iqueue := e_iqueue e @ [t]\<rparr>) []
      [Rbufpop a (nat c), Metric ''worker.request'', Metric ''global.request''] w'"
proof -
  let ?x = "in_state (x\<lparr>tx_input := Some data\<rparr>) SK_TXN_UNPACKED"
  let ?e = "e\<lparr>e_half_txn := None, e_iqueue := e_iqueue e @ [t]\<rparr>"
  let ?w = "set_ent (set_ent (set_txn (set_txn w t (x\<lparr>tx_input := Some data\<rparr>)) t ?x) a (e\<lparr>e_half_txn := None\<rparr>)) a ?e"
  have g: "txn_good items invar B ?x"
    using t(2) by (auto simp: txn_good_def in_state_def txn_tasks_ok_def running_tasks_def waited_tasks_def)
  have w: "w_txns (tick ?w) t = Some ?x" by simp
  obtain b where b: "log_add E (tick ?w) t (en_fmt_unpack E (m_name m) (tx_start_time x) (sk_txn_alivetime ?x (sk_time_us E ?w))) =
      Inr (set_txn (tick ?w) t (?x\<lparr>tx_transaction := b\<rparr>))" "txn_good items invar (B + 2047) (?x\<lparr>tx_transaction := b\<rparr>)"
    using log_add_ok [OF l(1) w g t(3)] l(2) by blast
  have "packaged x data (?x\<lparr>tx_transaction := b\<rparr>)" by (simp add: packaged_def in_state_def)
  moreover have "unpack_done E w a t m data c = Inr (fx (fx (set_txn (tick ?w) t (?x\<lparr>tx_transaction := b\<rparr>))
      [Rbufpop a (nat c)]) [Metric ''worker.request'', Metric ''global.request''], c)"
    using t(1,4) e d b(1)
    by (simp add: unpack_done_def with_txn_def sk_txn_set_input_def set_state_eq sk_entity_sethalftxn_def with_ent_def
        sk_entity_iqueue_push_def alivetime_eq sk_entity_rbufpop_def)
  ultimately show ?thesis using b(2)
    by (intro exI2 [of _ _ "?x\<lparr>tx_transaction := b\<rparr>"]) (auto simp: upd2_def)
qed

text \<open>
  An entity that is given up: its owner is told to destroy it, or it is no longer active. Nothing
  else of it changes for its transactions.
\<close>

definition given_up ::
  "addr \<Rightarrow> sk_entity \<Rightarrow> ('b, 'o) world \<Rightarrow> sk_event list \<Rightarrow> effect list \<Rightarrow> ('b, 'o) world \<Rightarrow> bool" where
  "given_up a e w evs fs w' \<longleftrightarrow> (\<exists>e'. w_ents w' = (w_ents w)(a \<mapsto> e') \<and> e_iqueue e' = e_iqueue e \<and>
     e_txns e' = e_txns e \<and> (\<forall>ev \<in> set evs. ev_msg ev = Entity_destroy \<and> ev_entity ev = a) \<and>
     (evs \<noteq> [] \<or> e_status e' \<noteq> SK_ENTITY_ACTIVE) \<and> set fs \<subseteq> {Opt_destroy a (e_ud e)})"

lemma safe_destroy_gives_up:
  assumes e: "w_ents w a = Some e" "e_owner e = Some m" "w_mgrs w m \<noteq> None"
  shows "\<exists>w' r evs fs. sk_entity_safe_destroy E w cur a = Inr (w', r) \<and> w_txns w' = w_txns w \<and> w_svcs w' = w_svcs w \<and>
    w_sends w' = w_sends w @ evs \<and> w_fx w' = w_fx w @ fs \<and> given_up a e w evs fs w'"
proof -
  obtain mgr where mgr: "w_mgrs w m = Some mgr" using e(3) by auto
  have id: "(w_ents w)(a \<mapsto> e) = w_ents w" using e(1) by auto
  show ?thesis
    using e mgr id
    by (auto simp: sk_entity_safe_destroy_def with_ent_def with_mgr_def sk_entity_mgr_del_def sk_entity_mark_def
        sk_entity_destroy_def Let_def fx_def set_ent_def set_mgr_def send_def given_up_def intro: exI [of _ e])
qed

text \<open>
  The module \<open>m\<close> is asked about what was read (\<open>bytes\<close> bytes, looked at at the instant \<open>i\<close>) for the
  transaction \<open>x0\<close>, answers \<open>c\<close> and makes \<open>x\<close> of the transaction; \<open>io\<close> are the calls of services it
  makes.
\<close>

definition module_unpacks ::
  "('b, 'o) sk_env \<Rightarrow> ('o \<Rightarrow> u8 list) \<Rightarrow> addr \<Rightarrow> addr \<Rightarrow> sk_module \<Rightarrow> 'o sk_txn \<Rightarrow> int \<Rightarrow> nat \<Rightarrow> int \<Rightarrow> sk_event list \<Rightarrow>
   'o sk_txn \<Rightarrow> bool" where
  "module_unpacks E items a t m x0 bytes i c io x \<longleftrightarrow> (\<exists>p out q ret.
     en_mod_unpack E m x0 (take (nat bytes) (en_rbufget E i a)) = (c, p) \<and> uprog_out p out q ret \<and>
     items (tx_output x) = items (tx_output x0) @ out \<and> calls_only q io x0 x \<and> (\<forall>ev \<in> set io. iocall_event E t ev))"

text \<open>The transaction to go on with: the one that the last call left, or a new one.\<close>

definition resumed :: "('b, 'o) sk_env \<Rightarrow> ('b, 'o) world \<Rightarrow> addr \<Rightarrow> sk_entity \<Rightarrow> 'o sk_txn \<Rightarrow> bool" where
  "resumed E w a e x0 \<longleftrightarrow> (case e_half_txn e of Some s \<Rightarrow> w_txns w s = Some x0
     | None \<Rightarrow> x0 = sk_txn_create (en_O E) (the (e_workflow e)) a (sk_time_us E (tick w)))"

text \<open>
  The three ways in which a call of \<^verbatim>\<open>sk_driver_util_unpack\<close> can end, by the answer of the module:
  \<open>r\<close> is what it returns.
\<close>

definition unpack_post ::
  "('b, 'o) sk_env \<Rightarrow> ('o \<Rightarrow> u8 list) \<Rightarrow> ('o \<Rightarrow> bool) \<Rightarrow> nat \<Rightarrow> addr \<Rightarrow> addr \<Rightarrow> ('b, 'o) world \<Rightarrow> sk_entity \<Rightarrow> sk_module \<Rightarrow>
   int \<Rightarrow> ('b, 'o) world \<Rightarrow> int \<Rightarrow> bool" where
  "unpack_post E items invar B a t w e m bytes w' r \<longleftrightarrow> (\<exists>x0 i c io x. resumed E w a e x0 \<and>
     module_unpacks E items a t m x0 bytes i c io x \<and> w_txns w' = (w_txns w)(t \<mapsto> x) \<and> txn_good items invar B x \<and>
     (if 0 < c then r = c \<and> packaged x0 (take (nat bytes) (en_rbufget E i a)) x \<and>
          w_ents w' = (w_ents w)(a \<mapsto> e\<lparr>e_half_txn := None, e_iqueue := e_iqueue e @ [t]\<rparr>) \<and>
          w_sends w' = w_sends w @ io \<and> w_fx w' = w_fx w @ [Unpack_module (m_addr m) t, Stat_unpack (m_addr m),
            Rbufpop a (nat c), Metric ''worker.request'', Metric ''global.request'']
      else if c = 0 then r = 0 \<and> same_core x0 x \<and> w_ents w' = (w_ents w)(a \<mapsto> e\<lparr>e_half_txn := Some t\<rparr>) \<and> w_mgrs w' = w_mgrs w \<and>
          w_sends w' = w_sends w @ io \<and> w_fx w' = w_fx w @ [Unpack_module (m_addr m) t, Stat_unpack (m_addr m)]
      else r = - 1 \<and> same_core x0 x \<and> (\<exists>evs fs. given_up a e w evs fs w' \<and> w_sends w' = w_sends w @ io @ evs \<and>
          w_fx w' = w_fx w @ [Unpack_module (m_addr m) t, Stat_unpack (m_addr m)] @ fs)))"

text \<open>What follows the call of the user, in the world \<open>w1\<close> that it leaves.\<close>

lemma unpack_tail:
  assumes E: "unpack_fits E items invar n k" and B: "B + 2047 < 2 ^ 62"
    and u: "upd2 t a w x (e\<lparr>e_half_txn := Some t\<rparr>) io [Unpack_module (m_addr m) t, Stat_unpack (m_addr m)] w1"
      "txn_good items invar B x" "tx_state x = SK_TXN_INIT"
    and m: "resumed E w a e x0" "module_unpacks E items a t m x0 bytes i c io x" "same_core x0 x"
    and e: "opt_rbufpop (e_opt e) = Some (Fn j)" "e_owner e = Some mg" "w_mgrs w mg \<noteq> None"
    and d: "data = take (nat bytes) (en_rbufget E i a)" "data \<noteq> []"
  shows "ok (if c = 0 then Inr (w1, 0)
       else if c < 0 then rbind (sk_entity_safe_destroy E w1 cur a) (\<lambda>(w, _). Inr (w, - 1))
       else unpack_done E w1 a t m data c)
    (\<lambda>(w', r). unpack_post E items invar (B + 2047) a t w e m bytes w' r)"
proof -
  let ?e = "e\<lparr>e_half_txn := Some t\<rparr>" and ?U = "[Unpack_module (m_addr m) t, Stat_unpack (m_addr m)]"
  have l: "fmbuf (en_O E) 1 items invar" "\<forall>x y z. en_fmt_unpack E x y z \<noteq> []"
    using E by (auto simp: unpack_fits_def)
  have w1: "w_txns w1 = (w_txns w)(t \<mapsto> x)" "w_ents w1 = (w_ents w)(a \<mapsto> ?e)" "w_mgrs w1 = w_mgrs w"
    "w_sends w1 = w_sends w @ io" "w_fx w1 = w_fx w @ ?U"
    using u(1) by (simp_all add: upd2_def)
  note g = txn_good_mono [OF u(2), of "B + 2047"]
  consider "c = 0" | "c < 0" | "0 < c" by linarith
  then show ?thesis
  proof cases
    case 1
    have "unpack_post E items invar (B + 2047) a t w e m bytes w1 0"
      unfolding unpack_post_def using 1 w1 g m
      by (intro exI3 [of _ x0 i c] exI2 [of _ io x]) simp
    with 1 show ?thesis by simp
  next
    case 2
    have "w_ents w1 a = Some ?e" "e_owner ?e = Some mg" "w_mgrs w1 mg \<noteq> None" using w1 e by simp_all
    from safe_destroy_gives_up [OF this, of E cur] obtain w' r evs fs where
      d: "sk_entity_safe_destroy E w1 cur a = Inr (w', r)" "w_txns w' = w_txns w1" "w_sends w' = w_sends w1 @ evs"
      "w_fx w' = w_fx w1 @ fs" "given_up a ?e w1 evs fs w'" by blast
    have "given_up a e w evs fs w'" using d(5) w1(2) by (auto simp: given_up_def)
    then have "unpack_post E items invar (B + 2047) a t w e m bytes w' (- 1)"
      unfolding unpack_post_def using 2 w1 g m d(2-4)
      by (intro exI3 [of _ x0 i c] exI2 [of _ io x]) (auto intro!: exI2 [of _ evs fs])
    with 2 d(1) show ?thesis by simp
  next
    case 3
    have "w_txns w1 t = Some x" "w_ents w1 a = Some ?e" "opt_rbufpop (e_opt ?e) = Some (Fn j)" "B < 2 ^ 62"
      using w1 e B by simp_all
    then obtain w' y where y: "unpack_done E w1 a t m data c = Inr (w', c)" "packaged x data y" "txn_good items invar (B + 2047) y"
      "tx_output y = tx_output x" "tx_task_tbl y = tx_task_tbl x"
      "upd2 t a w1 y (?e\<lparr>e_half_txn := None, e_iqueue := e_iqueue ?e @ [t]\<rparr>) []
        [Rbufpop a (nat c), Metric ''worker.request'', Metric ''global.request''] w'"
      using unpack_done_ok [OF l, of w1 t x B a ?e j data m c] u(2,3) d(2) by blast
    have mu: "module_unpacks E items a t m x0 bytes i c io y"
      using m(2) y(4,5) by (simp add: module_unpacks_def calls_only_def)
    have "unpack_post E items invar (B + 2047) a t w e m bytes w' c"
      unfolding unpack_post_def using 3 y(3,6) w1 m(1) mu packaged_from [OF m(3) y(2)] d(1)
      by (intro exI3 [of _ x0 i c] exI2 [of _ io y]) (simp add: upd2_def)
    with 3 y(1) show ?thesis by simp
  qed
qed

definition read_len :: "('b, 'o) sk_env \<Rightarrow> ('b, 'o) world \<Rightarrow> addr \<Rightarrow> nat" where
  "read_len E w a = (if en_rbufsz E (w_tick w) a = 0 then SK_DEFAULT_READBUF_LEN
     else en_rbufsz E (w_tick w) a * SK_DEFAULT_READBUF_FACTOR)"

lemma upd2_trans: "upd2 t a w x e evs es w1 \<Longrightarrow> upd t w1 y evs' es' w2 \<Longrightarrow> upd2 t a w y e (evs @ evs') (es @ es') w2"
  by (simp add: upd2_def upd_def)

lemma unpack_ok:
  assumes E: "unpack_fits E items invar n k" and r: "readable w a e wflow m" and h: "half_ok items invar B w e"
    and bytes: "0 < en_read E (w_tick w) a (read_len E w a)" and B: "B + n + k + 2047 < 2 ^ 62"
    and o: "e_owner e = Some mg" "w_mgrs w mg \<noteq> None"
  shows "ok (sk_driver_util_unpack E w cur a) (\<lambda>(w', r).
    unpack_post E items invar (B + n + k + 2047) a (target w e) w e m (en_read E (w_tick w) a (read_len E w a)) w' r)"
proof -
  let ?b = "en_read E (w_tick w) a (read_len E w a)" and ?t = "target w e"
  have l: "fmbuf (en_O E) 1 items invar" and fit: "\<And>m x d. uprog_fits (snd (en_mod_unpack E m x d)) n k"
    and buf: "\<And>j. w_tick w < j \<and> j \<le> w_tick w + 2 \<Longrightarrow> ?b \<le> int (length (en_rbufget E j a))"
    using E by (simp_all add: unpack_fits_def)
  obtain i where e: "w_ents w a = Some e" "e_workflow e = Some wflow" "sk_workflow_first_module wflow = Some m" "m_unpack m"
    "opt_rbufpop (e_opt e) = Some (Fn i)"
    using r by (auto simp: readable_def)
  have h': "half_ok items invar B (tick w) e" "w_ents (tick w) a = Some e" "target (tick w) e = ?t"
    using h e by (auto simp: half_ok_def target_def tick_def split: option.split)
  obtain w1 x where x: "half_txn E (tick w) a wflow = Inr (w1, ?t)" "upd2 ?t a (tick w) x (e\<lparr>e_half_txn := Some ?t\<rparr>) [] [] w1"
    "txn_good items invar B x" "tx_state x = SK_TXN_INIT" "resumed E w a e x"
    "w_tick w < w_tick w1 \<and> w_tick w1 \<le> w_tick w + 2"
    using half_txn_ok [OF l h'(1,2), of wflow] h'(3) e(2) by (auto simp: resumed_def split: option.splits)
  let ?data = "take (nat ?b) (en_rbufget E (w_tick w1) a)"
  have d: "?data \<noteq> []" using buf [OF x(6)] bytes by (auto simp: take_eq_Nil)
  obtain c p where cp: "en_mod_unpack E m x ?data = (c, p)" by fastforce
  let ?w1 = "fx w1 [Unpack_module (m_addr m) ?t]"
  have w1: "w_txns ?w1 ?t = Some x" using x(2) by (simp add: upd2_def)
  have pf: "uprog_fits p n k" using fit [of m x ?data] cp by simp
  have "ok (run_uprog E ?w1 cur ?t p) (\<lambda>(w2, _). ok (let w = fx w2 [Stat_unpack (m_addr m)]
      in if c = 0 then Inr (w, 0)
         else if c < 0 then rbind (sk_entity_safe_destroy E w cur a) (\<lambda>(w, _). Inr (w, - 1))
         else unpack_done E w a ?t m ?data c) (\<lambda>(w', r). unpack_post E items invar (B + n + k + 2047) a ?t w e m ?b w' r))"
  proof (rule ok_mono [OF uprog_out_ok [OF l w1 x(3) pf]], goal_cases)
    case (2 q)
    obtain w2 ret where q: "q = (w2, ret)" by (cases q)
    from 2 obtain y io out d where y: "upd ?t ?w1 y io [] w2" "txn_good items invar (B + n + k) y" "same_core x y"
      "\<forall>ev \<in> set io. iocall_event E ?t ev" "items (tx_output y) = items (tx_output x) @ out" "uprog_out p out d ret"
      "calls_only d io x y"
      by (auto simp: q)
    have mu: "module_unpacks E items a ?t m x ?b (w_tick w1) c io y"
      unfolding module_unpacks_def using cp y(4-7) by blast
    have "upd2 ?t a w y (e\<lparr>e_half_txn := Some ?t\<rparr>) io [Unpack_module (m_addr m) ?t, Stat_unpack (m_addr m)] (fx w2 [Stat_unpack (m_addr m)])"
      using x(2) y(1) by (simp add: upd2_def upd_def)
    moreover have "tx_state y = SK_TXN_INIT" using y(3) x(4) by (simp add: same_core_def)
    ultimately show ?case
      unfolding q prod.case Let_def by (rule unpack_tail [OF E B _ y(2) _ x(5) mu y(3) e(5) o refl d])
  qed (use B in simp)
  moreover have "sk_driver_util_unpack E w cur a = rbind (run_uprog E ?w1 cur ?t p) (\<lambda>(w2, _). let w = fx w2 [Stat_unpack (m_addr m)]
      in if c = 0 then Inr (w, 0)
         else if c < 0 then rbind (sk_entity_safe_destroy E w cur a) (\<lambda>(w, _). Inr (w, - 1))
         else unpack_done E w a ?t m ?data c)"
  proof -
    obtain i1 i2 i3 where f: "opt_read (e_opt e) = Some (Fn i1)" "opt_rbufsz (e_opt e) = Some (Fn i2)" "opt_rbufget (e_opt e) = Some (Fn i3)"
      using r by (auto simp: readable_def)
    have w1': "w_txns w1 ?t = Some x" "w_ents w1 a = Some (e\<lparr>e_half_txn := Some ?t\<rparr>)" using x(2) by (simp_all add: upd2_def)
    show ?thesis
      using e f w1' x(1) bytes
      by (simp add: sk_driver_util_unpack_def with_ent_def sk_entity_rbufsz_def sk_entity_read_def read_len_def [symmetric]
          sk_entity_rbufget_def with_txn_def cp Let_def)
  qed
  ultimately show ?thesis by (simp add: case_prod_unfold)
qed

section \<open>Packages in pieces\<close>

text \<open>
  One call of \<^verbatim>\<open>sk_driver_util_unpack\<close> for each time bytes arrive, at most \<open>Suc n\<close> of them, until one
  returns something else than 0.
\<close>

fun unpack_calls ::
  "('b, 'o) sk_env \<Rightarrow> addr \<Rightarrow> addr \<Rightarrow> nat \<Rightarrow> ('b, 'o) world \<Rightarrow> (('b, 'o) world \<times> int) res" where
  "unpack_calls E cur a 0 w = sk_driver_util_unpack E w cur a"
| "unpack_calls E cur a (Suc n) w = rbind (sk_driver_util_unpack E w cur a) (\<lambda>(w, r).
     if r \<noteq> 0 then Inr (w, r) else unpack_calls E cur a n w)"

text \<open>The numbers of bytes that were removed from buffers, in order.\<close>

definition popped :: "effect list \<Rightarrow> nat list" where
  "popped es = concat (map (\<lambda>f. case f of Rbufpop _ c \<Rightarrow> [c] | _ \<Rightarrow> []) es)"

lemma popped_simps [simp]:
  "popped [] = []" "popped (es @ fs) = popped es @ popped fs"
  "popped (Unpack_module m t # es) = popped es" "popped (Stat_unpack m # es) = popped es"
  "popped (Rbufpop b c # es) = c # popped es" "popped (Metric s # es) = popped es"
  by (simp_all add: popped_def)

lemma popped_destroy: "set fs \<subseteq> {Opt_destroy a d} \<Longrightarrow> popped fs = []"
  by (auto simp: popped_def)

text \<open>The calls of the \<^verbatim>\<open>unpack\<close> function of a module, in order: the module and the transaction.\<close>

definition asked :: "effect list \<Rightarrow> (addr \<times> addr) list" where
  "asked es = concat (map (\<lambda>f. case f of Unpack_module m t \<Rightarrow> [(m, t)] | _ \<Rightarrow> []) es)"

lemma asked_simps [simp]:
  "asked [] = []" "asked (es @ fs) = asked es @ asked fs"
  "asked (Unpack_module m t # es) = (m, t) # asked es" "asked (Stat_unpack m # es) = asked es"
  "asked (Rbufpop b c # es) = asked es" "asked (Metric s # es) = asked es"
  by (simp_all add: asked_def)

lemma asked_destroy: "set fs \<subseteq> {Opt_destroy a d} \<Longrightarrow> asked fs = []"
  by (auto simp: asked_def)

text \<open>The module is shown the bytes \<open>bs\<close>, which the entity has read, and answers \<open>c\<close>.\<close>

definition offered :: "('b, 'o) sk_env \<Rightarrow> sk_module \<Rightarrow> addr \<Rightarrow> u8 list \<Rightarrow> int \<Rightarrow> bool" where
  "offered E m a bs c \<longleftrightarrow> (\<exists>x i j l. bs = take (nat (en_read E i a l)) (en_rbufget E j a) \<and> fst (en_mod_unpack E m x bs) = c)"

text \<open>
  Up to \<open>Suc n\<close> answers: all but the last ask for more bytes, the last decides what is returned, and
  0 is returned only when there is no further call to come.
\<close>

definition offers :: "('b, 'o) sk_env \<Rightarrow> sk_module \<Rightarrow> addr \<Rightarrow> nat \<Rightarrow> u8 list list \<Rightarrow> int \<Rightarrow> bool" where
  "offers E m a n bss r \<longleftrightarrow> bss \<noteq> [] \<and> length bss \<le> Suc n \<and> (r = 0 \<longrightarrow> length bss = Suc n) \<and>
     (\<forall>bs \<in> set (butlast bss). offered E m a bs 0) \<and> (\<exists>c. offered E m a (last bss) c \<and> r = (if c < 0 then - 1 else c))"

lemma offers_one: "offered E m a bs c \<Longrightarrow> r = (if c < 0 then - 1 else c) \<Longrightarrow> n = 0 \<or> r \<noteq> 0 \<Longrightarrow> offers E m a n [bs] r"
  by (auto simp: offers_def)

lemma offers_more: "offers E m a 0 [bs] 0 \<Longrightarrow> offers E m a n bss r \<Longrightarrow> offers E m a (Suc n) (bs # bss) r"
  by (auto simp: offers_def split: if_splits)

text \<open>What some calls have made of the transaction \<open>t\<close> and of the entity, when the last returned \<open>r\<close>.\<close>

definition pieces_post ::
  "('b, 'o) sk_env \<Rightarrow> sk_module \<Rightarrow> nat \<Rightarrow> addr \<Rightarrow> addr \<Rightarrow> ('b, 'o) world \<Rightarrow> sk_entity \<Rightarrow> ('b, 'o) world \<Rightarrow> int \<Rightarrow> bool" where
  "pieces_post E m n a t w e w' r \<longleftrightarrow> (\<exists>bss x e' es. offers E m a n bss r \<and> asked es = replicate (length bss) (m_addr m, t) \<and>
     (0 < r \<longrightarrow> tx_input x = Some (last bss)) \<and>
     w_txns w' = (w_txns w)(t \<mapsto> x) \<and> w_ents w' = (w_ents w)(a \<mapsto> e') \<and> w_fx w' = w_fx w @ es \<and>
     (if 0 < r then tx_state x = SK_TXN_UNPACKED \<and> e_iqueue e' = e_iqueue e @ [t] \<and> e_half_txn e' = None \<and>
          popped es = [nat r]
      else if r = 0 then tx_state x = SK_TXN_INIT \<and> e_iqueue e' = e_iqueue e \<and> e_half_txn e' = Some t \<and> popped es = []
      else e_iqueue e' = e_iqueue e \<and> popped es = []))"

lemma resumed_init: "resumed E w a e x0 \<Longrightarrow> half_ok items invar B w e \<Longrightarrow> tx_state x0 = SK_TXN_INIT"
  by (auto simp: resumed_def half_ok_def sk_txn_create_def split: option.splits)

lemma post_pieces:
  assumes "unpack_post E items invar B a t w e m bytes w' r" "half_ok items invar B0 w e" "bytes = en_read E h a l"
    and "n = 0 \<or> r \<noteq> 0"
  shows "pieces_post E m n a t w e w' r"
proof -
  obtain x0 i c io x where p: "resumed E w a e x0" "w_txns w' = (w_txns w)(t \<mapsto> x)"
    "module_unpacks E items a t m x0 bytes i c io x"
    "if 0 < c then r = c \<and> packaged x0 (take (nat bytes) (en_rbufget E i a)) x \<and>
          w_ents w' = (w_ents w)(a \<mapsto> e\<lparr>e_half_txn := None, e_iqueue := e_iqueue e @ [t]\<rparr>) \<and>
          w_sends w' = w_sends w @ io \<and> w_fx w' = w_fx w @ [Unpack_module (m_addr m) t, Stat_unpack (m_addr m),
            Rbufpop a (nat c), Metric ''worker.request'', Metric ''global.request'']
      else if c = 0 then r = 0 \<and> same_core x0 x \<and> w_ents w' = (w_ents w)(a \<mapsto> e\<lparr>e_half_txn := Some t\<rparr>) \<and>
          w_mgrs w' = w_mgrs w \<and>
          w_sends w' = w_sends w @ io \<and> w_fx w' = w_fx w @ [Unpack_module (m_addr m) t, Stat_unpack (m_addr m)]
      else r = - 1 \<and> same_core x0 x \<and> (\<exists>evs fs. given_up a e w evs fs w' \<and> w_sends w' = w_sends w @ io @ evs \<and>
          w_fx w' = w_fx w @ [Unpack_module (m_addr m) t, Stat_unpack (m_addr m)] @ fs)"
    using assms(1) unfolding unpack_post_def by blast
  have st: "tx_state x0 = SK_TXN_INIT" by (rule resumed_init [OF p(1) assms(2)])
  let ?bs = "take (nat bytes) (en_rbufget E i a)" and ?U = "[Unpack_module (m_addr m) t, Stat_unpack (m_addr m)]"
  obtain q where "en_mod_unpack E m x0 ?bs = (c, q)" using p(3) by (auto simp: module_unpacks_def)
  then have "offered E m a ?bs c"
    unfolding offered_def assms(3) by (intro exI [of _ x0] exI3 [of _ h i l]) simp
  moreover have "r = (if c < 0 then - 1 else c)" using p(4) by (auto split: if_splits)
  ultimately have o: "offers E m a n [?bs] r" using assms(4) by (rule offers_one)
  consider "0 < c" | "c = 0" | "c < 0" by linarith
  then show ?thesis
  proof cases
    case 3
    then obtain evs fs e' where "given_up a e w evs fs w'" "w_ents w' = (w_ents w)(a \<mapsto> e')" "e_iqueue e' = e_iqueue e"
      "w_fx w' = w_fx w @ ?U @ fs" "set fs \<subseteq> {Opt_destroy a (e_ud e)}" "r = - 1" using p(4) by (auto simp: given_up_def)
    with p(2) o popped_destroy asked_destroy show ?thesis
      unfolding pieces_post_def by (intro exI [of _ "[?bs]"] exI3 [of _ x e' "?U @ fs"]) simp
  next
    case 1
    with p(2,4) o show ?thesis
      unfolding pieces_post_def packaged_def
      by (intro exI [of _ "[?bs]"] exI3 [of _ x "e\<lparr>e_half_txn := None, e_iqueue := e_iqueue e @ [t]\<rparr>"
        "?U @ [Rbufpop a (nat c), Metric ''worker.request'', Metric ''global.request'']"]) simp
  next
    case 2
    with p(2,4) st o show ?thesis
      unfolding pieces_post_def same_core_def
      by (intro exI [of _ "[?bs]"] exI3 [of _ x "e\<lparr>e_half_txn := Some t\<rparr>" "?U"]) simp
  qed
qed

lemma pieces_trans:
  assumes "pieces_post E m 0 a t w e w1 0" "w_ents w1 a = Some e1" "pieces_post E m n a t w1 e1 w' r"
  shows "pieces_post E m (Suc n) a t w e w' r"
proof -
  obtain bs x0 es where 1: "offers E m a 0 [bs] 0" "asked es = [(m_addr m, t)]" "popped es = []" "w_txns w1 = (w_txns w)(t \<mapsto> x0)"
    "w_ents w1 = (w_ents w)(a \<mapsto> e1)" "e_iqueue e1 = e_iqueue e" "w_fx w1 = w_fx w @ es"
  proof -
    obtain bss x0 e0 es where q: "offers E m a 0 bss 0" "asked es = replicate (length bss) (m_addr m, t)" "popped es = []"
      "w_txns w1 = (w_txns w)(t \<mapsto> x0)" "w_ents w1 = (w_ents w)(a \<mapsto> e0)" "e_iqueue e0 = e_iqueue e" "w_fx w1 = w_fx w @ es"
      using assms(1) unfolding pieces_post_def by auto
    then obtain bs where "bss = [bs]" by (cases bss) (auto simp: offers_def)
    with q assms(2) that show thesis by simp
  qed
  obtain bss x e' es' where 2: "offers E m a n bss r" "asked es' = replicate (length bss) (m_addr m, t)"
    "0 < r \<longrightarrow> tx_input x = Some (last bss)" "w_txns w' = (w_txns w1)(t \<mapsto> x)" "w_ents w' = (w_ents w1)(a \<mapsto> e')" "w_fx w' = w_fx w1 @ es'"
    "if 0 < r then tx_state x = SK_TXN_UNPACKED \<and> e_iqueue e' = e_iqueue e1 @ [t] \<and> e_half_txn e' = None \<and> popped es' = [nat r]
      else if r = 0 then tx_state x = SK_TXN_INIT \<and> e_iqueue e' = e_iqueue e1 \<and> e_half_txn e' = Some t \<and> popped es' = []
      else e_iqueue e' = e_iqueue e1 \<and> popped es' = []"
    using assms(3) unfolding pieces_post_def by blast
  have "bss \<noteq> []" using 2(1) by (simp add: offers_def)
  with 1 2 offers_more [OF 1(1) 2(1)] show ?thesis
    unfolding pieces_post_def by (intro exI [of _ "bs # bss"] exI3 [of _ x e' "es @ es'"]) simp
qed

lemma pieces_ok:
  assumes "unpack_fits E items invar n k" and "\<And>i l. 0 < en_read E i a l"
    and "readable w a e wflow m" and "half_ok items invar B w e" and "B + Suc N * (n + k + 2047) < 2 ^ 62"
    and "e_owner e = Some mg" "w_mgrs w mg \<noteq> None"
  shows "\<exists>w' r. unpack_calls E cur a N w = Inr (w', r) \<and> pieces_post E m N a (target w e) w e w' r"
  using assms(3-)
proof (induction N arbitrary: w e B)
  case 0
  have B: "B + n + k + 2047 < 2 ^ 62" using "0.prems"(3) by simp
  obtain w1 r where w1: "sk_driver_util_unpack E w cur a = Inr (w1, r)"
    "unpack_post E items invar (B + n + k + 2047) a (target w e) w e m (en_read E (w_tick w) a (read_len E w a)) w1 r"
    using unpack_ok [OF assms(1) "0.prems"(1,2) assms(2) B "0.prems"(4,5), of cur] by (auto simp: ok_def)
  from post_pieces [OF w1(2) "0.prems"(2) refl, of 0] w1(1) show ?case by simp
next
  case (Suc N)
  have B: "B + n + k + 2047 < 2 ^ 62" "B + n + k + 2047 + Suc N * (n + k + 2047) < 2 ^ 62" using Suc.prems(3) by simp_all
  let ?t = "target w e" and ?B = "B + n + k + 2047"
  obtain w1 r where w1: "sk_driver_util_unpack E w cur a = Inr (w1, r)"
    "unpack_post E items invar ?B a ?t w e m (en_read E (w_tick w) a (read_len E w a)) w1 r"
    using unpack_ok [OF assms(1) Suc.prems(1,2) assms(2) B(1) Suc.prems(4,5), of cur] by (auto simp: ok_def)
  note p = post_pieces [OF w1(2) Suc.prems(2) refl]
  show ?case
  proof (cases "r = 0")
    case False
    with w1(1) p [of "Suc N"] show ?thesis by simp
  next
    case True
    let ?e = "e\<lparr>e_half_txn := Some ?t\<rparr>"
    obtain x0 x where x: "resumed E w a e x0" "same_core x0 x" "w_txns w1 = (w_txns w)(?t \<mapsto> x)" "txn_good items invar ?B x"
      "w_ents w1 = (w_ents w)(a \<mapsto> ?e)" "w_mgrs w1 = w_mgrs w"
      using w1(2) True unfolding unpack_post_def by (auto split: if_splits)
    have r1: "readable w1 a ?e wflow m" using Suc.prems(1) x(5) by (simp add: readable_def)
    have h1: "half_ok items invar ?B w1 ?e"
      using x(2-4) resumed_init [OF x(1) Suc.prems(2)] by (simp add: half_ok_def same_core_def)
    have t1: "target w1 ?e = ?t" by (simp add: target_def)
    have o: "e_owner ?e = Some mg" "w_mgrs w1 mg \<noteq> None" using Suc.prems(4,5) x(6) by simp_all
    obtain w' q where w': "unpack_calls E cur a N w1 = Inr (w', q)" "pieces_post E m N a ?t w1 ?e w' q"
      using Suc.IH [OF r1 h1 B(2) o] t1 by auto
    have "w_ents w1 a = Some ?e" using x(5) by simp
    from pieces_trans [OF p [of 0, unfolded True, simplified] this w'(2)] w1(1) w'(1) True show ?thesis by simp
  qed
qed

section \<open>Properties\<close>

text \<open>
  C20: unpacking assembles requests. When the entity has bytes, a call of
  \<^verbatim>\<open>sk_driver_util_unpack\<close> never aborts and asks the \<^verbatim>\<open>unpack\<close> function of the first module exactly once,
  with everything that was read and with the transaction that the last call left, or a new one. If the
  module takes \<open>c > 0\<close> bytes, that transaction, with the bytes as its input, becomes the last of the input
  queue, exactly \<open>c\<close> bytes are removed from the buffer, the entity starts afresh and \<open>c\<close> is returned; if it
  needs more (\<open>0\<close>), the transaction stays with the entity for the next call and nothing is removed;
  if it fails, \<open>-1\<close> is returned, nothing is queued and the entity is given up. Other transactions and
  entities are untouched.
\<close>
theorem unpack_assembles_requests:
  assumes "unpack_fits E items invar n k" and "readable w a e wflow m" and "half_ok items invar B w e"
    and "0 < en_read E (w_tick w) a (read_len E w a)" and "B + n + k + 2047 < 2 ^ 62"
    and "e_owner e = Some mg" "w_mgrs w mg \<noteq> None"
  shows "\<exists>w' r. sk_driver_util_unpack E w cur a = Inr (w', r) \<and>
    unpack_post E items invar (B + n + k + 2047) a (target w e) w e m (en_read E (w_tick w) a (read_len E w a)) w' r"
  using unpack_ok [OF assms, of cur] by (auto simp: ok_def)

definition demo_reader :: sk_entity where
  "demo_reader = (demo_entity (Some 10) SK_ENTITY_ACTIVE [] [])\<lparr>e_opt := sk_entity_evb_ops\<rparr>"

definition demo_read_env :: "(sk_srv_task cellbuf, u8 cellbuf) sk_env" where
  "demo_read_env = demo_env\<lparr>en_read := (\<lambda>_ _ _. 3), en_rbufget := (\<lambda>_ _. [7, 8, 9]),
     en_mod_unpack := (\<lambda>_ _ data. (2, Ret 0)), en_fmt_unpack := (\<lambda>_ _ _. [1])\<rparr>"

theorem unpack_assembles_requests_witness:
  "\<exists>w' r. sk_driver_util_unpack demo_read_env (set_ent demo_world 1 demo_reader) 100 1 = Inr (w', r) \<and>
     unpack_post demo_read_env cb_cells (cellbuf_invar 1) 2047 1 (target demo_world demo_reader)
       (set_ent demo_world 1 demo_reader) demo_reader (demo_module 1) 3 w' r"
proof -
  have "fmbuf (en_O demo_read_env) 1 cb_cells (cellbuf_invar 1)"
    using fmbuf_cellbuf [of 1] by (simp add: demo_read_env_def demo_env_def)
  then have E: "unpack_fits demo_read_env cb_cells (cellbuf_invar 1) 0 0"
    by (simp add: unpack_fits_def demo_read_env_def)
  have r: "readable (set_ent demo_world 1 demo_reader) 1 demo_reader demo_workflow (demo_module 1)"
    by (simp add: readable_def demo_reader_def demo_entity_def sk_entity_evb_ops_def demo_workflow_def demo_module_def
        sk_workflow_first_module_def)
  have h: "half_ok cb_cells (cellbuf_invar 1) 0 (set_ent demo_world 1 demo_reader) demo_reader"
    by (simp add: half_ok_def demo_reader_def demo_entity_def)
  have t: "target (set_ent demo_world 1 demo_reader) demo_reader = target demo_world demo_reader"
    by (simp add: target_def demo_reader_def demo_entity_def set_ent_def)
  have rd: "en_read demo_read_env i j l = 3" for i j l by (simp add: demo_read_env_def)
  have o: "e_owner demo_reader = Some 10" "w_mgrs (set_ent demo_world 1 demo_reader) 10 \<noteq> None"
    by (simp_all add: demo_reader_def demo_entity_def demo_world_def)
  show ?thesis using unpack_assembles_requests [OF E r h _ _ o, of 100] unfolding rd t by simp
qed

text \<open>
  C21: a package may come in any number of pieces. Over up to \<open>Suc N\<close> calls the module is asked once in each, always
  about the same transaction. As long as it answers 0 the calls go on and nothing is removed from the
  buffer; its last answer decides the result. If it takes \<open>r > 0\<close> bytes, that transaction, and only it, is appended to the
  input queue with the bytes last shown to the module as its input, \<open>r\<close> bytes are removed once, and no half
  transaction is left; if it fails, \<open>-1\<close> is returned and nothing is queued or removed; and 0 is returned only
  when it has asked for more every time. No other transaction and no other entity changes.
\<close>
theorem unpack_in_pieces:
  assumes "unpack_fits E items invar n k" and "\<And>i l. 0 < en_read E i a l"
    and "readable w a e wflow m" and "half_ok items invar B w e" and "B + Suc N * (n + k + 2047) < 2 ^ 62"
    and "e_owner e = Some mg" "w_mgrs w mg \<noteq> None"
  shows "\<exists>w' r bss x e' es. unpack_calls E cur a N w = Inr (w', r) \<and> offers E m a N bss r \<and>
    asked es = replicate (length bss) (m_addr m, target w e) \<and> (0 < r \<longrightarrow> tx_input x = Some (last bss)) \<and>
    w_txns w' = (w_txns w)(target w e \<mapsto> x) \<and> w_ents w' = (w_ents w)(a \<mapsto> e') \<and> w_fx w' = w_fx w @ es \<and>
    (if 0 < r then tx_state x = SK_TXN_UNPACKED \<and> e_iqueue e' = e_iqueue e @ [target w e] \<and> e_half_txn e' = None \<and>
       popped es = [nat r]
     else if r = 0 then tx_state x = SK_TXN_INIT \<and> e_iqueue e' = e_iqueue e \<and> e_half_txn e' = Some (target w e) \<and>
       popped es = []
     else e_iqueue e' = e_iqueue e \<and> popped es = [])"
  using pieces_ok [OF assms, of cur] unfolding pieces_post_def by blast

text \<open>Three bytes arrive, then a fourth, which completes the package.\<close>

definition demo_piece_env :: "(sk_srv_task cellbuf, u8 cellbuf) sk_env" where
  "demo_piece_env = demo_read_env\<lparr>en_rbufget := (\<lambda>i _. if i < 3 then [7, 8, 9] else [7, 8, 9, 10]),
     en_read := (\<lambda>i _ _. if i < 2 then 3 else 4), en_mod_unpack := (\<lambda>_ _ data. (if length data < 4 then 0 else 4, Ret 0))\<rparr>"

theorem unpack_in_pieces_witness:
  "\<exists>w' r e'. unpack_calls demo_piece_env 100 1 5 (set_ent demo_world 1 demo_reader) = Inr (w', r) \<and> w_ents w' 1 = Some e' \<and>
     (if 0 < r then e_iqueue e' = e_iqueue demo_reader @ [target demo_world demo_reader] else e_iqueue e' = e_iqueue demo_reader)"
proof -
  have "fmbuf (en_O demo_piece_env) 1 cb_cells (cellbuf_invar 1)"
    using fmbuf_cellbuf [of 1] by (simp add: demo_piece_env_def demo_read_env_def demo_env_def)
  then have E: "unpack_fits demo_piece_env cb_cells (cellbuf_invar 1) 0 0"
    by (simp add: unpack_fits_def demo_piece_env_def demo_read_env_def)
  have r: "readable (set_ent demo_world 1 demo_reader) 1 demo_reader demo_workflow (demo_module 1)"
    by (simp add: readable_def demo_reader_def demo_entity_def sk_entity_evb_ops_def demo_workflow_def demo_module_def
        sk_workflow_first_module_def)
  have h: "half_ok cb_cells (cellbuf_invar 1) 0 (set_ent demo_world 1 demo_reader) demo_reader"
    by (simp add: half_ok_def demo_reader_def demo_entity_def)
  have t: "target (set_ent demo_world 1 demo_reader) demo_reader = target demo_world demo_reader"
    by (simp add: target_def demo_reader_def demo_entity_def set_ent_def)
  have rd: "0 < en_read demo_piece_env i 1 l" for i l by (simp add: demo_piece_env_def)
  have o: "e_owner demo_reader = Some 10" "w_mgrs (set_ent demo_world 1 demo_reader) 10 \<noteq> None"
    by (simp_all add: demo_reader_def demo_entity_def demo_world_def)
  show ?thesis
    using unpack_in_pieces [OF E rd r h _ o, of 5 100] unfolding t
    by (auto split: if_splits)
qed

end
