(* ===== verification/Ep_Pool.thy ===== *)
theory Ep_Pool
  imports Sk_Timer Drivers
begin

text \<open>
  The pool of end points, the outgoing connections of services:
  \<^verbatim>\<open>src/src/components/sk_ep_pool.c\<close>.

  A request is a node (\<open>sk_ep_data\<close>) in the list of an end point (\<open>sk_ep\<close>). An end point is
  created for the first request to its address and reused by later ones; timers bound the connection, the
  answer and the life of an idle end point. The state is the world of the schedulers, in which the
  entities and timers live, with the end points, the nodes and the data of their timers beside it.

  Parameters are the socket library and the code of the user (\<open>ep_env\<close>). Callbacks and the release
  functions of the user are recorded in \<open>pl_log\<close>; that a callback itself sends a request
  is not modelled.
\<close>

section \<open>Data\<close>

datatype sk_ep_st = SK_EP_ST_INIT | SK_EP_ST_CONNECTING | SK_EP_ST_CONNECTED

datatype sk_ep_nst = SK_EP_NST_INIT | SK_EP_NST_PENDING | SK_EP_NST_SENT

datatype sk_ep_status = SK_EP_OK | SK_EP_ERROR | SK_EP_TIMEOUT

text \<open>\<^verbatim>\<open>sk_ep_type_t\<close> is an integer that the caller fills in.\<close>

definition SK_EP_TCP :: int where "SK_EP_TCP = 0"
definition SK_EP_UDP :: int where "SK_EP_UDP = 1"

definition SK_EP_F_CONCURRENT :: u32 where "SK_EP_F_CONCURRENT = 1"
definition SK_EP_F_PRIVATE :: u32 where "SK_EP_F_PRIVATE = 2"

definition SK_EP_POOL_MAX :: int where "SK_EP_POOL_MAX = 8192"
definition SK_EP_KEY_MAX :: nat where "SK_EP_KEY_MAX = 64"
definition SK_EP_DEFAULT_SHUTDOWN_MS :: u32 where "SK_EP_DEFAULT_SHUTDOWN_MS = 1000"

record sk_ep_handler =
  eh_type :: int
  eh_port :: u16
  eh_ip :: "string option"
  eh_timeout :: u32
  eh_flags :: u32
  eh_unpack :: "addr option"
  eh_release :: "addr option"

record sk_ep_data =
  ed_owner :: addr
  ed_service :: string
  ed_handler :: sk_ep_handler
  ed_cb :: "addr option"
  ed_ud :: addr
  ed_start :: int
  ed_e :: addr
  ed_recv_timer :: "addr option"
  ed_data :: "u8 list"             \<comment> \<open>\<^verbatim>\<open>count\<close> is its length\<close>
  ed_status :: sk_ep_nst

text \<open>The manager of an end point is the one of its type.\<close>

datatype mgr_ref = Tcp_mgr | Udp_mgr

record sk_ep =
  ep_ekey :: addr
  ep_ipkey :: string
  ep_type :: int
  ep_status :: sk_ep_st
  ep_entity :: "addr option"
  ep_txns :: "addr list"
  ep_ntxn :: int
  ep_flags :: u32
  ep_start :: int
  ep_conn_timer :: "addr option"
  ep_shutdown_timer :: "addr option"
  ep_owner :: mgr_ref
  ep_fd :: int

text \<open>The two levels of hash tables, from the key of an entity and of an address to the end points.\<close>

record sk_ep_mgr =
  em_eps :: addr                   \<comment> \<open>the manager of the entities\<close>
  em_ee :: "addr \<times> string \<Rightarrow> addr list"
  em_tmp :: "addr list"
  em_max :: int
  em_nep :: int

datatype timer_target = On_ep addr | On_node addr

record sk_ep_timerdata =
  et_entity :: "addr option"
  et_data :: timer_target

datatype ep_effect =
    Ep_cb addr addr sk_ep_status int "u8 list"  \<comment> \<open>node, callback, result, latency, response\<close>
  | Ep_release addr addr                        \<comment> \<open>node, user data\<close>
  | Ep_unpack addr                              \<comment> \<open>node\<close>
  | Ep_watch int                                \<comment> \<open>the event loop watches a descriptor\<close>
  | Ep_unwatch int
  | Ep_close int

record ('b, 'o) ep_pool =
  pw :: "('b, 'o) world"
  pl_tcp :: sk_ep_mgr
  pl_udp :: sk_ep_mgr
  pl_tmsvc :: addr
  pl_eps :: "addr \<rightharpoonup> sk_ep"
  pl_nodes :: "addr \<rightharpoonup> sk_ep_data"
  pl_tds :: "addr \<rightharpoonup> sk_ep_timerdata"
  pl_log :: "ep_effect list"

text \<open>
  \<open>xe_fifo\<close> says whether a list of the library gives back its oldest or its newest element first, when it
  is popped and when it is iterated. The other functions get the counter \<open>w_tick\<close> of the world.
\<close>

record ('b, 'o) ep_env =
  xe_E :: "('b, 'o) sk_env"
  xe_fifo :: bool
  xe_ms :: "nat \<Rightarrow> int"
  xe_conn_async :: "nat \<Rightarrow> string \<Rightarrow> u16 \<Rightarrow> int \<times> int"   \<comment> \<open>\<^verbatim>\<open>fnet_conn_async\<close>: return code, descriptor\<close>
  xe_socket :: "nat \<Rightarrow> string \<Rightarrow> u16 \<Rightarrow> int"          \<comment> \<open>\<^verbatim>\<open>fnet_socket\<close>\<close>
  xe_connect :: "nat \<Rightarrow> int \<Rightarrow> int"
  xe_reg :: "nat \<Rightarrow> int \<Rightarrow> int"                      \<comment> \<open>\<^verbatim>\<open>fev_reg_event\<close>\<close>
  xe_sockerr :: "nat \<Rightarrow> int \<Rightarrow> int \<times> int"            \<comment> \<open>\<^verbatim>\<open>getsockopt\<close>: return code, error\<close>
  xe_unpack :: "nat \<Rightarrow> addr \<Rightarrow> addr \<Rightarrow> u8 list \<Rightarrow> int"

section \<open>Access\<close>

definition with_ep :: "('b, 'o) ep_pool \<Rightarrow> addr \<Rightarrow> (sk_ep \<Rightarrow> 'a res) \<Rightarrow> 'a res" where
  "with_ep p a k = live (pl_eps p a) k"

definition set_ep :: "('b, 'o) ep_pool \<Rightarrow> addr \<Rightarrow> sk_ep \<Rightarrow> ('b, 'o) ep_pool" where
  "set_ep p a ep = p\<lparr>pl_eps := (pl_eps p)(a \<mapsto> ep)\<rparr>"

definition with_node :: "('b, 'o) ep_pool \<Rightarrow> addr \<Rightarrow> (sk_ep_data \<Rightarrow> 'a res) \<Rightarrow> 'a res" where
  "with_node p n k = live (pl_nodes p n) k"

definition set_node :: "('b, 'o) ep_pool \<Rightarrow> addr \<Rightarrow> sk_ep_data \<Rightarrow> ('b, 'o) ep_pool" where
  "set_node p n d = p\<lparr>pl_nodes := (pl_nodes p)(n \<mapsto> d)\<rparr>"

definition plog :: "('b, 'o) ep_pool \<Rightarrow> ep_effect list \<Rightarrow> ('b, 'o) ep_pool" where
  "plog p xs = p\<lparr>pl_log := pl_log p @ xs\<rparr>"

definition get_mgr :: "('b, 'o) ep_pool \<Rightarrow> mgr_ref \<Rightarrow> sk_ep_mgr" where
  "get_mgr p r = (case r of Tcp_mgr \<Rightarrow> pl_tcp p | Udp_mgr \<Rightarrow> pl_udp p)"

definition put_mgr :: "('b, 'o) ep_pool \<Rightarrow> mgr_ref \<Rightarrow> sk_ep_mgr \<Rightarrow> ('b, 'o) ep_pool" where
  "put_mgr p r m = (case r of Tcp_mgr \<Rightarrow> p\<lparr>pl_tcp := m\<rparr> | Udp_mgr \<Rightarrow> p\<lparr>pl_udp := m\<rparr>)"

text \<open>An operation of the world.\<close>

definition in_world :: "('b, 'o) ep_pool \<Rightarrow> ('b, 'o) world res \<Rightarrow> ('b, 'o) ep_pool res" where
  "in_world p m = rbind m (\<lambda>w. Inr (p\<lparr>pw := w\<rparr>))"

definition metric2 :: "('b, 'o) ep_pool \<Rightarrow> string \<Rightarrow> ('b, 'o) ep_pool" where
  "metric2 p s = p\<lparr>pw := fx (pw p) [Metric (''global.'' @ s), Metric (''worker.'' @ s)]\<rparr>"

text \<open>\<^verbatim>\<open>sk_time_ms\<close>\<close>

definition time_ms :: "('b, 'o) ep_env \<Rightarrow> ('b, 'o) ep_pool \<Rightarrow> ('b, 'o) ep_pool \<times> int" where
  "time_ms X p = (p\<lparr>pw := tick (pw p)\<rparr>, xe_ms X (w_tick (pw p)))"

text \<open>The cast of a time to \<^verbatim>\<open>int\<close>.\<close>

definition to_int32 :: "int \<Rightarrow> int" where
  "to_int32 x = sint (word_of_int x :: u32)"

definition cancel_timer :: "('b, 'o) ep_pool \<Rightarrow> addr option \<Rightarrow> ('b, 'o) ep_pool res" where
  "cancel_timer p tm = (case tm of None \<Rightarrow> Inr p | Some tm \<Rightarrow> in_world p (sk_timer_cancel (pw p) tm))"

section \<open>Time\<close>

definition sk_ep_timeout :: "('b, 'o) ep_env \<Rightarrow> ('b, 'o) ep_pool \<Rightarrow> sk_ep_data \<Rightarrow> ('b, 'o) ep_pool \<times> bool" where
  "sk_ep_timeout X p d =
     (if eh_timeout (ed_handler d) = 0 then (p, False)
      else (let (p, now) = time_ms X p in (p, uint (eh_timeout (ed_handler d)) \<le> now - ed_start d)))"

definition sk_ep_txn_time_consumed :: "('b, 'o) ep_env \<Rightarrow> ('b, 'o) ep_pool \<Rightarrow> sk_ep_data \<Rightarrow> ('b, 'o) ep_pool \<times> int" where
  "sk_ep_txn_time_consumed X p d = (let (p, now) = time_ms X p in (p, now - ed_start d))"

definition sk_ep_txn_time_left :: "('b, 'o) ep_env \<Rightarrow> ('b, 'o) ep_pool \<Rightarrow> sk_ep_data \<Rightarrow> ('b, 'o) ep_pool \<times> int" where
  "sk_ep_txn_time_left X p d =
     (let (p, now) = time_ms X p; consumed = now - ed_start d; timeout = uint (eh_timeout (ed_handler d))
      in (p, if timeout \<le> consumed then 0 else timeout - consumed))"

section \<open>Timers\<close>

text \<open>The addresses of the functions that the timers call.\<close>

definition RECV_TIMEOUT :: addr where "RECV_TIMEOUT = 2"
definition SHUTDOWN_EP :: addr where "SHUTDOWN_EP = 3"
definition CONN_TIMEOUT :: addr where "CONN_TIMEOUT = 4"

text \<open>\<^verbatim>\<open>_timer_data_destroy\<close>, the destructor of the object of a timer.\<close>

definition timer_data_destroy :: "('b, 'o) ep_env \<Rightarrow> ('b, 'o) ep_pool \<Rightarrow> addr \<Rightarrow> addr \<Rightarrow> ('b, 'o) ep_pool res" where
  "timer_data_destroy X p cur obj = live (pl_tds p obj) (\<lambda>td.
     rbind (case et_entity td of
              None \<Rightarrow> Inr p
            | Some a \<Rightarrow> with_ent (pw p) a (\<lambda>e.
                if e_owner e = None
                then in_world p (rbind (sk_entity_safe_destroy (xe_E X) (pw p) cur a) (\<lambda>(w, _). Inr w))
                else Inr p)) (\<lambda>p.
       Inr (p\<lparr>pl_tds := (pl_tds p)(obj := None)\<rparr>)))"

text \<open>\<^verbatim>\<open>_ep_create_timer\<close> and \<^verbatim>\<open>_ep_node_create_timer\<close>; they differ in the type of the entity and the target.\<close>

definition create_timer ::
  "('b, 'o) ep_pool \<Rightarrow> sk_entity_type \<Rightarrow> timer_target \<Rightarrow> addr \<Rightarrow> u32 \<Rightarrow> (('b, 'o) ep_pool \<times> addr option) res" where
  "create_timer p ety tgt trigger timeout =
     (if timeout = 0 then Inr (p, None)
      else
        (let (w, a) = sk_entity_create (pw p) None ety;
             obj = w_next w; w = w\<lparr>w_next := Suc obj\<rparr>;
             p = p\<lparr>pl_tds := (pl_tds p)(obj \<mapsto> \<lparr>et_entity = Some a, et_data = tgt\<rparr>)\<rparr>
         in rbind (sk_timersvc_timer_create w (pl_tmsvc p) a timeout 0 trigger obj) (\<lambda>(w, tm).
              Inr (p\<lparr>pw := w\<rparr>, Some tm))))"

definition ep_create_timer ::
  "('b, 'o) ep_pool \<Rightarrow> addr \<Rightarrow> addr \<Rightarrow> u32 \<Rightarrow> (('b, 'o) ep_pool \<times> addr option) res" where
  "ep_create_timer p x trigger timeout = create_timer p SK_ENTITY_EP_TIMER (On_ep x) trigger timeout"

definition ep_node_create_timer ::
  "('b, 'o) ep_pool \<Rightarrow> addr \<Rightarrow> addr \<Rightarrow> u32 \<Rightarrow> (('b, 'o) ep_pool \<times> addr option) res" where
  "ep_node_create_timer p n trigger timeout = create_timer p SK_ENTITY_EP_TXN_TIMER (On_node n) trigger timeout"

text \<open>
  \<^verbatim>\<open>_ep_create_shutdown_timer\<close>. The library can always set a new expiry for a node that has not fired; that is
  recorded as adding the node.
\<close>

definition ep_create_shutdown_timer :: "('b, 'o) ep_pool \<Rightarrow> addr \<Rightarrow> u32 \<Rightarrow> ('b, 'o) ep_pool res" where
  "ep_create_shutdown_timer p x expiration = with_ep p x (\<lambda>ep.
     rbind (case ep_shutdown_timer ep of
              None \<Rightarrow> Inr (p, False)
            | Some tm \<Rightarrow> rbind (sk_timer_reset 0 (pw p) tm) (\<lambda>ret.
                if ret = 0 then Inr (p\<lparr>pw := fx (pw p) [Timer_add tm expiration 0]\<rparr>, True)
                else rbind (cancel_timer p (Some tm)) (\<lambda>p. Inr (set_ep p x (ep\<lparr>ep_shutdown_timer := None\<rparr>), False)))) (\<lambda>(p, refreshed).
       if refreshed then Inr p
       else rbind (ep_create_timer p x SHUTDOWN_EP expiration) (\<lambda>(p, tm).
         with_ep p x (\<lambda>ep. sk_assert (tm \<noteq> None) (Inr (set_ep p x (ep\<lparr>ep_shutdown_timer := tm\<rparr>)))))))"

section \<open>Releasing nodes and end points\<close>

definition ep_data_release :: "('b, 'o) ep_pool \<Rightarrow> addr \<Rightarrow> bool \<Rightarrow> ('b, 'o) ep_pool res" where
  "ep_data_release p n release_userdata = with_node p n (\<lambda>d.
     rbind (cancel_timer p (ed_recv_timer d)) (\<lambda>p.
       let p = (if release_userdata \<and> eh_release (ed_handler d) \<noteq> None then plog p [Ep_release n (ed_ud d)] else p)
       in Inr (p\<lparr>pl_nodes := (pl_nodes p)(n := None)\<rparr>)))"

definition ep_node_destroy :: "('b, 'o) ep_pool \<Rightarrow> addr \<Rightarrow> bool \<Rightarrow> ('b, 'o) ep_pool res" where
  "ep_node_destroy p n release_userdata = with_node p n (\<lambda>d.
     rbind (ep_data_release p n release_userdata) (\<lambda>p.
     with_ep p (ed_owner d) (\<lambda>ep.
       Inr (set_ep p (ed_owner d) (ep\<lparr>ep_txns := removeAll n (ep_txns ep), ep_ntxn := ep_ntxn ep - 1\<rparr>)))))"

text \<open>The loop over the nodes of \<^verbatim>\<open>_ep_destroy\<close>: every node is popped and destroyed.\<close>

fun destroy_nodes :: "('b, 'o) ep_pool \<Rightarrow> addr list \<Rightarrow> ('b, 'o) ep_pool res" where
  "destroy_nodes p [] = Inr p"
| "destroy_nodes p (n # ns) = rbind (ep_node_destroy p n True) (\<lambda>p. destroy_nodes p ns)"

definition ep_destroy :: "('b, 'o) ep_env \<Rightarrow> ('b, 'o) ep_pool \<Rightarrow> addr \<Rightarrow> ('b, 'o) ep_pool res" where
  "ep_destroy X p x = with_ep p x (\<lambda>ep.
     rbind (cancel_timer p (ep_conn_timer ep)) (\<lambda>p.
     rbind (cancel_timer p (ep_shutdown_timer ep)) (\<lambda>p.
     rbind (destroy_nodes (set_ep p x (ep\<lparr>ep_conn_timer := None, ep_shutdown_timer := None\<rparr>))
              (in_order (xe_fifo X) (ep_txns ep))) (\<lambda>p.
       let p = (if ep_entity ep = None \<and> 0 \<le> ep_fd ep \<and> ep_status ep = SK_EP_ST_CONNECTING
                then plog p [Ep_unwatch (ep_fd ep), Ep_close (ep_fd ep)] else p)
       in Inr (metric2 (p\<lparr>pl_eps := (pl_eps p)(x := None)\<rparr>) ''ep_destroy'')))))"

section \<open>The tables of a manager\<close>

text \<open>The two loops of \<^verbatim>\<open>_remove_ep\<close>: from the list to \<^verbatim>\<open>tmp\<close>, without the end point, and back.\<close>

fun unload_eps :: "bool \<Rightarrow> nat \<Rightarrow> addr list \<Rightarrow> addr list \<Rightarrow> addr \<Rightarrow> addr list" where
  "unload_eps fifo 0 q tmp x = tmp"
| "unload_eps fifo (Suc k) q tmp x =
     (if q = [] then tmp
      else (let (t, q) = flist_pop fifo q in unload_eps fifo k q (if t \<noteq> x then tmp @ [t] else tmp) x))"

fun reload_eps :: "bool \<Rightarrow> nat \<Rightarrow> addr list \<Rightarrow> addr list \<Rightarrow> addr list" where
  "reload_eps fifo 0 tmp q = q"
| "reload_eps fifo (Suc k) tmp q =
     (if tmp = [] then q else (let (t, tmp) = flist_pop fifo tmp in reload_eps fifo k tmp (q @ [t])))"

definition remove_ep :: "bool \<Rightarrow> addr list \<Rightarrow> addr list \<Rightarrow> addr \<Rightarrow> addr list" where
  "remove_ep fifo tmp q x =
     (if q = [] then q
      else (let tmp = unload_eps fifo (length q) q tmp x in reload_eps fifo (length tmp) tmp []))"

text \<open>One turn of the loop of \<^verbatim>\<open>_find_ep\<close> gives whether the end point is taken.\<close>

definition ep_usable :: "sk_ep_handler \<Rightarrow> sk_ep \<Rightarrow> bool res" where
  "ep_usable h ep =
     (if eh_flags h = ep_flags ep then
        (if and (ep_flags ep) SK_EP_F_CONCURRENT \<noteq> 0 then Inr True
         else if ep_status ep = SK_EP_ST_CONNECTED then sk_assert (ep_ntxn ep \<le> 1) (Inr (ep_txns ep = []))
         else Inr False)
      else Inr False)"

fun find_loop :: "('b, 'o) ep_pool \<Rightarrow> sk_ep_handler \<Rightarrow> addr list \<Rightarrow> addr option res" where
  "find_loop p h [] = Inr None"
| "find_loop p h (x # xs) = with_ep p x (\<lambda>ep. rbind (ep_usable h ep) (\<lambda>use.
     if use then Inr (Some x) else find_loop p h xs))"

definition find_ep :: "('b, 'o) ep_env \<Rightarrow> ('b, 'o) ep_pool \<Rightarrow> addr list \<Rightarrow> sk_ep_handler \<Rightarrow> addr option res" where
  "find_ep X p q h = find_loop p h (in_order (xe_fifo X) q)"

definition ep_mgr_del :: "('b, 'o) ep_env \<Rightarrow> ('b, 'o) ep_pool \<Rightarrow> mgr_ref \<Rightarrow> addr \<Rightarrow> ('b, 'o) ep_pool res" where
  "ep_mgr_del X p r x = with_ep p x (\<lambda>ep. deref (ep_entity ep) (\<lambda>a. with_ent (pw p) a (\<lambda>e.
     case e_owner e of
       None \<Rightarrow> Inl Assert
     | Some emgr \<Rightarrow> sk_assert (ep_owner ep = r)
         (let m = get_mgr p r; k = (ep_ekey ep, ep_ipkey ep);
              m = m\<lparr>em_ee := (em_ee m)(k := remove_ep (xe_fifo X) (em_tmp m) (em_ee m k) x), em_nep := em_nep m - 1\<rparr>
          in rbind (in_world (put_mgr p r m) (sk_entity_mgr_del (xe_E X) (pw p) emgr a)) (\<lambda>p.
             rbind (in_world p (sk_entity_mgr_clean_dead (xe_E X) (pw p) emgr)) (\<lambda>p.
               ep_destroy X (set_ep p x (ep\<lparr>ep_entity := None\<rparr>)) x))))))"

section \<open>Sending\<close>

text \<open>The timers that \<^verbatim>\<open>_ep_send\<close> sets up after the bytes are written.\<close>

definition ep_send_timers :: "('b, 'o) ep_env \<Rightarrow> ('b, 'o) ep_pool \<Rightarrow> addr \<Rightarrow> sk_ep_data \<Rightarrow> ('b, 'o) ep_pool res" where
  "ep_send_timers X p n d =
     (let h = ed_handler d
      in if eh_timeout h \<noteq> 0 then
           rbind (ep_create_shutdown_timer p (ed_owner d) (eh_timeout h * 2)) (\<lambda>p.
             let (p, left) = sk_ep_txn_time_left X p d; left = (if left = 0 then 1 else left)
             in if eh_unpack h \<noteq> None then
                  rbind (ep_node_create_timer p n RECV_TIMEOUT (word_of_int left)) (\<lambda>(p, tm).
                    with_node p n (\<lambda>d. sk_assert (tm \<noteq> None) (Inr (set_node p n (d\<lparr>ed_recv_timer := tm\<rparr>)))))
                else Inr p)
         else if eh_unpack h = None then ep_create_shutdown_timer p (ed_owner d) SK_EP_DEFAULT_SHUTDOWN_MS
         else Inr p)"

definition ep_send :: "('b, 'o) ep_env \<Rightarrow> ('b, 'o) ep_pool \<Rightarrow> addr \<Rightarrow> u8 list \<Rightarrow> (('b, 'o) ep_pool \<times> sk_ep_status) res" where
  "ep_send X p n data = with_node p n (\<lambda>d. with_ep p (ed_owner d) (\<lambda>ep.
     if ep_status ep \<noteq> SK_EP_ST_CONNECTED then
       sk_assert (ep_status ep = SK_EP_ST_CONNECTING) (sk_assert (ed_status d = SK_EP_NST_INIT)
         (sk_assert (ep_type ep = SK_EP_TCP) (Inr (set_node p n (d\<lparr>ed_status := SK_EP_NST_PENDING\<rparr>), SK_EP_OK))))
     else sk_assert (ed_status d = SK_EP_NST_INIT \<or> ed_status d = SK_EP_NST_PENDING)
       (deref (ep_entity ep) (\<lambda>a.
          rbind (sk_entity_write (xe_E X) (pw p) a data) (\<lambda>(w, sent_bytes).
            if sent_bytes < 0 then Inr (p\<lparr>pw := w\<rparr>, SK_EP_ERROR)
            else
              (let d = d\<lparr>ed_status := SK_EP_NST_SENT\<rparr>; p = metric2 (set_node (p\<lparr>pw := w\<rparr>) n d) ''ep_send''
               in rbind (ep_send_timers X p n d) (\<lambda>p. Inr (p, SK_EP_OK))))))))"

section \<open>The end of a request\<close>

definition run_cb :: "('b, 'o) ep_pool \<Rightarrow> addr \<Rightarrow> sk_ep_data \<Rightarrow> sk_ep_status \<Rightarrow> int \<Rightarrow> u8 list \<Rightarrow> ('b, 'o) ep_pool" where
  "run_cb p n d st latency bs = (case ed_cb d of None \<Rightarrow> p | Some f \<Rightarrow> plog p [Ep_cb n f st latency bs])"

definition handle_timeout :: "('b, 'o) ep_env \<Rightarrow> ('b, 'o) ep_pool \<Rightarrow> addr \<Rightarrow> ('b, 'o) ep_pool res" where
  "handle_timeout X p n = with_node p n (\<lambda>d.
     let (p, t) = sk_ep_txn_time_consumed X p d
     in rbind (ep_node_destroy (run_cb p n d SK_EP_TIMEOUT (to_int32 t) []) n True) (\<lambda>p.
          Inr (metric2 p ''ep_timeout'')))"

text \<open>One turn of the loop of \<^verbatim>\<open>_handle_error\<close>, and the loop.\<close>

definition fail_node :: "('b, 'o) ep_env \<Rightarrow> ('b, 'o) ep_pool \<Rightarrow> addr \<Rightarrow> ('b, 'o) ep_pool res" where
  "fail_node X p n = with_node p n (\<lambda>d.
     if ed_status d \<noteq> SK_EP_NST_INIT then
       (let (p, t) = sk_ep_txn_time_consumed X p d
        in ep_node_destroy (run_cb p n d SK_EP_ERROR (to_int32 t) []) n True)
     else ep_node_destroy p n False)"

fun fail_nodes :: "('b, 'o) ep_env \<Rightarrow> ('b, 'o) ep_pool \<Rightarrow> addr list \<Rightarrow> ('b, 'o) ep_pool res" where
  "fail_nodes X p [] = Inr p"
| "fail_nodes X p (n # ns) = rbind (fail_node X p n) (\<lambda>p. fail_nodes X p ns)"

definition handle_error :: "('b, 'o) ep_env \<Rightarrow> ('b, 'o) ep_pool \<Rightarrow> addr \<Rightarrow> ('b, 'o) ep_pool res" where
  "handle_error X p x = with_ep p x (\<lambda>ep.
     rbind (fail_nodes X p (in_order (xe_fifo X) (ep_txns ep))) (\<lambda>p.
     rbind (ep_mgr_del X p (ep_owner ep) x) (\<lambda>p. Inr (metric2 p ''ep_error''))))"

definition handle_ok :: "('b, 'o) ep_env \<Rightarrow> ('b, 'o) ep_pool \<Rightarrow> addr \<Rightarrow> u8 list \<Rightarrow> ('b, 'o) ep_pool res" where
  "handle_ok X p n bs = with_node p n (\<lambda>d.
     let p = (if ed_cb d \<noteq> None
              then (let (p, t) = sk_ep_txn_time_consumed X p d in run_cb p n d SK_EP_OK (to_int32 t) bs) else p);
         timeout = eh_timeout (ed_handler d)
     in rbind (ep_create_shutdown_timer p (ed_owner d) (if timeout \<noteq> 0 then timeout else SK_EP_DEFAULT_SHUTDOWN_MS)) (\<lambda>p.
        rbind (ep_node_destroy p n True) (\<lambda>p. Inr (metric2 p ''ep_ok''))))"

section \<open>Timers that expire\<close>

text \<open>The end of the three functions: the entity of the timer is destroyed.\<close>

definition timer_entity_destroy :: "('b, 'o) ep_env \<Rightarrow> ('b, 'o) ep_pool \<Rightarrow> addr \<Rightarrow> addr \<Rightarrow> ('b, 'o) ep_pool res" where
  "timer_entity_destroy X p cur obj = live (pl_tds p obj) (\<lambda>td. deref (et_entity td) (\<lambda>a.
     rbind (in_world p (rbind (sk_entity_safe_destroy (xe_E X) (pw p) cur a) (\<lambda>(w, _). Inr w))) (\<lambda>p.
       Inr (p\<lparr>pl_tds := (pl_tds p)(obj \<mapsto> td\<lparr>et_entity := None\<rparr>)\<rparr>))))"

text \<open>The union in \<^verbatim>\<open>sk_ep_timerdata_t\<close> is only read the way it was written.\<close>

definition target_node :: "sk_ep_timerdata \<Rightarrow> (addr \<Rightarrow> 'a res) \<Rightarrow> 'a res" where
  "target_node td k = (case et_data td of On_node n \<Rightarrow> k n | On_ep _ \<Rightarrow> Inl NullDeref)"

definition target_ep :: "sk_ep_timerdata \<Rightarrow> (addr \<Rightarrow> 'a res) \<Rightarrow> 'a res" where
  "target_ep td k = (case et_data td of On_ep x \<Rightarrow> k x | On_node _ \<Rightarrow> Inl NullDeref)"

definition recv_timeout :: "('b, 'o) ep_env \<Rightarrow> ('b, 'o) ep_pool \<Rightarrow> addr \<Rightarrow> bool \<Rightarrow> addr \<Rightarrow> ('b, 'o) ep_pool res" where
  "recv_timeout X p cur valid obj = live (pl_tds p obj) (\<lambda>td.
     rbind (if \<not> valid then Inr p
            else target_node td (\<lambda>n. with_node p n (\<lambda>d.
              handle_timeout X (set_node p n (d\<lparr>ed_recv_timer := None\<rparr>)) n))) (\<lambda>p.
       timer_entity_destroy X p cur obj))"

definition shutdown_ep :: "('b, 'o) ep_env \<Rightarrow> ('b, 'o) ep_pool \<Rightarrow> addr \<Rightarrow> bool \<Rightarrow> addr \<Rightarrow> ('b, 'o) ep_pool res" where
  "shutdown_ep X p cur valid obj = live (pl_tds p obj) (\<lambda>td.
     rbind (if \<not> valid then Inr p
            else target_ep td (\<lambda>x. with_ep p x (\<lambda>ep.
              handle_error X (set_ep p x (ep\<lparr>ep_shutdown_timer := None\<rparr>)) x))) (\<lambda>p.
       timer_entity_destroy X p cur obj))"

definition conn_timeout :: "('b, 'o) ep_env \<Rightarrow> ('b, 'o) ep_pool \<Rightarrow> addr \<Rightarrow> bool \<Rightarrow> addr \<Rightarrow> ('b, 'o) ep_pool res" where
  "conn_timeout X p cur valid obj = live (pl_tds p obj) (\<lambda>td.
     rbind (if \<not> valid then Inr p
            else target_ep td (\<lambda>x. with_ep p x (\<lambda>ep.
              sk_assert (ep_status ep = SK_EP_ST_CONNECTING)
                (handle_error X (set_ep p x (ep\<lparr>ep_conn_timer := None\<rparr>)) x)))) (\<lambda>p.
       timer_entity_destroy X p cur obj))"

section \<open>Events of a connection\<close>

text \<open>\<^verbatim>\<open>_try_unpack\<close>: \<open>Some c\<close> stops the iteration with \<open>c\<close> bytes consumed.\<close>

definition try_unpack :: "('b, 'o) ep_env \<Rightarrow> ('b, 'o) ep_pool \<Rightarrow> addr \<Rightarrow> u8 list \<Rightarrow> (('b, 'o) ep_pool \<times> int option) res" where
  "try_unpack X p n data = with_node p n (\<lambda>d. case eh_unpack (ed_handler d) of
     None \<Rightarrow> Inr (p, None)
   | Some f \<Rightarrow>
       (let consumed = xe_unpack X (w_tick (pw p)) f (ed_ud d) data;
            p = plog (p\<lparr>pw := tick (pw p)\<rparr>) [Ep_unpack n]
        in if consumed < 0 then Inr (p, Some consumed)
           else if consumed = 0 then Inr (p, None)
           else rbind (cancel_timer p (ed_recv_timer d)) (\<lambda>p.
                  Inr (set_node p n (d\<lparr>ed_recv_timer := None\<rparr>), Some consumed))))"

fun unpack_loop :: "('b, 'o) ep_env \<Rightarrow> ('b, 'o) ep_pool \<Rightarrow> addr list \<Rightarrow> u8 list \<Rightarrow> (('b, 'o) ep_pool \<times> (addr \<times> int) option) res" where
  "unpack_loop X p [] data = Inr (p, None)"
| "unpack_loop X p (n # ns) data = rbind (try_unpack X p n data) (\<lambda>(p, r). case r of
     Some c \<Rightarrow> Inr (p, Some (n, c))
   | None \<Rightarrow> unpack_loop X p ns data)"

definition ep_read_cb :: "('b, 'o) ep_env \<Rightarrow> ('b, 'o) ep_pool \<Rightarrow> addr \<Rightarrow> ('b, 'o) ep_pool res" where
  "ep_read_cb X p x = with_ep p x (\<lambda>ep. sk_assert (ep_status ep = SK_EP_ST_CONNECTED)
     (deref (ep_entity ep) (\<lambda>a.
        let used_len = en_rbufsz (xe_E X) (w_tick (pw p)) a;
            read_len = (if used_len = 0 then SK_DEFAULT_READBUF_LEN else used_len * SK_DEFAULT_READBUF_FACTOR)
        in rbind (sk_entity_read (xe_E X) (pw p) a read_len) (\<lambda>(w, bytes).
             let p = p\<lparr>pw := w\<rparr>
             in if bytes \<le> 0 then Inr p
                else
                  (let buf = en_rbufget (xe_E X) (w_tick w) a; data = take (nat bytes) buf
                   in rbind (unpack_loop X p (in_order (xe_fifo X) (ep_txns ep)) data) (\<lambda>(p, r). case r of
                        None \<Rightarrow> Inr p
                      | Some (n, consumed) \<Rightarrow>
                          if consumed < 0 then handle_error X p x
                          else rbind (handle_ok X (p\<lparr>pw := fx (pw p) [Rbufpop a (nat consumed)]\<rparr>) n (take (nat consumed) buf)) (\<lambda>p.
                                 Inr (metric2 p ''ep_recv'')))))))) "

definition ep_error_cb :: "('b, 'o) ep_env \<Rightarrow> ('b, 'o) ep_pool \<Rightarrow> addr \<Rightarrow> ('b, 'o) ep_pool res" where
  "ep_error_cb X p x = handle_error X p x"

text \<open>The iteration with \<^verbatim>\<open>_send_each\<close>; \<open>tmp\<close> collects the nodes that timed out.\<close>

fun send_loop :: "('b, 'o) ep_env \<Rightarrow> ('b, 'o) ep_pool \<Rightarrow> addr list \<Rightarrow> addr list \<Rightarrow> (('b, 'o) ep_pool \<times> addr list) res" where
  "send_loop X p [] tmp = Inr (p, tmp)"
| "send_loop X p (n # ns) tmp = with_node p n (\<lambda>d. sk_assert (ed_status d = SK_EP_NST_PENDING)
     (rbind (ep_send X p n (ed_data d)) (\<lambda>(p, ret).
        if ret = SK_EP_TIMEOUT then send_loop X p ns (tmp @ [n])
        else if ret = SK_EP_ERROR then Inr (p, tmp)
        else send_loop X p ns tmp)))"

fun timeout_nodes :: "('b, 'o) ep_env \<Rightarrow> ('b, 'o) ep_pool \<Rightarrow> addr list \<Rightarrow> ('b, 'o) ep_pool res" where
  "timeout_nodes X p [] = Inr p"
| "timeout_nodes X p (n # ns) = rbind (handle_timeout X p n) (\<lambda>p. timeout_nodes X p ns)"

text \<open>
  \<^verbatim>\<open>fevbuff_new\<close> can always create a buffered event for a valid descriptor; its address is new.
  \<^verbatim>\<open>sk_entity_tcp_create\<close> is \<^verbatim>\<open>sk_entity_evb_create\<close>, which datagrams use.
\<close>

definition attach_tcp :: "('b, 'o) ep_pool \<Rightarrow> addr \<Rightarrow> int \<Rightarrow> ('b, 'o) ep_pool res" where
  "attach_tcp p a fd = (let evbuff = w_next (pw p)
     in in_world (plog p [Ep_watch fd]) (sk_entity_tcp_create ((pw p)\<lparr>w_next := Suc evbuff\<rparr>) a evbuff))"

definition on_connect :: "('b, 'o) ep_env \<Rightarrow> ('b, 'o) ep_pool \<Rightarrow> addr \<Rightarrow> int \<Rightarrow> bool \<Rightarrow> ('b, 'o) ep_pool res" where
  "on_connect X p x fd err =
     (if err then handle_error X p x
      else with_ep p x (\<lambda>ep. sk_assert (ep_status ep = SK_EP_ST_CONNECTING)
        (let (ret, e) = xe_sockerr X (w_tick (pw p)) fd; p = p\<lparr>pw := tick (pw p)\<rparr>
         in if ret = 0 \<and> e = 0 then
              deref (ep_entity ep) (\<lambda>a.
              rbind (attach_tcp (plog p [Ep_unwatch fd]) a fd) (\<lambda>p.
              rbind (cancel_timer p (ep_conn_timer ep)) (\<lambda>p.
              let ep = ep\<lparr>ep_status := SK_EP_ST_CONNECTED, ep_conn_timer := None\<rparr>
              in rbind (send_loop X (set_ep p x ep) (in_order (xe_fifo X) (ep_txns ep)) []) (\<lambda>(p, tmp).
                   timeout_nodes X p (in_order (xe_fifo X) tmp)))))
            else handle_error X p x)))"

section \<open>Creating end points\<close>

text \<open>The branch of \<^verbatim>\<open>_create_entity_tcp\<close> for a connection that is under way.\<close>

definition start_conn_timer ::
  "('b, 'o) ep_env \<Rightarrow> ('b, 'o) ep_pool \<Rightarrow> addr \<Rightarrow> sk_ep \<Rightarrow> sk_ep_data \<Rightarrow> ('b, 'o) ep_pool res" where
  "start_conn_timer X p x ep d =
     (if eh_timeout (ed_handler d) \<noteq> 0 then
        (let (p, left) = sk_ep_txn_time_left X p d; left = (if left = 0 then 1 else left)
         in rbind (ep_create_timer (set_ep p x ep) x CONN_TIMEOUT (word_of_int left)) (\<lambda>(p, tm).
              sk_assert (tm \<noteq> None) (Inr (set_ep p x (ep\<lparr>ep_conn_timer := tm\<rparr>)))))
      else Inr (set_ep p x ep))"

definition tcp_connecting ::
  "('b, 'o) ep_env \<Rightarrow> ('b, 'o) ep_pool \<Rightarrow> addr \<Rightarrow> sk_ep \<Rightarrow> sk_ep_data \<Rightarrow> int \<Rightarrow> (('b, 'o) ep_pool \<times> int) res" where
  "tcp_connecting X p x ep d fd = sk_assert (0 \<le> fd)
     (rbind (start_conn_timer X p x ep d) (\<lambda>p.
        let ret = xe_reg X (w_tick (pw p)) fd; p = p\<lparr>pw := tick (pw p)\<rparr>
        in if ret \<noteq> 0 then
             sk_assert (ret = - 4) (Inr (p\<lparr>pw := fx (pw p) [Metric ''global.ep_tcp_fd_overflow'']\<rparr>, - 1))
           else Inr (plog p [Ep_watch fd], 0)))"

definition create_entity_tcp ::
  "('b, 'o) ep_env \<Rightarrow> ('b, 'o) ep_pool \<Rightarrow> sk_ep_handler \<Rightarrow> addr \<Rightarrow> addr \<Rightarrow> (('b, 'o) ep_pool \<times> int) res" where
  "create_entity_tcp X p h x n = with_node p n (\<lambda>d.
     let (p, timed_out) = sk_ep_timeout X p d
     in if timed_out then Inr (p, 1)
        else with_ep p x (\<lambda>ep. deref (eh_ip h) (\<lambda>ip.
          let (s, fd) = xe_conn_async X (w_tick (pw p)) ip (eh_port h); p = p\<lparr>pw := tick (pw p)\<rparr>;
              ep = ep\<lparr>ep_status := SK_EP_ST_CONNECTING, ep_fd := fd\<rparr>
          in if s = 0 then
               sk_assert (0 \<le> fd) (deref (ep_entity ep) (\<lambda>a.
                  rbind (attach_tcp p a fd) (\<lambda>p.
                  rbind (cancel_timer p (ep_conn_timer ep)) (\<lambda>p.
                    Inr (set_ep p x (ep\<lparr>ep_conn_timer := None, ep_status := SK_EP_ST_CONNECTED\<rparr>), 0)))))
             else if 0 < s then tcp_connecting X p x ep d fd
             else Inr (set_ep p x ep, - 1))))"

definition create_entity_udp ::
  "('b, 'o) ep_env \<Rightarrow> ('b, 'o) ep_pool \<Rightarrow> sk_ep_handler \<Rightarrow> addr \<Rightarrow> addr \<Rightarrow> (('b, 'o) ep_pool \<times> int) res" where
  "create_entity_udp X p h x n = with_ep p x (\<lambda>ep. deref (eh_ip h) (\<lambda>ip.
     let fd = xe_socket X (w_tick (pw p)) ip (eh_port h); p = p\<lparr>pw := tick (pw p)\<rparr>
     in if fd < 0 then Inr (p\<lparr>pw := fx (pw p) [Metric ''global.ep_udp_fd_overflow'']\<rparr>, - 1)
        else
          (let ep = ep\<lparr>ep_fd := fd, ep_status := SK_EP_ST_CONNECTING\<rparr>; ret = xe_connect X (w_tick (pw p)) fd;
               p = p\<lparr>pw := tick (pw p)\<rparr>
           in if ret \<noteq> 0 then Inr (set_ep p x ep, - 1)
              else deref (ep_entity ep) (\<lambda>a. rbind (attach_tcp p a fd) (\<lambda>p.
                Inr (set_ep p x (ep\<lparr>ep_status := SK_EP_ST_CONNECTED\<rparr>), 0))))))"

text \<open>\<^verbatim>\<open>snprintf(ipkey, SK_EP_KEY_MAX, "%s:%d", ip, port)\<close>\<close>

definition ip_key :: "string \<Rightarrow> u16 \<Rightarrow> string" where
  "ip_key ip port = take (SK_EP_KEY_MAX - 1) (ip @ '':'' @ nat_dec (unat port))"

definition ep_etype :: "sk_ep_handler \<Rightarrow> string \<Rightarrow> sk_entity_type" where
  "ep_etype h ip =
     (let v4 = (CHR '':'' \<notin> set ip)
      in if eh_type h = SK_EP_TCP then (if v4 then SK_ENTITY_EP_V4TCP else SK_ENTITY_EP_V6TCP)
         else (if v4 then SK_ENTITY_EP_V4UDP else SK_ENTITY_EP_V6UDP))"

definition ep_create ::
  "('b, 'o) ep_env \<Rightarrow> ('b, 'o) ep_pool \<Rightarrow> mgr_ref \<Rightarrow> sk_ep_handler \<Rightarrow> string \<Rightarrow> addr \<Rightarrow> string \<Rightarrow> ('b, 'o) ep_pool \<times> addr" where
  "ep_create X p r h ip ekey ipkey =
     (let x = w_next (pw p); p = p\<lparr>pw := (pw p)\<lparr>w_next := Suc x\<rparr>\<rparr>;
          (w, a) = sk_entity_create (pw p) None (ep_etype h ip);
          (p, now) = time_ms X (p\<lparr>pw := w\<rparr>);
          ep = \<lparr>ep_ekey = ekey, ep_ipkey = ipkey, ep_type = eh_type h, ep_status = SK_EP_ST_INIT, ep_entity = Some a,
                ep_txns = [], ep_ntxn = 0, ep_flags = 0, ep_start = now, ep_conn_timer = None,
                ep_shutdown_timer = None, ep_owner = r, ep_fd = - 1\<rparr>
      in (set_ep p x ep, x))"

text \<open>The first half of \<^verbatim>\<open>_ep_mgr_get_or_create\<close>: the end point.\<close>

definition get_ep ::
  "('b, 'o) ep_env \<Rightarrow> ('b, 'o) ep_pool \<Rightarrow> mgr_ref \<Rightarrow> addr \<Rightarrow> sk_ep_handler \<Rightarrow> (('b, 'o) ep_pool \<times> addr) res" where
  "get_ep X p r entity h = deref (eh_ip h) (\<lambda>ip.
     let ekey = (if and (eh_flags h) SK_EP_F_PRIVATE \<noteq> 0 then entity else 0); ipkey = ip_key ip (eh_port h)
     in rbind (find_ep X p (em_ee (get_mgr p r) (ekey, ipkey)) h) (\<lambda>found. case found of
          Some x \<Rightarrow> Inr (p, x)
        | None \<Rightarrow>
            (let (p, x) = ep_create X p r h ip ekey ipkey
             in with_ep p x (\<lambda>ep. deref (ep_entity ep) (\<lambda>a.
                rbind (in_world p (sk_entity_mgr_add (pw p) (em_eps (get_mgr p r)) a)) (\<lambda>p.
                  let m = get_mgr p r;
                      m = m\<lparr>em_ee := (em_ee m)((ekey, ipkey) := em_ee m (ekey, ipkey) @ [x]), em_nep := em_nep m + 1\<rparr>
                  in Inr (metric2 (put_mgr p r m) ''ep_create'', x)))))))"

text \<open>The second half: the request, and the connection if the end point is new.\<close>

definition add_request ::
  "('b, 'o) ep_pool \<Rightarrow> addr \<Rightarrow> sk_ep \<Rightarrow> string \<Rightarrow> addr \<Rightarrow> sk_ep_handler \<Rightarrow> int \<Rightarrow> addr option \<Rightarrow> addr \<Rightarrow> u8 list \<Rightarrow>
   ('b, 'o) ep_pool \<times> addr" where
  "add_request p x ep service entity h start cb ud data =
     (let n = w_next (pw p);
          d = \<lparr>ed_owner = x, ed_service = service, ed_handler = h, ed_cb = cb, ed_ud = ud, ed_start = start, ed_e = entity,
               ed_recv_timer = None, ed_data = data, ed_status = SK_EP_NST_INIT\<rparr>
      in (set_ep (set_node (p\<lparr>pw := (pw p)\<lparr>w_next := Suc n\<rparr>\<rparr>) n d) x
            (ep\<lparr>ep_txns := ep_txns ep @ [n], ep_ntxn := ep_ntxn ep + 1\<rparr>), n))"

definition ep_mgr_get_or_create ::
  "('b, 'o) ep_env \<Rightarrow> ('b, 'o) ep_pool \<Rightarrow> mgr_ref \<Rightarrow> string \<Rightarrow> addr \<Rightarrow> sk_ep_handler \<Rightarrow> int \<Rightarrow> addr option \<Rightarrow> addr \<Rightarrow>
   u8 list \<Rightarrow> (('b, 'o) ep_pool \<times> addr option) res" where
  "ep_mgr_get_or_create X p r service entity h start cb ud data =
     rbind (get_ep X p r entity h) (\<lambda>(p, x). with_ep p x (\<lambda>ep.
       let (p, n) = add_request p x ep service entity h start cb ud data
       in if ep_status ep = SK_EP_ST_INIT then
            rbind (if eh_type h = SK_EP_TCP then create_entity_tcp X p h x n else create_entity_udp X p h x n) (\<lambda>(p, res).
              if res \<noteq> 0 then
                rbind (ep_node_destroy p n False) (\<lambda>p.
                rbind (ep_mgr_del X p r x) (\<lambda>p. Inr (p, None)))
              else Inr (p, Some n))
          else Inr (p, Some n)))"

section \<open>The interface\<close>

definition sk_ep_mgr_create :: "('b, 'o) world \<Rightarrow> int \<Rightarrow> ('b, 'o) world \<times> sk_ep_mgr" where
  "sk_ep_mgr_create w mx = (let (w, m) = sk_entity_mgr_create w
     in (w, \<lparr>em_eps = m, em_ee = (\<lambda>_. []), em_tmp = [], em_max = mx, em_nep = 0\<rparr>))"

text \<open>\<^verbatim>\<open>max\<close> is positive, so both managers exist.\<close>

definition sk_ep_pool_create :: "('b, 'o) world \<Rightarrow> addr \<Rightarrow> int \<Rightarrow> ('b, 'o) ep_pool" where
  "sk_ep_pool_create w tmsvc max_fds =
     (let mx = (if 0 < max_fds then max_fds else SK_EP_POOL_MAX);
          (w, tcp) = sk_ep_mgr_create w mx; (w, udp) = sk_ep_mgr_create w mx
      in \<lparr>pw = w, pl_tcp = tcp, pl_udp = udp, pl_tmsvc = tmsvc, pl_eps = Map.empty, pl_nodes = Map.empty,
          pl_tds = Map.empty, pl_log = []\<rparr>)"

text \<open>\<open>keys\<close> are the keys of the two tables of the manager.\<close>

fun destroy_eps :: "('b, 'o) ep_env \<Rightarrow> ('b, 'o) ep_pool \<Rightarrow> addr list \<Rightarrow> ('b, 'o) ep_pool res" where
  "destroy_eps X p [] = Inr p"
| "destroy_eps X p (x # xs) = rbind (ep_destroy X p x) (\<lambda>p. destroy_eps X p xs)"

definition sk_ep_mgr_destroy ::
  "('b, 'o) ep_env \<Rightarrow> ('b, 'o) ep_pool \<Rightarrow> mgr_ref \<Rightarrow> (addr \<times> string) list \<Rightarrow> ('b, 'o) ep_pool res" where
  "sk_ep_mgr_destroy X p r keys =
     rbind (destroy_eps X p (concat (map (\<lambda>k. in_order (xe_fifo X) (em_ee (get_mgr p r) k)) keys))) (\<lambda>p.
       in_world p (sk_entity_mgr_destroy (xe_E X) (pw p) (em_eps (get_mgr p r))))"

definition sk_ep_pool_destroy ::
  "('b, 'o) ep_env \<Rightarrow> ('b, 'o) ep_pool \<Rightarrow> (addr \<times> string) list \<Rightarrow> (addr \<times> string) list \<Rightarrow> ('b, 'o) ep_pool res" where
  "sk_ep_pool_destroy X p tcp_keys udp_keys =
     rbind (sk_ep_mgr_destroy X p Tcp_mgr tcp_keys) (\<lambda>p. sk_ep_mgr_destroy X p Udp_mgr udp_keys)"

text \<open>Steps 3 and 4 of \<^verbatim>\<open>_sk_ep_send\<close>, with the manager of the protocol.\<close>

definition ep_error :: "('b, 'o) ep_pool \<Rightarrow> (('b, 'o) ep_pool \<times> sk_ep_status) res" where
  "ep_error p = Inr (metric2 p ''ep_error'', SK_EP_ERROR)"

definition ep_send_via ::
  "('b, 'o) ep_env \<Rightarrow> ('b, 'o) ep_pool \<Rightarrow> mgr_ref \<Rightarrow> string \<Rightarrow> addr \<Rightarrow> sk_ep_handler \<Rightarrow> int \<Rightarrow> u8 list \<Rightarrow> addr option \<Rightarrow> addr \<Rightarrow>
   (('b, 'o) ep_pool \<times> sk_ep_status) res" where
  "ep_send_via X p r service entity h start data cb ud =
     (if em_nep (get_mgr p r) = em_max (get_mgr p r) then ep_error p
      else rbind (ep_mgr_get_or_create X p r service entity h start cb ud data) (\<lambda>(p, node). case node of
             None \<Rightarrow> ep_error p
           | Some n \<Rightarrow> ep_send X p n data))"

definition sk_ep_send ::
  "('b, 'o) ep_env \<Rightarrow> ('b, 'o) ep_pool \<Rightarrow> string \<Rightarrow> addr \<Rightarrow> sk_ep_handler \<Rightarrow> u8 list \<Rightarrow> addr option \<Rightarrow> addr \<Rightarrow>
   (('b, 'o) ep_pool \<times> sk_ep_status) res" where
  "sk_ep_send X p service entity h data cb ud =
     (let (p, start) = time_ms X p
      in if data = [] then ep_error p
         else if eh_ip h = None \<or> eh_port h = 0 then ep_error p
         else if eh_timeout h \<noteq> 0 \<and> eh_unpack h = None then ep_error p
         else if eh_type h = SK_EP_TCP then ep_send_via X p Tcp_mgr service entity h start data cb ud
         else if eh_type h = SK_EP_UDP then ep_send_via X p Udp_mgr service entity h start data cb ud
         else ep_error p)"

end
