(* ===== verification/Ep_Proofs.thy ===== *)
theory Ep_Proofs
  imports Ep_Pool
begin

text \<open>Properties of the pool of end points: reuse, the bound on connections, failures.\<close>

section \<open>Lists of end points\<close>

lemma in_order_pop: "q \<noteq> [] \<Longrightarrow> flist_pop fifo q = (t, q') \<Longrightarrow> in_order fifo q = t # in_order fifo q'"
  by (cases q rule: rev_cases) (auto simp: flist_pop_def in_order_def neq_Nil_conv split: if_splits)

lemma in_order_filter: "filter P (in_order fifo xs) = in_order fifo (filter P xs)"
  by (simp add: in_order_def rev_filter)

lemma flist_pop_length: "q \<noteq> [] \<Longrightarrow> flist_pop fifo q = (t, q') \<Longrightarrow> length q = Suc (length q')"
  by (cases q) (auto simp: flist_pop_def split: if_splits)

lemma unload_eps_eq:
  "length q \<le> k \<Longrightarrow> unload_eps fifo k q tmp x = tmp @ filter (\<lambda>t. t \<noteq> x) (in_order fifo q)"
proof (induction k arbitrary: q tmp)
  case (Suc k)
  show ?case
  proof (cases "q = []")
    case False
    obtain t q' where p: "flist_pop fifo q = (t, q')" by fastforce
    have "length q' \<le> k" using flist_pop_length [OF False p] Suc.prems by simp
    with Suc.IH [of q'] False p in_order_pop [OF False p] show ?thesis by simp
  qed simp
qed simp

lemma reload_eps_eq: "length tmp \<le> k \<Longrightarrow> reload_eps fifo k tmp q = q @ in_order fifo tmp"
proof (induction k arbitrary: q tmp)
  case (Suc k)
  show ?case
  proof (cases "tmp = []")
    case False
    obtain t tmp' where p: "flist_pop fifo tmp = (t, tmp')" by fastforce
    have "length tmp' \<le> k" using flist_pop_length [OF False p] Suc.prems by simp
    with Suc.IH [of tmp'] False p in_order_pop [OF False p] show ?thesis by simp
  qed simp
qed simp

text \<open>Taking an end point out of its list keeps the others in their order, whatever end a list is popped at.\<close>

lemma remove_ep_eq: "remove_ep fifo [] q x = filter (\<lambda>t. t \<noteq> x) q"
  by (simp add: remove_ep_def unload_eps_eq reload_eps_eq Let_def in_order_filter)

section \<open>Reuse\<close>

text \<open>End points as the pool makes them: they never have a flag, and at most one request.\<close>

definition plain_ep :: "('b, 'o) ep_pool \<Rightarrow> addr \<Rightarrow> bool" where
  "plain_ep p x \<longleftrightarrow> (\<exists>ep. pl_eps p x = Some ep \<and> ep_flags ep = 0 \<and> ep_ntxn ep \<le> 1)"

definition idle_ep :: "('b, 'o) ep_pool \<Rightarrow> addr \<Rightarrow> bool" where
  "idle_ep p x \<longleftrightarrow> (\<exists>ep. pl_eps p x = Some ep \<and> ep_status ep = SK_EP_ST_CONNECTED \<and> ep_txns ep = [])"

lemma find_loop_eq:
  assumes "\<forall>x \<in> set xs. plain_ep p x"
  shows "find_loop p h xs = Inr (if eh_flags h = 0 then find (idle_ep p) xs else None)"
  using assms
proof (induction xs)
  case (Cons x xs)
  then obtain ep where "pl_eps p x = Some ep" "ep_flags ep = 0" "ep_ntxn ep \<le> 1" by (auto simp: plain_ep_def)
  with Cons show ?case by (auto simp: with_ep_def ep_usable_def idle_ep_def [of p x])
qed simp

text \<open>
  An end point is reused only when it is idle. Among the end points of an address the search
  returns the first one that is connected and has no request; it never fails. A request with a flag
  (\<^verbatim>\<open>SK_EP_F_CONCURRENT\<close> or \<^verbatim>\<open>SK_EP_F_PRIVATE\<close>) never finds one, because end points are
  created without flags, and so opens a connection of its own every time.
\<close>
theorem find_ep_idle:
  assumes "\<forall>x \<in> set q. plain_ep p x"
  shows "find_ep X p q h = Inr (if eh_flags h = 0 then find (idle_ep p) (in_order (xe_fifo X) q) else None)"
  using find_loop_eq [of "in_order (xe_fifo X) q" p h] assms by (simp add: find_ep_def)

text \<open>Two end points of one address: the first is busy, the second idle.\<close>

definition demo_ep :: sk_ep where
  "demo_ep = \<lparr>ep_ekey = 0, ep_ipkey = ''a:1'', ep_type = SK_EP_TCP, ep_status = SK_EP_ST_CONNECTED, ep_entity = Some 9,
     ep_txns = [7], ep_ntxn = 1, ep_flags = 0, ep_start = 0, ep_conn_timer = None, ep_shutdown_timer = None,
     ep_owner = Tcp_mgr, ep_fd = 3\<rparr>"

definition demo_two_eps :: "(sk_srv_task cellbuf, u8 cellbuf) ep_pool" where
  "demo_two_eps = (sk_ep_pool_create empty_world 1 2)\<lparr>pl_eps := [5 \<mapsto> demo_ep, 6 \<mapsto> demo_ep\<lparr>ep_txns := [], ep_ntxn := 0\<rparr>]\<rparr>"

definition demo_ep_env :: "(sk_srv_task cellbuf, u8 cellbuf) ep_env" where
  "demo_ep_env = \<lparr>xe_E = demo_env, xe_fifo = True, xe_ms = int, xe_conn_async = (\<lambda>_ _ _. (0, 5)), xe_socket = (\<lambda>_ _ _. 5),
     xe_connect = (\<lambda>_ _. 0), xe_reg = (\<lambda>_ _. 0), xe_sockerr = (\<lambda>_ _. (0, 0)), xe_unpack = (\<lambda>_ _ _ bs. int (length bs))\<rparr>"

definition demo_handler :: sk_ep_handler where
  "demo_handler = \<lparr>eh_type = SK_EP_TCP, eh_port = 1, eh_ip = Some ''a'', eh_timeout = 10, eh_flags = 0,
     eh_unpack = Some 4, eh_release = None\<rparr>"

theorem find_ep_idle_witness: "find_ep demo_ep_env demo_two_eps [5, 6] demo_handler = Inr (Some 6)"
proof -
  have "\<forall>x \<in> set [5, 6]. plain_ep demo_two_eps x"
    by (simp add: plain_ep_def demo_two_eps_def demo_ep_def)
  from find_ep_idle [OF this, of demo_ep_env demo_handler] show ?thesis
    by (simp add: demo_handler_def demo_ep_env_def in_order_def idle_ep_def demo_two_eps_def demo_ep_def)
qed

section \<open>The invariant of the pool\<close>

text \<open>The part of an end point that the invariant speaks of, the owner of a node, and how often its callback was run.\<close>

definition ep_view :: "sk_ep \<Rightarrow> sk_ep" where
  "ep_view ep = ep\<lparr>ep_type := 0, ep_status := SK_EP_ST_INIT, ep_entity := None, ep_start := 0, ep_conn_timer := None,
     ep_shutdown_timer := None, ep_fd := 0\<rparr>"

lemma ep_view_simps [simp]:
  "ep_flags (ep_view ep) = ep_flags ep" "ep_ntxn (ep_view ep) = ep_ntxn ep" "ep_txns (ep_view ep) = ep_txns ep"
  "ep_owner (ep_view ep) = ep_owner ep" "ep_ekey (ep_view ep) = ep_ekey ep" "ep_ipkey (ep_view ep) = ep_ipkey ep"
  "ep_view (ep\<lparr>ep_status := st\<rparr>) = ep_view ep" "ep_view (ep\<lparr>ep_entity := a\<rparr>) = ep_view ep"
  "ep_view (ep\<lparr>ep_conn_timer := t\<rparr>) = ep_view ep" "ep_view (ep\<lparr>ep_shutdown_timer := t\<rparr>) = ep_view ep"
  "ep_view (ep\<lparr>ep_fd := fd\<rparr>) = ep_view ep"
  "ep_view (ep\<lparr>ep_txns := ns, ep_ntxn := k\<rparr>) = (ep_view ep)\<lparr>ep_txns := ns, ep_ntxn := k\<rparr>"
  by (simp_all add: ep_view_def)

definition core_of :: "('b, 'o) ep_pool \<Rightarrow> addr \<Rightarrow> sk_ep option" where
  "core_of p x = map_option ep_view (pl_eps p x)"

definition own_of :: "('b, 'o) ep_pool \<Rightarrow> addr \<Rightarrow> addr option" where
  "own_of p n = map_option ed_owner (pl_nodes p n)"

fun is_cb :: "addr \<Rightarrow> ep_effect \<Rightarrow> bool" where
  "is_cb n (Ep_cb m _ _ _ _) = (m = n)"
| "is_cb n _ = False"

definition cbs_of :: "('b, 'o) ep_pool \<Rightarrow> addr \<Rightarrow> nat" where
  "cbs_of p n = length (filter (is_cb n) (pl_log p))"

text \<open>
  Every end point has no flags, at most one request, and counts it; requests and end points point to
  each other; the tables hold exactly the live end points, under their keys; each manager counts its end points and has
  no more than its limit; a request that still exists has not been answered, the others at most once; addresses
  from \<open>w_next\<close> on are unused.
\<close>

definition ep_ok :: "('b, 'o) ep_pool \<Rightarrow> addr \<Rightarrow> sk_ep \<Rightarrow> bool" where
  "ep_ok p x ep \<longleftrightarrow> ep_flags ep = 0 \<and> ep_ntxn ep = int (length (ep_txns ep)) \<and> length (ep_txns ep) \<le> 1 \<and>
     (\<forall>n \<in> set (ep_txns ep). own_of p n = Some x) \<and>
     x \<in> set (em_ee (get_mgr p (ep_owner ep)) (ep_ekey ep, ep_ipkey ep))"

definition place :: "('b, 'o) ep_pool \<Rightarrow> addr \<Rightarrow> (mgr_ref \<times> addr \<times> string) option" where
  "place p x = map_option (\<lambda>ep. (ep_owner ep, ep_ekey ep, ep_ipkey ep)) (core_of p x)"

definition eps_of :: "('b, 'o) ep_pool \<Rightarrow> mgr_ref \<Rightarrow> addr set" where
  "eps_of p r = {x. \<exists>k. place p x = Some (r, k)}"

definition mgr_ok :: "('b, 'o) ep_pool \<Rightarrow> mgr_ref \<Rightarrow> bool" where
  "mgr_ok p r \<longleftrightarrow> finite (eps_of p r) \<and> em_nep (get_mgr p r) = int (card (eps_of p r)) \<and>
     int (card (eps_of p r)) \<le> em_max (get_mgr p r) \<and> em_tmp (get_mgr p r) = [] \<and>
     (\<forall>k x. x \<in> set (em_ee (get_mgr p r) k) \<longrightarrow> place p x = Some (r, k))"

definition node_ok :: "('b, 'o) ep_pool \<Rightarrow> addr \<Rightarrow> bool" where
  "node_ok p n \<longleftrightarrow> cbs_of p n \<le> (if own_of p n = None then 1 else 0) \<and>
     (\<forall>x. own_of p n = Some x \<longrightarrow> (\<exists>ep. core_of p x = Some ep \<and> n \<in> set (ep_txns ep)))"

definition pool_inv :: "('b, 'o) ep_pool \<Rightarrow> bool" where
  "pool_inv p \<longleftrightarrow> (\<forall>x ep. core_of p x = Some ep \<longrightarrow> ep_ok p x ep) \<and> (\<forall>r. mgr_ok p r) \<and> (\<forall>n. node_ok p n) \<and>
     (\<forall>a \<ge> w_next (pw p). core_of p a = None \<and> own_of p a = None \<and> cbs_of p a = 0)"

lemmas pool_inv_defs = pool_inv_def ep_ok_def mgr_ok_def node_ok_def eps_of_def place_def

definition keep :: "('b, 'o) ep_pool \<Rightarrow> ('b, 'o) ep_pool \<Rightarrow> bool" where
  "keep p p' \<longleftrightarrow> core_of p' = core_of p \<and> own_of p' = own_of p \<and> get_mgr p' = get_mgr p \<and> cbs_of p' = cbs_of p \<and>
     w_next (pw p) \<le> w_next (pw p')"

lemma keep_refl [simp]: "keep p p"
  by (simp add: keep_def)

lemma keep_trans [trans]: "keep p p' \<Longrightarrow> keep p' p'' \<Longrightarrow> keep p p''"
  by (simp add: keep_def)

lemma keep_inv: "keep p p' \<Longrightarrow> pool_inv p \<Longrightarrow> pool_inv p'"
  by (simp add: keep_def pool_inv_defs)

text \<open>What the updates change of it.\<close>

lemmas view_defs = core_of_def own_of_def cbs_of_def get_mgr_def put_mgr_def fun_eq_iff

lemma view_world [simp]:
  "core_of (p\<lparr>pw := w\<rparr>) = core_of p" "own_of (p\<lparr>pw := w\<rparr>) = own_of p" "get_mgr (p\<lparr>pw := w\<rparr>) = get_mgr p"
  "cbs_of (p\<lparr>pw := w\<rparr>) = cbs_of p"
  by (auto simp: view_defs split: mgr_ref.split)

lemma view_log [simp]:
  "core_of (plog p es) = core_of p" "own_of (plog p es) = own_of p" "get_mgr (plog p es) = get_mgr p" "pw (plog p es) = pw p"
  "cbs_of (plog p es) n = cbs_of p n + length (filter (is_cb n) es)" "pl_nodes (plog p es) = pl_nodes p" "pl_eps (plog p es) = pl_eps p"
  by (auto simp: view_defs plog_def split: mgr_ref.split)

lemma view_tds [simp]:
  "core_of (p\<lparr>pl_tds := f\<rparr>) = core_of p" "own_of (p\<lparr>pl_tds := f\<rparr>) = own_of p" "get_mgr (p\<lparr>pl_tds := f\<rparr>) = get_mgr p"
  "cbs_of (p\<lparr>pl_tds := f\<rparr>) = cbs_of p"
  by (auto simp: view_defs split: mgr_ref.split)

lemma view_set_ep [simp]:
  "core_of (set_ep p x ep) = (core_of p)(x \<mapsto> ep_view ep)" "own_of (set_ep p x ep) = own_of p"
  "get_mgr (set_ep p x ep) = get_mgr p" "pw (set_ep p x ep) = pw p" "cbs_of (set_ep p x ep) = cbs_of p"
  "pl_eps (set_ep p x ep) = (pl_eps p)(x \<mapsto> ep)" "pl_nodes (set_ep p x ep) = pl_nodes p"
  by (auto simp: view_defs set_ep_def split: mgr_ref.split)

lemma view_set_node [simp]:
  "core_of (set_node p n d) = core_of p" "own_of (set_node p n d) = (own_of p)(n \<mapsto> ed_owner d)"
  "get_mgr (set_node p n d) = get_mgr p" "pw (set_node p n d) = pw p" "cbs_of (set_node p n d) = cbs_of p"
  "pl_eps (set_node p n d) = pl_eps p" "pl_nodes (set_node p n d) = (pl_nodes p)(n \<mapsto> d)"
  by (auto simp: view_defs set_node_def split: mgr_ref.split)

lemma view_drop [simp]:
  "core_of (p\<lparr>pl_eps := (pl_eps p)(x := None)\<rparr>) = (core_of p)(x := None)" "own_of (p\<lparr>pl_eps := E\<rparr>) = own_of p"
  "get_mgr (p\<lparr>pl_eps := E\<rparr>) = get_mgr p" "cbs_of (p\<lparr>pl_eps := E\<rparr>) = cbs_of p"
  "core_of (p\<lparr>pl_nodes := N\<rparr>) = core_of p" "own_of (p\<lparr>pl_nodes := (pl_nodes p)(n := None)\<rparr>) = (own_of p)(n := None)"
  "get_mgr (p\<lparr>pl_nodes := N\<rparr>) = get_mgr p" "cbs_of (p\<lparr>pl_nodes := N\<rparr>) = cbs_of p"
  by (auto simp: view_defs split: mgr_ref.split)

lemma view_put_mgr [simp]:
  "core_of (put_mgr p r m) = core_of p" "own_of (put_mgr p r m) = own_of p" "pw (put_mgr p r m) = pw p"
  "get_mgr (put_mgr p r m) = (get_mgr p)(r := m)" "cbs_of (put_mgr p r m) = cbs_of p" "pl_eps (put_mgr p r m) = pl_eps p"
  by (auto simp: view_defs split: mgr_ref.split)

lemma view_metric [simp]:
  "core_of (metric2 p s) = core_of p" "own_of (metric2 p s) = own_of p" "get_mgr (metric2 p s) = get_mgr p"
  "w_next (pw (metric2 p s)) = w_next (pw p)" "cbs_of (metric2 p s) = cbs_of p"
  by (simp_all add: metric2_def fx_def)

lemma core_ofI: "pl_eps p x = Some ep \<Longrightarrow> core_of p x = Some (ep_view ep)"
  by (simp add: core_of_def)

lemma own_ofI: "pl_nodes p n = Some d \<Longrightarrow> own_of p n = Some (ed_owner d)"
  by (simp add: own_of_def)

text \<open>Updates that it does not see.\<close>

lemma keep_world: "keep p0 p \<Longrightarrow> w_next (pw p) \<le> w_next w \<Longrightarrow> keep p0 (p\<lparr>pw := w\<rparr>)"
  by (simp add: keep_def)

lemma keep_log: "(\<And>n. filter (is_cb n) es = []) \<Longrightarrow> keep p0 (plog p es) = keep p0 p"
  by (simp add: keep_def fun_eq_iff)

lemma keep_simps [simp]:
  "keep p0 (p\<lparr>pl_tds := f\<rparr>) = keep p0 p" "keep p0 (metric2 p s) = keep p0 p"
  by (simp_all add: keep_def)

lemma keep_set_ep: "keep p0 p \<Longrightarrow> core_of p0 x = Some (ep_view ep) \<Longrightarrow> keep p0 (set_ep p x ep)"
  by (simp add: keep_def fun_upd_idem)

lemma keep_set_node: "keep p0 p \<Longrightarrow> own_of p0 n = Some (ed_owner d) \<Longrightarrow> keep p0 (set_node p n d)"
  by (simp add: keep_def fun_upd_idem)

lemma keep_ep: "keep p0 p \<Longrightarrow> pl_eps p x = Some ep \<Longrightarrow> core_of p0 x = Some (ep_view ep)"
  using core_ofI [of p x ep] by (simp add: keep_def)

lemma keep_node: "keep p0 p \<Longrightarrow> pl_nodes p n = Some d \<Longrightarrow> own_of p0 n = Some (ed_owner d)"
  using own_ofI [of p n d] by (simp add: keep_def)

section \<open>Addresses only grow\<close>

named_theorems next_grows \<open>operations of the world never give an address back\<close>

lemma fx_next [simp]: "w_next (fx w es) = w_next w" by (simp add: fx_def)
lemma tick_next [simp]: "w_next (tick w) = w_next w" by (simp add: tick_def)
lemma set_ent_next [simp]: "w_next (set_ent w a e) = w_next w" by (simp add: set_ent_def)
lemma set_mgr_next [simp]: "w_next (set_mgr w m e) = w_next w" by (simp add: set_mgr_def)
lemma set_txn_next [simp]: "w_next (set_txn w m e) = w_next w" by (simp add: set_txn_def)
lemma set_timer_next [simp]: "w_next (set_timer w m e) = w_next w" by (simp add: set_timer_def)
lemma set_tmsvc_next [simp]: "w_next (set_tmsvc w m e) = w_next w" by (simp add: set_tmsvc_def)
lemma send_next [simp]: "w_next (send w s d a t m) = w_next w" by (simp add: send_def)

lemma timer_cancel_next [next_grows]: "sk_timer_cancel w tm = Inr w' \<Longrightarrow> w_next w' = w_next w"
  by (auto simp: sk_timer_cancel_def with_timer_def res_simps split: if_splits)

lemma timer_create_next [next_grows]: "sk_timersvc_timer_create w sv a d i f u = Inr (w', tm) \<Longrightarrow> w_next w' = Suc (w_next w)"
  by (auto simp: sk_timersvc_timer_create_def with_tmsvc_def res_simps Let_def)

lemma write_next [next_grows]: "sk_entity_write E w a bs = Inr (w', n) \<Longrightarrow> w_next w' = w_next w"
  by (auto simp: sk_entity_write_def with_ent_def res_simps split: opt_fn.split_asm) (metis opt_fn.exhaust)

lemma read_next [next_grows]: "sk_entity_read E w a l = Inr (w', n) \<Longrightarrow> w_next w' = w_next w"
  by (auto simp: sk_entity_read_def with_ent_def res_simps split: opt_fn.split_asm) (metis opt_fn.exhaust)

lemma tcp_create_next [next_grows]: "sk_entity_tcp_create w a u = Inr w' \<Longrightarrow> w_next w' = w_next w"
  by (auto simp: sk_entity_tcp_create_def sk_entity_evb_create_def with_ent_def res_simps)

lemma txn_destroy_next: "sk_txn_destroy w t = Inr w' \<Longrightarrow> w_next w' = w_next w"
  by (auto simp: sk_txn_destroy_def sk_entity_txndel_def with_txn_def with_ent_def res_simps Let_def)

lemma destroy_txns_next: "destroy_txns w ts = Inr w' \<Longrightarrow> w_next w' = w_next w"
  by (induction ts arbitrary: w) (auto simp: res_simps dest!: txn_destroy_next)

lemma iqueue_pop_next: "sk_entity_iqueue_pop E w a = Inr (w', t) \<Longrightarrow> w_next w' = w_next w"
  by (auto simp: sk_entity_iqueue_pop_def with_ent_def res_simps Let_def case_prod_unfold split: if_split_asm)

lemma drain_iqueue_next: "drain_iqueue E n w a = Inr w' \<Longrightarrow> w_next w' = w_next w"
proof (induction n arbitrary: w)
  case (Suc n)
  then show ?case
    by (auto simp: res_simps split: option.split_asm dest!: txn_destroy_next iqueue_pop_next)
qed simp

lemma ent_destroy_next: "sk_entity_destroy E w a = Inr w' \<Longrightarrow> w_next w' = w_next w"
  by (auto simp: sk_entity_destroy_def with_ent_def res_simps Let_def split: if_splits
      dest!: destroy_txns_next drain_iqueue_next)

lemma mark_next: "sk_entity_mark w a st = Inr w' \<Longrightarrow> w_next w' = w_next w"
  by (auto simp: sk_entity_mark_def with_ent_def res_simps Let_def split: if_splits)

lemma mgr_add_next [next_grows]: "sk_entity_mgr_add w m a = Inr w' \<Longrightarrow> w_next w' = w_next w"
  by (auto simp: sk_entity_mgr_add_def with_ent_def with_mgr_def res_simps Let_def)

lemma mgr_del_next [next_grows]: "sk_entity_mgr_del E w m a = Inr w' \<Longrightarrow> w_next w' = w_next w"
  by (auto simp: sk_entity_mgr_del_def with_ent_def with_mgr_def res_simps Let_def split: if_splits
      dest!: mark_next ent_destroy_next)

lemma cleanup_one_next: "cleanup_one E f w m mgr = Inr w' \<Longrightarrow> w_next w' = w_next w"
  by (auto simp: cleanup_one_def with_ent_def res_simps Let_def split: if_splits prod.splits dest!: ent_destroy_next)

lemma cleanup_loop_next: "cleanup_loop E f n w m = Inr w' \<Longrightarrow> w_next w' = w_next w"
  by (induction n arbitrary: w) (auto simp: with_mgr_def res_simps split: if_splits dest!: cleanup_one_next)

lemma clean_dead_next [next_grows]: "sk_entity_mgr_clean_dead E w m = Inr w' \<Longrightarrow> w_next w' = w_next w"
  by (auto simp: sk_entity_mgr_clean_dead_def cleanup_dead_entities_def with_mgr_def res_simps Let_def dest!: cleanup_loop_next)

lemma safe_destroy_next [next_grows]: "sk_entity_safe_destroy E w cur a = Inr (w', r) \<Longrightarrow> w_next w' = w_next w"
  by (auto simp: sk_entity_safe_destroy_def with_ent_def with_mgr_def res_simps split: option.splits if_splits
      dest!: mark_next ent_destroy_next mgr_del_next)

section \<open>Partial correctness\<close>

text \<open>\<open>safe m Q\<close>: if \<open>m\<close> returns, then in a state with \<open>Q\<close>.\<close>

definition safe :: "'a res \<Rightarrow> ('a \<Rightarrow> bool) \<Rightarrow> bool" where
  "safe m Q \<longleftrightarrow> (\<forall>x. m = Inr x \<longrightarrow> Q x)"

lemma safe_simps [simp]:
  "safe (Inr x) Q = Q x" "safe (Inl e) Q"
  "safe (sk_assert b k) Q \<longleftrightarrow> (b \<longrightarrow> safe k Q)"
  "safe (deref q g) Q \<longleftrightarrow> (\<forall>x. q = Some x \<longrightarrow> safe (g x) Q)"
  "safe (live q g) Q \<longleftrightarrow> (\<forall>x. q = Some x \<longrightarrow> safe (g x) Q)"
  by (auto simp: safe_def res_simps)

lemma safe_bind: "safe m P \<Longrightarrow> (\<And>x. P x \<Longrightarrow> safe (f x) Q) \<Longrightarrow> safe (rbind m f) Q"
  by (auto simp: safe_def res_simps)

lemma safe_reset: "(\<And>x. safe (f x) Q) \<Longrightarrow> safe (rbind (sk_timer_reset k w tm) f) Q"
  by (auto simp: safe_def res_simps)

lemma safe_mono: "safe m P \<Longrightarrow> (\<And>x. P x \<Longrightarrow> Q x) \<Longrightarrow> safe m Q"
  by (simp add: safe_def)

section \<open>Operations that the invariant does not see\<close>

lemmas access = with_ep_def with_node_def

lemma time_keep: "time_ms X p = (p', t) \<Longrightarrow> keep p0 p \<Longrightarrow> keep p0 p'"
  by (auto simp: time_ms_def intro!: keep_world)

lemma in_world_keep:
  assumes "keep p0 p" "\<And>w. m = Inr w \<Longrightarrow> w_next (pw p) \<le> w_next w"
  shows "safe (in_world p m) (keep p0)"
  using assms by (auto simp: in_world_def safe_def res_simps intro!: keep_world)

lemma cancel_keep: "keep p0 p \<Longrightarrow> safe (cancel_timer p t) (keep p0)"
  by (auto simp: cancel_timer_def split: option.split intro!: in_world_keep dest!: next_grows)

lemma create_timer_keep: "keep p0 p \<Longrightarrow> safe (create_timer p ty tg f t) (\<lambda>(p', tm). keep p0 p')"
  by (auto simp: create_timer_def Let_def sk_entity_create_def safe_def res_simps intro!: keep_world dest!: next_grows)

lemma set_ep_keep:
  "keep p0 p \<Longrightarrow> (\<exists>ep. pl_eps p x = Some ep \<and> ep_view ep' = ep_view ep) \<Longrightarrow> keep p0 (set_ep p x ep')"
  by (metis keep_set_ep keep_ep)

lemma set_node_keep: "keep p0 p \<Longrightarrow> (\<exists>d. pl_nodes p n = Some d \<and> ed_owner d' = ed_owner d) \<Longrightarrow> keep p0 (set_node p n d')"
  by (metis keep_set_node keep_node)

lemmas timer_defs = ep_create_timer_def ep_node_create_timer_def

lemmas timer_binds = safe_bind [OF cancel_keep] safe_bind [OF create_timer_keep]

lemma shutdown_timer_keep:
  assumes k: "keep p0 p"
  shows "safe (ep_create_shutdown_timer p x e) (keep p0)"
proof -
  have "safe (case ep_shutdown_timer ep of None \<Rightarrow> Inr (p, False)
      | Some tm \<Rightarrow> rbind (sk_timer_reset 0 (pw p) tm) (\<lambda>ret.
          if ret = 0 then Inr (p\<lparr>pw := fx (pw p) [Timer_add tm e 0]\<rparr>, True)
          else rbind (cancel_timer p (Some tm)) (\<lambda>p. Inr (set_ep p x (ep\<lparr>ep_shutdown_timer := None\<rparr>), False))))
      (\<lambda>(p, _). keep p0 p)" if "pl_eps p x = Some ep" for ep
    using k keep_ep [OF k that]
    by (auto split: option.split intro!: safe_reset safe_bind [OF cancel_keep] keep_world keep_set_ep)
  then show ?thesis
    unfolding ep_create_shutdown_timer_def access safe_simps
    by (intro allI impI safe_bind [where P = "\<lambda>(p, _). keep p0 p"])
      (auto simp: timer_defs access intro!: safe_bind [OF create_timer_keep] set_ep_keep)
qed

lemma time_left_keep: "keep p0 p \<Longrightarrow> keep p0 (fst (sk_ep_txn_time_left X p d))"
  by (simp add: sk_ep_txn_time_left_def time_ms_def Let_def keep_def)

lemma time_consumed_keep: "keep p0 p \<Longrightarrow> keep p0 (fst (sk_ep_txn_time_consumed X p d))"
  by (simp add: sk_ep_txn_time_consumed_def time_ms_def keep_def)

lemma ep_timeout_keep: "keep p0 p \<Longrightarrow> keep p0 (fst (sk_ep_timeout X p d))"
  by (simp add: sk_ep_timeout_def time_ms_def keep_def)

lemma send_timers_keep:
  assumes "keep p0 p"
  shows "safe (ep_send_timers X p n d) (keep p0)"
  using assms
  by (auto simp: ep_send_timers_def Let_def case_prod_unfold timer_defs access
      intro!: safe_bind [OF shutdown_timer_keep] shutdown_timer_keep timer_binds time_left_keep set_node_keep)

lemma write_keep: "keep p0 p \<Longrightarrow> safe (sk_entity_write E (pw p) a bs) (\<lambda>(w, _). keep p0 (p\<lparr>pw := w\<rparr>))"
  by (auto simp: safe_def keep_def dest: write_next)

lemma ep_send_keep:
  assumes "keep p0 p"
  shows "safe (ep_send X p n data) (\<lambda>(p, _). keep p0 p)"
  using assms
  by (auto simp: ep_send_def Let_def access intro!: safe_bind [OF write_keep] safe_bind [OF send_timers_keep] set_node_keep)

section \<open>The end of a request\<close>

text \<open>
  \<open>nearly n p p'\<close>: \<open>p'\<close> differs only in that the callback of \<open>n\<close> may have been run.
  \<open>del_node p n p'\<close>: in addition, node \<open>n\<close> is gone.
\<close>

definition nearly :: "addr \<Rightarrow> ('b, 'o) ep_pool \<Rightarrow> ('b, 'o) ep_pool \<Rightarrow> bool" where
  "nearly n p p' \<longleftrightarrow> core_of p' = core_of p \<and> own_of p' = own_of p \<and> get_mgr p' = get_mgr p \<and>
     w_next (pw p) \<le> w_next (pw p') \<and> cbs_of p' n \<le> Suc (cbs_of p n) \<and> (\<forall>m. m \<noteq> n \<longrightarrow> cbs_of p' m = cbs_of p m)"

definition del_node :: "('b, 'o) ep_pool \<Rightarrow> addr \<Rightarrow> ('b, 'o) ep_pool \<Rightarrow> bool" where
  "del_node p n p' \<longleftrightarrow> (\<exists>x ep. own_of p n = Some x \<and> core_of p x = Some ep \<and>
     core_of p' = (core_of p)(x \<mapsto> ep\<lparr>ep_txns := removeAll n (ep_txns ep), ep_ntxn := ep_ntxn ep - 1\<rparr>)) \<and>
     own_of p' = (own_of p)(n := None) \<and> get_mgr p' = get_mgr p \<and> w_next (pw p) \<le> w_next (pw p') \<and>
     cbs_of p' n \<le> Suc (cbs_of p n) \<and> (\<forall>m. m \<noteq> n \<longrightarrow> cbs_of p' m = cbs_of p m)"

lemma nearly_keep: "keep p p' \<Longrightarrow> nearly n p p'"
  by (simp add: keep_def nearly_def)

lemma nearly_cb: "keep p p' \<Longrightarrow> nearly n p (run_cb p' n d st l bs)"
  by (auto simp: keep_def nearly_def run_cb_def split: option.split)

lemma nearly_trans: "nearly n p p' \<Longrightarrow> keep p' p'' \<Longrightarrow> nearly n p p''"
  by (simp add: keep_def nearly_def)

lemma del_node_keep: "del_node p n p' \<Longrightarrow> keep p' p'' \<Longrightarrow> del_node p n p''"
  by (simp add: keep_def del_node_def)

lemma cancel_nodes: "safe (cancel_timer p t) (\<lambda>p'. keep p p' \<and> pl_nodes p' = pl_nodes p \<and> pl_eps p' = pl_eps p)"
  by (auto simp: cancel_timer_def in_world_def safe_def res_simps split: option.split intro!: keep_world dest: next_grows)

lemma node_destroy_del:
  assumes n: "nearly n p0 p"
  shows "safe (ep_node_destroy p n rel) (del_node p0 n)"
proof -
  have "safe (ep_data_release p n rel) (\<lambda>p'. core_of p' = core_of p0 \<and> own_of p' = (own_of p0)(n := None) \<and>
      get_mgr p' = get_mgr p0 \<and> w_next (pw p0) \<le> w_next (pw p') \<and> cbs_of p' n \<le> Suc (cbs_of p0 n) \<and>
      (\<forall>m. m \<noteq> n \<longrightarrow> cbs_of p' m = cbs_of p0 m))"
    unfolding ep_data_release_def access safe_simps
    by (intro allI impI, rule safe_bind [OF cancel_nodes]) (use n in \<open>auto simp: Let_def keep_def nearly_def\<close>)
  then have "safe (ep_node_destroy p n rel) (del_node p0 n)" if d: "pl_nodes p n = Some d" for d
    unfolding ep_node_destroy_def access d live_simps
    by (rule safe_bind) (use own_ofI [OF d] n in \<open>auto simp: del_node_def nearly_def dest!: core_ofI\<close>)
  then show ?thesis by (cases "pl_nodes p n") (simp_all add: ep_node_destroy_def access)
qed

text \<open>What the invariant says of one object.\<close>

lemma inv_ep: "pool_inv p \<Longrightarrow> core_of p x = Some ep \<Longrightarrow> ep_ok p x ep"
  by (simp add: pool_inv_def)

lemma inv_node: "pool_inv p \<Longrightarrow> node_ok p n"
  by (simp add: pool_inv_def)

lemma inv_mgr: "pool_inv p \<Longrightarrow> mgr_ok p r"
  by (simp add: pool_inv_def)

lemma inv_fresh: "pool_inv p \<Longrightarrow> w_next (pw p) \<le> a \<Longrightarrow> core_of p a = None \<and> own_of p a = None \<and> cbs_of p a = 0"
  by (simp add: pool_inv_def)

lemma inv_own:
  assumes "pool_inv p" "own_of p n = Some x"
  obtains ep where "core_of p x = Some ep" "ep_txns ep = [n]" "ep_ntxn ep = 1" "cbs_of p n = 0" "n < w_next (pw p)" "x < w_next (pw p)"
proof -
  obtain ep where ep: "core_of p x = Some ep" "n \<in> set (ep_txns ep)" "cbs_of p n = 0"
    using inv_node [OF assms(1), of n] assms(2) by (auto simp: node_ok_def)
  moreover have "n < w_next (pw p)" "x < w_next (pw p)"
    using inv_fresh [OF assms(1), of n] inv_fresh [OF assms(1), of x] assms(2) ep by (auto simp: not_le [symmetric])
  moreover have "ep_txns ep = [n]" "ep_ntxn ep = 1"
    using inv_ep [OF assms(1) ep(1)] ep(2) by (auto simp: ep_ok_def le_Suc_eq length_Suc_conv)
  ultimately show thesis using that by blast
qed

text \<open>Then the invariant still holds.\<close>

lemma del_node_inv:
  assumes "pool_inv p" "del_node p n p'"
  shows "pool_inv p'"
proof -
  obtain x ep where x: "own_of p n = Some x" "core_of p x = Some ep"
    and v: "core_of p' = (core_of p)(x \<mapsto> ep\<lparr>ep_txns := removeAll n (ep_txns ep), ep_ntxn := ep_ntxn ep - 1\<rparr>)"
      "own_of p' = (own_of p)(n := None)" "get_mgr p' = get_mgr p" "w_next (pw p) \<le> w_next (pw p')"
      "cbs_of p' n \<le> Suc (cbs_of p n)" "\<And>m. m \<noteq> n \<Longrightarrow> cbs_of p' m = cbs_of p m"
    using assms(2) by (auto simp: del_node_def)
  have n: "ep_txns ep = [n]" "ep_ntxn ep = 1" "cbs_of p n = 0" "n < w_next (pw p)"
    using inv_own [OF assms(1) x(1)] x(2) by auto
  have other: "own_of p m = Some x \<Longrightarrow> m = n" for m
    using inv_own [OF assms(1), of m x] x(2) n by auto
  have "ep_ok p' y e" if "core_of p' y = Some e" for y e
  proof (cases "y = x")
    case True
    then show ?thesis using that inv_ep [OF assms(1) x(2)] n by (auto simp: ep_ok_def v)
  next
    case False
    then have y: "core_of p y = Some e" using that by (simp add: v)
    have "own_of p n \<noteq> Some y" using False x by simp
    then show ?thesis using inv_ep [OF assms(1) y] by (auto simp: ep_ok_def v)
  qed
  moreover have "place p' = place p"
    using x by (auto simp: place_def v)
  then have "mgr_ok p' r" for r
    using inv_mgr [OF assms(1)] by (simp add: mgr_ok_def eps_of_def v)
  moreover have "node_ok p' m" for m
  proof (cases "m = n")
    case False
    then have "node_ok p m" "own_of p' m = own_of p m" "cbs_of p' m = cbs_of p m" "own_of p m \<noteq> Some x"
      using inv_node [OF assms(1)] v other by auto
    then show ?thesis by (auto simp: node_ok_def v)
  qed (use v n in \<open>simp add: node_ok_def\<close>)
  moreover have "core_of p' a = None \<and> own_of p' a = None \<and> cbs_of p' a = 0" if "w_next (pw p') \<le> a" for a
    using inv_fresh [OF assms(1), of a] that v x n by auto
  ultimately show ?thesis by (simp add: pool_inv_def)
qed

section \<open>The end of an end point\<close>

definition gone :: "('b, 'o) ep_pool \<Rightarrow> mgr_ref \<Rightarrow> addr \<Rightarrow> addr \<times> string \<Rightarrow> ('b, 'o) ep_pool \<Rightarrow> bool" where
  "gone p r x k p' \<longleftrightarrow> core_of p' = (core_of p)(x := None) \<and> own_of p' = own_of p \<and> cbs_of p' = cbs_of p \<and>
     w_next (pw p) \<le> w_next (pw p') \<and>
     get_mgr p' = (get_mgr p)(r := (get_mgr p r)\<lparr>em_ee := (em_ee (get_mgr p r))(k := filter (\<lambda>t. t \<noteq> x) (em_ee (get_mgr p r) k)),
       em_nep := em_nep (get_mgr p r) - 1\<rparr>)"

lemma gone_inv:
  assumes "pool_inv p" "core_of p x = Some ep" "ep_txns ep = []" "gone p (ep_owner ep) x (ep_ekey ep, ep_ipkey ep) p'"
  shows "pool_inv p'"
proof -
  note v = assms(4) [unfolded gone_def]
  let ?r = "ep_owner ep" and ?k = "(ep_ekey ep, ep_ipkey ep)"
  have pl: "place p' = (place p)(x := None)" using v by (auto simp: place_def)
  have x: "place p x = Some (?r, ?k)" using assms(2) by (simp add: place_def)
  have none: "own_of p n \<noteq> Some x" for n
    using inv_own [OF assms(1), of n x] assms(2,3) by auto
  have "ep_ok p' y e" if "core_of p' y = Some e" for y e
  proof -
    from that have y: "y \<noteq> x" "core_of p y = Some e" using v by (auto split: if_splits)
    then show ?thesis using inv_ep [OF assms(1) y(2)] v by (auto simp: ep_ok_def)
  qed
  moreover have "mgr_ok p' r" for r
  proof (cases "r = ?r")
    case True
    have "eps_of p' r = eps_of p r - {x}" "x \<in> eps_of p r"
      using x True by (auto simp: eps_of_def pl split: if_splits)
    then show ?thesis
      using inv_mgr [OF assms(1), of r] v True card_Diff_singleton [of x "eps_of p r"] card_gt_0_iff [of "eps_of p r"]
      by (auto simp: mgr_ok_def pl of_nat_diff Suc_le_eq split: if_splits) (use x in auto)
  next
    case False
    then have "eps_of p' r = eps_of p r"
      using x by (auto simp: eps_of_def pl)
    moreover have "x \<notin> set (em_ee (get_mgr p r) k)" for k
      using x inv_mgr [OF assms(1), of r] False by (cases k) (auto simp: mgr_ok_def)
    ultimately show ?thesis
      using inv_mgr [OF assms(1), of r] v False by (auto simp: mgr_ok_def pl)
  qed
  moreover have "node_ok p' n" for n
    using inv_node [OF assms(1), of n] none [of n] v by (auto simp: node_ok_def)
  moreover have "core_of p' a = None \<and> own_of p' a = None \<and> cbs_of p' a = 0" if "w_next (pw p') \<le> a" for a
    using inv_fresh [OF assms(1), of a] that v by auto
  ultimately show ?thesis by (simp add: pool_inv_def)
qed

lemma ep_destroy_idle:
  assumes "core_of p x = Some ep" "ep_txns ep = []"
  shows "safe (ep_destroy X p x) (\<lambda>p'. core_of p' = (core_of p)(x := None) \<and> own_of p' = own_of p \<and> cbs_of p' = cbs_of p \<and>
    get_mgr p' = get_mgr p \<and> w_next (pw p) \<le> w_next (pw p'))"
proof -
  obtain e where e: "pl_eps p x = Some e" "ep_txns e = []"
    using assms by (auto simp: core_of_def)
  show ?thesis
    unfolding ep_destroy_def access e live_simps
    by (rule safe_bind [OF cancel_nodes], rule safe_bind [OF cancel_nodes])
      (simp add: e Let_def keep_def fun_eq_iff)
qed

lemma mgr_del_gone:
  assumes "core_of p x = Some ep" "ep_txns ep = []" "em_tmp (get_mgr p r) = []"
  shows "safe (ep_mgr_del X p r x) (\<lambda>p'. r = ep_owner ep \<and> gone p r x (ep_ekey ep, ep_ipkey ep) p')"
proof -
  obtain e where e: "pl_eps p x = Some e" "ep = ep_view e"
    using assms by (auto simp: core_of_def)
  let ?m = "(get_mgr p r)\<lparr>em_ee := (em_ee (get_mgr p r))((ep_ekey e, ep_ipkey e) :=
    remove_ep (xe_fifo X) (em_tmp (get_mgr p r)) (em_ee (get_mgr p r) (ep_ekey e, ep_ipkey e)) x), em_nep := em_nep (get_mgr p r) - 1\<rparr>"
  have "safe (rbind (in_world (put_mgr p r ?m) (sk_entity_mgr_del (xe_E X) (pw p) g a)) (\<lambda>p.
      rbind (in_world p (sk_entity_mgr_clean_dead (xe_E X) (pw p) g)) (\<lambda>p.
      ep_destroy X (set_ep p x (e\<lparr>ep_entity := None\<rparr>)) x))) (gone p r x (ep_ekey ep, ep_ipkey ep))" for g a
  proof (rule safe_bind [OF in_world_keep [OF keep_refl]], simp add: mgr_del_next, rule safe_bind [OF in_world_keep], assumption)
    fix p1 p2
    assume "keep (put_mgr p r ?m) p2"
    then have "core_of (set_ep p2 x (e\<lparr>ep_entity := None\<rparr>)) = core_of p" "own_of p2 = own_of p" "cbs_of p2 = cbs_of p"
      "get_mgr p2 = (get_mgr p)(r := ?m)" "w_next (pw p) \<le> w_next (pw p2)"
      using assms(1) e by (auto simp: keep_def)
    then show "safe (ep_destroy X (set_ep p2 x (e\<lparr>ep_entity := None\<rparr>)) x) (gone p r x (ep_ekey ep, ep_ipkey ep))"
      using assms e by (intro safe_mono [OF ep_destroy_idle [of _ x ep]]) (auto simp: gone_def remove_ep_eq)
  qed (simp add: clean_dead_next)
  then show ?thesis
    unfolding ep_mgr_del_def access with_ent_def e live_simps Let_def
    by (auto simp: e split: option.split elim: safe_mono)
qed

lemma mgr_del_inv:
  assumes "pool_inv p" "core_of p x = Some ep" "ep_txns ep = []"
  shows "safe (ep_mgr_del X p r x) pool_inv"
  using inv_mgr [OF assms(1), of r]
  by (intro safe_mono [OF mgr_del_gone [OF assms(2,3)]]) (auto simp: mgr_ok_def intro: gone_inv [OF assms])

section \<open>Every operation keeps the invariant\<close>

lemma inv_metric [simp]: "pool_inv (metric2 p s) = pool_inv p"
  by (simp add: pool_inv_defs)

lemma node_destroy_inv: "pool_inv p0 \<Longrightarrow> nearly n p0 p \<Longrightarrow> safe (ep_node_destroy p n rel) pool_inv"
  by (rule safe_mono [OF node_destroy_del]) (auto intro: del_node_inv)

lemma fail_node_del: "safe (fail_node X p n) (del_node p n)"
  using time_consumed_keep [OF keep_refl]
  by (auto simp: fail_node_def access Let_def case_prod_unfold intro!: node_destroy_del nearly_cb intro: nearly_keep [OF keep_refl])

lemma fail_nodes_inv:
  assumes "pool_inv p" "core_of p x = Some ep"
  shows "safe (fail_nodes X p (in_order f (ep_txns ep))) (\<lambda>p'. pool_inv p' \<and> (\<exists>ep'. core_of p' x = Some ep' \<and> ep_txns ep' = []))"
proof (cases "ep_txns ep")
  case Nil
  then show ?thesis using assms by simp
next
  case (Cons n ns)
  with inv_ep [OF assms] have n: "ep_txns ep = [n]" "own_of p n = Some x" by (auto simp: ep_ok_def)
  have "pool_inv p' \<and> (\<exists>ep'. core_of p' x = Some ep' \<and> ep_txns ep' = [])" if "del_node p n p'" for p'
    using del_node_inv [OF assms(1) that] that n assms(2) by (auto simp: del_node_def)
  then show ?thesis
    unfolding n by (auto simp: in_order_def intro!: safe_bind [OF fail_node_del])
qed

lemma handle_error_inv:
  assumes "pool_inv p0" "keep p0 p"
  shows "safe (handle_error X p x) pool_inv"
  unfolding handle_error_def access
proof (simp, intro allI impI)
  fix ep assume "pl_eps p x = Some ep"
  then have c: "core_of p x = Some (ep_view ep)" by (rule core_ofI)
  note p = keep_inv [OF assms(2,1)]
  show "safe (rbind (fail_nodes X p (in_order (xe_fifo X) (ep_txns ep))) (\<lambda>p.
      rbind (ep_mgr_del X p (ep_owner ep) x) (\<lambda>p. Inr (metric2 p ''ep_error'')))) pool_inv"
    by (rule safe_bind [OF fail_nodes_inv [OF p c, simplified]])
      (auto intro!: safe_bind [OF mgr_del_inv])
qed

lemma handle_timeout_inv:
  assumes "pool_inv p0" "keep p0 p"
  shows "safe (handle_timeout X p n) pool_inv"
  using time_consumed_keep [OF assms(2)] assms(1)
  by (auto simp: handle_timeout_def access Let_def case_prod_unfold
      intro!: safe_bind [OF node_destroy_inv] nearly_cb)

lemma handle_ok_inv:
  assumes "pool_inv p0" "keep p0 p"
  shows "safe (handle_ok X p n bs) pool_inv"
proof -
  have "nearly n p0 (if ed_cb d \<noteq> None then run_cb (fst (sk_ep_txn_time_consumed X p d)) n d SK_EP_OK l bs else p)" for d l
    using time_consumed_keep [OF assms(2)] assms(2) by (auto intro: nearly_cb nearly_keep)
  then show ?thesis
    using assms(1) unfolding handle_ok_def access safe_simps Let_def case_prod_unfold
    by (intro allI impI safe_bind [OF shutdown_timer_keep [OF keep_refl]] safe_bind [OF node_destroy_inv])
      (auto intro: nearly_trans)
qed

section \<open>Timers that expire\<close>

lemma inv_world: "pool_inv p \<Longrightarrow> w_next (pw p) \<le> w_next w \<Longrightarrow> pool_inv (p\<lparr>pw := w\<rparr>)"
  by (rule keep_inv [of p]) (auto intro: keep_world)

lemma inv_tds [simp]: "pool_inv (p\<lparr>pl_tds := f\<rparr>) = pool_inv p"
  by (simp add: pool_inv_defs)

lemma entity_destroy_inv:
  assumes "pool_inv p"
  shows "safe (in_world p (rbind (sk_entity_safe_destroy E (pw p) cur a) (\<lambda>(w, _). Inr w))) pool_inv"
  using assms by (auto simp: in_world_def safe_def res_simps intro!: inv_world dest!: safe_destroy_next)

lemma timer_entity_inv: "pool_inv p \<Longrightarrow> safe (timer_entity_destroy X p cur obj) pool_inv"
  by (auto simp: timer_entity_destroy_def intro!: safe_bind [OF entity_destroy_inv])

lemma timer_data_inv: "pool_inv p \<Longrightarrow> safe (timer_data_destroy X p cur obj) pool_inv"
  by (auto simp: timer_data_destroy_def with_ent_def intro!: safe_bind [where P = pool_inv] entity_destroy_inv split: option.split)

lemma set_node_timer_keep: "pl_nodes p n = Some d \<Longrightarrow> keep p (set_node p n (d\<lparr>ed_recv_timer := t\<rparr>))"
  by (auto intro: set_node_keep)

lemma set_ep_timer_keep:
  "pl_eps p x = Some ep \<Longrightarrow> keep p (set_ep p x (ep\<lparr>ep_shutdown_timer := t\<rparr>))"
  "pl_eps p x = Some ep \<Longrightarrow> keep p (set_ep p x (ep\<lparr>ep_conn_timer := t\<rparr>))"
  by (auto intro!: set_ep_keep)

lemma recv_timeout_inv: "pool_inv p \<Longrightarrow> safe (recv_timeout X p cur valid obj) pool_inv"
  by (auto simp: recv_timeout_def target_node_def access split: timer_target.split
      intro!: safe_bind [where P = pool_inv] timer_entity_inv handle_timeout_inv intro: set_node_timer_keep)

lemma shutdown_ep_inv: "pool_inv p \<Longrightarrow> safe (shutdown_ep X p cur valid obj) pool_inv"
  by (auto simp: shutdown_ep_def target_ep_def access split: timer_target.split
      intro!: safe_bind [where P = pool_inv] timer_entity_inv handle_error_inv intro: set_ep_timer_keep)

lemma conn_timeout_inv: "pool_inv p \<Longrightarrow> safe (conn_timeout X p cur valid obj) pool_inv"
  by (auto simp: conn_timeout_def target_ep_def access split: timer_target.split
      intro!: safe_bind [where P = pool_inv] timer_entity_inv handle_error_inv intro: set_ep_timer_keep)

section \<open>Events of a connection\<close>

lemma keep_tick [simp]: "keep p0 (p\<lparr>pw := tick w\<rparr>) = keep p0 (p\<lparr>pw := w\<rparr>)" "keep p0 (p\<lparr>pw := fx w es\<rparr>) = keep p0 (p\<lparr>pw := w\<rparr>)"
  by (simp_all add: keep_def)

lemma keep_self [simp]: "keep p0 (p\<lparr>pw := pw p\<rparr>) = keep p0 p"
  by (simp add: keep_def)

lemma try_unpack_keep:
  assumes "keep p0 p"
  shows "safe (try_unpack X p n data) (\<lambda>(p, _). keep p0 p)"
proof -
  have k: "keep p0 (plog (p\<lparr>pw := tick (pw p)\<rparr>) [Ep_unpack n])" using assms by (simp add: keep_log)
  show ?thesis
    using assms k keep_node [OF assms]
    by (auto simp: try_unpack_def access Let_def split: option.split intro!: safe_bind [OF cancel_keep] keep_set_node)
qed

lemma unpack_loop_keep: "keep p0 p \<Longrightarrow> safe (unpack_loop X p ns data) (\<lambda>(p, _). keep p0 p)"
  by (induction ns arbitrary: p) (auto split: option.split intro!: safe_bind [OF try_unpack_keep])

lemma read_keep: "keep p0 p \<Longrightarrow> safe (sk_entity_read E (pw p) a l) (\<lambda>(w, _). keep p0 (p\<lparr>pw := w\<rparr>))"
  by (auto simp: safe_def keep_def dest: read_next)

lemma read_cb_inv:
  assumes "pool_inv p"
  shows "safe (ep_read_cb X p x) pool_inv"
  using assms
  by (auto simp: ep_read_cb_def access Let_def split: option.split
      intro!: safe_bind [OF read_keep [OF keep_refl]] safe_bind [OF unpack_loop_keep] safe_bind [OF handle_ok_inv [OF assms]]
        handle_error_inv [OF assms] keep_inv [OF _ assms])

lemma send_loop_keep: "keep p0 p \<Longrightarrow> safe (send_loop X p ns tmp) (\<lambda>(p, _). keep p0 p)"
  by (induction ns arbitrary: p tmp) (auto simp: access intro!: safe_bind [OF ep_send_keep])

lemma timeout_nodes_inv: "pool_inv p \<Longrightarrow> safe (timeout_nodes X p ns) pool_inv"
  by (induction ns arbitrary: p) (auto intro!: safe_bind [OF handle_timeout_inv])

lemma attach_keep: "keep p0 p \<Longrightarrow> safe (attach_tcp p a fd) (keep p0)"
  by (auto simp: attach_tcp_def Let_def keep_log intro!: in_world_keep dest!: next_grows)

lemma on_connect_inv:
  assumes "pool_inv p"
  shows "safe (on_connect X p x fd err) pool_inv"
proof -
  have "safe (rbind (attach_tcp (plog q [Ep_unwatch fd]) a fd) (\<lambda>p. rbind (cancel_timer p (ep_conn_timer ep)) (\<lambda>p.
      rbind (send_loop X (set_ep p x (ep\<lparr>ep_status := SK_EP_ST_CONNECTED, ep_conn_timer := None\<rparr>)) ns []) (\<lambda>(p, tmp).
        timeout_nodes X p (in_order (xe_fifo X) tmp))))) pool_inv"
    if "keep p q" "pl_eps p x = Some ep" for q ep a ns
    using that assms core_ofI [OF that(2)]
    by (auto simp: keep_log intro!: safe_bind [OF attach_keep] safe_bind [OF cancel_keep] safe_bind [OF send_loop_keep]
        timeout_nodes_inv keep_set_ep intro: keep_inv)
  then show ?thesis
    using assms by (auto simp: on_connect_def access Let_def case_prod_unfold intro!: handle_error_inv)
qed

section \<open>New end points and requests\<close>

lemma conn_timer_keep:
  assumes "keep p0 p" "core_of p0 x = Some (ep_view ep)"
  shows "safe (start_conn_timer X p x ep d) (keep p0)"
  using assms
  by (auto simp: start_conn_timer_def Let_def case_prod_unfold timer_defs
      intro!: safe_bind [OF create_timer_keep] keep_set_ep time_left_keep)

lemma tcp_connecting_keep:
  assumes "keep p0 p" "core_of p0 x = Some (ep_view ep)"
  shows "safe (tcp_connecting X p x ep d fd) (\<lambda>(p, _). keep p0 p)"
  using assms by (auto simp: tcp_connecting_def Let_def keep_log intro!: safe_bind [OF conn_timer_keep])

lemma create_tcp_keep:
  assumes "keep p0 p"
  shows "safe (create_entity_tcp X p h x n) (\<lambda>(p, _). keep p0 p)"
proof -
  note k = ep_timeout_keep [OF assms, of X]
  show ?thesis
    using k keep_ep [OF k]
    by (auto simp: create_entity_tcp_def access Let_def case_prod_unfold
        intro!: safe_bind [OF attach_keep] safe_bind [OF cancel_keep] tcp_connecting_keep [unfolded case_prod_unfold] keep_set_ep)
qed

lemma create_udp_keep:
  assumes "keep p0 p"
  shows "safe (create_entity_udp X p h x n) (\<lambda>(p, _). keep p0 p)"
  using assms keep_ep [OF assms]
  by (auto simp: create_entity_udp_def access Let_def case_prod_unfold intro!: safe_bind [OF attach_keep] keep_set_ep)

definition born :: "('b, 'o) ep_pool \<Rightarrow> mgr_ref \<Rightarrow> addr \<Rightarrow> ('b, 'o) ep_pool \<Rightarrow> bool" where
  "born p r x p' \<longleftrightarrow> (\<exists>ep. core_of p' = (core_of p)(x \<mapsto> ep) \<and> ep_flags ep = 0 \<and> ep_ntxn ep = 0 \<and> ep_txns ep = [] \<and> ep_owner ep = r \<and>
     get_mgr p' = (get_mgr p)(r := (get_mgr p r)\<lparr>em_ee := (em_ee (get_mgr p r))((ep_ekey ep, ep_ipkey ep) :=
         em_ee (get_mgr p r) (ep_ekey ep, ep_ipkey ep) @ [x]), em_nep := em_nep (get_mgr p r) + 1\<rparr>)) \<and>
     own_of p' = own_of p \<and> cbs_of p' = cbs_of p \<and> w_next (pw p) \<le> x \<and> x < w_next (pw p')"

lemma born_inv:
  assumes "pool_inv p" "born p r x p'" "em_nep (get_mgr p r) \<noteq> em_max (get_mgr p r)"
  shows "pool_inv p' \<and> (\<exists>ep. core_of p' x = Some ep \<and> ep_txns ep = [])"
proof -
  obtain ep where c: "core_of p' = (core_of p)(x \<mapsto> ep)" "ep_flags ep = 0" "ep_ntxn ep = 0" "ep_txns ep = []" "ep_owner ep = r"
    and m: "get_mgr p' = (get_mgr p)(r := (get_mgr p r)\<lparr>em_ee := (em_ee (get_mgr p r))((ep_ekey ep, ep_ipkey ep) :=
         em_ee (get_mgr p r) (ep_ekey ep, ep_ipkey ep) @ [x]), em_nep := em_nep (get_mgr p r) + 1\<rparr>)"
    and v: "own_of p' = own_of p" "cbs_of p' = cbs_of p" "w_next (pw p) \<le> x" "x < w_next (pw p')"
    using assms(2) by (auto simp: born_def)
  have x: "core_of p x = None" "place p x = None" using inv_fresh [OF assms(1) v(3)] by (simp_all add: place_def)
  have pl: "place p' = (place p)(x \<mapsto> (r, ep_ekey ep, ep_ipkey ep))" using c by (auto simp: place_def)
  have "ep_ok p' y e" if "core_of p' y = Some e" for y e
  proof (cases "y = x")
    case False
    then have y: "core_of p y = Some e" using that c by simp
    show ?thesis using inv_ep [OF assms(1) y] m v by (auto simp: ep_ok_def)
  qed (use that c m in \<open>auto simp: ep_ok_def\<close>)
  moreover have "mgr_ok p' q" for q
  proof (cases "q = r")
    case True
    then have "eps_of p' q = insert x (eps_of p q)" "x \<notin> eps_of p q" using x by (auto simp: eps_of_def pl)
    then show ?thesis
      using inv_mgr [OF assms(1), of q] assms(3) m True x by (auto simp: mgr_ok_def pl split: if_splits)
  next
    case False
    then have "eps_of p' q = eps_of p q" using x by (auto simp: eps_of_def pl)
    moreover have "x \<notin> set (em_ee (get_mgr p q) k)" for k
      using inv_mgr [OF assms(1), of q] x by (cases k) (auto simp: mgr_ok_def)
    ultimately show ?thesis using inv_mgr [OF assms(1), of q] m False by (auto simp: mgr_ok_def pl)
  qed
  moreover have "node_ok p' n" for n
    using inv_node [OF assms(1), of n] v c x by (auto simp: node_ok_def)
  moreover have "core_of p' a = None \<and> own_of p' a = None \<and> cbs_of p' a = 0" if "w_next (pw p') \<le> a" for a
    using inv_fresh [OF assms(1), of a] that v c by auto
  ultimately show ?thesis using c by (simp add: pool_inv_def)
qed

lemma safe_self: "(\<And>x. m = Inr x \<Longrightarrow> safe (f x) Q) \<Longrightarrow> safe (rbind m f) Q"
  by (auto simp: safe_def res_simps)

lemma found_idle:
  assumes "pool_inv p" "find_ep X p (em_ee (get_mgr p r) k) h = Inr (Some x)"
  shows "\<exists>ep. core_of p x = Some ep \<and> ep_txns ep = []"
proof -
  have "plain_ep p y" if "y \<in> set (em_ee (get_mgr p r) k)" for y
  proof -
    have "place p y \<noteq> None" using that inv_mgr [OF assms(1), of r] by (cases k) (auto simp: mgr_ok_def)
    then obtain e where e: "pl_eps p y = Some e" by (auto simp: place_def core_of_def)
    show ?thesis using inv_ep [OF assms(1) core_ofI [OF e]] e by (auto simp: ep_ok_def plain_ep_def)
  qed
  then have "idle_ep p x"
    using assms(2) find_loop_eq [of "in_order (xe_fifo X) (em_ee (get_mgr p r) k)" p h]
    by (auto simp: find_ep_def find_Some_iff split: if_splits)
  then show ?thesis by (auto simp: idle_ep_def core_of_def)
qed

lemma ep_create_view:
  assumes "ep_create X p r h ip ekey ipkey = (p', x)"
  shows "\<exists>ep. core_of p' = (core_of p)(x \<mapsto> ep) \<and> ep_flags ep = 0 \<and> ep_ntxn ep = 0 \<and> ep_txns ep = [] \<and> ep_owner ep = r \<and>
      ep_ekey ep = ekey \<and> ep_ipkey ep = ipkey"
    "own_of p' = own_of p" "cbs_of p' = cbs_of p" "get_mgr p' = get_mgr p" "x = w_next (pw p)" "x < w_next (pw p')"
  using assms by (auto simp: ep_create_def Let_def sk_entity_create_def time_ms_def)

lemma get_ep_inv:
  assumes "pool_inv p" "em_nep (get_mgr p r) \<noteq> em_max (get_mgr p r)"
  shows "safe (get_ep X p r entity h) (\<lambda>(p', x). pool_inv p' \<and> (\<exists>ep. core_of p' x = Some ep \<and> ep_txns ep = []))"
proof -
  let ?Q = "\<lambda>(p' :: ('a, 'b) ep_pool, x). pool_inv p' \<and> (\<exists>ep. core_of p' x = Some ep \<and> ep_txns ep = [])"
  have new: "safe (rbind (in_world p1 (sk_entity_mgr_add (pw p1) (em_eps (get_mgr p1 r)) a)) (\<lambda>p2.
      Inr (metric2 (put_mgr p2 r ((get_mgr p2 r)\<lparr>em_ee := (em_ee (get_mgr p2 r))((ekey, ipkey) := em_ee (get_mgr p2 r) (ekey, ipkey) @ [x]),
        em_nep := em_nep (get_mgr p2 r) + 1\<rparr>)) ''ep_create'', x))) ?Q"
    if c: "ep_create X p r h ip ekey ipkey = (p1, x)" for p1 x a ip ekey ipkey
  proof (rule safe_bind [OF in_world_keep [OF keep_refl]])
    fix p2 assume k: "keep p1 p2"
    have "born p r x (metric2 (put_mgr p2 r ((get_mgr p2 r)\<lparr>em_ee := (em_ee (get_mgr p2 r))((ekey, ipkey) := em_ee (get_mgr p2 r) (ekey, ipkey) @ [x]),
        em_nep := em_nep (get_mgr p2 r) + 1\<rparr>)) ''ep_create'')"
      using ep_create_view [OF c] k by (auto simp: born_def keep_def)
    from born_inv [OF assms(1) this assms(2)]
    show "safe (Inr (metric2 (put_mgr p2 r ((get_mgr p2 r)\<lparr>em_ee := (em_ee (get_mgr p2 r))((ekey, ipkey) := em_ee (get_mgr p2 r) (ekey, ipkey) @ [x]),
        em_nep := em_nep (get_mgr p2 r) + 1\<rparr>)) ''ep_create'', x)) ?Q" by simp
  qed (auto dest: mgr_add_next)
  show ?thesis
    using assms(1) new
    by (auto simp: get_ep_def Let_def access split: option.split prod.split intro!: safe_self dest: found_idle)
qed

text \<open>A request is added to an idle end point.\<close>

lemma add_node_inv:
  assumes "pool_inv p" "core_of p x = Some ep" "ep_txns ep = []" "n = w_next (pw p)"
    and v: "core_of p' = (core_of p)(x \<mapsto> ep\<lparr>ep_txns := [n], ep_ntxn := ep_ntxn ep + 1\<rparr>)" "own_of p' = (own_of p)(n \<mapsto> x)"
      "get_mgr p' = get_mgr p" "cbs_of p' = cbs_of p" "w_next (pw p') = Suc n"
  shows "pool_inv p'"
proof -
  have n: "own_of p n = None" "cbs_of p n = 0" using inv_fresh [OF assms(1), of n] assms(4) by auto
  have none: "own_of p m \<noteq> Some x" for m using inv_own [OF assms(1), of m x] assms(2,3) by auto
  have "ep_ok p' y e" if "core_of p' y = Some e" for y e
  proof (cases "y = x")
    case True
    then show ?thesis using that inv_ep [OF assms(1,2)] assms(3) by (auto simp: ep_ok_def v)
  next
    case False
    then have y: "core_of p y = Some e" using that by (simp add: v)
    have "n \<notin> set (ep_txns e)" using inv_ep [OF assms(1) y] n by (auto simp: ep_ok_def)
    then show ?thesis using inv_ep [OF assms(1) y] by (auto simp: ep_ok_def v)
  qed
  moreover have "place p' = place p" using assms(2) by (auto simp: place_def v)
  then have "mgr_ok p' r" for r
    using inv_mgr [OF assms(1), of r] by (simp add: mgr_ok_def eps_of_def v)
  moreover have "node_ok p' m" for m
    using inv_node [OF assms(1), of m] none [of m] n by (auto simp: node_ok_def v)
  moreover have "core_of p' a = None \<and> own_of p' a = None \<and> cbs_of p' a = 0" if "w_next (pw p') \<le> a" for a
    using inv_fresh [OF assms(1), of a] inv_fresh [OF assms(1), of x] that assms(2,4) by (auto simp: v)
  ultimately show ?thesis by (simp add: pool_inv_def)
qed

text \<open>When the connection cannot be opened, the request and the end point are given up.\<close>

lemma give_up_inv:
  assumes "pool_inv p" "own_of p n = Some x" "keep p q"
  shows "safe (rbind (ep_node_destroy q n rel) (\<lambda>p. rbind (ep_mgr_del X p r x) (\<lambda>p. Inr (p, None)))) (\<lambda>(p, _). pool_inv p)"
proof (rule safe_bind [OF node_destroy_del [OF nearly_keep [OF assms(3)]]])
  fix p' assume d: "del_node p n p'"
  obtain ep where "core_of p x = Some ep" "ep_txns ep = [n]" using inv_own [OF assms(1,2)] by metis
  with d assms(2) have c: "core_of p' x = Some (ep\<lparr>ep_txns := [], ep_ntxn := ep_ntxn ep - 1\<rparr>)" by (auto simp: del_node_def)
  show "safe (rbind (ep_mgr_del X p' r x) (\<lambda>p. Inr (p, None))) (\<lambda>(p, _). pool_inv p)"
    by (rule safe_bind [OF mgr_del_inv [OF del_node_inv [OF assms(1) d] c]]) simp_all
qed

lemma add_request_inv:
  assumes "pool_inv p" "pl_eps p x = Some ep" "ep_txns ep = []" "add_request p x ep service entity h start cb ud data = (p', n)"
  shows "pool_inv p'" "own_of p' n = Some x"
  using add_node_inv [OF assms(1) core_ofI [OF assms(2)], of n p'] assms(3,4)
  by (auto simp: add_request_def Let_def)

lemma create_entity_keep:
  "keep p0 p \<Longrightarrow> safe (if b then create_entity_tcp X p h x n else create_entity_udp X p h x n) (\<lambda>(p, _). keep p0 p)"
  by (simp add: create_tcp_keep create_udp_keep)

lemma get_or_create_inv:
  assumes "pool_inv p" "em_nep (get_mgr p r) \<noteq> em_max (get_mgr p r)"
  shows "safe (ep_mgr_get_or_create X p r service entity h start cb ud data) (\<lambda>(p, _). pool_inv p)"
proof -
  have *: "safe (rbind (if b then create_entity_tcp X q h x n else create_entity_udp X q h x n) (\<lambda>(p, res).
      if res \<noteq> 0 then rbind (ep_node_destroy p n False) (\<lambda>p. rbind (ep_mgr_del X p r x) (\<lambda>p. Inr (p, None)))
      else Inr (p, Some n))) (\<lambda>(p, _). pool_inv p)"
    if "pool_inv q" "own_of q n = Some x" for b q n x
    by (rule safe_bind [OF create_entity_keep [OF keep_refl]])
      (auto intro: give_up_inv [OF that] keep_inv [OF _ that(1)])
  have "safe (with_ep q x (\<lambda>ep. let (p, n) = add_request q x ep service entity h start cb ud data
       in if ep_status ep = SK_EP_ST_INIT then
            rbind (if eh_type h = SK_EP_TCP then create_entity_tcp X p h x n else create_entity_udp X p h x n) (\<lambda>(p, res).
              if res \<noteq> 0 then rbind (ep_node_destroy p n False) (\<lambda>p. rbind (ep_mgr_del X p r x) (\<lambda>p. Inr (p, None)))
              else Inr (p, Some n))
          else Inr (p, Some n))) (\<lambda>(p, _). pool_inv p)"
    if "pool_inv q" "core_of q x = Some ep" "ep_txns ep = []" for q x ep
    using that add_request_inv [of q x] * [where b = True, unfolded if_True] * [where b = False, unfolded if_False]
    by (auto simp: access core_of_def Let_def split: prod.split)
  then show ?thesis
    unfolding ep_mgr_get_or_create_def by (intro safe_bind [OF get_ep_inv [OF assms]]) auto
qed

lemma send_inv: "pool_inv p \<Longrightarrow> safe (ep_send X p n data) (\<lambda>(p, _). pool_inv p)"
  by (rule safe_mono [OF ep_send_keep [OF keep_refl]]) (auto intro: keep_inv)

lemma send_via_inv: "pool_inv p \<Longrightarrow> safe (ep_send_via X p r service entity h start data cb ud) (\<lambda>(p, _). pool_inv p)"
  by (auto simp: ep_send_via_def ep_error_def split: option.split intro!: safe_bind [OF get_or_create_inv] send_inv)

lemma ep_send_inv:
  assumes "pool_inv p"
  shows "safe (sk_ep_send X p service entity h data cb ud) (\<lambda>(p, _). pool_inv p)"
  using inv_world [OF assms, of "tick (pw p)"]
  by (auto simp: sk_ep_send_def time_ms_def Let_def ep_error_def intro!: send_via_inv)

lemma pool_create_inv:
  "pool_inv (sk_ep_pool_create w tmsvc max_fds)"
  by (auto simp: sk_ep_pool_create_def sk_ep_mgr_create_def sk_entity_mgr_create_def Let_def pool_inv_defs core_of_def own_of_def
      cbs_of_def get_mgr_def SK_EP_POOL_MAX_def split: mgr_ref.split)

end
