(* ===== verification/Ep_Reach.thy ===== *)
theory Ep_Reach
  imports Ep_Proofs
begin

text \<open>
  The pool of end points over time: the invariant of \<open>Ep_Proofs\<close> holds in every reachable pool, callbacks are run
  at most once, and what a failed connection reports.
\<close>

section \<open>Reachable pools\<close>

text \<open>
  Everything that happens to a pool: requests of services, events of its connections, timers that
  expire or are released, and steps of the rest of the program, which may change the world but gives no address out twice.
\<close>

inductive ep_step :: "('b, 'o) ep_env \<Rightarrow> ('b, 'o) ep_pool \<Rightarrow> ('b, 'o) ep_pool \<Rightarrow> bool" for X where
  Request: "sk_ep_send X p service entity h data cb ud = Inr (p', st) \<Longrightarrow> ep_step X p p'"
| Readable: "ep_read_cb X p x = Inr p' \<Longrightarrow> ep_step X p p'"
| Failed: "ep_error_cb X p x = Inr p' \<Longrightarrow> ep_step X p p'"
| Connected: "on_connect X p x fd err = Inr p' \<Longrightarrow> ep_step X p p'"
| Answer_late: "recv_timeout X p cur valid obj = Inr p' \<Longrightarrow> ep_step X p p'"
| Idle_long: "shutdown_ep X p cur valid obj = Inr p' \<Longrightarrow> ep_step X p p'"
| Connect_late: "conn_timeout X p cur valid obj = Inr p' \<Longrightarrow> ep_step X p p'"
| Timer_released: "timer_data_destroy X p cur obj = Inr p' \<Longrightarrow> ep_step X p p'"
| Elsewhere: "w_next (pw p) \<le> w_next w \<Longrightarrow> ep_step X p (p\<lparr>pw := w\<rparr>)"

lemma safeD: "safe m Q \<Longrightarrow> m = Inr x \<Longrightarrow> Q x"
  by (simp add: safe_def)

lemma ep_step_inv: "ep_step X p p' \<Longrightarrow> pool_inv p \<Longrightarrow> pool_inv p'"
proof (induction rule: ep_step.induct)
  case (Request p service entity h data cb ud p' st)
  then show ?case by (auto dest: safeD [OF ep_send_inv])
next
  case (Failed p x p')
  then show ?case by (auto simp: ep_error_cb_def dest: safeD [OF handle_error_inv [OF _ keep_refl]])
qed (auto dest: safeD [OF read_cb_inv] safeD [OF on_connect_inv] safeD [OF recv_timeout_inv] safeD [OF shutdown_ep_inv]
    safeD [OF conn_timeout_inv] safeD [OF timer_data_inv] intro: inv_world)

lemma reachable_inv: "(ep_step X)\<^sup>*\<^sup>* (sk_ep_pool_create w tmsvc max_fds) p \<Longrightarrow> pool_inv p"
  by (induction rule: rtranclp_induct) (auto intro: pool_create_inv ep_step_inv)

lemma eps_of_eq: "eps_of p r = {x. \<exists>ep. pl_eps p x = Some ep \<and> ep_owner ep = r}"
  by (auto simp: eps_of_def place_def core_of_def)

text \<open>
  C22: a pool is consistent in every reachable state. An end point has at most one request, counts it, and
  the request points back to it; the tables of the managers hold exactly the live end points, each under
  the manager and the key it was created with, so a search never follows a dangling pointer; and a manager counts its end points and never has
  more than its limit.
\<close>
theorem ep_pool_consistent:
  assumes "(ep_step X)\<^sup>*\<^sup>* (sk_ep_pool_create w tmsvc max_fds) p"
  shows "(\<forall>x ep. pl_eps p x = Some ep \<longrightarrow> ep_ntxn ep = int (length (ep_txns ep)) \<and> length (ep_txns ep) \<le> 1 \<and>
      (\<forall>n \<in> set (ep_txns ep). \<exists>d. pl_nodes p n = Some d \<and> ed_owner d = x)) \<and>
    (\<forall>n d. pl_nodes p n = Some d \<longrightarrow> (\<exists>ep. pl_eps p (ed_owner d) = Some ep \<and> n \<in> set (ep_txns ep))) \<and>
    (\<forall>r k x. x \<in> set (em_ee (get_mgr p r) k) \<longleftrightarrow>
      (\<exists>ep. pl_eps p x = Some ep \<and> ep_owner ep = r \<and> (ep_ekey ep, ep_ipkey ep) = k)) \<and>
    (\<forall>r. em_nep (get_mgr p r) = int (card {x. \<exists>ep. pl_eps p x = Some ep \<and> ep_owner ep = r}) \<and>
      em_nep (get_mgr p r) \<le> em_max (get_mgr p r))"
proof -
  note inv = reachable_inv [OF assms]
  have ok: "ep_ok p x (ep_view ep)" if "pl_eps p x = Some ep" for x ep
    using inv_ep [OF inv core_ofI [OF that]] .
  have "x \<in> set (em_ee (get_mgr p r) k) \<longleftrightarrow> (\<exists>ep. pl_eps p x = Some ep \<and> ep_owner ep = r \<and> (ep_ekey ep, ep_ipkey ep) = k)" for r k x
    using inv_mgr [OF inv, of r] ok [of x] by (cases k) (fastforce simp: mgr_ok_def ep_ok_def place_def core_of_def)
  moreover have "\<exists>ep. pl_eps p (ed_owner d) = Some ep \<and> n \<in> set (ep_txns ep)" if "pl_nodes p n = Some d" for n d
    using inv_node [OF inv, of n] that by (auto simp: node_ok_def own_of_def core_of_def)
  moreover have "em_nep (get_mgr p r) = int (card {x. \<exists>ep. pl_eps p x = Some ep \<and> ep_owner ep = r}) \<and>
      em_nep (get_mgr p r) \<le> em_max (get_mgr p r)" for r
    using inv_mgr [OF inv, of r] by (simp add: mgr_ok_def eps_of_eq)
  moreover have "ep_ntxn ep = int (length (ep_txns ep)) \<and> length (ep_txns ep) \<le> 1 \<and>
      (\<forall>n \<in> set (ep_txns ep). \<exists>d. pl_nodes p n = Some d \<and> ed_owner d = x)" if "pl_eps p x = Some ep" for x ep
    using ok [OF that] by (auto simp: ep_ok_def own_of_def)
  ultimately show ?thesis by blast
qed

text \<open>A pool for two connections, and the first request.\<close>

definition demo_pool :: "(sk_srv_task cellbuf, u8 cellbuf) ep_pool" where
  "demo_pool = sk_ep_pool_create empty_world 1 2"

definition demo_pool1 :: "(sk_srv_task cellbuf, u8 cellbuf) ep_pool" where
  "demo_pool1 = (case sk_ep_send demo_ep_env demo_pool ''s'' 0 (demo_handler\<lparr>eh_timeout := 0\<rparr>) [1] (Some 5) 6 of Inr (p, _) \<Rightarrow> p)"

lemma demo_send:
  "(case sk_ep_send demo_ep_env demo_pool ''s'' 0 (demo_handler\<lparr>eh_timeout := 0\<rparr>) [1] (Some 5) 6 of
      Inr (p, st) \<Rightarrow> st = SK_EP_OK \<and> em_nep (pl_tcp p) = 1 \<and> pl_nodes p 5 \<noteq> None | _ \<Rightarrow> False)"
  by code_simp

lemma demo_reach: "(ep_step demo_ep_env)\<^sup>*\<^sup>* (sk_ep_pool_create empty_world 1 2) demo_pool1"
  "em_nep (pl_tcp demo_pool1) = 1" "pl_nodes demo_pool1 5 \<noteq> None"
proof -
  obtain p st where "sk_ep_send demo_ep_env demo_pool ''s'' 0 (demo_handler\<lparr>eh_timeout := 0\<rparr>) [1] (Some 5) 6 = Inr (p, st)"
    "em_nep (pl_tcp p) = 1" "pl_nodes p 5 \<noteq> None"
    using demo_send by (auto split: sum.split_asm)
  moreover from this have "demo_pool1 = p" by (simp add: demo_pool1_def)
  ultimately show "(ep_step demo_ep_env)\<^sup>*\<^sup>* (sk_ep_pool_create empty_world 1 2) demo_pool1"
    "em_nep (pl_tcp demo_pool1) = 1" "pl_nodes demo_pool1 5 \<noteq> None"
    by (auto simp: demo_pool_def intro: ep_step.Request)
qed

theorem ep_pool_consistent_witness:
  "card {x. \<exists>ep. pl_eps demo_pool1 x = Some ep \<and> ep_owner ep = Tcp_mgr} = 1 \<and>
   (\<exists>d ep. pl_nodes demo_pool1 5 = Some d \<and> pl_eps demo_pool1 (ed_owner d) = Some ep \<and> 5 \<in> set (ep_txns ep))"
proof -
  note c = ep_pool_consistent [OF demo_reach(1)]
  have "em_nep (get_mgr demo_pool1 Tcp_mgr) = int (card {x. \<exists>ep. pl_eps demo_pool1 x = Some ep \<and> ep_owner ep = Tcp_mgr})"
    using c by blast
  moreover obtain d where "pl_nodes demo_pool1 5 = Some d" using demo_reach(3) by blast
  moreover from this have "\<exists>ep. pl_eps demo_pool1 (ed_owner d) = Some ep \<and> 5 \<in> set (ep_txns ep)" using c by blast
  ultimately show ?thesis using demo_reach(2) by (auto simp: get_mgr_def)
qed

text \<open>
  C23: the callback of a request is run at most once, and not while the request is still in the pool, whatever answers, errors and
  timeouts arrive in whatever order.
\<close>
theorem ep_callback_once:
  assumes "(ep_step X)\<^sup>*\<^sup>* (sk_ep_pool_create w tmsvc max_fds) p"
  shows "length (filter (is_cb n) (pl_log p)) \<le> (if pl_nodes p n = None then 1 else 0)"
  using inv_node [OF reachable_inv [OF assms], of n] by (auto simp: node_ok_def cbs_of_def own_of_def)

theorem ep_callback_once_witness: "length (filter (is_cb 5) (pl_log demo_pool1)) = 0 \<and> pl_nodes demo_pool1 5 \<noteq> None"
  using ep_callback_once [OF demo_reach(1), of 5] demo_reach(3) by simp

section \<open>A failed connection\<close>

text \<open>The answers that services have got: request, callback, result, data.\<close>

fun cb_of :: "ep_effect \<Rightarrow> (addr \<times> addr \<times> sk_ep_status \<times> u8 list) option" where
  "cb_of (Ep_cb n f st _ bs) = Some (n, f, st, bs)"
| "cb_of _ = None"

definition answers :: "('b, 'o) ep_pool \<Rightarrow> (addr \<times> addr \<times> sk_ep_status \<times> u8 list) list" where
  "answers p = List.map_filter cb_of (pl_log p)"

definition error_report :: "('b, 'o) ep_pool \<Rightarrow> addr \<Rightarrow> (addr \<times> addr \<times> sk_ep_status \<times> u8 list) list" where
  "error_report p n = (case pl_nodes p n of
     Some d \<Rightarrow> (case ed_cb d of Some f \<Rightarrow> if ed_status d \<noteq> SK_EP_NST_INIT then [(n, f, SK_EP_ERROR, [])] else [] | None \<Rightarrow> [])
   | None \<Rightarrow> [])"

lemma answers_simps [simp]:
  "answers (p\<lparr>pw := w\<rparr>) = answers p" "answers (set_ep p x ep) = answers p" "answers (put_mgr p r m) = answers p"
  "answers (plog p es) = answers p @ List.map_filter cb_of es" "answers (metric2 p s) = answers p"
  "answers (p\<lparr>pl_nodes := N\<rparr>) = answers p" "answers (p\<lparr>pl_eps := E\<rparr>) = answers p"
  by (simp_all add: answers_def set_ep_def put_mgr_def plog_def metric2_def map_filter_def split: mgr_ref.split)

lemma in_world_answers: "safe (in_world p m) (\<lambda>p'. answers p' = answers p)"
  by (auto simp: in_world_def safe_def res_simps)

lemma cancel_answers: "safe (cancel_timer p t) (\<lambda>p'. answers p' = answers p)"
  by (auto simp: cancel_timer_def intro!: in_world_answers split: option.split)

lemma node_destroy_answers: "safe (ep_node_destroy p n rel) (\<lambda>p'. answers p' = answers p)"
  by (auto simp: ep_node_destroy_def ep_data_release_def access Let_def map_filter_simps
      intro!: safe_bind [where P = "\<lambda>p'. answers p' = answers p"] safe_bind [OF cancel_answers])

lemma destroy_nodes_answers: "safe (destroy_nodes p ns) (\<lambda>p'. answers p' = answers p)"
proof (induction ns arbitrary: p)
  case (Cons n ns)
  show ?case using Cons.IH by (auto intro!: safe_bind [OF node_destroy_answers]) metis
qed simp

lemma ep_destroy_answers: "safe (ep_destroy X p x) (\<lambda>p'. answers p' = answers p)"
  by (auto simp: ep_destroy_def access Let_def map_filter_simps
      intro!: safe_bind [OF cancel_answers] safe_bind [OF destroy_nodes_answers])

lemma mgr_del_answers: "safe (ep_mgr_del X p r x) (\<lambda>p'. answers p' = answers p)"
  by (auto simp: ep_mgr_del_def access with_ent_def Let_def split: option.split
      intro!: safe_bind [OF in_world_answers] safe_mono [OF ep_destroy_answers])

lemma fail_node_answers: "safe (fail_node X p n) (\<lambda>p'. answers p' = answers p @ error_report p n)"
  by (auto simp: fail_node_def access Let_def case_prod_unfold sk_ep_txn_time_consumed_def time_ms_def run_cb_def error_report_def
      map_filter_simps split: option.split intro!: safe_mono [OF node_destroy_answers])

lemma handle_error_effect:
  assumes "pool_inv p" "pl_eps p x = Some ep" "handle_error X p x = Inr p'"
  shows "pl_eps p' x = None \<and> (\<forall>n \<in> set (ep_txns ep). pl_nodes p' n = None) \<and>
    answers p' = answers p @ concat (map (error_report p) (ep_txns ep))"
proof -
  note c = core_ofI [OF assms(2)]
  obtain q q' where f: "fail_nodes X p (in_order (xe_fifo X) (ep_txns ep)) = Inr q"
    and d: "ep_mgr_del X q (ep_owner ep) x = Inr q'" and p': "p' = metric2 q' ''ep_error''"
    using assms(2,3) by (auto simp: handle_error_def access res_simps)
  from safeD [OF fail_nodes_inv [OF assms(1) c]] f obtain e where q: "pool_inv q" "core_of q x = Some e" "ep_txns e = []"
    by fastforce
  have "answers q = answers p @ concat (map (error_report p) (ep_txns ep)) \<and> (\<forall>n \<in> set (ep_txns ep). own_of q n = None)"
  proof (cases "ep_txns ep")
    case (Cons n ns)
    with inv_ep [OF assms(1) c] have n: "ep_txns ep = [n]" by (simp add: ep_ok_def)
    with f have "fail_node X p n = Inr q" by (auto simp: in_order_def res_simps split: if_splits)
    with n safeD [OF fail_node_del] safeD [OF fail_node_answers] show ?thesis by (fastforce simp: del_node_def)
  qed (use f in simp)
  moreover have "answers q' = answers q" using safeD [OF mgr_del_answers d] .
  moreover have "own_of q' = own_of q" "core_of q' x = None"
    using safeD [OF mgr_del_gone [OF q(2,3)] d] inv_mgr [OF q(1)] by (auto simp: gone_def mgr_ok_def)
  ultimately have "answers q' = answers p @ concat (map (error_report p) (ep_txns ep))"
    "\<forall>n \<in> set (ep_txns ep). own_of q' n = None" "core_of q' x = None"
    by simp_all
  then show ?thesis by (auto simp: p' metric2_def core_of_def own_of_def)
qed

text \<open>
  When a connection fails, its end point is destroyed and its request with it; the service gets
  exactly one answer, \<^verbatim>\<open>SK_EP_ERROR\<close>, if the request was sent or waited for the connection and has a callback, and none if the
  request was not accepted yet: then the caller has the error.
\<close>
theorem handle_error_reports:
  assumes "(ep_step X)\<^sup>*\<^sup>* (sk_ep_pool_create w tmsvc max_fds) p" "pl_eps p x = Some ep" "handle_error X p x = Inr p'"
  shows "pl_eps p' x = None \<and> (\<forall>n \<in> set (ep_txns ep). pl_nodes p' n = None) \<and>
    answers p' = answers p @ concat (map (error_report p) (ep_txns ep))"
  by (rule handle_error_effect [OF reachable_inv [OF assms(1)] assms(2,3)])

lemma demo_error:
  "(case pl_eps demo_pool1 3 of Some ep \<Rightarrow> ep_txns ep = [5] \<and>
      (case handle_error demo_ep_env demo_pool1 3 of Inr p' \<Rightarrow> answers p' = [(5, 5, SK_EP_ERROR, [])] | _ \<Rightarrow> False) | _ \<Rightarrow> False)"
  by code_simp

theorem handle_error_reports_witness:
  "\<exists>p'. handle_error demo_ep_env demo_pool1 3 = Inr p' \<and> pl_eps p' 3 = None \<and> pl_nodes p' 5 = None \<and> answers p' = [(5, 5, SK_EP_ERROR, [])]"
proof -
  obtain ep p' where e: "pl_eps demo_pool1 3 = Some ep" "ep_txns ep = [5]" and h: "handle_error demo_ep_env demo_pool1 3 = Inr p'"
    "answers p' = [(5, 5, SK_EP_ERROR, [])]"
    using demo_error by (auto split: sum.split_asm option.split_asm)
  from handle_error_reports [OF demo_reach(1) e(1) h(1)] e h show ?thesis by auto
qed

end
