(* ===== verification/Config.thy ===== *)
theory Config
  imports World "HOL-Library.AList"
begin

text \<open>
  The configuration: \<^verbatim>\<open>src/src/common/sk_config_loader.c\<close> turns a YAML file into a tree of nodes,
  \<^verbatim>\<open>src/src/components/sk_config.c\<close> picks the configuration of the server out of the tree.

  Parameters are the YAML parser, whose documents are the input of the model, the order in which a hash table of the
  library is iterated (\<open>hset\<close>, the locale \<open>hash_str\<close>) and in which a list of the library is iterated
  (\<open>fifo\<close>), and whether \<^verbatim>\<open>strtol\<close> reports a text without digits as \<^verbatim>\<open>EINVAL\<close>, which the C standard leaves open
  (\<open>einval\<close>).
\<close>

section \<open>Strings of C\<close>

definition NUL :: char where "NUL = CHR 0x00"

text \<open>\<^verbatim>\<open>strdup\<close>, and the text that a pointer to a string stands for.\<close>

definition cstr :: "string \<Rightarrow> string" where
  "cstr s = takeWhile (\<lambda>c. c \<noteq> NUL) s"

text \<open>\<^verbatim>\<open>strncpy(dst, s, n)\<close> into an array of \<open>n\<close> characters, and the array read as a string.\<close>

definition strncpy :: "nat \<Rightarrow> string \<Rightarrow> string" where
  "strncpy n s = take n (s @ replicate n NUL)"

definition arr_str :: "string \<Rightarrow> (string \<Rightarrow> 'a res) \<Rightarrow> 'a res" where
  "arr_str a k = (if NUL \<in> set a then k (cstr a) else Inl Wild)"

definition tolower :: "char \<Rightarrow> char" where
  "tolower c = (if (65 :: nat) \<le> of_char c \<and> of_char c \<le> (90 :: nat) then char_of (of_char c + (32 :: nat)) else c)"

definition strcaseeq :: "string \<Rightarrow> string \<Rightarrow> bool" where
  "strcaseeq s t \<longleftrightarrow> map tolower s = map tolower t"

definition isspace :: "char \<Rightarrow> bool" where
  "isspace c \<longleftrightarrow> of_char c = (32 :: nat) \<or> ((9 :: nat) \<le> of_char c \<and> of_char c \<le> (13 :: nat))"

definition isdigit :: "char \<Rightarrow> bool" where
  "isdigit c \<longleftrightarrow> (48 :: nat) \<le> of_char c \<and> of_char c \<le> (57 :: nat)"

definition digits_val :: "string \<Rightarrow> int" where
  "digits_val ds = foldl (\<lambda>v c. v * 10 + (of_char c - 48)) 0 ds"

text \<open>\<^verbatim>\<open>strtol(s, NULL, 10)\<close>: the value and \<^verbatim>\<open>errno\<close>.\<close>

datatype errno = E_OK | EINVAL | ERANGE

definition LONG_MAX :: int where "LONG_MAX = 2 ^ 63 - 1"
definition LONG_MIN :: int where "LONG_MIN = - (2 ^ 63)"

definition clamp_long :: "int \<Rightarrow> int \<times> errno" where
  "clamp_long v = (if LONG_MAX < v then (LONG_MAX, ERANGE) else if v < LONG_MIN then (LONG_MIN, ERANGE) else (v, E_OK))"

definition strtol :: "bool \<Rightarrow> string \<Rightarrow> int \<times> errno" where
  "strtol einval s =
     (let t = dropWhile isspace s;
          neg = (t \<noteq> [] \<and> hd t = CHR ''-'');
          t = (if t \<noteq> [] \<and> (hd t = CHR ''-'' \<or> hd t = CHR ''+'') then tl t else t);
          ds = takeWhile isdigit t
      in if ds = [] then (0, if einval then EINVAL else E_OK)
         else clamp_long (if neg then - digits_val ds else digits_val ds))"

text \<open>The conversion of \<^verbatim>\<open>long\<close> to \<^verbatim>\<open>int\<close>.\<close>

definition long_to_int :: "int \<Rightarrow> int" where
  "long_to_int v = sint (word_of_int v :: u32)"

section \<open>The tree of nodes\<close>

datatype sk_cfg_node =
    Cfg_value string
  | Cfg_array "sk_cfg_node list"
  | Cfg_mapping "(string \<times> sk_cfg_node) list"  \<comment> \<open>in the order of iteration\<close>

text \<open>A document of the YAML parser: its nodes, numbered from 1, the first one being the root.\<close>

datatype yaml_node = Yaml_scalar string | Yaml_sequence "nat list" | Yaml_mapping "(nat \<times> nat) list"

type_synonym yaml_doc = "yaml_node list"

definition yaml_get_node :: "yaml_doc \<Rightarrow> nat \<Rightarrow> yaml_node option" where
  "yaml_get_node doc i = (if 0 < i \<and> i \<le> length doc then Some (doc ! (i - 1)) else None)"

type_synonym 'v hset = "string \<Rightarrow> 'v \<Rightarrow> (string \<times> 'v) list \<Rightarrow> (string \<times> 'v) list"

text \<open>\<^verbatim>\<open>_sk_cfg_node_create\<close> without a value, and with one.\<close>

fun map_res :: "('a \<Rightarrow> 'b res) \<Rightarrow> 'a list \<Rightarrow> 'b list res" where
  "map_res f [] = Inr []"
| "map_res f (x # xs) = rbind (f x) (\<lambda>y. rbind (map_res f xs) (\<lambda>ys. Inr (y # ys)))"

text \<open>The loop over the pairs of a mapping; \<open>f\<close> processes the node of a value.\<close>

fun pairs_process :: "sk_cfg_node hset \<Rightarrow> yaml_doc \<Rightarrow> (nat \<Rightarrow> sk_cfg_node res) \<Rightarrow> (nat \<times> nat) list \<Rightarrow>
  (string \<times> sk_cfg_node) list \<Rightarrow> (string \<times> sk_cfg_node) list res" where
  "pairs_process hset doc f [] m = Inr m"
| "pairs_process hset doc f ((k, v) # ps) m = deref (yaml_get_node doc k) (\<lambda>key. case key of
     Yaml_scalar s \<Rightarrow> rbind (f v) (\<lambda>child. pairs_process hset doc f ps (hset (cstr s) child m))
   | _ \<Rightarrow> Inl Assert)"

text \<open>
  \<^verbatim>\<open>_node_process\<close>. An alias in the file can make a node contain itself, so the recursion is bounded by
  fuel; see \<open>node_process_encodes\<close> and \<open>node_process_cycle\<close>.
\<close>

primrec node_process :: "nat \<Rightarrow> sk_cfg_node hset \<Rightarrow> yaml_doc \<Rightarrow> nat \<Rightarrow> sk_cfg_node res" where
  "node_process 0 hset doc i = Inl Fuel"
| "node_process (Suc n) hset doc i = deref (yaml_get_node doc i) (\<lambda>node. case node of
     Yaml_mapping ps \<Rightarrow> rbind (pairs_process hset doc (node_process n hset doc) ps []) (\<lambda>m. Inr (Cfg_mapping m))
   | Yaml_sequence is \<Rightarrow> rbind (map_res (node_process n hset doc) is) (\<lambda>xs. Inr (Cfg_array xs))
   | Yaml_scalar s \<Rightarrow> Inr (Cfg_value (cstr s)))"

text \<open>
  \<^verbatim>\<open>_document_process\<close>: documents are loaded until one has no root, which the end of the list stands for; \<open>None\<close> is a
  document that does not parse. The last tree is the result.
\<close>

fun document_process :: "nat \<Rightarrow> sk_cfg_node hset \<Rightarrow> yaml_doc option list \<Rightarrow> sk_cfg_node option \<Rightarrow> sk_cfg_node option res" where
  "document_process n hset [] root = Inr root"
| "document_process n hset (None # ds) root = Inl Assert"
| "document_process n hset (Some doc # ds) root =
     (if doc = [] then Inr root
      else rbind (node_process n hset doc 1) (\<lambda>r. document_process n hset ds (Some r)))"

definition sk_config_load :: "nat \<Rightarrow> sk_cfg_node hset \<Rightarrow> yaml_doc option list \<Rightarrow> sk_cfg_node option res" where
  "sk_config_load n hset docs = document_process n hset docs None"

section \<open>Values\<close>

text \<open>\<^verbatim>\<open>node->data.value\<close>\<close>

fun value_of :: "sk_cfg_node \<Rightarrow> (string \<Rightarrow> 'a res) \<Rightarrow> 'a res" where
  "value_of (Cfg_value s) k = k s"
| "value_of _ k = Inl Wild"

definition sk_config_getbool :: "sk_cfg_node \<Rightarrow> bool res" where
  "sk_config_getbool node = value_of node (\<lambda>s. Inr (strcaseeq s ''true''))"

definition sk_config_getint :: "bool \<Rightarrow> sk_cfg_node \<Rightarrow> int res" where
  "sk_config_getint einval node = value_of node (\<lambda>s.
     let (value, errno) = strtol einval s
     in sk_assert (errno \<noteq> EINVAL \<and> errno \<noteq> ERANGE) (Inr (long_to_int value)))"

definition sk_config_getstring :: "sk_cfg_node \<Rightarrow> string res" where
  "sk_config_getstring node = value_of node Inr"

section \<open>The configuration\<close>

definition SK_CONFIG_LOCATION_LEN :: nat where "SK_CONFIG_LOCATION_LEN = 1024"
definition SK_CONFIG_LOGNAME_LEN :: nat where "SK_CONFIG_LOGNAME_LEN = 64"
definition SK_CONFIG_VALUE_MAXLEN :: nat where "SK_CONFIG_VALUE_MAXLEN = 256"
definition SK_CONFIG_NO_PORT :: int where "SK_CONFIG_NO_PORT = - 1"
definition SK_CONFIG_DEFAULT_CMD_PORT :: int where "SK_CONFIG_DEFAULT_CMD_PORT = 7759"
definition SK_DEFAULT_OPEN_FILES :: int where "SK_DEFAULT_OPEN_FILES = 1024"

record sk_module_cfg =
  mc_name :: "string option"
  mc_type :: "string option"

record cfg_workflow = sk_workflow_cfg +
  wc_idl_name :: "string option"
  wc_modules :: "sk_module_cfg list"

record cfg_service = sk_service_cfg +
  sc_type :: "string option"
  sc_enable :: bool

datatype flog_level = FLOG_LEVEL_TRACE | FLOG_LEVEL_DEBUG | FLOG_LEVEL_INFO | FLOG_LEVEL_WARN | FLOG_LEVEL_ERROR | FLOG_LEVEL_FATAL

text \<open>\<open>cf_location\<close>, \<open>cf_log_name\<close> and \<open>cf_diag_name\<close> are arrays of characters.\<close>

record sk_config =
  cf_location :: string
  cf_log_name :: string
  cf_diag_name :: string
  cf_threads :: int
  cf_log_level :: flog_level
  cf_workflows :: "cfg_workflow list"
  cf_services :: "string \<rightharpoonup> cfg_service"
  cf_bio_cnt :: int
  cf_command_port :: int
  cf_command_bind :: "string option"
  cf_langs :: "string set"
  cf_max_fds :: int
  cf_slowlog_ms :: int
  cf_txn_logging :: bool

definition create_workflow_cfg :: cfg_workflow where
  "create_workflow_cfg = \<lparr>wc_concurrent = False, wc_timeout = 0, wc_txn_out_sz = 0, wc_enable_stdin = False, wc_sock_type = 0,
     wc_port = SK_CONFIG_NO_PORT, wc_bind = ''0.0.0.0'', wc_idl_name = None, wc_modules = []\<rparr>"

definition service_cfg_item_create :: cfg_service where
  "service_cfg_item_create = \<lparr>sc_data_mode = SK_SRV_DATA_MODE_RW_PR, sc_max_qsize = 0, sc_type = None, sc_enable = False\<rparr>"

text \<open>The default names are copied without their end into arrays that \<^verbatim>\<open>calloc\<close> has cleared.\<close>

definition create_config :: sk_config where
  "create_config = \<lparr>cf_location = replicate SK_CONFIG_LOCATION_LEN NUL, cf_log_name = strncpy SK_CONFIG_LOGNAME_LEN ''skull.log'',
     cf_diag_name = strncpy SK_CONFIG_LOGNAME_LEN ''diag.log'', cf_threads = 1, cf_log_level = FLOG_LEVEL_INFO, cf_workflows = [],
     cf_services = Map.empty, cf_bio_cnt = 0, cf_command_port = SK_CONFIG_DEFAULT_CMD_PORT, cf_command_bind = None,
     cf_langs = {}, cf_max_fds = SK_DEFAULT_OPEN_FILES, cf_slowlog_ms = 0, cf_txn_logging = False\<rparr>"

section \<open>Modules of a workflow\<close>

text \<open>\<^verbatim>\<open>strsep(&s, d)\<close> for one delimiter: the token and the rest.\<close>

definition strsep :: "char \<Rightarrow> string \<Rightarrow> string \<times> string option" where
  "strsep d s = (takeWhile (\<lambda>c. c \<noteq> d) s,
     case dropWhile (\<lambda>c. c \<noteq> d) s of [] \<Rightarrow> None | _ # r \<Rightarrow> Some r)"

text \<open>The loop over the tokens: \<open>left\<close> is \<open>2 - i\<close>. The result has the final \<open>i\<close>.\<close>

fun module_tokens :: "nat \<Rightarrow> string option \<Rightarrow> sk_module_cfg \<Rightarrow> sk_module_cfg \<times> nat" where
  "module_tokens left None m = (m, 2 - left)"
| "module_tokens 0 (Some s) m = (m, 2)"
| "module_tokens (Suc left) (Some s) m =
     (let (token, rest) = strsep CHR '':'' s
      in module_tokens left rest (if left = 1 then m\<lparr>mc_name := Some token\<rparr> else m\<lparr>mc_type := Some token\<rparr>))"

definition load_module :: "sk_cfg_node \<Rightarrow> sk_module_cfg res" where
  "load_module child = (case child of
     Cfg_value raw \<Rightarrow> arr_str (strncpy SK_CONFIG_VALUE_MAXLEN raw) (\<lambda>tmp.
       let (m, i) = module_tokens 2 (Some tmp) \<lparr>mc_name = None, mc_type = None\<rparr>
       in sk_assert (i = 2) (Inr m))
   | _ \<Rightarrow> Inl Assert)"

definition load_modules :: "bool \<Rightarrow> sk_cfg_node \<Rightarrow> cfg_workflow \<Rightarrow> cfg_workflow res" where
  "load_modules fifo node wc = (case node of
     Cfg_array xs \<Rightarrow> rbind (map_res load_module (in_order fifo xs)) (\<lambda>ms. Inr (wc\<lparr>wc_modules := wc_modules wc @ ms\<rparr>))
   | _ \<Rightarrow> Inr wc)"

section \<open>Workflows\<close>

text \<open>One item of a workflow; the \<^verbatim>\<open>bool\<close> is \<^verbatim>\<open>enabled_stdin\<close>.\<close>

definition load_workflow_item ::
  "bool \<Rightarrow> bool \<Rightarrow> string \<Rightarrow> sk_cfg_node \<Rightarrow> cfg_workflow \<times> bool \<Rightarrow> (cfg_workflow \<times> bool) res" where
  "load_workflow_item einval fifo key child s = (case s of (wc, enabled_stdin) \<Rightarrow>
     if key = ''modules'' then rbind (load_modules fifo child wc) (\<lambda>wc. Inr (wc, enabled_stdin))
     else if key = ''idl'' then value_of child (\<lambda>v. Inr (wc\<lparr>wc_idl_name := Some v\<rparr>, enabled_stdin))
     else if key = ''concurrency'' \<or> key = ''concurrent'' then
       rbind (sk_config_getint einval child) (\<lambda>v. Inr (wc\<lparr>wc_concurrent := odd v\<rparr>, enabled_stdin))
     else if key = ''port'' then
       rbind (sk_config_getint einval child) (\<lambda>port.
         if port \<le> 0 then Inr (wc, enabled_stdin)
         else sk_assert (0 < port \<and> port \<le> 65535) (Inr (wc\<lparr>wc_port := port\<rparr>, enabled_stdin)))
     else if key = ''stdin'' then
       rbind (sk_config_getint einval child) (\<lambda>v.
         sk_assert (\<not> enabled_stdin) (Inr (wc\<lparr>wc_enable_stdin := odd v\<rparr>, odd v)))
     else if key = ''bind'' then rbind (sk_config_getstring child) (\<lambda>v. Inr (wc\<lparr>wc_bind := v\<rparr>, enabled_stdin))
     else if key = ''timeout'' then rbind (sk_config_getint einval child) (\<lambda>v. Inr (wc\<lparr>wc_timeout := v\<rparr>, enabled_stdin))
     else if key = ''sock_type'' then
       rbind (sk_config_getstring child) (\<lambda>v.
         if strcaseeq ''tcp'' v then Inr (wc\<lparr>wc_sock_type := 0\<rparr>, enabled_stdin)
         else if strcaseeq ''udp'' v then Inr (wc\<lparr>wc_sock_type := 1\<rparr>, enabled_stdin)
         else Inl Assert)
     else Inr s)"

text \<open>A loop over the entries of a hash table.\<close>

fun fold_res :: "(string \<Rightarrow> 'v \<Rightarrow> 's \<Rightarrow> 's res) \<Rightarrow> (string \<times> 'v) list \<Rightarrow> 's \<Rightarrow> 's res" where
  "fold_res f [] s = Inr s"
| "fold_res f ((k, v) # m) s = rbind (f k v s) (\<lambda>s. fold_res f m s)"

fun load_workflows :: "bool \<Rightarrow> bool \<Rightarrow> sk_cfg_node list \<Rightarrow> sk_config \<Rightarrow> bool \<Rightarrow> sk_config res" where
  "load_workflows einval fifo [] config enabled_stdin = Inr config"
| "load_workflows einval fifo (child # cs) config enabled_stdin = (case child of
     Cfg_mapping m \<Rightarrow>
       rbind (fold_res (load_workflow_item einval fifo) m (create_workflow_cfg, enabled_stdin)) (\<lambda>(wc, enabled_stdin).
         load_workflows einval fifo cs (config\<lparr>cf_workflows := cf_workflows config @ [wc]\<rparr>) enabled_stdin)
   | _ \<Rightarrow> Inl Assert)"

definition load_workflow :: "bool \<Rightarrow> bool \<Rightarrow> sk_cfg_node \<Rightarrow> sk_config \<Rightarrow> sk_config res" where
  "load_workflow einval fifo node config = (case node of
     Cfg_array xs \<Rightarrow> load_workflows einval fifo (in_order fifo xs) config False
   | _ \<Rightarrow> Inr config)"

section \<open>Logs\<close>

text \<open>\<^verbatim>\<open>_load_log_name\<close> and \<^verbatim>\<open>_load_diaglog_name\<close>\<close>

definition load_name :: "sk_cfg_node \<Rightarrow> string res" where
  "load_name child = (case child of
     Cfg_value name \<Rightarrow> if name \<noteq> [] then Inr (strncpy SK_CONFIG_LOGNAME_LEN name) else Inl Exit
   | _ \<Rightarrow> Inl Assert)"

definition load_log_name :: "sk_cfg_node \<Rightarrow> sk_config \<Rightarrow> sk_config res" where
  "load_log_name child config = rbind (load_name child) (\<lambda>n. Inr (config\<lparr>cf_log_name := n\<rparr>))"

definition load_diaglog_name :: "sk_cfg_node \<Rightarrow> sk_config \<Rightarrow> sk_config res" where
  "load_diaglog_name child config = rbind (load_name child) (\<lambda>n. Inr (config\<lparr>cf_diag_name := n\<rparr>))"

definition load_log_level :: "sk_cfg_node \<Rightarrow> sk_config \<Rightarrow> sk_config res" where
  "load_log_level child config = (case child of
     Cfg_value s \<Rightarrow>
       if s = ''trace'' then Inr (config\<lparr>cf_log_level := FLOG_LEVEL_TRACE\<rparr>)
       else if s = ''debug'' then Inr (config\<lparr>cf_log_level := FLOG_LEVEL_DEBUG\<rparr>)
       else if s = ''info'' then Inr (config\<lparr>cf_log_level := FLOG_LEVEL_INFO\<rparr>)
       else if s = ''warn'' then Inr (config\<lparr>cf_log_level := FLOG_LEVEL_WARN\<rparr>)
       else if s = ''error'' then Inr (config\<lparr>cf_log_level := FLOG_LEVEL_ERROR\<rparr>)
       else if s = ''fatal'' then Inr (config\<lparr>cf_log_level := FLOG_LEVEL_FATAL\<rparr>)
       else Inl Exit
   | _ \<Rightarrow> Inl Assert)"

section \<open>Services\<close>

definition load_service_data_mode :: "sk_cfg_node \<Rightarrow> cfg_service \<Rightarrow> cfg_service res" where
  "load_service_data_mode child cfg = (case child of
     Cfg_value s \<Rightarrow>
       if s = ''rw-pr'' then Inr (cfg\<lparr>sc_data_mode := SK_SRV_DATA_MODE_RW_PR\<rparr>)
       else if s = ''rw-pw'' then Inr (cfg\<lparr>sc_data_mode := SK_SRV_DATA_MODE_RW_PW\<rparr>)
       else Inl Exit
   | _ \<Rightarrow> Inl Assert)"

text \<open>One item of a service; the \<^verbatim>\<open>bool\<close> is \<^verbatim>\<open>data_mode_exist\<close>.\<close>

definition load_service_item :: "bool \<Rightarrow> string \<Rightarrow> sk_cfg_node \<Rightarrow> cfg_service \<times> bool \<Rightarrow> (cfg_service \<times> bool) res" where
  "load_service_item einval key child s = (case s of (cfg, data_mode_exist) \<Rightarrow>
     if key = ''enable'' then rbind (sk_config_getbool child) (\<lambda>v. Inr (cfg\<lparr>sc_enable := v\<rparr>, data_mode_exist))
     else if key = ''data_mode'' then rbind (load_service_data_mode child cfg) (\<lambda>cfg. Inr (cfg, True))
     else if key = ''type'' then rbind (sk_config_getstring child) (\<lambda>v. Inr (cfg\<lparr>sc_type := Some v\<rparr>, data_mode_exist))
     else if key = ''max_qsize'' then rbind (sk_config_getint einval child) (\<lambda>v. Inr (cfg\<lparr>sc_max_qsize := v\<rparr>, data_mode_exist))
     else Inr s)"

definition load_service :: "bool \<Rightarrow> string \<Rightarrow> sk_cfg_node \<Rightarrow> sk_config \<Rightarrow> sk_config res" where
  "load_service einval name node config = (case node of
     Cfg_mapping m \<Rightarrow>
       rbind (fold_res (load_service_item einval) m (service_cfg_item_create, False)) (\<lambda>(cfg, data_mode_exist).
         if data_mode_exist then Inr (config\<lparr>cf_services := (cf_services config)(name \<mapsto> cfg)\<rparr>) else Inl Exit)
   | _ \<Rightarrow> Inl Assert)"

definition load_services :: "bool \<Rightarrow> sk_cfg_node \<Rightarrow> sk_config \<Rightarrow> sk_config res" where
  "load_services einval node config = (case node of
     Cfg_mapping m \<Rightarrow> fold_res (load_service einval) m config
   | _ \<Rightarrow> Inr config)"

section \<open>The rest\<close>

definition load_bios :: "bool \<Rightarrow> sk_cfg_node \<Rightarrow> sk_config \<Rightarrow> sk_config res" where
  "load_bios einval node config = (case node of
     Cfg_value _ \<Rightarrow> rbind (sk_config_getint einval node) (\<lambda>n. sk_assert (0 \<le> n) (Inr (config\<lparr>cf_bio_cnt := n\<rparr>)))
   | _ \<Rightarrow> Inr config)"

fun load_lang_items :: "sk_cfg_node list \<Rightarrow> sk_config \<Rightarrow> sk_config res" where
  "load_lang_items [] config = Inr config"
| "load_lang_items (child # cs) config = (case child of
     Cfg_value s \<Rightarrow> load_lang_items cs (config\<lparr>cf_langs := insert s (cf_langs config)\<rparr>)
   | _ \<Rightarrow> Inl Assert)"

definition load_langs :: "bool \<Rightarrow> sk_cfg_node \<Rightarrow> sk_config \<Rightarrow> sk_config res" where
  "load_langs fifo node config = (case node of
     Cfg_array xs \<Rightarrow> load_lang_items (in_order fifo xs) config
   | _ \<Rightarrow> Inr config)"

text \<open>One item of the file, and \<^verbatim>\<open>_load_config\<close>.\<close>

definition load_item :: "bool \<Rightarrow> bool \<Rightarrow> string \<Rightarrow> sk_cfg_node \<Rightarrow> sk_config \<Rightarrow> sk_config res" where
  "load_item einval fifo key child config =
     (if key = ''worker_threads'' then
        rbind (sk_config_getint einval child) (\<lambda>n. sk_assert (0 < n) (Inr (config\<lparr>cf_threads := n\<rparr>)))
      else if key = ''workflows'' then load_workflow einval fifo child config
      else if key = ''log_name'' then load_log_name child config
      else if key = ''diag_log'' then load_diaglog_name child config
      else if key = ''log_level'' then load_log_level child config
      else if key = ''services'' then load_services einval child config
      else if key = ''bg_iothreads'' then load_bios einval child config
      else if key = ''languages'' then load_langs fifo child config
      else if key = ''command_port'' then
        rbind (sk_config_getint einval child) (\<lambda>port.
          sk_assert (0 < port \<and> port \<le> 65535) (Inr (config\<lparr>cf_command_port := port\<rparr>)))
      else if key = ''command_bind'' then
        rbind (sk_config_getstring child) (\<lambda>v. Inr (config\<lparr>cf_command_bind := Some v\<rparr>))
      else if key = ''max_fds'' then rbind (sk_config_getint einval child) (\<lambda>v. Inr (config\<lparr>cf_max_fds := v\<rparr>))
      else if key = ''txn_logging'' then rbind (sk_config_getbool child) (\<lambda>v. Inr (config\<lparr>cf_txn_logging := v\<rparr>))
      else if key = ''slowlog_ms'' then rbind (sk_config_getint einval child) (\<lambda>v. Inr (config\<lparr>cf_slowlog_ms := v\<rparr>))
      else Inr config)"

definition load_config :: "bool \<Rightarrow> bool \<Rightarrow> sk_cfg_node \<Rightarrow> sk_config \<Rightarrow> sk_config res" where
  "load_config einval fifo root config = (case root of
     Cfg_mapping m \<Rightarrow> fold_res (load_item einval fifo) m config
   | _ \<Rightarrow> Inl Assert)"

definition validate_logname :: "string \<Rightarrow> bool res" where
  "validate_logname a = arr_str a (\<lambda>name.
     Inr (if name = [] then False
          else if CHR ''/'' \<in> set name then hd name = CHR ''/'' \<and> 1 < length name
          else True))"

definition post_load :: "sk_config \<Rightarrow> unit res" where
  "post_load config =
     rbind (validate_logname (cf_log_name config)) (\<lambda>b. sk_assert b
     (rbind (validate_logname (cf_diag_name config)) (\<lambda>b. sk_assert b (Inr ()))))"

definition sk_config_create ::
  "nat \<Rightarrow> sk_cfg_node hset \<Rightarrow> bool \<Rightarrow> bool \<Rightarrow> string \<Rightarrow> yaml_doc option list \<Rightarrow> sk_config res" where
  "sk_config_create n hset einval fifo filename docs =
     (let config = create_config\<lparr>cf_location := strncpy SK_CONFIG_LOCATION_LEN filename\<rparr>
      in arr_str (cf_location config) (\<lambda>_.
         rbind (sk_config_load n hset docs) (\<lambda>root. deref root (\<lambda>root.
         rbind (load_config einval fifo root config) (\<lambda>config.
         rbind (post_load config) (\<lambda>_. Inr config))))))"

end
