(* ===== verification/Config_Proofs.thy ===== *)
theory Config_Proofs
  imports Config
begin

text \<open>Properties of the configuration: the tree of a file, numbers, modules, and what a configuration that loads satisfies.\<close>

section \<open>Hash tables\<close>

text \<open>
  What the code relies on of the hash tables of the library with strings as keys: a key has one entry, and setting it replaces it.
  The order of the entries is open.
\<close>

locale hash_str =
  fixes hset :: "'v hset"
  assumes lookup_set: "map_of (hset k v m) = (map_of m)(k \<mapsto> v)"
    and distinct_set: "distinct (map fst m) \<Longrightarrow> distinct (map fst (hset k v m))"
begin

lemma sets_distinct: "distinct (map fst m) \<Longrightarrow> distinct (map fst (fold (\<lambda>(k, v). hset k v) ps m))"
  by (induction ps arbitrary: m) (auto simp: distinct_set)

lemma sets_lookup: "map_of (fold (\<lambda>(k, v). hset k v) ps m) = map_of m ++ map_of (rev ps)"
  by (induction ps arbitrary: m) (auto simp: lookup_set map_add_def fun_eq_iff split: option.split)

end

interpretation alist: hash_str AList.update
  by unfold_locales (simp_all add: update_conv' distinct_update)

section \<open>The tree of a document\<close>

text \<open>A document without cycles is a tree; aliases may share nodes.\<close>

datatype ytree = T_scalar string | T_seq "ytree list" | T_map "(string \<times> ytree) list"

inductive encodes :: "yaml_doc \<Rightarrow> ytree \<Rightarrow> nat \<Rightarrow> bool" for doc where
  Enc_scalar: "yaml_get_node doc i = Some (Yaml_scalar s) \<Longrightarrow> encodes doc (T_scalar s) i"
| Enc_seq: "yaml_get_node doc i = Some (Yaml_sequence is) \<Longrightarrow> list_all2 (encodes doc) ts is \<Longrightarrow> encodes doc (T_seq ts) i"
| Enc_map: "yaml_get_node doc i = Some (Yaml_mapping kvs) \<Longrightarrow>
    list_all2 (\<lambda>p q. yaml_get_node doc (fst q) = Some (Yaml_scalar (fst p)) \<and> encodes doc (snd p) (snd q)) ps kvs \<Longrightarrow> encodes doc (T_map ps) i"

fun depth :: "ytree \<Rightarrow> nat" where
  "depth (T_scalar s) = 0"
| "depth (T_seq ts) = Suc (foldr max (map depth ts) 0)"
| "depth (T_map ps) = Suc (foldr max (map (\<lambda>(s, t). depth t) ps) 0)"

fun cfg_of :: "sk_cfg_node hset \<Rightarrow> ytree \<Rightarrow> sk_cfg_node" where
  "cfg_of hset (T_scalar s) = Cfg_value (cstr s)"
| "cfg_of hset (T_seq ts) = Cfg_array (map (cfg_of hset) ts)"
| "cfg_of hset (T_map ps) = Cfg_mapping (fold (\<lambda>(k, v). hset k v) (map (\<lambda>(s, t). (cstr s, cfg_of hset t)) ps) [])"

lemma foldr_max_less: "foldr max xs (0 :: nat) < n \<longleftrightarrow> 0 < n \<and> (\<forall>x \<in> set xs. x < n)"
  by (induction xs) auto

lemma map_res_all2: "list_all2 (\<lambda>t i. f i = Inr (g t)) ts xs \<Longrightarrow> map_res f xs = Inr (map g ts)"
  by (induction rule: list_all2_induct) auto

lemma pairs_process_all2:
  "list_all2 (\<lambda>p q. yaml_get_node doc (fst q) = Some (Yaml_scalar (fst p)) \<and> f (snd q) = Inr (g (snd p))) ps kvs \<Longrightarrow>
   pairs_process hset doc f kvs m = Inr (fold (\<lambda>(k, v). hset k v) (map (\<lambda>(s, t). (cstr s, g t)) ps) m)"
  by (induction arbitrary: m rule: list_all2_induct) auto

lemma node_process_encodes:
  "encodes doc t i \<Longrightarrow> depth t < n \<Longrightarrow> node_process n hset doc i = Inr (cfg_of hset t)"
proof (induction arbitrary: n rule: encodes.induct)
  case (Enc_scalar i s)
  then show ?case by (cases n) auto
next
  case (Enc_seq i "is" ts)
  then obtain k where n: "n = Suc k" by (cases n) auto
  with Enc_seq.prems have d: "\<forall>t \<in> set ts. depth t < k" by (auto simp: foldr_max_less)
  have "list_all2 (\<lambda>t i. node_process k hset doc i = Inr (cfg_of hset t)) ts is"
    using Enc_seq.IH d by (auto simp: list_all2_conv_all_nth)
  then show ?case using n Enc_seq.hyps by (simp add: map_res_all2)
next
  case (Enc_map i kvs ps)
  then obtain k where n: "n = Suc k" by (cases n) auto
  with Enc_map.prems have d: "\<forall>p \<in> set ps. depth (snd p) < k" by (auto simp: foldr_max_less)
  have "list_all2 (\<lambda>p q. yaml_get_node doc (fst q) = Some (Yaml_scalar (fst p)) \<and>
      node_process k hset doc (snd q) = Inr (cfg_of hset (snd p))) ps kvs"
    using Enc_map.IH d by (auto simp: list_all2_conv_all_nth case_prod_unfold)
  then show ?case using n Enc_map.hyps by (simp add: pairs_process_all2)
qed

text \<open>A node that contains itself makes the recursion endless.\<close>

lemma node_process_cycle: "yaml_get_node doc i = Some (Yaml_sequence (i # is)) \<Longrightarrow> node_process n hset doc i = Inl Fuel"
  by (induction n) auto

text \<open>
  C25: the tree of a configuration file. If the file is one document without cycles, loading it ends, with any fuel
  above its depth; the result has the scalars, sequences and mappings of the document in their order, and a mapping has one entry for each key, the last one of the
  document.
\<close>
theorem config_file_tree:
  assumes "hash_str hset" "encodes doc t 1" "depth t < n"
  shows "sk_config_load n hset [Some doc] = Inr (Some (cfg_of hset t)) \<and>
    (\<forall>ps. t = T_map ps \<longrightarrow> (\<exists>m. cfg_of hset t = Cfg_mapping m \<and> distinct (map fst m) \<and>
      map_of m = map_of (rev (map (\<lambda>(s, t). (cstr s, cfg_of hset t)) ps))))"
proof -
  have "doc \<noteq> []" using assms(2) by (cases rule: encodes.cases) (auto simp: yaml_get_node_def)
  then show ?thesis
    using node_process_encodes [OF assms(2,3), of hset] hash_str.sets_distinct [OF assms(1), of "[]"]
    by (auto simp: sk_config_load_def hash_str.sets_lookup [OF assms(1)])
qed

definition demo_doc :: yaml_doc where
  "demo_doc = [Yaml_mapping [(2, 3), (4, 5), (2, 3)], Yaml_scalar ''a'', Yaml_scalar ''1'', Yaml_scalar ''b'', Yaml_sequence [3, 3]]"

theorem config_file_tree_witness:
  "sk_config_load 5 AList.update [Some demo_doc] =
     Inr (Some (Cfg_mapping [(''a'', Cfg_value ''1''), (''b'', Cfg_array [Cfg_value ''1'', Cfg_value ''1''])]))"
proof -
  let ?t = "T_map [(''a'', T_scalar ''1''), (''b'', T_seq [T_scalar ''1'', T_scalar ''1'']), (''a'', T_scalar ''1'')]"
  have "encodes demo_doc (T_scalar ''1'') 3"
    by (rule Enc_scalar) (simp add: demo_doc_def yaml_get_node_def)
  then have "encodes demo_doc ?t 1"
    by (auto intro!: encodes.intros simp: demo_doc_def yaml_get_node_def)
  from config_file_tree [OF alist.hash_str_axioms this, of 5] show ?thesis by (simp add: cstr_def NUL_def)
qed

section \<open>Numbers\<close>

lemma digits_val_snoc: "digits_val (ds @ [c]) = digits_val ds * 10 + (of_char c - 48)"
  by (simp add: digits_val_def)

lemma digit_char: "d < 10 \<Longrightarrow> isdigit (char_of (48 + d :: nat)) \<and> (of_char (char_of (48 + d :: nat) :: char) :: int) = 48 + int d"
  using of_nat_of_char [of "char_of (48 + d :: nat)", where 'a = int] by (simp add: isdigit_def)

lemma nat_dec_digits: "nat_dec n \<noteq> [] \<and> (\<forall>c \<in> set (nat_dec n). isdigit c) \<and> digits_val (nat_dec n) = int n"
proof (induction n rule: nat_dec.induct)
  case (1 n)
  show ?case
  proof (cases "n < 10")
    case True
    with digit_char [OF True] show ?thesis by (subst (1 2 3) nat_dec.simps) (simp add: digits_val_def)
  next
    case False
    have d: "n mod 10 < 10" by simp
    have "int (n div 10) * 10 + int (n mod 10) = int n" by presburger
    with False 1 digit_char [OF d] show ?thesis by (subst (1 2 3) nat_dec.simps) (auto simp: digits_val_snoc)
  qed
qed

text \<open>How a number is written.\<close>

definition int_dec :: "int \<Rightarrow> string" where
  "int_dec i = (if i < 0 then CHR ''-'' # nat_dec (nat (- i)) else nat_dec (nat i))"

lemma takeWhile_digits: "\<forall>c \<in> set ds. isdigit c \<Longrightarrow> rest = [] \<or> \<not> isdigit (hd rest) \<Longrightarrow> takeWhile isdigit (ds @ rest) = ds"
  by (cases rest) (auto simp: takeWhile_append)

lemma digit_not: "isdigit c \<Longrightarrow> \<not> isspace c \<and> c \<noteq> CHR ''-'' \<and> c \<noteq> CHR ''+''"
  by (auto simp: isdigit_def isspace_def)

lemma strtol_dec:
  assumes "rest = [] \<or> \<not> isdigit (hd rest)"
  shows "strtol e (int_dec i @ rest) = clamp_long i"
proof (cases "i < 0")
  case True
  have "takeWhile isdigit (nat_dec (nat (- i)) @ rest) = nat_dec (nat (- i))"
    using nat_dec_digits assms by (intro takeWhile_digits) auto
  then show ?thesis
    using True nat_dec_digits [of "nat (- i)"] by (simp add: strtol_def int_dec_def isspace_def Let_def)
next
  case False
  have t: "takeWhile isdigit (nat_dec (nat i) @ rest) = nat_dec (nat i)"
    using nat_dec_digits assms by (intro takeWhile_digits) auto
  obtain c cs where c: "nat_dec (nat i) = c # cs" "isdigit c"
    using nat_dec_digits [of "nat i"] by (cases "nat_dec (nat i)") auto
  then show ?thesis
    using False t nat_dec_digits [of "nat i"] digit_not [OF c(2)] by (simp add: strtol_def int_dec_def Let_def)
qed

lemma long_to_int_id: "- (2 ^ 31) \<le> i \<Longrightarrow> i < 2 ^ 31 \<Longrightarrow> long_to_int i = i"
  by (simp add: long_to_int_def signed_of_int signed_take_bit_int_eq_self)

text \<open>
  C26: numbers of the configuration. A decimal number of 32 bits is read back exactly, also when something that is no digit follows
  it; a number beyond 64 bits stops the server; in between the number is silently reduced modulo
  \<open>2 ^ 32\<close>.
\<close>
theorem config_getint_decimal:
  assumes "rest = [] \<or> \<not> isdigit (hd rest)"
  shows "sk_config_getint e (Cfg_value (int_dec i @ rest)) =
    (if - (2 ^ 31) \<le> i \<and> i < 2 ^ 31 then Inr i
     else if - (2 ^ 63) \<le> i \<and> i < 2 ^ 63 then Inr (long_to_int i)
     else Inl Assert)"
  using long_to_int_id [of i]
  by (simp add: sk_config_getint_def strtol_dec [OF assms] clamp_long_def LONG_MAX_def LONG_MIN_def)

theorem config_getint_decimal_witness: "sk_config_getint False (Cfg_value ''-42ms'') = Inr (- 42)"
proof -
  have "int_dec (- 42) = ''-42''" by code_simp
  then show ?thesis using config_getint_decimal [of "''ms''" False "- 42"] by (simp add: isdigit_def)
qed

section \<open>Modules\<close>

lemma cstr_id: "NUL \<notin> set s \<Longrightarrow> cstr s = s"
  by (auto simp: cstr_def takeWhile_eq_all_conv)

lemma arr_strncpy: "NUL \<notin> set s \<Longrightarrow> arr_str (strncpy n s) k = (if length s < n then k s else Inl Wild)"
proof (cases "length s < n")
  case True
  moreover assume "NUL \<notin> set s"
  moreover have "strncpy n s = s @ NUL # replicate (n - length s - 1) NUL"
    using True by (simp add: strncpy_def replicate_Suc [symmetric] del: replicate_Suc) 
  ultimately show ?thesis by (simp add: arr_str_def cstr_def takeWhile_append)
qed (auto simp: arr_str_def strncpy_def dest: in_set_takeD)

lemma strsep_mem: "d \<in> set s \<Longrightarrow> snd (strsep d s) = Some (tl (dropWhile (\<lambda>c. c \<noteq> d) s))"
  by (induction s) (auto simp: strsep_def)

lemma strsep_last: "d \<notin> set s \<Longrightarrow> snd (strsep d s) = None"
  by (induction s) (auto simp: strsep_def)

lemma strsep_fst: "fst (strsep d s) = takeWhile (\<lambda>c. c \<noteq> d) s"
  by (simp add: strsep_def)

lemmas token_simps = numeral_2_eq_2 case_prod_unfold Let_def strsep_fst

lemma tokens_one: "module_tokens 1 (Some s) m = (m\<lparr>mc_type := Some (takeWhile (\<lambda>c. c \<noteq> CHR '':'') s)\<rparr>, 2)"
  by (cases "snd (strsep CHR '':'' s)") (simp_all add: token_simps)

lemma tokens_colon:
  "CHR '':'' \<in> set s \<Longrightarrow> module_tokens 2 (Some s) m =
     (m\<lparr>mc_name := Some (takeWhile (\<lambda>c. c \<noteq> CHR '':'') s),
        mc_type := Some (takeWhile (\<lambda>c. c \<noteq> CHR '':'') (tl (dropWhile (\<lambda>c. c \<noteq> CHR '':'') s)))\<rparr>, 2)"
  using tokens_one by (simp add: token_simps strsep_mem)

lemma tokens_no_colon: "CHR '':'' \<notin> set s \<Longrightarrow> snd (module_tokens 2 (Some s) m) = 1"
  by (simp add: token_simps strsep_last)

text \<open>
  The entry of a module. An entry is the name, a colon and the type; what follows a second colon is
  ignored; an entry without colon stops the server; an entry of 256 characters or more is read
  past the end of the array it was copied to.
\<close>
theorem config_module_entry:
  assumes "NUL \<notin> set raw"
  shows "load_module (Cfg_value raw) =
    (if 256 \<le> length raw then Inl Wild
     else if CHR '':'' \<in> set raw then
       Inr \<lparr>mc_name = Some (takeWhile (\<lambda>c. c \<noteq> CHR '':'') raw),
            mc_type = Some (takeWhile (\<lambda>c. c \<noteq> CHR '':'') (tl (dropWhile (\<lambda>c. c \<noteq> CHR '':'') raw)))\<rparr>
     else Inl Assert)"
proof (cases "CHR '':'' \<in> set raw")
  case True
  then show ?thesis
    by (simp add: load_module_def arr_strncpy [OF assms] SK_CONFIG_VALUE_MAXLEN_def tokens_colon)
next
  case False
  then show ?thesis
    by (simp add: load_module_def arr_strncpy [OF assms] SK_CONFIG_VALUE_MAXLEN_def case_prod_unfold tokens_no_colon)
qed

theorem config_module_entry_witness: "load_module (Cfg_value ''test:cpp'') = Inr \<lparr>mc_name = Some ''test'', mc_type = Some ''cpp''\<rparr>"
  using config_module_entry [of "''test:cpp''"] by (simp add: NUL_def)

section \<open>Configurations that load\<close>

definition workflow_ok :: "cfg_workflow \<Rightarrow> bool" where
  "workflow_ok w \<longleftrightarrow> (wc_port w = SK_CONFIG_NO_PORT \<or> 0 < wc_port w \<and> wc_port w \<le> 65535) \<and> wc_sock_type w \<le> 1 \<and>
     (\<forall>m \<in> set (wc_modules w). mc_name m \<noteq> None \<and> mc_type m \<noteq> None)"

definition workflows_ok :: "cfg_workflow list \<Rightarrow> bool" where
  "workflows_ok ws \<longleftrightarrow> (\<forall>w \<in> set ws. workflow_ok w) \<and> length (filter wc_enable_stdin ws) \<le> 1"

definition config_ok :: "sk_config \<Rightarrow> bool" where
  "config_ok c \<longleftrightarrow> 0 < cf_threads c \<and> 0 \<le> cf_bio_cnt c \<and> 0 < cf_command_port c \<and> cf_command_port c \<le> 65535 \<and>
     workflows_ok (cf_workflows c)"

definition name_ok :: "string \<Rightarrow> bool" where
  "name_ok a \<longleftrightarrow> NUL \<in> set a \<and> cstr a \<noteq> [] \<and>
     (CHR ''/'' \<in> set (cstr a) \<longrightarrow> hd (cstr a) = CHR ''/'' \<and> 1 < length (cstr a))"

lemma fold_res_inv:
  assumes "fold_res f m s = Inr s'" "P s" "\<And>k v s s'. P s \<Longrightarrow> f k v s = Inr s' \<Longrightarrow> P s'"
  shows "P s'"
  using assms(1,2) by (induction m arbitrary: s) (auto simp: res_simps, metis assms(3))

text \<open>Case distinction on a chain of conditions, when it does not matter which condition holds.\<close>

lemma if_InrE: "(if b then m else n) = Inr y \<Longrightarrow> (m = Inr y \<Longrightarrow> R) \<Longrightarrow> (n = Inr y \<Longrightarrow> R) \<Longrightarrow> R"
  by (simp split: if_splits)

lemma load_module_ok: "load_module x = Inr m \<Longrightarrow> mc_name m \<noteq> None \<and> mc_type m \<noteq> None"
proof -
  have "mc_name m \<noteq> None \<and> mc_type m \<noteq> None" if "module_tokens 2 (Some s) \<lparr>mc_name = None, mc_type = None\<rparr> = (m, 2)" for s
    using that tokens_no_colon [of s "\<lparr>mc_name = None, mc_type = None\<rparr>"]
    by (cases "CHR '':'' \<in> set s") (auto simp: tokens_colon)
  then show "load_module x = Inr m \<Longrightarrow> ?thesis"
    by (auto simp: load_module_def arr_str_def res_simps case_prod_unfold Let_def prod_eq_iff split: sk_cfg_node.splits if_splits)
qed

lemma map_res_set: "map_res f xs = Inr ys \<Longrightarrow> \<forall>y \<in> set ys. \<exists>x. f x = Inr y"
  by (induction f xs arbitrary: ys rule: map_res.induct) (auto simp: res_simps)

lemma load_modules_ok: "load_modules fifo x w = Inr w' \<Longrightarrow> workflow_ok w \<Longrightarrow>
    workflow_ok w' \<and> wc_enable_stdin w' = wc_enable_stdin w"
  by (fastforce simp: load_modules_def workflow_ok_def res_simps split: sk_cfg_node.splits dest: map_res_set load_module_ok)

lemma value_of_Inr [res_simps]: "value_of x k = Inr y \<longleftrightarrow> (\<exists>s. x = Cfg_value s \<and> k s = Inr y)"
  by (cases x) auto

text \<open>\<open>b0\<close> says whether an earlier workflow reads the standard input.\<close>

definition item_inv :: "bool \<Rightarrow> cfg_workflow \<times> bool \<Rightarrow> bool" where
  "item_inv b0 s \<longleftrightarrow> workflow_ok (fst s) \<and> snd s = (b0 \<or> wc_enable_stdin (fst s)) \<and> \<not> (b0 \<and> wc_enable_stdin (fst s))"

lemma workflow_ok_simps [simp]:
  "workflow_ok (w\<lparr>wc_idl_name := v\<rparr>) = workflow_ok w" "workflow_ok (w\<lparr>wc_concurrent := b\<rparr>) = workflow_ok w"
  "workflow_ok (w\<lparr>wc_enable_stdin := b\<rparr>) = workflow_ok w" "workflow_ok (w\<lparr>wc_bind := a\<rparr>) = workflow_ok w"
  "workflow_ok (w\<lparr>wc_timeout := i\<rparr>) = workflow_ok w"
  by (simp_all add: workflow_ok_def)

lemma workflow_ok_upd:
  "workflow_ok w \<Longrightarrow> \<not> i \<le> 0 \<Longrightarrow> i \<le> 65535 \<Longrightarrow> workflow_ok (w\<lparr>wc_port := i\<rparr>)"
  "workflow_ok w \<Longrightarrow> n \<le> 1 \<Longrightarrow> workflow_ok (w\<lparr>wc_sock_type := n\<rparr>)"
  by (simp_all add: workflow_ok_def)

lemma load_workflow_item_ok:
  assumes "item_inv b0 s" "load_workflow_item e fifo k x s = Inr s'"
  shows "item_inv b0 s'"
proof -
  obtain w b where s: "s = (w, b)" by fastforce
  show ?thesis
    using assms unfolding s load_workflow_item_def prod.case
    by (elim if_InrE) (auto simp: item_inv_def res_simps workflow_ok_upd split: if_splits dest!: load_modules_ok)
qed

lemma load_workflows_ok:
  assumes "load_workflows e fifo cs c b = Inr c'" "\<forall>w \<in> set (cf_workflows c). workflow_ok w"
    "length (filter wc_enable_stdin (cf_workflows c)) = (if b then 1 else 0)"
  shows "workflows_ok (cf_workflows c') \<and> (\<exists>ws. c' = c\<lparr>cf_workflows := ws\<rparr>)"
  using assms
proof (induction cs arbitrary: c b)
  case Nil
  then show ?case by (auto simp: workflows_ok_def intro: exI [of _ "cf_workflows c'"])
next
  case (Cons x cs)
  then obtain m w b' where m: "x = Cfg_mapping m" "fold_res (load_workflow_item e fifo) m (create_workflow_cfg, b) = Inr (w, b')"
    "load_workflows e fifo cs (c\<lparr>cf_workflows := cf_workflows c @ [w]\<rparr>) b' = Inr c'"
    by (auto simp: res_simps split: sk_cfg_node.splits)
  have "item_inv b (create_workflow_cfg, b)"
    by (simp add: item_inv_def create_workflow_cfg_def workflow_ok_def)
  then have "item_inv b (w, b')"
    using fold_res_inv [OF m(2), of "item_inv b"] load_workflow_item_ok by blast
  with Cons.IH [OF m(3)] Cons.prems show ?case by (auto simp: item_inv_def split: if_splits)
qed

lemma load_services_keeps: "load_services e x c = Inr c' \<Longrightarrow> \<exists>S. c' = c\<lparr>cf_services := S\<rparr>"
proof -
  have "\<exists>S. c' = c\<lparr>cf_services := S\<rparr>" if "fold_res (load_service e) m c = Inr c'" for m
  proof (rule fold_res_inv [OF that, of "\<lambda>d. \<exists>S. d = c\<lparr>cf_services := S\<rparr>"])
    show "\<exists>S. c = c\<lparr>cf_services := S\<rparr>" by (rule exI [of _ "cf_services c"]) simp
  qed (auto simp: load_service_def res_simps split: sk_cfg_node.splits if_splits)
  then show "load_services e x c = Inr c' \<Longrightarrow> ?thesis"
    by (auto simp: load_services_def split: sk_cfg_node.splits intro: exI [of _ "cf_services c"])
qed

lemma load_langs_keeps: "load_langs fifo x c = Inr c' \<Longrightarrow> \<exists>L. c' = c\<lparr>cf_langs := L\<rparr>"
proof -
  have "\<exists>L. c' = c\<lparr>cf_langs := L\<rparr>" if "load_lang_items cs c = Inr c'" for cs
    using that
  proof (induction cs arbitrary: c)
    case Nil
    then show ?case by (auto intro: exI [of _ "cf_langs c'"])
  next
    case (Cons y cs)
    then show ?case by (fastforce split: sk_cfg_node.splits)
  qed
  then show "load_langs fifo x c = Inr c' \<Longrightarrow> ?thesis"
    by (auto simp: load_langs_def split: sk_cfg_node.splits intro: exI [of _ "cf_langs c"])
qed

lemma load_item_other:
  assumes "load_item e fifo k x c = Inr c'" "config_ok c" "k \<noteq> ''workflows''"
  shows "config_ok c' \<and> cf_workflows c' = cf_workflows c"
  using assms(1) unfolding load_item_def eq_False [THEN iffD2, OF assms(3)] if_False
  using assms(2)
  by (elim if_InrE) (auto simp: res_simps config_ok_def load_log_name_def load_diaglog_name_def load_log_level_def load_bios_def
      split: sk_cfg_node.splits if_splits dest!: load_services_keeps load_langs_keeps)

lemma load_item_workflows:
  assumes "load_item e fifo ''workflows'' x c = Inr c'" "config_ok c" "cf_workflows c = []"
  shows "config_ok c'"
  using assms
  by (auto simp: load_item_def load_workflow_def config_ok_def split: sk_cfg_node.splits dest!: load_workflows_ok)

lemma load_items_ok:
  "fold_res (load_item e fifo) m c = Inr c' \<Longrightarrow> config_ok c \<Longrightarrow> distinct (map fst m) \<Longrightarrow>
   ''workflows'' \<in> fst ` set m \<longrightarrow> cf_workflows c = [] \<Longrightarrow> config_ok c'"
proof (induction m arbitrary: c)
  case (Cons p m)
  obtain k x where p: "p = (k, x)" by fastforce
  with Cons.prems(1) obtain d where d: "load_item e fifo k x c = Inr d" "fold_res (load_item e fifo) m d = Inr c'"
    by (auto simp: res_simps)
  show ?case
  proof (cases "k = ''workflows''")
    case True
    with Cons.prems p d have "config_ok d" "''workflows'' \<notin> fst ` set m" by (auto intro: load_item_workflows)
    with Cons.IH [OF d(2)] Cons.prems show ?thesis by simp
  next
    case False
    with load_item_other [OF d(1) Cons.prems(2)] Cons.IH [OF d(2)] Cons.prems p show ?thesis by auto
  qed
qed simp

text \<open>The root of the tree has one entry for each key.\<close>

lemma case_yaml_Inr: "(case n of Yaml_scalar s \<Rightarrow> f s | Yaml_sequence is \<Rightarrow> g is | Yaml_mapping ps \<Rightarrow> h ps) = Inr y \<longleftrightarrow>
    (\<exists>s. n = Yaml_scalar s \<and> f s = Inr y) \<or> (\<exists>is. n = Yaml_sequence is \<and> g is = Inr y) \<or> (\<exists>ps. n = Yaml_mapping ps \<and> h ps = Inr y)"
  by (cases n) auto

lemma case_cfg_Inr: "(case n of Cfg_value s \<Rightarrow> f s | Cfg_array xs \<Rightarrow> g xs | Cfg_mapping ps \<Rightarrow> h ps) = Inr y \<longleftrightarrow>
    (\<exists>s. n = Cfg_value s \<and> f s = Inr y) \<or> (\<exists>xs. n = Cfg_array xs \<and> g xs = Inr y) \<or> (\<exists>ps. n = Cfg_mapping ps \<and> h ps = Inr y)"
  by (cases n) auto

lemma pairs_process_distinct:
  assumes "hash_str hset"
  shows "pairs_process hset doc f ps m = Inr m' \<Longrightarrow> distinct (map fst m) \<Longrightarrow> distinct (map fst m')"
proof (induction ps arbitrary: m)
  case (Cons p ps)
  then show ?case
    by (cases p) (auto simp: res_simps case_yaml_Inr hash_str.distinct_set [OF assms])
qed simp

lemma node_process_distinct:
  "hash_str hset \<Longrightarrow> node_process n hset doc i = Inr (Cfg_mapping m) \<Longrightarrow> distinct (map fst m)"
  by (cases n) (auto simp: res_simps case_yaml_Inr dest: pairs_process_distinct)

lemma document_root: "document_process n hset ds r0 = Inr (Some r) \<Longrightarrow> r0 = Some r \<or> (\<exists>doc. node_process n hset doc 1 = Inr r)"
  by (induction n hset ds r0 rule: document_process.induct) (auto simp: res_simps split: if_splits)

lemma validate_ok: "validate_logname a = Inr True \<longleftrightarrow> name_ok a"
  by (auto simp: validate_logname_def arr_str_def name_ok_def split: if_splits)

lemma create_config_ok: "config_ok create_config" "cf_workflows create_config = []"
  by (simp_all add: config_ok_def create_config_def workflows_ok_def SK_CONFIG_DEFAULT_CMD_PORT_def)

lemma config_ok_location [simp]: "config_ok (c\<lparr>cf_location := l\<rparr>) = config_ok c"
  by (simp add: config_ok_def)

text \<open>
  C24: a configuration that loads is valid, whatever the file says. There is at least one worker, the number of
  background threads is not negative, ports are ports, every workflow speaks TCP or UDP and each of its
  modules has a name and a type, at most one workflow reads the standard input, and the names of the log files are
  strings, not empty, and absolute if they have a directory.
\<close>
theorem config_loaded_valid:
  assumes "hash_str hset" "sk_config_create n hset einval fifo filename docs = Inr c"
  shows "config_ok c \<and> name_ok (cf_log_name c) \<and> name_ok (cf_diag_name c)"
proof -
  let ?c0 = "create_config\<lparr>cf_location := strncpy SK_CONFIG_LOCATION_LEN filename\<rparr>"
  obtain root m where root: "document_process n hset docs None = Inr (Some root)" "root = Cfg_mapping m"
    and load: "fold_res (load_item einval fifo) m ?c0 = Inr c" and names: "post_load c = Inr ()"
    using assms(2)
    by (auto simp: sk_config_create_def sk_config_load_def load_config_def arr_str_def res_simps Let_def case_cfg_Inr split: if_splits)
  have "distinct (map fst m)"
    using document_root [OF root(1)] root(2) node_process_distinct [OF assms(1)] by auto
  then have "config_ok c"
    using load_items_ok [OF load] by (simp add: create_config_ok)
  then show ?thesis using names by (auto simp: post_load_def res_simps validate_ok)
qed

definition demo_config :: yaml_doc where
  "demo_config = [Yaml_mapping [(2, 3), (4, 5)], Yaml_scalar ''worker_threads'', Yaml_scalar ''4'', Yaml_scalar ''workflows'',
     Yaml_sequence [6], Yaml_mapping [(7, 8), (9, 10)], Yaml_scalar ''port'', Yaml_scalar ''7758'', Yaml_scalar ''modules'',
     Yaml_sequence [11], Yaml_scalar ''test:cpp'']"

definition demo_loaded :: sk_config where
  "demo_loaded = (case sk_config_create 9 AList.update False True ''skull.yaml'' [Some demo_config] of Inr c \<Rightarrow> c)"

lemma demo_config_loads:
  "case sk_config_create 9 AList.update False True ''skull.yaml'' [Some demo_config] of
     Inr c \<Rightarrow> cf_threads c = 4 \<and> map wc_port (cf_workflows c) = [7758] | _ \<Rightarrow> False"
  by code_simp

theorem config_loaded_valid_witness:
  "cf_threads demo_loaded = 4 \<and> map wc_port (cf_workflows demo_loaded) = [7758] \<and> name_ok (cf_log_name demo_loaded)"
proof -
  obtain c where c: "sk_config_create 9 AList.update False True ''skull.yaml'' [Some demo_config] = Inr c"
    "cf_threads c = 4" "map wc_port (cf_workflows c) = [7758]"
    using demo_config_loads by (auto split: sum.split_asm)
  with config_loaded_valid [OF alist.hash_str_axioms c(1)] show ?thesis by (simp add: demo_loaded_def)
qed

end
