(* ===== verification/Loaders.thy ===== *)
theory Loaders
  imports Config
begin

text \<open>
  The loaders: \<^verbatim>\<open>src/src/common/sk_loader.c\<close> (modules), \<^verbatim>\<open>src/src/common/sk_srv_loader.c\<close> (services) and
  \<^verbatim>\<open>src/src/common/sk_user_loader.c\<close> (libraries of the languages).

  A loader is a record of functions that the library of a language registers; the functions are parameters.
\<close>

section \<open>Modules\<close>

text \<open>
  \<open>ml_name\<close> and \<open>ml_conf_name\<close> are the text that the function writes for a name, \<open>ml_open\<close> the module, or \<^verbatim>\<open>NULL\<close>.
\<close>

record sk_module_loader =
  ml_name :: "string \<Rightarrow> string"
  ml_conf_name :: "string \<Rightarrow> string"
  ml_open :: "string \<Rightarrow> sk_module option"
  ml_load_config :: "sk_module \<Rightarrow> string \<Rightarrow> int"
  ml_close :: "sk_module \<Rightarrow> int"

text \<open>\<^verbatim>\<open>mloader_tbl\<close> and \<^verbatim>\<open>sloader_tbl\<close> are \<^verbatim>\<open>NULL\<close> until the first loader is registered.\<close>

type_synonym 'l loader_tbl = "(string \<rightharpoonup> 'l) option"

text \<open>\<^verbatim>\<open>sk_mloader_tbl_get\<close> and \<^verbatim>\<open>sk_sloader_tbl_get\<close>; \<^verbatim>\<open>type\<close> may be \<^verbatim>\<open>NULL\<close>.\<close>

definition loader_tbl_get :: "'l loader_tbl \<Rightarrow> string option \<Rightarrow> ('l option \<Rightarrow> 'a res) \<Rightarrow> 'a res" where
  "loader_tbl_get tbl type k = deref tbl (\<lambda>t. deref type (\<lambda>type. k (t type)))"

definition loader_register :: "'l loader_tbl \<Rightarrow> string \<Rightarrow> 'l \<Rightarrow> 'l loader_tbl" where
  "loader_register tbl type loader =
     (let t = (case tbl of None \<Rightarrow> Map.empty | Some t \<Rightarrow> t)
      in if t type \<noteq> None then Some t else Some (t(type \<mapsto> loader)))"

definition loader_unregister :: "'l loader_tbl \<Rightarrow> string option \<Rightarrow> ('l loader_tbl \<times> 'l option) res" where
  "loader_unregister tbl type = (case type of
     None \<Rightarrow> Inr (tbl, None)
   | Some type \<Rightarrow> deref tbl (\<lambda>t. Inr (Some (t(type := None)), t type)))"

definition sk_module_load ::
  "sk_module_loader loader_tbl \<Rightarrow> sk_module_cfg \<Rightarrow> string option \<Rightarrow> sk_module option res" where
  "sk_module_load tbl cfg conf_name = loader_tbl_get tbl (mc_type cfg) (\<lambda>loader. case loader of
     None \<Rightarrow> Inr None
   | Some loader \<Rightarrow> deref (mc_name cfg) (\<lambda>name.
      (case ml_open loader (ml_name loader name) of
        None \<Rightarrow> Inr None
      | Some module \<Rightarrow>
          (let module = module\<lparr>m_name := name\<rparr>;
               conf = (case conf_name of None \<Rightarrow> ml_conf_name loader name | Some c \<Rightarrow> c)
           in if ml_load_config loader module conf \<noteq> 0 then Inr None else Inr (Some module)))))"

definition sk_module_unload :: "sk_module_loader loader_tbl \<Rightarrow> string option \<Rightarrow> sk_module \<Rightarrow> unit res" where
  "sk_module_unload tbl type module = loader_tbl_get tbl type (\<lambda>loader.
     sk_assert (loader \<noteq> None) (deref loader (\<lambda>loader. sk_assert (ml_close loader module = 0) (Inr ()))))"

section \<open>Services\<close>

text \<open>\<open>sl_open\<close> gives the functions of the service, as the address of the structure that holds them, and the return code.\<close>

record sk_service_loader =
  sl_name :: "string \<Rightarrow> string"
  sl_conf_name :: "string \<Rightarrow> string"
  sl_open :: "string \<Rightarrow> addr \<times> int"
  sl_load_config :: "string \<Rightarrow> string \<Rightarrow> int"
  sl_close :: "string \<Rightarrow> int"

text \<open>The result is \<^verbatim>\<open>service->opt\<close> if it has been set, and the return code.\<close>

definition sk_service_load ::
  "sk_service_loader loader_tbl \<Rightarrow> string \<Rightarrow> string option \<Rightarrow> string option \<Rightarrow> (addr option \<times> int) res" where
  "sk_service_load tbl name type conf_name = loader_tbl_get tbl type (\<lambda>loader. case loader of
     None \<Rightarrow> Inr (None, 1)
   | Some loader \<Rightarrow>
      (let (opt, ret) = sl_open loader (sl_name loader name)
       in if ret \<noteq> 0 then Inr (None, 1)
          else (let conf = (case conf_name of None \<Rightarrow> sl_conf_name loader name | Some c \<Rightarrow> c)
                in if sl_load_config loader name conf \<noteq> 0 then Inr (Some opt, 1) else Inr (Some opt, 0))))"

definition sk_service_unload :: "sk_service_loader loader_tbl \<Rightarrow> string \<Rightarrow> string option \<Rightarrow> unit res" where
  "sk_service_unload tbl name type = loader_tbl_get tbl type (\<lambda>loader.
     sk_assert (loader \<noteq> None) (deref loader (\<lambda>loader. sk_assert (sl_close loader name = 0) (Inr ()))))"

section \<open>Languages\<close>

definition SK_USER_PREFIX1 :: string where "SK_USER_PREFIX1 = ''/usr/local/lib''"
definition SK_USER_PREFIX2 :: string where "SK_USER_PREFIX2 = ''/usr/lib''"
definition SK_API_LOAD_FUNCNAME :: string where "SK_API_LOAD_FUNCNAME = ''skull_load_api''"
definition SK_API_UNLOAD_FUNCNAME :: string where "SK_API_UNLOAD_FUNCNAME = ''skull_unload_api''"
definition SK_USER_LIBNAME_MAX :: nat where "SK_USER_LIBNAME_MAX = 1024"

text \<open>\<^verbatim>\<open>snprintf(buf, n, "%s/%s", prefix, name)\<close>\<close>

definition snprintf_s :: "nat \<Rightarrow> string \<Rightarrow> string" where
  "snprintf_s n s = take (n - 1) s"

text \<open>
  \<open>dlopen\<close> is \<^verbatim>\<open>dlopen\<close>, \<open>dlsym\<close> tells whether \<^verbatim>\<open>dlsym\<close> finds a function in a library. The table maps a library to its handle; the
  list in the result has the library whose function \<^verbatim>\<open>load\<close> is called.
\<close>

definition sk_userlib_load ::
  "(string \<Rightarrow> nat option) \<Rightarrow> (nat \<Rightarrow> string \<Rightarrow> bool) \<Rightarrow> (string \<rightharpoonup> nat) option \<Rightarrow> string \<Rightarrow>
     (string \<rightharpoonup> nat) option \<times> int \<times> string list" where
  "sk_userlib_load dlopen dlsym libs libname =
     (let t = (case libs of None \<Rightarrow> Map.empty | Some t \<Rightarrow> t);
          full = (\<lambda>p. snprintf_s SK_USER_LIBNAME_MAX (p @ ''/'' @ libname))
      in if t libname \<noteq> None then (Some t, 0, [])
         else case (case dlopen (full SK_USER_PREFIX1) of Some h \<Rightarrow> Some h | None \<Rightarrow> dlopen (full SK_USER_PREFIX2)) of
                None \<Rightarrow> (Some t, 1, [])
              | Some h \<Rightarrow>
                  if \<not> dlsym h SK_API_LOAD_FUNCNAME then (Some t, 1, [])
                  else if \<not> dlsym h SK_API_UNLOAD_FUNCNAME then (Some t, 1, [])
                  else (Some (t(libname \<mapsto> h)), 0, [libname]))"

end
