(* ===== verification/Admin.thy ===== *)
theory Admin
  imports Config
begin

text \<open>
  The administration module, \<^verbatim>\<open>src/src/components/sk_admin.c\<close>: the commands that arrive on the administration port are split
  into words, and the answer is collected in a buffer. The commands themselves are in \<open>Admin_Run\<close>.
\<close>

section \<open>Texts\<close>

text \<open>Characters and bytes.\<close>

definition to_bytes :: "string \<Rightarrow> u8 list" where
  "to_bytes s = map of_char s"

definition to_text :: "u8 list \<Rightarrow> string" where
  "to_text bs = map (\<lambda>b. char_of (unat b)) bs"

definition CR :: char where "CR = CHR 0x0D"
definition LF :: char where "LF = CHR 0x0A"

section \<open>Data of a command\<close>

definition ADMIN_CMD_MAX_ARGS :: nat where "ADMIN_CMD_MAX_ARGS = 10"
definition ADMIN_CMD_MAX_LENGTH :: nat where "ADMIN_CMD_MAX_LENGTH = 256"
definition ADMIN_LINE_MAX_LENGTH :: nat where "ADMIN_LINE_MAX_LENGTH = 1024"
definition ADMIN_RESP_MAX_LENGTH :: size_t where "ADMIN_RESP_MAX_LENGTH = 8192"
definition ADMIN_COUNTER_LINE_LENGTH :: nat where "ADMIN_COUNTER_LINE_LENGTH = 256"

text \<open>\<^verbatim>\<open>argc\<close> is the length of \<open>ad_command\<close>; the words point into \<^verbatim>\<open>raw\<close>.\<close>

record 'o sk_admin_data =
  ad_ignore :: bool
  ad_command :: "string list"
  ad_response :: 'o

definition sk_admin_data_create :: "('o, u8) fmbuf_ops \<Rightarrow> 'o sk_admin_data" where
  "sk_admin_data_create F =
     \<lparr>ad_ignore = False, ad_command = [], ad_response = fmbuf_create F ADMIN_RESP_MAX_LENGTH\<rparr>"

text \<open>
  \<^verbatim>\<open>_append_response\<close>: \<open>text\<close> is what the format expands to. \<^verbatim>\<open>vsnprintf\<close> returns its full length, also when it does not fit the
  array \<^verbatim>\<open>line\<close>; then the bytes after the array are read, but only by a push that finds room (the padding
  stands for those bytes, which are never used). That the buffer has no room is not looked at.
\<close>

definition append_response :: "('o, u8) fmbuf_ops \<Rightarrow> 'o sk_admin_data \<Rightarrow> string \<Rightarrow> 'o sk_admin_data res" where
  "append_response F ad text =
     (let len = length text;
          line = take len (to_bytes (take (ADMIN_LINE_MAX_LENGTH - 1) text @ [NUL]) @ replicate len 0)
      in case fmbuf_push F (ad_response ad) line (of_nat len) of
           None \<Rightarrow> Inr ad
         | Some b \<Rightarrow> if ADMIN_LINE_MAX_LENGTH < len then Inl Wild else Inr (ad\<lparr>ad_response := b\<rparr>))"

text \<open>
  \<^verbatim>\<open>_mon_cb\<close>: \<open>text\<close> is the line of a counter, which is written into an array as well; here a full buffer is enlarged once.
\<close>

definition mon_cb :: "('o, u8) fmbuf_ops \<Rightarrow> 'o sk_admin_data \<Rightarrow> string \<Rightarrow> 'o sk_admin_data res" where
  "mon_cb F ad text =
     (let len = length text; sz = of_nat len :: size_t;
          line = take len (to_bytes (take (ADMIN_COUNTER_LINE_LENGTH - 1) text @ [NUL]) @ replicate len 0);
          pushed = (\<lambda>b. if ADMIN_COUNTER_LINE_LENGTH < len then Inl Wild else Inr (ad\<lparr>ad_response := b\<rparr>))
      in case fmbuf_push F (ad_response ad) line sz of
           Some b \<Rightarrow> pushed b
         | None \<Rightarrow>
             (let b = fmbuf_realloc F (ad_response ad) (fmbuf_size F (ad_response ad) + 1024)
              in case fmbuf_push F b line sz of
                   Some b \<Rightarrow> pushed b
                 | None \<Rightarrow> Inr (ad\<lparr>ad_response := b\<rparr>)))"

section \<open>Unpacking and packing\<close>

text \<open>The loop over the words: \<open>n\<close> is how many still fit.\<close>

fun admin_tokens :: "nat \<Rightarrow> string option \<Rightarrow> string list" where
  "admin_tokens 0 cmds = []"
| "admin_tokens (Suc n) None = []"
| "admin_tokens (Suc n) (Some s) = (let (token, rest) = strsep CHR '' '' s in token # admin_tokens n rest)"

text \<open>\<^verbatim>\<open>_admin_unpack\<close>: how many bytes are consumed, and the data that becomes the user data of the transaction.\<close>

definition admin_unpack :: "('o, u8) fmbuf_ops \<Rightarrow> u8 list \<Rightarrow> (int \<times> 'o sk_admin_data option) res" where
  "admin_unpack F data =
     (let cmd = to_text data; sz = length data
      in if sz = 0 then Inl Wild
         else if cmd ! (sz - 1) \<noteq> LF then Inr (0, None)
         else (let tailer_offset = (if 2 \<le> sz \<and> cmd ! (sz - 2) = CR then 2 else 1);
                   ad = sk_admin_data_create F
               in if sz - tailer_offset = 0 then Inr (int sz, Some (ad\<lparr>ad_ignore := True\<rparr>))
                  else (let max_len = min (sz - tailer_offset) (ADMIN_CMD_MAX_LENGTH - 1);
                            raw = cstr (take max_len cmd)
                        in Inr (int sz, Some (ad\<lparr>ad_command := admin_tokens ADMIN_CMD_MAX_ARGS (Some raw)\<rparr>)))))"

text \<open>\<^verbatim>\<open>_admin_pack\<close>\<close>

definition admin_pack :: "('o, u8) fmbuf_ops \<Rightarrow> 'o sk_txn \<Rightarrow> 'o sk_admin_data \<Rightarrow> 'o sk_txn res" where
  "admin_pack F txn ad =
     (if ad_ignore ad then Inr txn
      else (let sz = fmbuf_used F (ad_response ad)
            in deref (fmbuf_rawget F (ad_response ad) sz) (\<lambda>response. sk_txn_output_append F txn response sz)))"

section \<open>The workflow of the administration port\<close>

definition sk_admin_module_cfg :: sk_module_cfg where
  "sk_admin_module_cfg = \<lparr>mc_name = Some ''admin'', mc_type = Some ''built-in''\<rparr>"

definition sk_admin_module :: sk_module where
  "sk_admin_module = \<lparr>m_addr = 0, m_name = ''admin'', m_pack = True, m_unpack = True\<rparr>"

definition sk_admin_workflowcfg_create :: "string option \<Rightarrow> int \<Rightarrow> cfg_workflow" where
  "sk_admin_workflowcfg_create bind port =
     \<lparr>wc_concurrent = False, wc_timeout = 0, wc_txn_out_sz = uint ADMIN_RESP_MAX_LENGTH, wc_enable_stdin = False,
      wc_sock_type = 0, wc_port = port, wc_bind = (case bind of Some b \<Rightarrow> b | None \<Rightarrow> ''127.0.0.1''),
      wc_idl_name = None, wc_modules = [sk_admin_module_cfg]\<rparr>"

section \<open>A command line is split at its spaces\<close>

fun words :: "string list \<Rightarrow> string" where
  "words [] = []"
| "words [w] = w"
| "words (w # ws) = w @ CHR '' '' # words ws"

lemma unat_char: "unat (of_char c :: u8) = of_char c"
proof -
  have "(of_char c :: u8) = of_nat (of_char c)" by (rule of_nat_of_char [symmetric])
  moreover have "(of_char c :: nat) < 256" by (rule nat_of_char_less_256)
  ultimately show ?thesis by (simp only: unat_of_nat) simp
qed

lemma to_text_bytes [simp]: "to_text (to_bytes s) = s"
  by (simp add: to_text_def to_bytes_def comp_def unat_char)

lemma length_to_bytes [simp]: "length (to_bytes s) = length s"
  by (simp add: to_bytes_def)

lemma strsep_word: "d \<notin> set w \<Longrightarrow> strsep d (w @ d # r) = (w, Some r)"
  by (induction w) (auto simp: strsep_def)

lemma strsep_end: "d \<notin> set w \<Longrightarrow> strsep d w = (w, None)"
  by (induction w) (auto simp: strsep_def)

lemma admin_tokens_None [simp]: "admin_tokens n None = []"
  by (cases n) simp_all

lemma admin_tokens_words:
  "ws \<noteq> [] \<Longrightarrow> \<forall>w \<in> set ws. CHR '' '' \<notin> set w \<Longrightarrow> admin_tokens n (Some (words ws)) = take n ws"
proof (induction ws arbitrary: n rule: words.induct)
  case (2 w)
  then show ?case by (cases n) (auto simp: strsep_end take_Cons' split: nat.split)
next
  case (3 w v vs)
  then show ?case by (cases n) (auto simp: strsep_word)
qed simp

lemma words_chars: "c \<in> set (words ws) \<Longrightarrow> c = CHR '' '' \<or> (\<exists>w \<in> set ws. c \<in> set w)"
  by (induction ws rule: words.induct) auto

lemma cstr_whole: "NUL \<notin> set s \<Longrightarrow> cstr s = s"
  by (auto simp: cstr_def takeWhile_eq_all_conv)

text \<open>The end of a line: LF, or CR and LF.\<close>

definition line_end :: "string \<Rightarrow> string \<Rightarrow> bool" where
  "line_end line eol \<longleftrightarrow> eol = [CR, LF] \<or> eol = [LF] \<and> (line = [] \<or> last line \<noteq> CR)"

lemma admin_unpack_line:
  assumes "line_end line eol"
  shows "admin_unpack F (to_bytes (line @ eol)) =
    (if line = [] then Inr (int (length eol), Some ((sk_admin_data_create F)\<lparr>ad_ignore := True\<rparr>))
     else Inr (int (length line + length eol), Some ((sk_admin_data_create F)\<lparr>ad_command :=
       admin_tokens ADMIN_CMD_MAX_ARGS (Some (cstr (take (ADMIN_CMD_MAX_LENGTH - 1) line)))\<rparr>)))"
proof (cases "eol = [CR, LF]")
  case True
  then show ?thesis
    by (auto simp: admin_unpack_def Let_def nth_append CR_def LF_def min_def)
next
  case False
  with assms have e: "eol = [LF]" "line = [] \<or> last line \<noteq> CR" by (auto simp: line_end_def)
  then have "line \<noteq> [] \<Longrightarrow> line ! (length line - Suc 0) \<noteq> CR" by (auto simp: last_conv_nth)
  with e show ?thesis
    by (auto simp: admin_unpack_def Let_def nth_append CR_def LF_def min_def)
qed

lemma admin_unpack_partial: "bs \<noteq> [] \<Longrightarrow> last (to_text bs) \<noteq> LF \<Longrightarrow> admin_unpack F bs = Inr (0, None)"
  by (cases bs rule: rev_cases) (auto simp: admin_unpack_def to_text_def Let_def nth_append)

text \<open>
  The command line of the administration port. The words of a command that is sent as one line, with either end of line, come back
  as they were, up to ten; an empty line is accepted and ignored, and bytes that do not end in a newline are left in the buffer.
\<close>
theorem admin_command_roundtrip:
  assumes "ws \<noteq> []" "\<forall>w \<in> set ws. CHR '' '' \<notin> set w \<and> NUL \<notin> set w"
    "length (words ws) < ADMIN_CMD_MAX_LENGTH" "line_end (words ws) eol"
  shows "admin_unpack F (to_bytes (words ws @ eol)) =
    Inr (int (length (words ws) + length eol), Some (if words ws = []
      then (sk_admin_data_create F)\<lparr>ad_ignore := True\<rparr>
      else (sk_admin_data_create F)\<lparr>ad_command := take ADMIN_CMD_MAX_ARGS ws\<rparr>)) \<and>
    (\<forall>bs. bs \<noteq> [] \<and> last (to_text bs) \<noteq> LF \<longrightarrow> admin_unpack F bs = Inr (0, None))"
proof -
  have "NUL \<notin> set (words ws)" using assms(2) words_chars [of NUL ws] by (auto simp: NUL_def)
  with assms show ?thesis by (simp add: admin_unpack_line admin_tokens_words cstr_whole admin_unpack_partial)
qed

theorem admin_command_roundtrip_witness:
  "admin_unpack (cellbuf_ops 1) (to_bytes (''memory trace=1'' @ [CR, LF])) =
     Inr (16, Some ((sk_admin_data_create (cellbuf_ops 1))\<lparr>ad_command := [''memory'', ''trace=1'']\<rparr>))"
  using admin_command_roundtrip [of "[''memory'', ''trace=1'']" "[CR, LF]" "cellbuf_ops 1"]
  by (simp add: ADMIN_CMD_MAX_LENGTH_def ADMIN_CMD_MAX_ARGS_def line_end_def NUL_def)

end
