(* ===== verification/Sk_Mon.thy ===== *)
theory Sk_Mon
  imports Prelude
begin

text \<open>
  The monitor: \<^verbatim>\<open>src/src/common/sk_mon.c\<close>, tables of counters with a window of snapshots.

  The values are doubles in C; here they have any type \<open>'d\<close> with a zero and an addition, of which nothing is assumed, so
  that rounding is left open. Every operation takes the lock of its monitor first, so operations of several threads are a
  sequence.
\<close>

section \<open>State and operations\<close>

definition SK_MON_DEFAULT_WINDOW :: nat where "SK_MON_DEFAULT_WINDOW = 2"

record 'd sk_mon_snapshot =
  ss_start :: int
  ss_end :: int
  ss_map :: "string \<rightharpoonup> 'd"

record 'd sk_mon =
  mo_tbl :: "string \<rightharpoonup> 'd"
  mo_start :: int
  mo_prev :: "'d sk_mon_snapshot option list"   \<comment> \<open>an array of \<open>SK_MON_DEFAULT_WINDOW\<close> elements\<close>

definition sk_mon_create :: "int \<Rightarrow> 'd sk_mon" where
  "sk_mon_create now = \<lparr>mo_tbl = Map.empty, mo_start = now, mo_prev = replicate SK_MON_DEFAULT_WINDOW None\<rparr>"

text \<open>\<^verbatim>\<open>raw ? *raw : 0.0f\<close>\<close>

definition raw_value :: "(string \<rightharpoonup> 'd) \<Rightarrow> string \<Rightarrow> 'd :: zero" where
  "raw_value tbl name = (case tbl name of Some v \<Rightarrow> v | None \<Rightarrow> 0)"

definition sk_mon_inc :: "'d sk_mon \<Rightarrow> string \<Rightarrow> 'd \<Rightarrow> 'd :: {zero, plus} sk_mon res" where
  "sk_mon_inc m name v = sk_assert (name \<noteq> [])
     (Inr (m\<lparr>mo_tbl := (mo_tbl m)(name \<mapsto> raw_value (mo_tbl m) name + v)\<rparr>))"

definition sk_mon_set :: "'d sk_mon \<Rightarrow> string \<Rightarrow> 'd \<Rightarrow> 'd sk_mon res" where
  "sk_mon_set m name v = sk_assert (name \<noteq> []) (Inr (m\<lparr>mo_tbl := (mo_tbl m)(name \<mapsto> v)\<rparr>))"

definition sk_mon_get :: "'d sk_mon \<Rightarrow> string \<Rightarrow> 'd :: zero res" where
  "sk_mon_get m name = sk_assert (name \<noteq> []) (Inr (raw_value (mo_tbl m) name))"

text \<open>The loop that moves the snapshots on: the new array, and the snapshot that drops out of it.\<close>

fun shift_in :: "'a \<Rightarrow> 'a list \<Rightarrow> 'a list \<times> 'a" where
  "shift_in s [] = ([], s)"
| "shift_in s (p # ps) = (let (qs, old) = shift_in p ps in (s # qs, old))"

definition sk_mon_snapshot_and_reset :: "int \<Rightarrow> 'd sk_mon \<Rightarrow> 'd :: zero sk_mon" where
  "sk_mon_snapshot_and_reset now m =
     (let snapshot = \<lparr>ss_start = mo_start m, ss_end = now, ss_map = mo_tbl m\<rparr>;
          (prev, oldest) = shift_in (Some snapshot) (mo_prev m)
      in m\<lparr>mo_start := now, mo_tbl := (\<lambda>name. map_option (\<lambda>_. 0) (mo_tbl m name)), mo_prev := prev\<rparr>)"

definition sk_mon_snapshot_prev :: "'d sk_mon \<Rightarrow> int \<Rightarrow> 'd sk_mon_snapshot option" where
  "sk_mon_snapshot_prev m loc = (if loc < 0 \<or> int (length (mo_prev m)) \<le> loc then None else mo_prev m ! nat loc)"

definition sk_mon_snapshot_at :: "int \<Rightarrow> 'd sk_mon \<Rightarrow> int \<Rightarrow> 'd sk_mon_snapshot option" where
  "sk_mon_snapshot_at now m loc =
     (if loc \<noteq> 0 then sk_mon_snapshot_prev m (loc - 1)
      else Some \<lparr>ss_start = mo_start m, ss_end = now, ss_map = mo_tbl m\<rparr>)"

text \<open>\<open>keys\<close> are the names in the order in which the table of the snapshot is iterated.\<close>

fun sk_mon_snapshot_foreach :: "string list \<Rightarrow> 'd sk_mon_snapshot \<Rightarrow> (string \<Rightarrow> 'd \<Rightarrow> 's \<Rightarrow> 's) \<Rightarrow> 's \<Rightarrow> 's" where
  "sk_mon_snapshot_foreach [] ss cb ud = ud"
| "sk_mon_snapshot_foreach (k # ks) ss cb ud =
     sk_mon_snapshot_foreach ks ss cb (case ss_map ss k of Some v \<Rightarrow> cb k v ud | None \<Rightarrow> ud)"

section \<open>The window of snapshots\<close>

text \<open>A history of a monitor, the latest event first; the snapshots cut it into periods.\<close>

datatype 'd mon_op = Inc string 'd | Set_to string 'd | Snap int

fun mon_run :: "int \<Rightarrow> 'd mon_op list \<Rightarrow> 'd :: {zero, plus} sk_mon res" where
  "mon_run t0 [] = Inr (sk_mon_create t0)"
| "mon_run t0 (Inc n v # ops) = rbind (mon_run t0 ops) (\<lambda>m. sk_mon_inc m n v)"
| "mon_run t0 (Set_to n v # ops) = rbind (mon_run t0 ops) (\<lambda>m. sk_mon_set m n v)"
| "mon_run t0 (Snap now # ops) = rbind (mon_run t0 ops) (\<lambda>m. Inr (sk_mon_snapshot_and_reset now m))"

text \<open>What a period adds up to, its beginning, and what was before it.\<close>

fun period_value :: "'d mon_op list \<Rightarrow> string \<Rightarrow> 'd :: {zero, plus}" where
  "period_value [] n = 0"
| "period_value (Inc k v # ops) n = (if k = n then period_value ops n + v else period_value ops n)"
| "period_value (Set_to k v # ops) n = (if k = n then v else period_value ops n)"
| "period_value (Snap now # ops) n = 0"

fun period_start :: "int \<Rightarrow> 'd mon_op list \<Rightarrow> int" where
  "period_start t0 [] = t0"
| "period_start t0 (Snap now # ops) = now"
| "period_start t0 (_ # ops) = period_start t0 ops"

fun before :: "nat \<Rightarrow> 'd mon_op list \<Rightarrow> (int \<times> 'd mon_op list) option" where
  "before k [] = None"
| "before k (Snap now # ops) = (if k = 0 then Some (now, ops) else before (k - 1) ops)"
| "before k (_ # ops) = before k ops"

fun op_ok :: "'d mon_op \<Rightarrow> bool" where
  "op_ok (Inc n v) \<longleftrightarrow> n \<noteq> []"
| "op_ok (Set_to n v) \<longleftrightarrow> n \<noteq> []"
| "op_ok (Snap now) \<longleftrightarrow> True"

lemma shift_in_nth: "k < length ps \<Longrightarrow> fst (shift_in s ps) ! k = (if k = 0 then s else ps ! (k - 1))"
proof (induction s ps arbitrary: k rule: shift_in.induct)
  case (2 s p ps)
  then show ?case by (cases k) (auto simp: nth_Cons' case_prod_unfold Let_def)
qed simp

lemma shift_in_length [simp]: "length (fst (shift_in s ps)) = length ps"
  by (induction s ps rule: shift_in.induct) (auto split: prod.splits)

definition shows_period :: "int \<Rightarrow> 'd mon_op list \<Rightarrow> int \<Rightarrow> 'd :: {zero, plus} sk_mon_snapshot \<Rightarrow> bool" where
  "shows_period t0 ops now ss \<longleftrightarrow> ss_start ss = period_start t0 ops \<and> ss_end ss = now \<and>
     (\<forall>n. raw_value (ss_map ss) n = period_value ops n)"

definition window_ok :: "int \<Rightarrow> 'd mon_op list \<Rightarrow> 'd :: {zero, plus} sk_mon \<Rightarrow> bool" where
  "window_ok t0 ops m \<longleftrightarrow> mo_start m = period_start t0 ops \<and> (\<forall>n. raw_value (mo_tbl m) n = period_value ops n) \<and>
     length (mo_prev m) = SK_MON_DEFAULT_WINDOW \<and>
     (\<forall>k < SK_MON_DEFAULT_WINDOW. rel_option (\<lambda>(now, past) ss. shows_period t0 past now ss) (before k ops) (mo_prev m ! k))"

lemma raw_value_simps [simp]:
  "raw_value Map.empty n = 0"
  "raw_value (t(k \<mapsto> v)) n = (if n = k then v else raw_value t n)"
  "raw_value (\<lambda>n. map_option (\<lambda>_. 0) (t n)) n = 0"
  by (auto simp: raw_value_def split: option.split)

lemma window_snap: "window_ok t0 ops m \<Longrightarrow> window_ok t0 (Snap now # ops) (sk_mon_snapshot_and_reset now m)"
  by (auto simp: window_ok_def sk_mon_snapshot_and_reset_def shift_in_nth shows_period_def Let_def case_prod_unfold)

lemma mon_run_window: "list_all op_ok ops \<Longrightarrow> ok (mon_run t0 ops) (window_ok t0 ops)"
proof (induction ops)
  case Nil
  then show ?case by (auto simp: window_ok_def sk_mon_create_def)
next
  case (Cons op ops)
  show ?case
  proof (cases op)
    case (Snap now)
    with Cons window_snap show ?thesis by (auto elim!: ok_mono)
  qed (use Cons in \<open>auto elim!: ok_mono simp: sk_mon_inc_def sk_mon_set_def window_ok_def\<close>)
qed

text \<open>
  C38: the window of a monitor. After any history of increments, assignments and snapshots, the current snapshot shows what
  the counters have added up to since the last reset, and the snapshot at place \<open>k\<close> of the window what they had added up to
  in the \<open>k\<close>-th last period, each with the times of its period; a snapshot exists exactly when so many periods have ended, and
  none is kept beyond the window.
\<close>
theorem mon_window:
  assumes "list_all op_ok ops"
  shows "ok (mon_run t0 ops) (\<lambda>m.
    (\<exists>ss. sk_mon_snapshot_at now m 0 = Some ss \<and> shows_period t0 ops now ss) \<and>
    (\<forall>k < SK_MON_DEFAULT_WINDOW. rel_option (\<lambda>(t, past) ss. shows_period t0 past t ss)
       (before k ops) (sk_mon_snapshot_at now m (int k + 1))) \<and>
    (\<forall>loc. loc < 0 \<or> int SK_MON_DEFAULT_WINDOW < loc \<longrightarrow> sk_mon_snapshot_at now m loc = None))"
  using mon_run_window [OF assms, of t0]
  by (rule ok_mono) (auto simp: window_ok_def sk_mon_snapshot_at_def sk_mon_snapshot_prev_def shows_period_def)

theorem mon_window_witness:
  "ok (mon_run 0 [Inc ''a'' 1, Snap 60, Set_to ''a'' 7, Inc ''a'' (2 :: int)]) (\<lambda>m.
     \<exists>ss. sk_mon_snapshot_at 90 m 1 = Some ss \<and> ss_end ss = 60 \<and> raw_value (ss_map ss) ''a'' = 7)"
proof -
  have "list_all op_ok [Inc ''a'' 1, Snap 60, Set_to ''a'' 7, Inc ''a'' (2 :: int)]" by simp
  from mon_window [OF this, of 0 90] show ?thesis
    by (rule ok_mono) (auto simp: SK_MON_DEFAULT_WINDOW_def shows_period_def option_rel_Some1 dest!: spec [of _ "0 :: nat"])
qed

end
