(* ===== verification/Core.thy ===== *)
theory Core
  imports Loaders Admin Sk_Mon Sk_Sched Drivers Ep_Pool
begin

text \<open>
  Start-up: \<^verbatim>\<open>src/src/components/sk_engine.c\<close>, \<^verbatim>\<open>src/src/components/sk_core.c\<close> up to \<^verbatim>\<open>sk_core_init\<close>, and the command
  line of \<^verbatim>\<open>src/src/main.c\<close>. Starting, stopping and destroying the server is the theory \<open>Core_Run\<close>.

  An engine is a thread with its scheduler, entities, timers, end points and counters. The address of an engine is that of
  its scheduler, which is also the address of its timer service. The server has a master engine, which accepts
  requests, worker engines and background engines; the master is linked to each of the others in both directions.

  Parameters, in the record \<open>core_env\<close>: the buffers and tables of the library, the loaders that the languages have
  registered, what the system calls answer, and the code of the user.
\<close>

section \<open>Engines\<close>

datatype sk_engine_type = SK_ENGINE_MASTER | SK_ENGINE_WORKER | SK_ENGINE_BIO

text \<open>\<open>eg_pool\<close> is the pool of end points without its world; \<open>eg_env\<close> the name of the thread environment, \<^verbatim>\<open>NULL\<close> before the start.\<close>

record ('b, 'o, 'v, 'd) sk_engine =
  eg_type :: sk_engine_type
  eg_addr :: addr
  eg_sched :: "'v sk_sched"
  eg_entity_mgr :: addr
  eg_mon :: "'d sk_mon"
  eg_pool :: "('b, 'o) ep_pool"
  eg_env :: "string option"

definition sk_engine_create ::
  "('v, sk_event) fmbuf_ops \<Rightarrow> int \<Rightarrow> ('b, 'o) world \<Rightarrow> sk_engine_type \<Rightarrow> int \<Rightarrow> u32 \<Rightarrow>
     (('b, 'o) world \<times> ('b, 'o, 'v, 'd) sk_engine) res" where
  "sk_engine_create F now w type max_fds flags =
     (let a = w_next w;
          w = sk_timersvc_create (w\<lparr>w_next := Suc a\<rparr>) a;
          (w, m) = sk_entity_mgr_create w
      in rbind (sk_sched_create F m flags) (\<lambda>sd.
         rbind (sk_entity_mgr_setsched w m a) (\<lambda>w.
           let pool = sk_ep_pool_create w a max_fds
           in Inr (pw pool, \<lparr>eg_type = type, eg_addr = a, eg_sched = sd, eg_entity_mgr = m,
                             eg_mon = sk_mon_create now, eg_pool = pool, eg_env = None\<rparr>))))"

definition sk_engine_link ::
  "('v, sk_event) fmbuf_ops \<Rightarrow> ('b, 'o, 'v, 'd) sk_engine \<Rightarrow> addr \<Rightarrow> ('b, 'o, 'v, 'd) sk_engine res" where
  "sk_engine_link F src dst =
     (let (sd, ret) = sk_sched_setup_bridge F (eg_sched src) dst
      in sk_assert (ret = 0) (Inr (src\<lparr>eg_sched := sd\<rparr>)))"

section \<open>The core\<close>

datatype sk_core_status = SK_CORE_INIT | SK_CORE_STARTING | SK_CORE_RUNNING | SK_CORE_STOPPING | SK_CORE_DESTROYING

record sk_cmd_args =
  ca_binary_path :: "string option"
  ca_config_location :: "string option"
  ca_daemon :: bool
  ca_log_rolling_disabled :: bool
  ca_log_stdout_fwd :: bool

record sk_driver =
  dv_type :: sk_driver_type
  dv_workflow :: sk_workflow
  dv_fd :: int

text \<open>What happens to user code, threads and drivers, in its order.\<close>

datatype core_event =
    Load_api string
  | Unload_api string
  | Init_module string
  | Init_service string
  | Start_engine addr string
  | Run_driver sk_driver
  | Stop_driver sk_driver
  | Wait_engine addr
  | Destroy_engine addr
  | Release_module string
  | Release_service string

text \<open>
  \<open>co_unique_modules\<close>, \<open>co_services\<close> are tables of the library, in the order in which they are iterated; a service is here the address
  of its functions, its state is in the world. \<open>co_apis\<close> says which languages are loaded.
\<close>

record ('b, 'o, 'v, 'd) sk_core =
  co_w :: "('b, 'o) world"
  co_args :: sk_cmd_args
  co_config :: sk_config
  co_mon :: "'d sk_mon"
  co_umon :: "'d sk_mon"
  co_master :: "('b, 'o, 'v, 'd) sk_engine option"
  co_workers :: "('b, 'o, 'v, 'd) sk_engine list"
  co_bio :: "('b, 'o, 'v, 'd) sk_engine list"
  co_workflows :: "sk_workflow list"
  co_drivers :: "sk_driver list"
  co_unique_modules :: "(string \<times> sk_module) list"
  co_services :: "(string \<times> addr) list"
  co_apis :: "string \<rightharpoonup> bool"
  co_user_libs :: "(string \<rightharpoonup> nat) option"
  co_working_dir :: string
  co_admin_wf :: "sk_workflow option"
  co_status :: sk_core_status
  co_max_fds :: int
  co_starttime :: int
  co_self_ru :: int
  co_prev_self_ru :: int
  co_log_path :: string
  co_diag_path :: string
  co_trace :: "core_event list"

record ('b, 'o, 'v) core_env =
  ce_F :: "('v, sk_event) fmbuf_ops"
  ce_E :: "('b, 'o) sk_env"
  ce_X :: "('b, 'o) ep_env"
  ce_einval :: bool
  ce_fifo :: bool                                  \<comment> \<open>the order in which a list of the library is iterated\<close>
  ce_cfg_set :: "sk_cfg_node hset"                 \<comment> \<open>tables of the library\<close>
  ce_mod_set :: "sk_module hset"
  ce_srv_set :: "addr hset"
  ce_srv_order :: "string list"                    \<comment> \<open>the order of \<^verbatim>\<open>config->services\<close>\<close>
  ce_lang_order :: "string list"
  ce_yaml :: "string \<Rightarrow> yaml_doc option list"       \<comment> \<open>the parsed configuration file\<close>
  ce_chdir :: "string \<Rightarrow> bool"
  ce_getcwd :: string
  ce_logger :: "string \<Rightarrow> bool"                    \<comment> \<open>whether the log file can be opened\<close>
  ce_rlimit :: "int option"                        \<comment> \<open>\<^verbatim>\<open>getrlimit\<close>\<close>
  ce_setrlimit :: "int \<Rightarrow> bool"
  ce_dlopen :: "string \<Rightarrow> nat option"
  ce_dlsym :: "nat \<Rightarrow> string \<Rightarrow> bool"
  ce_mloaders :: "sk_module_loader loader_tbl"     \<comment> \<open>registered by the libraries of the languages\<close>
  ce_sloaders :: "sk_service_loader loader_tbl"
  ce_listen :: "sk_workflow_cfg \<Rightarrow> int"            \<comment> \<open>the descriptor of a port\<close>
  ce_activate :: "sk_driver \<Rightarrow> bool"               \<comment> \<open>whether the descriptor can be bound and watched\<close>
  ce_mod_init :: "sk_module \<Rightarrow> int"
  ce_srv_init :: "string \<Rightarrow> 'b sk_service \<Rightarrow> 'b sk_service \<times> int"
  ce_srv_release :: "string \<Rightarrow> 'b sk_service \<Rightarrow> 'b sk_service"
  ce_thread :: "addr \<Rightarrow> int"                       \<comment> \<open>\<^verbatim>\<open>pthread_create\<close>\<close>
  ce_now :: int

definition trace :: "core_event \<Rightarrow> ('b, 'o, 'v, 'd) sk_core \<Rightarrow> ('b, 'o, 'v, 'd) sk_core" where
  "trace e core = core\<lparr>co_trace := co_trace core @ [e]\<rparr>"

section \<open>Logs and limits\<close>

definition SK_LOG_STDOUT_FILE :: string where "SK_LOG_STDOUT_FILE = ''/proc/self/fd/1''"
definition SK_LOG_MAX_PATH_LEN :: nat where "SK_LOG_MAX_PATH_LEN = 1024"

text \<open>\<^verbatim>\<open>_sk_snprintf_logpath\<close>: the path that is written.\<close>

definition sk_snprintf_logpath :: "string \<Rightarrow> string \<Rightarrow> bool \<Rightarrow> string res" where
  "sk_snprintf_logpath workdir logname std_fwd =
     (if std_fwd then Inr (snprintf_s SK_LOG_MAX_PATH_LEN SK_LOG_STDOUT_FILE)
      else if logname \<noteq> [] \<and> hd logname = CHR ''/'' then Inr (snprintf_s SK_LOG_MAX_PATH_LEN logname)
      else (let full_name_sz = length workdir + length logname + 5 + 1
            in sk_assert (full_name_sz < SK_LOG_MAX_PATH_LEN)
                 (Inr (snprintf_s SK_LOG_MAX_PATH_LEN (workdir @ ''/log/'' @ logname)))))"

definition sk_init_mem_log ::
  "('b, 'o, 'v) core_env \<Rightarrow> ('b, 'o, 'v, 'd) sk_core \<Rightarrow> ('b, 'o, 'v, 'd) sk_core res" where
  "sk_init_mem_log C core = arr_str (cf_diag_name (co_config core)) (\<lambda>name.
     rbind (sk_snprintf_logpath (co_working_dir core) name (ca_log_stdout_fwd (co_args core))) (\<lambda>path.
       sk_assert (ce_logger C path) (Inr (core\<lparr>co_diag_path := path\<rparr>))))"

definition sk_init_log :: "('b, 'o, 'v) core_env \<Rightarrow> ('b, 'o, 'v, 'd) sk_core \<Rightarrow> ('b, 'o, 'v, 'd) sk_core res" where
  "sk_init_log C core = rbind (sk_init_mem_log C core) (\<lambda>core.
     arr_str (cf_log_name (co_config core)) (\<lambda>name.
     rbind (sk_snprintf_logpath (co_working_dir core) name (ca_log_stdout_fwd (co_args core))) (\<lambda>path.
       sk_assert (ce_logger C path) (Inr (core\<lparr>co_log_path := path\<rparr>)))))"

text \<open>\<^verbatim>\<open>_sk_init_sys\<close>\<close>

definition sk_init_sys :: "('b, 'o, 'v) core_env \<Rightarrow> ('b, 'o, 'v, 'd) sk_core \<Rightarrow> ('b, 'o, 'v, 'd) sk_core res" where
  "sk_init_sys C core = (case ce_rlimit C of
     None \<Rightarrow> Inl Exit
   | Some rlim \<Rightarrow>
      (let soft_limit = long_to_int rlim;
           max_fds = min (cf_max_fds (co_config core)) soft_limit
       in Inr (core\<lparr>co_max_fds := if ce_setrlimit C max_fds then max_fds else soft_limit\<rparr>)))"

text \<open>\<^verbatim>\<open>_sk_init_config\<close>, with fuel for the depth of the file, and \<^verbatim>\<open>_sk_chdir\<close>.\<close>

definition sk_init_config ::
  "nat \<Rightarrow> ('b, 'o, 'v) core_env \<Rightarrow> ('b, 'o, 'v, 'd) sk_core \<Rightarrow> ('b, 'o, 'v, 'd) sk_core res" where
  "sk_init_config n C core = deref (ca_config_location (co_args core)) (\<lambda>f.
     rbind (sk_config_create n (ce_cfg_set C) (ce_einval C) (ce_fifo C) f (ce_yaml C f)) (\<lambda>config.
       Inr (core\<lparr>co_config := config\<rparr>)))"

definition sk_chdir :: "('b, 'o, 'v) core_env \<Rightarrow> ('b, 'o, 'v, 'd) sk_core \<Rightarrow> ('b, 'o, 'v, 'd) sk_core res" where
  "sk_chdir C core = deref (ca_config_location (co_args core)) (\<lambda>f.
     sk_assert (ce_chdir C f) (Inr (core\<lparr>co_working_dir := ce_getcwd C\<rparr>)))"

section \<open>Languages\<close>

text \<open>\<^verbatim>\<open>snprintf(mlibname, ..., SK_USER_LIBNAME_FORMAT, lang)\<close>\<close>

definition user_libname :: "string \<Rightarrow> string" where
  "user_libname lang = snprintf_s 1024 (''libskull-api-'' @ lang @ ''.so'')"

fun load_langs_api ::
  "('b, 'o, 'v) core_env \<Rightarrow> string list \<Rightarrow> ('b, 'o, 'v, 'd) sk_core \<Rightarrow> ('b, 'o, 'v, 'd) sk_core" where
  "load_langs_api C [] core = core"
| "load_langs_api C (lang # ls) core =
     (let (libs, ret, loaded) = sk_userlib_load (ce_dlopen C) (ce_dlsym C) (co_user_libs core) (user_libname lang)
      in load_langs_api C ls (core\<lparr>co_user_libs := libs, co_apis := (co_apis core)(lang \<mapsto> ret = 0),
           co_trace := co_trace core @ map Load_api loaded\<rparr>))"

definition sk_init_user_loaders :: "('b, 'o, 'v) core_env \<Rightarrow> ('b, 'o, 'v, 'd) sk_core \<Rightarrow> ('b, 'o, 'v, 'd) sk_core" where
  "sk_init_user_loaders C core =
     load_langs_api C (filter (\<lambda>l. l \<in> cf_langs (co_config core)) (ce_lang_order C)) (core\<lparr>co_apis := Map.empty\<rparr>)"

definition sk_init_moniter :: "('b, 'o, 'v) core_env \<Rightarrow> ('b, 'o, 'v, 'd) sk_core \<Rightarrow> ('b, 'o, 'v, 'd) sk_core" where
  "sk_init_moniter C core = core\<lparr>co_mon := sk_mon_create (ce_now C), co_umon := sk_mon_create (ce_now C)\<rparr>"

section \<open>Setting up the engines\<close>

text \<open>The loops of \<^verbatim>\<open>_sk_setup_engines\<close>; \<open>n\<close> engines are left to create.\<close>

primrec setup_workers ::
  "('b, 'o, 'v) core_env \<Rightarrow> nat \<Rightarrow> ('b, 'o, 'v, 'd) sk_core \<Rightarrow> ('b, 'o, 'v, 'd) sk_core res" where
  "setup_workers C 0 core = Inr core"
| "setup_workers C (Suc n) core =
     rbind (sk_engine_create (ce_F C) (ce_now C) (co_w core) SK_ENGINE_WORKER (co_max_fds core) 0) (\<lambda>(w, worker).
     deref (co_master core) (\<lambda>master.
     rbind (sk_engine_link (ce_F C) master (eg_addr worker)) (\<lambda>master.
     rbind (sk_engine_link (ce_F C) worker (eg_addr master)) (\<lambda>worker.
       setup_workers C n (core\<lparr>co_w := w, co_master := Some master, co_workers := co_workers core @ [worker]\<rparr>)))))"

primrec setup_bios ::
  "('b, 'o, 'v) core_env \<Rightarrow> nat \<Rightarrow> ('b, 'o, 'v, 'd) sk_core \<Rightarrow> ('b, 'o, 'v, 'd) sk_core res" where
  "setup_bios C 0 core = Inr core"
| "setup_bios C (Suc n) core =
     rbind (sk_engine_create (ce_F C) (ce_now C) (co_w core) SK_ENGINE_BIO (co_max_fds core) SK_SCHED_NON_RR_ROUTABLE) (\<lambda>(w, bio).
     deref (co_master core) (\<lambda>master.
     rbind (sk_engine_link (ce_F C) bio (eg_addr master)) (\<lambda>bio.
     rbind (sk_engine_link (ce_F C) master (eg_addr bio)) (\<lambda>master.
       setup_bios C n (core\<lparr>co_w := w, co_master := Some master, co_bio := co_bio core @ [bio]\<rparr>)))))"

definition sk_setup_engines ::
  "('b, 'o, 'v) core_env \<Rightarrow> ('b, 'o, 'v, 'd) sk_core \<Rightarrow> ('b, 'o, 'v, 'd) sk_core res" where
  "sk_setup_engines C core =
     rbind (sk_engine_create (ce_F C) (ce_now C) (co_w core) SK_ENGINE_MASTER (co_max_fds core) 0) (\<lambda>(w, master).
     rbind (setup_workers C (nat (cf_threads (co_config core)))
              (core\<lparr>co_w := w, co_master := Some master, co_workers := []\<rparr>)) (\<lambda>core.
       setup_bios C (nat (cf_bio_cnt (co_config core))) (core\<lparr>co_bio := []\<rparr>)))"

section \<open>Drivers, workflows and services\<close>

definition core_driver_create ::
  "('b, 'o, 'v) core_env \<Rightarrow> ('b, 'o, 'v, 'd) sk_core \<Rightarrow> sk_workflow \<Rightarrow> ('b, 'o, 'v, 'd) sk_core res" where
  "core_driver_create C core wflow =
     (let fd = ce_listen C (wf_cfg wflow)
      in rbind (sk_driver_create (wf_cfg wflow) fd) (\<lambda>type.
           Inr (core\<lparr>co_drivers := co_drivers core @ [\<lparr>dv_type = type, dv_workflow = wflow, dv_fd = fd\<rparr>]\<rparr>)))"

definition sk_init_admin :: "('b, 'o, 'v) core_env \<Rightarrow> ('b, 'o, 'v, 'd) sk_core \<Rightarrow> ('b, 'o, 'v, 'd) sk_core res" where
  "sk_init_admin C core =
     (let cfg = sk_admin_workflowcfg_create (cf_command_bind (co_config core)) (cf_command_port (co_config core));
          wflow = sk_workflow_add_module (sk_workflow_create (sk_workflow_cfg.truncate cfg)) sk_admin_module
      in core_driver_create C (core\<lparr>co_admin_wf := Some wflow\<rparr>) wflow)"

text \<open>\<^verbatim>\<open>_sk_setup_services\<close>\<close>

fun setup_services ::
  "('b, 'o, 'v) core_env \<Rightarrow> string list \<Rightarrow> ('b, 'o, 'v, 'd) sk_core \<Rightarrow> ('b, 'o, 'v, 'd) sk_core res" where
  "setup_services C [] core = Inr core"
| "setup_services C (name # ns) core = deref (cf_services (co_config core) name) (\<lambda>cfg.
     rbind (sk_service_create (en_F (ce_E C)) name (sk_service_cfg.truncate cfg)) (\<lambda>sv.
     rbind (sk_service_load (ce_sloaders C) name (sc_type cfg) None) (\<lambda>(opt, ret).
       if ret \<noteq> 0 then Inl Exit
       else deref opt (\<lambda>opt. setup_services C ns (core\<lparr>co_w := set_svc (co_w core) name sv,
              co_services := ce_srv_set C name opt (co_services core)\<rparr>)))))"

definition sk_setup_services ::
  "('b, 'o, 'v) core_env \<Rightarrow> ('b, 'o, 'v, 'd) sk_core \<Rightarrow> ('b, 'o, 'v, 'd) sk_core res" where
  "sk_setup_services C core =
     setup_services C (filter (\<lambda>n. cf_services (co_config core) n \<noteq> None) (ce_srv_order C)) (core\<lparr>co_services := []\<rparr>)"

text \<open>The modules of one workflow, with the table of all modules that are loaded.\<close>

fun load_wf_modules ::
  "('b, 'o, 'v) core_env \<Rightarrow> sk_module_cfg list \<Rightarrow> sk_workflow \<Rightarrow> (string \<times> sk_module) list \<Rightarrow>
     (sk_workflow \<times> (string \<times> sk_module) list) res" where
  "load_wf_modules C [] wflow um = Inr (wflow, um)"
| "load_wf_modules C (cfg # cfgs) wflow um = deref (mc_name cfg) (\<lambda>name.
     if map_of um name \<noteq> None then load_wf_modules C cfgs wflow um
     else rbind (sk_module_load (ce_mloaders C) cfg None) (\<lambda>module. case module of
            None \<Rightarrow> Inl Exit
          | Some module \<Rightarrow> load_wf_modules C cfgs (sk_workflow_add_module wflow module) (ce_mod_set C name module um)))"

fun setup_workflows ::
  "('b, 'o, 'v) core_env \<Rightarrow> cfg_workflow list \<Rightarrow> ('b, 'o, 'v, 'd) sk_core \<Rightarrow> ('b, 'o, 'v, 'd) sk_core res" where
  "setup_workflows C [] core = Inr core"
| "setup_workflows C (cfg # cfgs) core =
     rbind (load_wf_modules C (in_order (ce_fifo C) (wc_modules cfg))
              (sk_workflow_create (sk_workflow_cfg.truncate cfg)) (co_unique_modules core)) (\<lambda>(wflow, um).
     rbind (core_driver_create C (core\<lparr>co_unique_modules := um, co_workflows := co_workflows core @ [wflow]\<rparr>) wflow) (\<lambda>core.
       setup_workflows C cfgs core))"

definition sk_setup_workflows ::
  "('b, 'o, 'v) core_env \<Rightarrow> ('b, 'o, 'v, 'd) sk_core \<Rightarrow> ('b, 'o, 'v, 'd) sk_core res" where
  "sk_setup_workflows C core =
     setup_workflows C (in_order (ce_fifo C) (cf_workflows (co_config core)))
       (core\<lparr>co_workflows := [], co_unique_modules := []\<rparr>)"

section \<open>Initialisation\<close>

definition sk_core_init ::
  "nat \<Rightarrow> ('b, 'o, 'v) core_env \<Rightarrow> ('b, 'o, 'v, 'd) sk_core \<Rightarrow> ('b, 'o, 'v, 'd) sk_core res" where
  "sk_core_init n C core =
     rbind (sk_init_config n C (core\<lparr>co_status := SK_CORE_INIT\<rparr>)) (\<lambda>core.
     rbind (sk_chdir C core) (\<lambda>core.
     rbind (sk_init_log C core) (\<lambda>core.
     rbind (sk_init_sys C core) (\<lambda>core.
     rbind (sk_setup_engines C (sk_init_moniter C (sk_init_user_loaders C core))) (\<lambda>core.
     rbind (sk_init_admin C core) (\<lambda>core.
     rbind (sk_setup_services C core) (\<lambda>core.
       sk_setup_workflows C core)))))))"

text \<open>The state that \<^verbatim>\<open>main\<close> clears with \<^verbatim>\<open>memset\<close>.\<close>

definition core_zero :: "('b, 'o) world \<Rightarrow> ('b, 'o, 'v, 'd) sk_core" where
  "core_zero w = \<lparr>co_w = w,
     co_args = \<lparr>ca_binary_path = None, ca_config_location = None, ca_daemon = False, ca_log_rolling_disabled = False,
                ca_log_stdout_fwd = False\<rparr>,
     co_config = create_config, co_mon = sk_mon_create 0, co_umon = sk_mon_create 0, co_master = None, co_workers = [],
     co_bio = [], co_workflows = [], co_drivers = [], co_unique_modules = [], co_services = [], co_apis = Map.empty,
     co_user_libs = None, co_working_dir = [], co_admin_wf = None, co_status = SK_CORE_INIT, co_max_fds = 0,
     co_starttime = 0, co_self_ru = 0, co_prev_self_ru = 0, co_log_path = [], co_diag_path = [], co_trace = []\<rparr>"

section \<open>The command line\<close>

text \<open>
  \<^verbatim>\<open>_read_commands\<close>: \<open>opts\<close> is what \<^verbatim>\<open>getopt\<close> returns for \<^verbatim>\<open>"c:Dns"\<close>, one option after the other with its argument.
  The results of the program that are not 0 or 1 are not told apart.
\<close>

fun read_opts :: "(char \<times> string) list \<Rightarrow> sk_cmd_args \<Rightarrow> sk_cmd_args res" where
  "read_opts [] args = Inr args"
| "read_opts ((opt, optarg) # opts) args =
     (if opt = CHR ''c'' then read_opts opts (args\<lparr>ca_config_location := Some optarg\<rparr>)
      else if opt = CHR ''D'' then read_opts opts (args\<lparr>ca_daemon := True\<rparr>)
      else if opt = CHR ''n'' then read_opts opts (args\<lparr>ca_log_rolling_disabled := True\<rparr>)
      else if opt = CHR ''s'' then read_opts opts (args\<lparr>ca_log_stdout_fwd := True\<rparr>)
      else Inl Exit)"

definition read_commands :: "string list \<Rightarrow> (char \<times> string) list \<Rightarrow> sk_cmd_args \<Rightarrow> sk_cmd_args res" where
  "read_commands argv opts args = (case argv of
     [] \<Rightarrow> read_opts opts (args\<lparr>ca_binary_path := None\<rparr>)
   | [_] \<Rightarrow> Inl Exit
   | bin # _ \<Rightarrow> read_opts opts (args\<lparr>ca_binary_path := Some bin\<rparr>))"

definition check_args :: "sk_cmd_args \<Rightarrow> sk_cmd_args res" where
  "check_args args = (if ca_config_location args = None then Inl Exit else Inr args)"

end
