(* ===== verification/Core_Run.thy ===== *)
theory Core_Run
  imports Core
begin

text \<open>
  Starting, stopping and destroying the server: the second half of \<^verbatim>\<open>src/src/components/sk_core.c\<close> and of
  \<^verbatim>\<open>src/src/components/sk_engine.c\<close>.

  A thread that is created runs concurrently; its first step, which marks its scheduler as running, is done when it is
  created. \<^verbatim>\<open>sk_core_start\<close> ends here where the loop of the master begins (\<open>sched_loop\<close> of \<open>Sched_Run\<close>, which every
  engine runs); \<open>sk_core_wait\<close> is the rest of it.
\<close>

section \<open>Engines\<close>

text \<open>The functions that the timers of the master call, as addresses.\<close>

definition TIMERJOB_PERSEC :: addr where "TIMERJOB_PERSEC = 2"
definition TIMERJOB_PERMIN :: addr where "TIMERJOB_PERMIN = 3"
definition SK_ENGINE_SECOND_INTERVAL :: u32 where "SK_ENGINE_SECOND_INTERVAL = 1000"
definition SK_ENGINE_MINUTE_INTERVAL :: u32 where "SK_ENGINE_MINUTE_INTERVAL = 60000"
definition SK_ENV_NAME_LEN :: nat where "SK_ENV_NAME_LEN = 16"

text \<open>\<^verbatim>\<open>_create_timer\<close>, with its object, and \<^verbatim>\<open>_timer_data_destroy\<close>, which destroys the entity in that object.\<close>

definition engine_create_timer ::
  "('b, 'o) world \<Rightarrow> addr \<Rightarrow> u32 \<Rightarrow> addr \<Rightarrow> (('b, 'o) world \<times> addr) res" where
  "engine_create_timer w tmsvc expiration timer_cb =
     (let (w, a) = sk_entity_create w None SK_ENTITY_TIMER;
          obj = w_next w
      in sk_timersvc_timer_create (w\<lparr>w_next := Suc obj\<rparr>) tmsvc a expiration expiration timer_cb obj)"

definition engine_timer_data_destroy ::
  "('b, 'o) sk_env \<Rightarrow> ('b, 'o) world \<Rightarrow> addr \<Rightarrow> addr \<Rightarrow> ('b, 'o) world res" where
  "engine_timer_data_destroy E w cur a = with_ent w a (\<lambda>e.
     if e_owner e = None then rbind (sk_entity_safe_destroy E w cur a) (\<lambda>(w, _). Inr w) else Inr w)"

text \<open>\<^verbatim>\<open>_sk_engine_thread\<close> up to the loop of the scheduler.\<close>

definition sk_engine_thread ::
  "('b, 'o) world \<Rightarrow> ('b, 'o, 'v, 'd) sk_engine \<Rightarrow> (('b, 'o) world \<times> ('b, 'o, 'v, 'd) sk_engine) res" where
  "sk_engine_thread w e =
     rbind (if eg_type e = SK_ENGINE_MASTER
            then rbind (engine_create_timer w (eg_addr e) SK_ENGINE_SECOND_INTERVAL TIMERJOB_PERSEC) (\<lambda>(w, _).
                 rbind (engine_create_timer w (eg_addr e) SK_ENGINE_MINUTE_INTERVAL TIMERJOB_PERMIN) (\<lambda>(w, _). Inr w))
            else Inr w) (\<lambda>w. Inr (w, e\<lparr>eg_sched := sched_begin (eg_sched e)\<rparr>))"

text \<open>\<^verbatim>\<open>sk_engine_start\<close>: \<open>ret\<close> is what \<^verbatim>\<open>pthread_create\<close> returns.\<close>

definition sk_engine_start ::
  "int \<Rightarrow> ('b, 'o) world \<Rightarrow> ('b, 'o, 'v, 'd) sk_engine \<Rightarrow> string \<Rightarrow> bool \<Rightarrow>
     (('b, 'o) world \<times> ('b, 'o, 'v, 'd) sk_engine \<times> int) res" where
  "sk_engine_start ret w e env new_thread =
     (let e = e\<lparr>eg_env := Some env\<rparr>
      in if new_thread \<and> ret \<noteq> 0 then Inr (w, e, ret)
         else rbind (sk_engine_thread w e) (\<lambda>(w, e). Inr (w, e, 0)))"

definition sk_engine_stop :: "('b, 'o, 'v, 'd) sk_engine \<Rightarrow> ('b, 'o, 'v, 'd) sk_engine" where
  "sk_engine_stop e = e\<lparr>eg_sched := sk_sched_stop (eg_sched e)\<rparr>"

text \<open>\<open>keys\<close> are the keys of the tables of the pool of end points, in the order in which they are iterated.\<close>

definition sk_engine_destroy ::
  "('b, 'o, 'v) core_env \<Rightarrow> (addr \<times> string) list \<times> (addr \<times> string) list \<Rightarrow> ('b, 'o) world \<Rightarrow>
     ('b, 'o, 'v, 'd) sk_engine \<Rightarrow> ('b, 'o) world res" where
  "sk_engine_destroy C keys w e =
     rbind (sk_sched_destroy (ce_F C) (eg_sched e)) (\<lambda>_.
     rbind (sk_ep_pool_destroy (ce_X C) ((eg_pool e)\<lparr>pw := w\<rparr>) (fst keys) (snd keys)) (\<lambda>pool.
     rbind (sk_timersvc_destroy (pw pool) (eg_addr e)) (\<lambda>w.
       sk_entity_mgr_destroy (ce_E C) w (eg_entity_mgr e))))"

text \<open>\<^verbatim>\<open>sk_mon_snapshot_all\<close>, which the timer of a minute calls, and \<^verbatim>\<open>_timerjob_persec\<close>; \<open>ru\<close> is what \<^verbatim>\<open>getrusage\<close> gives.\<close>

definition engine_snapshot :: "int \<Rightarrow> ('b, 'o, 'v, 'd :: zero) sk_engine \<Rightarrow> ('b, 'o, 'v, 'd) sk_engine" where
  "engine_snapshot now e = e\<lparr>eg_mon := sk_mon_snapshot_and_reset now (eg_mon e)\<rparr>"

definition sk_mon_snapshot_all :: "int \<Rightarrow> ('b, 'o, 'v, 'd :: zero) sk_core \<Rightarrow> ('b, 'o, 'v, 'd) sk_core res" where
  "sk_mon_snapshot_all now core = deref (co_master core) (\<lambda>master.
     Inr (core\<lparr>co_mon := sk_mon_snapshot_and_reset now (co_mon core), co_master := Some (engine_snapshot now master),
       co_workers := map (engine_snapshot now) (co_workers core), co_bio := map (engine_snapshot now) (co_bio core),
       co_umon := sk_mon_snapshot_and_reset now (co_umon core)\<rparr>))"

definition timerjob_persec :: "int \<Rightarrow> ('b, 'o, 'v, 'd) sk_core \<Rightarrow> ('b, 'o, 'v, 'd) sk_core" where
  "timerjob_persec ru core = core\<lparr>co_w := fx (co_w core) [Metric ''global.uptime''],
     co_prev_self_ru := co_self_ru core, co_self_ru := ru\<rparr>"

section \<open>Start\<close>

fun module_init ::
  "('b, 'o, 'v) core_env \<Rightarrow> (string \<times> sk_module) list \<Rightarrow> ('b, 'o, 'v, 'd) sk_core \<Rightarrow> ('b, 'o, 'v, 'd) sk_core res" where
  "module_init C [] core = Inr core"
| "module_init C ((name, m) # ms) core =
     (if ce_mod_init C m \<noteq> 0 then Inl Exit else module_init C ms (trace (Init_module name) core))"

fun service_init ::
  "('b, 'o, 'v) core_env \<Rightarrow> (string \<times> addr) list \<Rightarrow> ('b, 'o, 'v, 'd) sk_core \<Rightarrow> ('b, 'o, 'v, 'd) sk_core res" where
  "service_init C [] core = Inr core"
| "service_init C ((name, opt) # ss) core = with_svc (co_w core) name (\<lambda>sv.
     rbind (sk_service_start (ce_srv_init C name) sv) (\<lambda>(sv, ret).
       if ret \<noteq> 0 then Inl Exit
       else service_init C ss (trace (Init_service name) (core\<lparr>co_w := set_svc (co_w core) name sv\<rparr>))))"

text \<open>The loops that start the workers (from \<open>i = 0\<close>, \<^verbatim>\<open>worker-%d\<close>) and the background engines (from \<open>i = 1\<close>, \<^verbatim>\<open>bio-%d\<close>).\<close>

fun start_engines ::
  "('b, 'o, 'v) core_env \<Rightarrow> string \<Rightarrow> nat \<Rightarrow> ('b, 'o, 'v, 'd) sk_engine list \<Rightarrow> ('b, 'o) world \<Rightarrow>
     (('b, 'o) world \<times> ('b, 'o, 'v, 'd) sk_engine list \<times> core_event list) res" where
  "start_engines C fmt i [] w = Inr (w, [], [])"
| "start_engines C fmt i (e # es) w =
     (let name = snprintf_s SK_ENV_NAME_LEN (fmt @ nat_dec i)
      in rbind (sk_engine_start (ce_thread C (eg_addr e)) w e name True) (\<lambda>(w, e, ret).
           if ret \<noteq> 0 then Inl Exit
           else rbind (start_engines C fmt (Suc i) es w) (\<lambda>(w, es, evs).
                  Inr (w, e # es, Start_engine (eg_addr e) name # evs))))"

text \<open>\<^verbatim>\<open>sk_driver_run\<close>, on the thread of the master.\<close>

definition sk_driver_run ::
  "('b, 'o, 'v) core_env \<Rightarrow> addr \<Rightarrow> sk_driver \<Rightarrow> ('b, 'o) world \<Rightarrow> ('b, 'o) world res" where
  "sk_driver_run C cur d w = (case dv_type d of
     SK_DRIVER_APP \<Rightarrow> driver_app_run (ce_E C) w cur (dv_workflow d)
   | SK_DRIVER_STD \<Rightarrow> Inr (driver_std_run w cur (dv_workflow d))
   | _ \<Rightarrow> sk_assert (ce_activate C d) (Inr w))"

fun run_drivers ::
  "('b, 'o, 'v) core_env \<Rightarrow> addr \<Rightarrow> sk_driver list \<Rightarrow> ('b, 'o, 'v, 'd) sk_core \<Rightarrow> ('b, 'o, 'v, 'd) sk_core res" where
  "run_drivers C cur [] core = Inr core"
| "run_drivers C cur (d # ds) core = rbind (sk_driver_run C cur d (co_w core)) (\<lambda>w.
     run_drivers C cur ds (trace (Run_driver d) (core\<lparr>co_w := w\<rparr>)))"

definition start_threads :: "('b, 'o, 'v) core_env \<Rightarrow> ('b, 'o, 'v, 'd) sk_core \<Rightarrow> ('b, 'o, 'v, 'd) sk_core res" where
  "start_threads C core =
     rbind (start_engines C ''worker-'' 0 (co_workers core) (co_w core)) (\<lambda>(w, workers, evs).
     rbind (start_engines C ''bio-'' 1 (co_bio core) w) (\<lambda>(w, bio, evs').
       Inr (core\<lparr>co_w := w, co_workers := workers, co_bio := bio, co_trace := co_trace core @ evs @ evs'\<rparr>)))"

definition start_master :: "('b, 'o, 'v, 'd) sk_core \<Rightarrow> ('b, 'o, 'v, 'd) sk_core res" where
  "start_master core = deref (co_master core) (\<lambda>master.
     rbind (sk_engine_start 0 (co_w core) master ''master'' False) (\<lambda>(w, master, _).
       Inr (trace (Start_engine (eg_addr master) ''master'') (core\<lparr>co_w := w, co_master := Some master\<rparr>))))"

definition sk_core_start :: "('b, 'o, 'v) core_env \<Rightarrow> ('b, 'o, 'v, 'd) sk_core \<Rightarrow> ('b, 'o, 'v, 'd) sk_core res" where
  "sk_core_start C core =
     rbind (module_init C (co_unique_modules core) (core\<lparr>co_status := SK_CORE_STARTING\<rparr>)) (\<lambda>core.
     rbind (service_init C (co_services core) core) (\<lambda>core.
     rbind (start_threads C core) (\<lambda>core.
     deref (co_master core) (\<lambda>master.
     rbind (run_drivers C (eg_addr master) (in_order (ce_fifo C) (co_drivers core)) core) (\<lambda>core.
       start_master (core\<lparr>co_status := SK_CORE_RUNNING, co_starttime := ce_now C\<rparr>))))))"

definition sk_core_wait :: "('b, 'o, 'v, 'd) sk_core \<Rightarrow> ('b, 'o, 'v, 'd) sk_core" where
  "sk_core_wait core = core\<lparr>co_trace := co_trace core @ map (\<lambda>e. Wait_engine (eg_addr e)) (co_workers core @ co_bio core)\<rparr>"

section \<open>Stop\<close>

text \<open>
  \<^verbatim>\<open>sk_core_stop\<close> on a server that exists. Turning off the tracing of memory (\<^verbatim>\<open>sk_mem_trace(0)\<close>) changes the memory
  statistics only, which are a state of their own (\<open>Sk_Malloc\<close>).
\<close>

definition sk_core_stop :: "('b, 'o, 'v, 'd) sk_core \<Rightarrow> ('b, 'o, 'v, 'd) sk_core" where
  "sk_core_stop core = core\<lparr>co_status := SK_CORE_STOPPING, co_master := map_option sk_engine_stop (co_master core),
     co_workers := map sk_engine_stop (co_workers core), co_bio := map sk_engine_stop (co_bio core)\<rparr>"

section \<open>Destruction\<close>

fun destroy_engines ::
  "('b, 'o, 'v) core_env \<Rightarrow> (addr \<Rightarrow> (addr \<times> string) list \<times> (addr \<times> string) list) \<Rightarrow>
     ('b, 'o, 'v, 'd) sk_engine list \<Rightarrow> ('b, 'o, 'v, 'd) sk_core \<Rightarrow> ('b, 'o, 'v, 'd) sk_core res" where
  "destroy_engines C keys [] core = Inr core"
| "destroy_engines C keys (e # es) core = rbind (sk_engine_destroy C (keys (eg_addr e)) (co_w core) e) (\<lambda>w.
     destroy_engines C keys es (trace (Destroy_engine (eg_addr e)) (core\<lparr>co_w := w\<rparr>)))"

text \<open>\<^verbatim>\<open>_sk_engines_destroy\<close>; destroying a null engine does nothing.\<close>

definition sk_engines_destroy ::
  "('b, 'o, 'v) core_env \<Rightarrow> (addr \<Rightarrow> (addr \<times> string) list \<times> (addr \<times> string) list) \<Rightarrow>
     ('b, 'o, 'v, 'd) sk_core \<Rightarrow> ('b, 'o, 'v, 'd) sk_core res" where
  "sk_engines_destroy C keys core =
     rbind (destroy_engines C keys
              (co_workers core @ co_bio core @ (case co_master core of None \<Rightarrow> [] | Some m \<Rightarrow> [m])) core) (\<lambda>core.
       Inr (core\<lparr>co_workers := [], co_bio := [], co_master := None\<rparr>))"

text \<open>\<open>mtype\<close> is the type of a module, \<^verbatim>\<open>module->cfg->type\<close>.\<close>

fun module_destroy ::
  "('b, 'o, 'v) core_env \<Rightarrow> (string \<Rightarrow> string option) \<Rightarrow> (string \<times> sk_module) list \<Rightarrow>
     ('b, 'o, 'v, 'd) sk_core \<Rightarrow> ('b, 'o, 'v, 'd) sk_core res" where
  "module_destroy C mtype [] core = Inr core"
| "module_destroy C mtype ((name, m) # ms) core = rbind (sk_module_unload (ce_mloaders C) (mtype name) m) (\<lambda>_.
     module_destroy C mtype ms (trace (Release_module name) core))"

fun service_destroy ::
  "('b, 'o, 'v) core_env \<Rightarrow> (string \<times> addr) list \<Rightarrow> ('b, 'o, 'v, 'd) sk_core \<Rightarrow> ('b, 'o, 'v, 'd) sk_core res" where
  "service_destroy C [] core = Inr core"
| "service_destroy C ((name, opt) # ss) core = with_svc (co_w core) name (\<lambda>sv.
     rbind (sk_service_stop (ce_srv_release C name) sv) (\<lambda>sv.
     deref (cf_services (co_config core) name) (\<lambda>cfg.
     rbind (sk_service_unload (ce_sloaders C) name (sc_type cfg)) (\<lambda>_.
       service_destroy C ss (trace (Release_service name)
         (core\<lparr>co_w := (co_w core)\<lparr>w_svcs := (w_svcs (co_w core))(name := None)\<rparr>\<rparr>))))))"

text \<open>\<^verbatim>\<open>sk_userlib_unload\<close>; \<open>libs\<close> is the order of the table, which exists if a language has been configured.\<close>

definition userlib_unload :: "string list \<Rightarrow> ('b, 'o, 'v, 'd) sk_core \<Rightarrow> ('b, 'o, 'v, 'd) sk_core res" where
  "userlib_unload libs core = deref (co_user_libs core) (\<lambda>t.
     Inr (core\<lparr>co_user_libs := None, co_trace := co_trace core @ map Unload_api (filter (\<lambda>l. t l \<noteq> None) libs)\<rparr>))"

text \<open>The order in which \<^verbatim>\<open>flist_pop\<close> takes the drivers.\<close>

definition sk_core_destroy ::
  "('b, 'o, 'v) core_env \<Rightarrow> (addr \<Rightarrow> (addr \<times> string) list \<times> (addr \<times> string) list) \<Rightarrow>
     (string \<Rightarrow> string option) \<Rightarrow> string list \<Rightarrow> ('b, 'o, 'v, 'd) sk_core \<Rightarrow> ('b, 'o, 'v, 'd) sk_core res" where
  "sk_core_destroy C keys mtype libs core =
     (let core = core\<lparr>co_status := SK_CORE_DESTROYING,
                      co_trace := co_trace core @ map Stop_driver (in_order (en_fifo (ce_E C)) (co_drivers core)),
                      co_drivers := []\<rparr>
      in rbind (sk_engines_destroy C keys core) (\<lambda>core.
         rbind (module_destroy C mtype (co_unique_modules core) core) (\<lambda>core.
         rbind (service_destroy C (co_services core) core) (\<lambda>core.
           userlib_unload libs (core\<lparr>co_unique_modules := [], co_services := [], co_workflows := [],
             co_admin_wf := None\<rparr>)))))"

section \<open>Look-up\<close>

definition sk_core_service :: "('b, 'o, 'v, 'd) sk_core \<Rightarrow> string \<Rightarrow> addr option" where
  "sk_core_service core name = map_of (co_services core) name"

text \<open>\<^verbatim>\<open>sk_core_bio\<close> on the engines themselves.\<close>

definition core_bio_engine :: "('b, 'o, 'v, 'd) sk_core \<Rightarrow> int \<Rightarrow> ('b, 'o, 'v, 'd) sk_engine option res" where
  "core_bio_engine core idx =
     (let bidx = idx - 1
      in if bidx < 0 \<or> cf_bio_cnt (co_config core) \<le> bidx then Inr None
         else if nat bidx < length (co_bio core) then Inr (Some (co_bio core ! nat bidx)) else Inl Wild)"

end
