(* ===== verification/Core_Proofs.thy ===== *)
theory Core_Proofs
  imports Core_Run Sched_Run Config_Proofs Sched_Proofs Ep_Proofs
begin

text \<open>
  Properties of the start-up: the engines form a star around the master, the master hands work without a
  receiver to workers only, which modules a workflow gets, the order in which user code, threads and drivers start, and what
  a stop achieves.
\<close>

section \<open>A small server\<close>

text \<open>One worker, one background engine, and two workflows that both name the module \<^verbatim>\<open>a\<close>.\<close>

definition demo_mloader :: sk_module_loader where
  "demo_mloader = \<lparr>ml_name = id, ml_conf_name = id, ml_open = (\<lambda>n. Some \<lparr>m_addr = length n, m_name = [], m_pack = True, m_unpack = True\<rparr>),
     ml_load_config = (\<lambda>_ _. 0), ml_close = (\<lambda>_. 0)\<rparr>"

definition demo_sloader :: sk_service_loader where
  "demo_sloader = \<lparr>sl_name = id, sl_conf_name = id, sl_open = (\<lambda>_. (70, 0)), sl_load_config = (\<lambda>_ _. 0), sl_close = (\<lambda>_. 0)\<rparr>"

definition demo_core_env :: "(sk_srv_task cellbuf, u8 cellbuf, sk_event cellbuf) core_env" where
  "demo_core_env = \<lparr>ce_F = cellbuf_ops SK_EVENT_SZ, ce_E = demo_env, ce_X = demo_ep_env, ce_einval = False, ce_fifo = True,
     ce_cfg_set = AList.update, ce_mod_set = AList.update, ce_srv_set = AList.update, ce_srv_order = [''s''],
     ce_lang_order = [''cpp''], ce_yaml = (\<lambda>_. []), ce_chdir = (\<lambda>_. True), ce_getcwd = ''/srv'', ce_logger = (\<lambda>_. True),
     ce_rlimit = Some 4096, ce_setrlimit = (\<lambda>_. True), ce_dlopen = (\<lambda>_. Some 1), ce_dlsym = (\<lambda>_ _. True),
     ce_mloaders = Some [''cpp'' \<mapsto> demo_mloader], ce_sloaders = Some [''cpp'' \<mapsto> demo_sloader], ce_listen = (\<lambda>_. 5),
     ce_activate = (\<lambda>_. True), ce_mod_init = (\<lambda>_. 0), ce_srv_init = (\<lambda>_ sv. (sv, 0)), ce_srv_release = (\<lambda>_ sv. sv),
     ce_thread = (\<lambda>_. 0), ce_now = 0\<rparr>"

definition demo_wf_cfg :: "int \<Rightarrow> string list \<Rightarrow> cfg_workflow" where
  "demo_wf_cfg port ms = create_workflow_cfg\<lparr>wc_port := port,
     wc_modules := map (\<lambda>m. \<lparr>mc_name = Some m, mc_type = Some ''cpp''\<rparr>) ms\<rparr>"

definition demo_core :: "(sk_srv_task cellbuf, u8 cellbuf, sk_event cellbuf, int) sk_core" where
  "demo_core = (core_zero empty_world)\<lparr>co_config := create_config\<lparr>cf_threads := 1, cf_bio_cnt := 1,
     cf_workflows := [demo_wf_cfg 7758 [''a'', ''b'', ''a''], demo_wf_cfg 7759 [''b'']]\<rparr>\<rparr>"

section \<open>Engines\<close>

definition engine_ready :: "sk_engine_type \<Rightarrow> u32 \<Rightarrow> addr list \<Rightarrow> ('b, 'o, 'v, 'd) sk_engine \<Rightarrow> bool" where
  "engine_ready ty fl dsts e \<longleftrightarrow> eg_type e = ty \<and> sd_flags (eg_sched e) = fl \<and> bridge_dsts (eg_sched e) = dsts \<and>
     sd_last_delivery_idx (eg_sched e) = 0"

lemma check_ptos_ok: "check_ptos 0 sk_pto_tbl = Inr ()"
  by (simp add: sk_pto_tbl_def)

lemma ep_pool_create_next: "w_next w \<le> w_next (pw (sk_ep_pool_create w a mx))"
  by (simp add: sk_ep_pool_create_def sk_ep_mgr_create_def sk_entity_mgr_create_def Let_def)

lemma engine_create:
  "ok (sk_engine_create F now w ty mx fl) (\<lambda>(w', e). eg_addr e = w_next w \<and> w_next w < w_next w' \<and> engine_ready ty fl [] e)"
proof -
  define m where "m = Suc (w_next w)"
  define w1 where "w1 = fst (sk_entity_mgr_create (sk_timersvc_create (w\<lparr>w_next := Suc (w_next w)\<rparr>) (w_next w)))"
  define w2 where "w2 = set_mgr w1 m ((the (w_mgrs w1 m))\<lparr>mg_owner_sched := Some (w_next w)\<rparr>)"
  have "sk_entity_mgr_setsched w1 m (w_next w) = Inr w2"
    by (simp add: w2_def w1_def m_def sk_entity_mgr_setsched_def sk_entity_mgr_create_def Let_def with_mgr_def
        sk_timersvc_create_def)
  moreover have "w_next w2 = Suc (Suc (w_next w))"
    by (simp add: w2_def w1_def sk_entity_mgr_create_def Let_def sk_timersvc_create_def)
  moreover have "sk_entity_mgr_create (sk_timersvc_create (w\<lparr>w_next := Suc (w_next w)\<rparr>) (w_next w)) = (w1, m)"
    by (simp add: w1_def m_def sk_entity_mgr_create_def Let_def sk_timersvc_create_def)
  ultimately show ?thesis
    using ep_pool_create_next [of w2 "w_next w" mx]
    by (simp add: sk_engine_create_def Let_def sk_sched_create_def check_ptos_ok sched_init_def engine_ready_def bridge_dsts_def)
qed

lemma engine_link:
  "sk_engine_link F e dst = (if length (bridge_dsts (eg_sched e)) = SK_SCHED_MAX_IO_BRIDGE then Inl Assert
     else Inr (e\<lparr>eg_sched := (eg_sched e)\<lparr>sd_bridge_tbl :=
            sd_bridge_tbl (eg_sched e) @ [sk_io_bridge_create F dst SK_SCHED_IO_BRIDGE_SZ]\<rparr>\<rparr>))"
  by (simp add: sk_engine_link_def sk_sched_setup_bridge_def bridge_dsts_def)

text \<open>The engines form a star; all addresses are taken.\<close>

definition star :: "('b, 'o, 'v, 'd) sk_core \<Rightarrow> bool" where
  "star c \<longleftrightarrow> (\<exists>m. co_master c = Some m \<and>
     engine_ready SK_ENGINE_MASTER 0 (map eg_addr (co_workers c @ co_bio c)) m \<and>
     (\<forall>e \<in> set (co_workers c). engine_ready SK_ENGINE_WORKER 0 [eg_addr m] e) \<and>
     (\<forall>e \<in> set (co_bio c). engine_ready SK_ENGINE_BIO SK_SCHED_NON_RR_ROUTABLE [eg_addr m] e) \<and>
     distinct (map eg_addr (m # co_workers c @ co_bio c)) \<and>
     (\<forall>e \<in> set (m # co_workers c @ co_bio c). eg_addr e < w_next (co_w c)) \<and>
     length (co_workers c) + length (co_bio c) \<le> SK_SCHED_MAX_IO_BRIDGE)"

definition same_but_engines :: "('b, 'o, 'v, 'd) sk_core \<Rightarrow> ('b, 'o, 'v, 'd) sk_core \<Rightarrow> bool" where
  "same_but_engines c c' \<longleftrightarrow>
     c' = c\<lparr>co_w := co_w c', co_master := co_master c', co_workers := co_workers c', co_bio := co_bio c'\<rparr>"

definition link_to :: "('b, 'o, 'v) core_env \<Rightarrow> addr \<Rightarrow> ('b, 'o, 'v, 'd) sk_engine \<Rightarrow> ('b, 'o, 'v, 'd) sk_engine" where
  "link_to C dst e = e\<lparr>eg_sched := (eg_sched e)\<lparr>sd_bridge_tbl :=
     sd_bridge_tbl (eg_sched e) @ [sk_io_bridge_create (ce_F C) dst SK_SCHED_IO_BRIDGE_SZ]\<rparr>\<rparr>"

lemma link_to_simps [simp]:
  "eg_addr (link_to C dst e) = eg_addr e"
  "engine_ready ty fl ds e \<Longrightarrow> engine_ready ty fl (ds @ [dst]) (link_to C dst e)"
  by (simp_all add: link_to_def engine_ready_def bridge_dsts_def sk_io_bridge_create_def)

lemma engine_link_to:
  "engine_ready ty fl ds e \<Longrightarrow>
     sk_engine_link (ce_F C) e dst = (if length ds = SK_SCHED_MAX_IO_BRIDGE then Inl Assert else Inr (link_to C dst e))"
  by (auto simp: engine_link link_to_def engine_ready_def)

lemma same_but_engines_trans: "same_but_engines c c' \<Longrightarrow> same_but_engines c' c'' \<Longrightarrow> same_but_engines c c''"
  by (cases c, cases c', cases c'') (simp add: same_but_engines_def)

lemma setup_worker_step:
  fixes c :: "('b, 'o, 'v, 'd) sk_core"
  assumes "star c" "co_bio c = []"
  shows "if length (co_workers c) < SK_SCHED_MAX_IO_BRIDGE
    then \<exists>c'. setup_workers C (Suc n) c = setup_workers C n c' \<and> star c' \<and> length (co_workers c') = Suc (length (co_workers c)) \<and>
      co_bio c' = [] \<and> same_but_engines c c'
    else setup_workers C (Suc n) c = Inl Assert"
proof -
  obtain m where m: "co_master c = Some m" "engine_ready SK_ENGINE_MASTER 0 (map eg_addr (co_workers c)) m"
    using assms by (auto simp: star_def)
  obtain w and e :: "('b, 'o, 'v, 'd) sk_engine" where e: "sk_engine_create (ce_F C) (ce_now C) (co_w c) SK_ENGINE_WORKER (co_max_fds c) 0 = Inr (w, e)"
    "eg_addr e = w_next (co_w c)" "w_next (co_w c) < w_next w" "engine_ready SK_ENGINE_WORKER 0 [] e"
    using engine_create [of "ce_F C" "ce_now C" "co_w c" SK_ENGINE_WORKER "co_max_fds c" 0] by (auto simp: ok_def)
  define c' where "c' = c\<lparr>co_w := w, co_master := Some (link_to C (eg_addr e) m),
    co_workers := co_workers c @ [link_to C (eg_addr m) e]\<rparr>"
  show ?thesis
  proof (cases "length (co_workers c) < SK_SCHED_MAX_IO_BRIDGE")
    case True
    then have "setup_workers C (Suc n) c = setup_workers C n c'"
      using m e by (simp add: engine_link_to c'_def SK_SCHED_MAX_IO_BRIDGE_def)
    moreover have "star c'"
      using assms m e True link_to_simps(2) [OF m(2), of "eg_addr e" C] link_to_simps(2) [OF e(4), of "eg_addr m" C]
      by (auto simp: star_def c'_def intro: less_trans [OF _ e(3)])
    ultimately show ?thesis using True assms
      by (simp add: exI [of _ c'] c'_def same_but_engines_def)
  next
    case False
    with assms m have "length (co_workers c) = SK_SCHED_MAX_IO_BRIDGE" by (simp add: star_def)
    with m e show ?thesis by (simp add: engine_link_to)
  qed
qed

lemma setup_workers_star:
  assumes "star c" "co_bio c = []"
  shows "if length (co_workers c) + n \<le> SK_SCHED_MAX_IO_BRIDGE
     then ok (setup_workers C n c) (\<lambda>c'. star c' \<and> length (co_workers c') = length (co_workers c) + n \<and> co_bio c' = [] \<and>
            same_but_engines c c')
     else setup_workers C n c = Inl Assert"
  using assms
proof (induction n arbitrary: c)
  case 0
  then show ?case by (auto simp: same_but_engines_def star_def)
next
  case (Suc n)
  show ?case
  proof (cases "length (co_workers c) < SK_SCHED_MAX_IO_BRIDGE")
    case True
    with setup_worker_step [OF Suc.prems, of C n] obtain c' where c':
      "setup_workers C (Suc n) c = setup_workers C n c'" "star c'" "length (co_workers c') = Suc (length (co_workers c))"
      "co_bio c' = []" "same_but_engines c c'" by auto
    then show ?thesis using Suc.IH [OF c'(2,4)] same_but_engines_trans [OF c'(5)]
      by (auto elim!: ok_mono simp del: setup_workers.simps)
  next
    case False
    with setup_worker_step [OF Suc.prems, of C n] show ?thesis by (simp del: setup_workers.simps)
  qed
qed

lemma setup_bio_step:
  fixes c :: "('b, 'o, 'v, 'd) sk_core"
  assumes "star c"
  shows "if length (co_workers c) + length (co_bio c) < SK_SCHED_MAX_IO_BRIDGE
    then \<exists>c'. setup_bios C (Suc n) c = setup_bios C n c' \<and> star c' \<and> length (co_bio c') = Suc (length (co_bio c)) \<and>
      co_workers c' = co_workers c \<and> same_but_engines c c'
    else setup_bios C (Suc n) c = Inl Assert"
proof -
  obtain m where m: "co_master c = Some m" "engine_ready SK_ENGINE_MASTER 0 (map eg_addr (co_workers c @ co_bio c)) m"
    using assms by (auto simp: star_def)
  obtain w and e :: "('b, 'o, 'v, 'd) sk_engine" where
    e: "sk_engine_create (ce_F C) (ce_now C) (co_w c) SK_ENGINE_BIO (co_max_fds c) SK_SCHED_NON_RR_ROUTABLE = Inr (w, e)"
    "eg_addr e = w_next (co_w c)" "w_next (co_w c) < w_next w" "engine_ready SK_ENGINE_BIO SK_SCHED_NON_RR_ROUTABLE [] e"
    using engine_create [of "ce_F C" "ce_now C" "co_w c" SK_ENGINE_BIO "co_max_fds c" SK_SCHED_NON_RR_ROUTABLE]
    by (auto simp: ok_def)
  define c' where "c' = c\<lparr>co_w := w, co_master := Some (link_to C (eg_addr e) m),
    co_bio := co_bio c @ [link_to C (eg_addr m) e]\<rparr>"
  show ?thesis
  proof (cases "length (co_workers c) + length (co_bio c) < SK_SCHED_MAX_IO_BRIDGE")
    case True
    then have "setup_bios C (Suc n) c = setup_bios C n c'"
      using m(1) e(1) engine_link_to [OF m(2)] engine_link_to [OF e(4)] by (simp add: c'_def SK_SCHED_MAX_IO_BRIDGE_def)
    moreover have "star c'"
      using assms m e True link_to_simps(2) [OF m(2), of "eg_addr e" C] link_to_simps(2) [OF e(4), of "eg_addr m" C]
      by (auto simp: star_def c'_def intro: less_trans [OF _ e(3)])
    ultimately show ?thesis using True
      by (simp add: exI [of _ c'] c'_def same_but_engines_def)
  next
    case False
    with assms have "length (map eg_addr (co_workers c @ co_bio c)) = SK_SCHED_MAX_IO_BRIDGE"
      by (auto simp: star_def)
    with m(1) e(1) engine_link_to [OF m(2)] engine_link_to [OF e(4)] show ?thesis
      by (simp add: SK_SCHED_MAX_IO_BRIDGE_def)
  qed
qed

lemma setup_bios_star:
  assumes "star c"
  shows "if length (co_workers c) + length (co_bio c) + n \<le> SK_SCHED_MAX_IO_BRIDGE
     then ok (setup_bios C n c) (\<lambda>c'. star c' \<and> length (co_bio c') = length (co_bio c) + n \<and> co_workers c' = co_workers c \<and>
            same_but_engines c c')
     else setup_bios C n c = Inl Assert"
  using assms
proof (induction n arbitrary: c)
  case 0
  then show ?case by (auto simp: same_but_engines_def star_def)
next
  case (Suc n)
  show ?case
  proof (cases "length (co_workers c) + length (co_bio c) < SK_SCHED_MAX_IO_BRIDGE")
    case True
    with setup_bio_step [OF Suc.prems, of C n] obtain c' where c':
      "setup_bios C (Suc n) c = setup_bios C n c'" "star c'" "length (co_bio c') = Suc (length (co_bio c))"
      "co_workers c' = co_workers c" "same_but_engines c c'" by auto
    then show ?thesis using Suc.IH [OF c'(2)] same_but_engines_trans [OF c'(5)]
      by (auto elim!: ok_mono simp del: setup_bios.simps)
  next
    case False
    with setup_bio_step [OF Suc.prems, of C n] show ?thesis by (simp del: setup_bios.simps)
  qed
qed

lemma setup_engines_star:
  fixes c :: "('b, 'o, 'v, 'd) sk_core"
  assumes "co_bio c = []"
  defines "t \<equiv> nat (cf_threads (co_config c))" and "b \<equiv> nat (cf_bio_cnt (co_config c))"
  shows "if t + b \<le> SK_SCHED_MAX_IO_BRIDGE
     then ok (sk_setup_engines C c) (\<lambda>c'. star c' \<and> length (co_workers c') = t \<and> length (co_bio c') = b \<and> same_but_engines c c')
     else sk_setup_engines C c = Inl Assert"
proof -
  obtain w and m :: "('b, 'o, 'v, 'd) sk_engine" where
    m: "sk_engine_create (ce_F C) (ce_now C) (co_w c) SK_ENGINE_MASTER (co_max_fds c) 0 = Inr (w, m)"
    "eg_addr m = w_next (co_w c)" "w_next (co_w c) < w_next w" "engine_ready SK_ENGINE_MASTER 0 [] m"
    using engine_create [of "ce_F C" "ce_now C" "co_w c" SK_ENGINE_MASTER "co_max_fds c" 0] by (auto simp: ok_def)
  let ?c = "c\<lparr>co_w := w, co_master := Some m, co_workers := []\<rparr>"
  have star: "star ?c" using m assms(1) by (simp add: star_def)
  have same: "same_but_engines c ?c" by (cases c) (simp add: same_but_engines_def)
  have eq: "sk_setup_engines C c = rbind (setup_workers C t ?c)
      (\<lambda>c. setup_bios C (nat (cf_bio_cnt (co_config c))) (c\<lparr>co_bio := []\<rparr>))"
    using m by (simp add: sk_setup_engines_def t_def)
  show ?thesis
  proof (cases "t \<le> SK_SCHED_MAX_IO_BRIDGE")
    case True
    then obtain c1 where c1: "setup_workers C t ?c = Inr c1" "star c1" "length (co_workers c1) = t" "co_bio c1 = []"
      "same_but_engines ?c c1"
      using setup_workers_star [OF star, of t C] assms(1) by (auto simp: ok_def)
    have "same_but_engines c c1" using same c1(5) by (rule same_but_engines_trans)
    moreover from this have "co_config c1 = co_config c" by (cases c, cases c1) (simp add: same_but_engines_def)
    moreover have "c1\<lparr>co_bio := []\<rparr> = c1" using c1(4) by simp
    ultimately have "sk_setup_engines C c = setup_bios C b c1" using c1(1) by (simp add: eq b_def)
    then show ?thesis using setup_bios_star [OF c1(2), of b C] c1(3,4) same_but_engines_trans [OF \<open>same_but_engines c c1\<close>]
      by (auto elim!: ok_mono)
  next
    case False
    with setup_workers_star [OF star, of t C] assms(1) show ?thesis by (simp add: eq)
  qed
qed

text \<open>
  C27: the engines. Setting up the engines succeeds exactly when workers and background engines together are no more than
  the 48 bridges that a scheduler can have; more abort the server with a failed assertion. Then there are as many of each as configured, at
  distinct addresses; the master has one bridge to every other engine, in their order, every other engine has
  one bridge, to the master, and background engines are excluded from the round robin.
\<close>
theorem engines_form_star:
  fixes c :: "('b, 'o, 'v, 'd) sk_core"
  assumes "co_bio c = []"
  shows "if nat (cf_threads (co_config c)) + nat (cf_bio_cnt (co_config c)) \<le> SK_SCHED_MAX_IO_BRIDGE
     then ok (sk_setup_engines C c) (\<lambda>c'.
       length (co_workers c') = nat (cf_threads (co_config c)) \<and> length (co_bio c') = nat (cf_bio_cnt (co_config c)) \<and>
       (\<exists>m. co_master c' = Some m \<and> bridge_dsts (eg_sched m) = map eg_addr (co_workers c' @ co_bio c') \<and>
          (\<forall>e \<in> set (co_workers c'). bridge_dsts (eg_sched e) = [eg_addr m] \<and> sd_flags (eg_sched e) = 0) \<and>
          (\<forall>e \<in> set (co_bio c'). bridge_dsts (eg_sched e) = [eg_addr m] \<and> sd_flags (eg_sched e) = SK_SCHED_NON_RR_ROUTABLE) \<and>
          distinct (map eg_addr (m # co_workers c' @ co_bio c'))))
     else sk_setup_engines C c = Inl Assert"
  using setup_engines_star [OF assms, of C] by (auto elim!: ok_mono simp: star_def engine_ready_def)

theorem engines_form_star_witness:
  "ok (sk_setup_engines demo_core_env demo_core) (\<lambda>c. length (co_workers c) = 1 \<and> length (co_bio c) = 1)"
proof -
  have "co_bio demo_core = []" by (simp add: demo_core_def core_zero_def)
  from engines_form_star [OF this, of demo_core_env] show ?thesis
    by (auto simp: demo_core_def SK_SCHED_MAX_IO_BRIDGE_def elim!: ok_mono)
qed

text \<open>The flags of the schedulers, by address.\<close>

definition engine_flags :: "('b, 'o, 'v, 'd) sk_core \<Rightarrow> addr \<Rightarrow> u32" where
  "engine_flags c a = (case find (\<lambda>e. eg_addr e = a)
       ((case co_master c of None \<Rightarrow> [] | Some m \<Rightarrow> [m]) @ co_workers c @ co_bio c) of
     None \<Rightarrow> 0 | Some e \<Rightarrow> sd_flags (eg_sched e))"

lemma find_distinct: "distinct (map f xs) \<Longrightarrow> x \<in> set xs \<Longrightarrow> find (\<lambda>y. f y = f x) xs = Some x"
  by (induction xs) auto

lemma star_flags:
  assumes "star c" "co_master c = Some m" "e \<in> set (co_workers c @ co_bio c)"
  shows "engine_flags c (eg_addr e) = (if e \<in> set (co_workers c) then 0 else SK_SCHED_NON_RR_ROUTABLE)"
proof -
  have "find (\<lambda>y. eg_addr y = eg_addr e) (m # co_workers c @ co_bio c) = Some e"
    using assms by (intro find_distinct) (auto simp: star_def)
  with assms show ?thesis by (auto simp: engine_flags_def star_def engine_ready_def)
qed

lemma star_routable:
  assumes "star c" "co_master c = Some m" "i < length (bridge_dsts (eg_sched m))"
  shows "routable (engine_flags c) (bridge_dsts (eg_sched m) ! i) \<longleftrightarrow> i < length (co_workers c)"
proof -
  let ?es = "co_workers c @ co_bio c"
  have ds: "bridge_dsts (eg_sched m) = map eg_addr ?es" using assms(1,2) by (auto simp: star_def engine_ready_def)
  then have i: "i < length ?es" using assms(3) by simp
  have "distinct (map eg_addr ?es)" using assms(1) by (auto simp: star_def)
  then have d: "distinct ?es" by (simp only: distinct_map)
  have "?es ! i \<in> set (co_workers c) \<longleftrightarrow> i < length (co_workers c)"
  proof
    show "?es ! i \<in> set (co_workers c)" if "i < length (co_workers c)" using that by (simp add: nth_append)
    show "i < length (co_workers c)" if w: "?es ! i \<in> set (co_workers c)"
    proof (rule ccontr)
      assume "\<not> i < length (co_workers c)"
      then have "?es ! i \<in> set (co_bio c)" using i by (simp add: nth_append)
      with w d show False by auto
    qed
  qed
  moreover have "?es ! i \<in> set ?es" using i by (rule nth_mem)
  ultimately show ?thesis
    using star_flags [OF assms(1,2), of "?es ! i"] i nth_map [OF i, of eg_addr]
    by (simp only: ds routable_def) (simp add: SK_SCHED_NON_RR_ROUTABLE_def)
qed

lemma star_master: "star c \<Longrightarrow> \<exists>m. co_master c = Some m"
  by (auto simp: star_def)

definition picks_worker :: "('b, 'o, 'v, 'd) sk_core \<Rightarrow> 'v sk_sched \<Rightarrow> bool" where
  "picks_worker c sd \<longleftrightarrow> ok (find_bridge_roundrobin (engine_flags c) sd) (\<lambda>(sd, i).
     \<exists>j < length (co_workers c). i = Some j \<and> br_dst (sd_bridge_tbl sd ! j) = eg_addr (co_workers c ! j))"

lemma star_picks_worker:
  assumes star: "star c" and m: "co_master c = Some m" and n: "0 < length (co_workers c)"
    and l: "l < length (sd_bridge_tbl (eg_sched m))"
  shows "picks_worker c ((eg_sched m)\<lparr>sd_last_delivery_idx := l\<rparr>)"
proof -
  have ds: "bridge_dsts (eg_sched m) = map eg_addr (co_workers c @ co_bio c)"
    using star m by (auto simp: star_def engine_ready_def)
  let ?sd = "(eg_sched m)\<lparr>sd_last_delivery_idx := l\<rparr>"
  have [simp]: "bridge_dsts ?sd = bridge_dsts (eg_sched m)" by (simp add: bridge_dsts_def)
  have "0 < length (bridge_dsts (eg_sched m))" using n ds by simp
  then have "routable (engine_flags c) (bridge_dsts ?sd ! 0)" using star_routable [OF star m] n by simp
  then obtain i l' where i: "find_bridge_roundrobin (engine_flags c) ?sd = Inr (?sd\<lparr>sd_last_delivery_idx := l'\<rparr>, Some i)"
    "i < length (sd_bridge_tbl (eg_sched m))" "routable (engine_flags c) (bridge_dsts (eg_sched m) ! i)"
    using roundrobin_ok [of ?sd "engine_flags c" 0] l n ds by auto
  then have "i < length (co_workers c)" using star_routable [OF star m, of i] by (simp add: bridge_dsts_def)
  moreover from this have "bridge_dsts (eg_sched m) ! i = eg_addr (co_workers c ! i)" by (simp add: ds nth_append)
  ultimately show ?thesis using i(1,2) by (simp add: bridge_dsts_def picks_worker_def)
qed

text \<open>
  C28: work for the workers. With at least one worker, a message of the master that names no receiver is
  always given to a worker, wherever the round robin stands, and never to a background engine.
\<close>
theorem master_routes_to_workers:
  fixes c :: "('b, 'o, 'v, 'd) sk_core"
  assumes "co_bio c = []" "0 < cf_threads (co_config c)"
    "nat (cf_threads (co_config c)) + nat (cf_bio_cnt (co_config c)) \<le> SK_SCHED_MAX_IO_BRIDGE"
  shows "ok (sk_setup_engines C c) (\<lambda>c'. \<exists>m. co_master c' = Some m \<and>
    (\<forall>l < length (sd_bridge_tbl (eg_sched m)).
       picks_worker c' ((eg_sched m)\<lparr>sd_last_delivery_idx := l\<rparr>)))"
proof -
  have "ok (sk_setup_engines C c) (\<lambda>c'. star c' \<and> 0 < length (co_workers c'))"
    using setup_engines_star [OF assms(1), of C] assms(2,3) by (auto elim!: ok_mono)
  then show ?thesis
    by (rule ok_mono) (use star_master star_picks_worker in blast)
qed

theorem master_routes_to_workers_witness:
  "ok (sk_setup_engines demo_core_env demo_core) (\<lambda>c. \<exists>m. co_master c = Some m)"
proof -
  have "co_bio demo_core = []" by (simp add: demo_core_def core_zero_def)
  from master_routes_to_workers [OF this, of demo_core_env] show ?thesis
    by (auto simp: demo_core_def SK_SCHED_MAX_IO_BRIDGE_def elim!: ok_mono)
qed

section \<open>The modules of the workflows\<close>

text \<open>A name counts where it occurs first.\<close>

fun first_uses :: "string set \<Rightarrow> string list \<Rightarrow> string list" where
  "first_uses seen [] = []"
| "first_uses seen (n # ns) = (if n \<in> seen then first_uses seen ns else n # first_uses (insert n seen) ns)"

fun modules_of :: "string set \<Rightarrow> string list list \<Rightarrow> string list list" where
  "modules_of seen [] = []"
| "modules_of seen (ns # nss) = first_uses seen ns # modules_of (seen \<union> set ns) nss"

definition cfg_names :: "('b, 'o, 'v) core_env \<Rightarrow> cfg_workflow \<Rightarrow> string list" where
  "cfg_names C cfg = map (\<lambda>m. the (mc_name m)) (in_order (ce_fifo C) (wc_modules cfg))"

lemma first_uses_none: "set ns \<subseteq> seen \<Longrightarrow> first_uses seen ns = []"
  by (induction ns) auto

lemma modules_of_nth:
  "k < length nss \<Longrightarrow> modules_of seen nss ! k = first_uses (seen \<union> \<Union> (set ` set (take k nss))) (nss ! k)"
  by (induction nss arbitrary: seen k) (auto simp: nth_Cons' take_Cons' Un_assoc)

lemma modules_of_length [simp]: "length (modules_of seen nss) = length nss"
  by (induction nss arbitrary: seen) auto

lemma module_load_name: "sk_module_load tbl cfg conf = Inr (Some m) \<Longrightarrow> mc_name cfg = Some (m_name m)"
  by (auto simp: sk_module_load_def loader_tbl_get_def deref_def Let_def split: option.splits if_splits)

lemma load_wf_modules_spec:
  assumes "hash_str (ce_mod_set C)" "load_wf_modules C cfgs wflow um = Inr (wflow', um')"
  shows "map m_name (wf_modules wflow') =
      map m_name (wf_modules wflow) @ first_uses (dom (map_of um)) (map (\<lambda>m. the (mc_name m)) cfgs) \<and>
    dom (map_of um') = dom (map_of um) \<union> set (map (\<lambda>m. the (mc_name m)) cfgs) \<and>
    (distinct (map fst um) \<longrightarrow> distinct (map fst um'))"
  using assms(2)
proof (induction cfgs arbitrary: wflow um)
  case (Cons cfg cfgs)
  obtain name where name: "mc_name cfg = Some name" using Cons.prems by (auto simp: res_simps)
  show ?case
  proof (cases "map_of um name")
    case (Some m)
    with Cons name show ?thesis by (auto simp: domI)
  next
    case None
    with Cons.prems name obtain m where m: "sk_module_load (ce_mloaders C) cfg None = Inr (Some m)"
      "load_wf_modules C cfgs (sk_workflow_add_module wflow m) (ce_mod_set C name m um) = Inr (wflow', um')"
      by (auto simp: res_simps split: option.splits)
    have "m_name m = name" using module_load_name [OF m(1)] name by simp
    moreover have "dom (map_of (ce_mod_set C name m um)) = insert name (dom (map_of um))"
      by (simp add: hash_str.lookup_set [OF assms(1)])
    moreover have "name \<notin> dom (map_of um)" using None by (simp add: domIff)
    ultimately show ?thesis using Cons.IH [OF m(2)] name
      by (simp add: sk_workflow_add_module_def hash_str.distinct_set [OF assms(1)])
  qed
qed simp

lemma rbind_InrE: "rbind m f = Inr y \<Longrightarrow> (\<And>x. m = Inr x \<Longrightarrow> f x = Inr y \<Longrightarrow> R) \<Longrightarrow> R"
  by (auto simp: rbind_Inr_iff)

lemma driver_create_spec:
  "core_driver_create C c wflow = Inr c' \<Longrightarrow>
     \<exists>d. dv_workflow d = wflow \<and> c' = c\<lparr>co_drivers := co_drivers c @ [d]\<rparr>"
  unfolding core_driver_create_def Let_def
  by (erule rbind_InrE) (rule exI [of _ "\<lparr>dv_type = _, dv_workflow = wflow, dv_fd = _\<rparr>"], auto)

lemma setup_workflows_spec:
  assumes "hash_str (ce_mod_set C)" "setup_workflows C cfgs c = Inr c'"
  shows "\<exists>wfs ds. co_workflows c' = co_workflows c @ wfs \<and> co_drivers c' = co_drivers c @ ds \<and> map dv_workflow ds = wfs \<and>
    map (\<lambda>w. map m_name (wf_modules w)) wfs = modules_of (dom (map_of (co_unique_modules c))) (map (cfg_names C) cfgs) \<and>
    dom (map_of (co_unique_modules c')) = dom (map_of (co_unique_modules c)) \<union> \<Union> (set ` cfg_names C ` set cfgs) \<and>
    (distinct (map fst (co_unique_modules c)) \<longrightarrow> distinct (map fst (co_unique_modules c')))"
  using assms(2)
proof (induction cfgs arbitrary: c)
  case (Cons cfg cfgs)
  then obtain w um c1 where w:
    "load_wf_modules C (in_order (ce_fifo C) (wc_modules cfg)) (sk_workflow_create (sk_workflow_cfg.truncate cfg))
       (co_unique_modules c) = Inr (w, um)"
    "core_driver_create C (c\<lparr>co_unique_modules := um, co_workflows := co_workflows c @ [w]\<rparr>) w = Inr c1"
    "setup_workflows C cfgs c1 = Inr c'"
    by (auto simp: res_simps)
  obtain d where d: "dv_workflow d = w"
    "c1 = c\<lparr>co_unique_modules := um, co_workflows := co_workflows c @ [w], co_drivers := co_drivers c @ [d]\<rparr>"
    using driver_create_spec [OF w(2)] by auto
  obtain wfs ds where i: "co_workflows c' = co_workflows c1 @ wfs" "co_drivers c' = co_drivers c1 @ ds"
    "map dv_workflow ds = wfs"
    "map (\<lambda>w. map m_name (wf_modules w)) wfs = modules_of (dom (map_of um)) (map (cfg_names C) cfgs)"
    "dom (map_of (co_unique_modules c')) = dom (map_of um) \<union> \<Union> (set ` cfg_names C ` set cfgs)"
    "distinct (map fst um) \<longrightarrow> distinct (map fst (co_unique_modules c'))"
    using Cons.IH [OF w(3)] d(2) by auto
  have l: "map m_name (wf_modules w) = first_uses (dom (map_of (co_unique_modules c))) (cfg_names C cfg)"
    "dom (map_of um) = dom (map_of (co_unique_modules c)) \<union> set (cfg_names C cfg)"
    "distinct (map fst (co_unique_modules c)) \<longrightarrow> distinct (map fst um)"
    using load_wf_modules_spec [OF assms(1) w(1)] by (simp_all add: cfg_names_def sk_workflow_create_def)
  show ?case
    using i d l by (intro exI [of _ "w # wfs"] exI [of _ "d # ds"]) auto
qed simp

text \<open>
  C29: the modules of the workflows. A module is given to the first workflow that names it and to no other: each workflow gets,
  in their order, those of its modules that no workflow before it and no earlier entry of its own names. A module is loaded once, the table of
  modules has each of them once, and every workflow has a driver.
\<close>
theorem workflows_first_use:
  assumes "hash_str (ce_mod_set C)" "sk_setup_workflows C c = Inr c'"
  shows "map (\<lambda>w. map m_name (wf_modules w)) (co_workflows c') =
      modules_of {} (map (cfg_names C) (in_order (ce_fifo C) (cf_workflows (co_config c)))) \<and>
    distinct (map fst (co_unique_modules c')) \<and>
    set (map fst (co_unique_modules c')) = \<Union> (set ` cfg_names C ` set (cf_workflows (co_config c))) \<and>
    (\<exists>ds. co_drivers c' = co_drivers c @ ds \<and> map dv_workflow ds = co_workflows c')"
proof -
  have "fst ` set (co_unique_modules c') = dom (map_of (co_unique_modules c'))" by (simp add: dom_map_of_conv_image_fst)
  then show ?thesis
    using setup_workflows_spec [OF assms(1), of "in_order (ce_fifo C) (cf_workflows (co_config c))"
        "c\<lparr>co_workflows := [], co_unique_modules := []\<rparr>" c'] assms(2)
    by (auto simp: sk_setup_workflows_def)
qed

definition demo_setup :: "(sk_srv_task cellbuf, u8 cellbuf, sk_event cellbuf, int) sk_core res" where
  "demo_setup = sk_setup_workflows demo_core_env demo_core"

lemma demo_setup_runs: "\<not> isl demo_setup"
  by code_simp

lemma demo_cfgs: "map (cfg_names demo_core_env) (in_order (ce_fifo demo_core_env) (cf_workflows (co_config demo_core))) =
    [[''a'', ''b'', ''a''], [''b'']]"
  by code_simp

lemma demo_hash: "hash_str (ce_mod_set demo_core_env)"
  by (simp add: demo_core_env_def alist.hash_str_axioms)

theorem workflows_first_use_witness:
  "\<exists>c. demo_setup = Inr c \<and> map (\<lambda>w. map m_name (wf_modules w)) (co_workflows c) = [[''a'', ''b''], []]"
proof -
  obtain c where c: "demo_setup = Inr c" using sum.collapse(2) [OF demo_setup_runs] by metis
  have "map (\<lambda>w. map m_name (wf_modules w)) (co_workflows c) = [[''a'', ''b''], []]"
    using workflows_first_use [OF demo_hash c [unfolded demo_setup_def], unfolded demo_cfgs] by simp
  then show ?thesis by (intro exI [of _ c] conjI c)
qed

lemma unpack_without_module:
  "w_ents w a = Some e \<Longrightarrow> e_workflow e = Some wflow \<Longrightarrow> wf_modules wflow = [] \<Longrightarrow>
     sk_driver_util_unpack E w cur a = Inl NullDeref"
  by (simp add: sk_driver_util_unpack_def with_ent_def sk_workflow_first_module_def)

text \<open>
  C30: a module shared by two workflows. If all modules of a workflow are named by workflows before it, the workflow is set up without any module,
  and the first bytes that arrive on its port make the server follow a null pointer.
\<close>
theorem shared_module_aborts:
  fixes C :: "('b, 'o, 'v) core_env" and c :: "('b, 'o, 'v, 'd) sk_core"
  defines "cfgs \<equiv> map (cfg_names C) (in_order (ce_fifo C) (cf_workflows (co_config c)))"
  assumes "hash_str (ce_mod_set C)" "sk_setup_workflows C c = Inr c'"
    and "k < length cfgs" "set (cfgs ! k) \<subseteq> \<Union> (set ` set (take k cfgs))"
  shows "wf_modules (co_workflows c' ! k) = [] \<and>
    (\<forall>w a e. w_ents w a = Some e \<and> e_workflow e = Some (co_workflows c' ! k) \<longrightarrow>
       sk_driver_util_unpack (ce_E C) w cur a = Inl NullDeref)"
proof -
  have eq: "map (\<lambda>w. map m_name (wf_modules w)) (co_workflows c') = modules_of {} cfgs"
    using setup_workflows_spec [OF assms(2), of _ "c\<lparr>co_workflows := [], co_unique_modules := []\<rparr>"] assms(3)
    by (auto simp: sk_setup_workflows_def cfgs_def)
  have "length (co_workflows c') = length cfgs" using arg_cong [OF eq, of length] by simp
  then have "map m_name (wf_modules (co_workflows c' ! k)) = modules_of {} cfgs ! k"
    using arg_cong [OF eq, of "\<lambda>xs. xs ! k"] assms(4) by simp
  also have "\<dots> = []" using assms(4,5) by (simp add: modules_of_nth first_uses_none)
  finally show ?thesis using unpack_without_module by auto
qed

theorem shared_module_aborts_witness:
  "\<exists>c. demo_setup = Inr c \<and> wf_modules (co_workflows c ! 1) = []"
proof -
  obtain c where c: "demo_setup = Inr c" using sum.collapse(2) [OF demo_setup_runs] by metis
  from shared_module_aborts [OF demo_hash c [unfolded demo_setup_def], of 1, unfolded demo_cfgs] c show ?thesis by auto
qed

section \<open>The life of the server\<close>

lemma trace_sel [simp]: "co_trace (trace e c) = co_trace c @ [e]"
  by (simp add: trace_def)

text \<open>What the steps of the start leave as it is.\<close>

definition same_but_world :: "('b, 'o, 'v, 'd) sk_core \<Rightarrow> core_event list \<Rightarrow> ('b, 'o, 'v, 'd) sk_core \<Rightarrow> bool" where
  "same_but_world c evs c' \<longleftrightarrow> c' = c\<lparr>co_w := co_w c', co_trace := co_trace c @ evs\<rparr>"

lemma same_but_world_refl [simp]: "same_but_world c [] c"
  by (simp add: same_but_world_def)

lemma same_but_world_step: "same_but_world (trace e (c\<lparr>co_w := w\<rparr>)) evs c' \<Longrightarrow> same_but_world c (e # evs) c'"
  by (cases c, cases c') (simp add: same_but_world_def trace_def)

lemma same_but_world_trace: "same_but_world (trace e c) evs c' \<Longrightarrow> same_but_world c (e # evs) c'"
  using same_but_world_step [where w = "co_w c" and c = c] by simp

lemma module_init_trace: "module_init C ms c = Inr c' \<Longrightarrow> same_but_world c (map (\<lambda>(n, _). Init_module n) ms) c'"
  by (induction C ms c rule: module_init.induct) (auto split: if_splits intro: same_but_world_trace)

lemma service_init_trace: "service_init C ss c = Inr c' \<Longrightarrow> same_but_world c (map (\<lambda>(n, _). Init_service n) ss) c'"
proof (induction ss arbitrary: c)
  case (Cons p ss)
  obtain name opt where p: "p = (name, opt)" by fastforce
  then obtain sv where "service_init C ss (trace (Init_service name) (c\<lparr>co_w := set_svc (co_w c) name sv\<rparr>)) = Inr c'"
    using Cons.prems by (auto simp: with_svc_def res_simps split: if_splits option.splits)
  from same_but_world_step [OF Cons.IH [OF this]] p show ?case by simp
qed simp

lemma run_drivers_trace: "run_drivers C cur ds c = Inr c' \<Longrightarrow> same_but_world c (map Run_driver ds) c'"
  by (induction C cur ds c rule: run_drivers.induct) (auto simp: res_simps intro: same_but_world_step)

definition engine_running :: "('b, 'o, 'v, 'd) sk_engine \<Rightarrow> bool" where
  "engine_running e \<longleftrightarrow> sd_running (eg_sched e)"

lemma engine_thread_runs: "sk_engine_thread w e = Inr (w', e') \<Longrightarrow> engine_running e' \<and> eg_addr e' = eg_addr e \<and> eg_env e' = eg_env e"
  by (auto simp: sk_engine_thread_def res_simps engine_running_def sched_begin_def)

lemma engine_start_runs:
  "sk_engine_start r w e env b = Inr (w', e', 0) \<Longrightarrow> engine_running e' \<and> eg_addr e' = eg_addr e"
  by (auto simp: sk_engine_start_def Let_def res_simps split: if_splits dest: engine_thread_runs)

lemma start_engines_spec:
  "start_engines C fmt i es w = Inr (w', es', evs) \<Longrightarrow> map eg_addr es' = map eg_addr es \<and> list_all engine_running es' \<and>
     evs = map2 (\<lambda>e k. Start_engine (eg_addr e) (snprintf_s SK_ENV_NAME_LEN (fmt @ nat_dec k))) es [i ..< i + length es]"
proof (induction C fmt i es w arbitrary: es' evs rule: start_engines.induct)
  case (2 C fmt i e es w)
  let ?n = "snprintf_s SK_ENV_NAME_LEN (fmt @ nat_dec i)"
  obtain w1 e1 es1 evs1 where r: "sk_engine_start (ce_thread C (eg_addr e)) w e ?n True = Inr (w1, e1, 0)"
    "start_engines C fmt (Suc i) es w1 = Inr (w', es1, evs1)" "es' = e1 # es1" "evs = Start_engine (eg_addr e1) ?n # evs1"
    using "2.prems" by (auto simp: res_simps Let_def split: if_splits)
  have "[i ..< i + length (e # es)] = i # [Suc i ..< Suc i + length es]" by (simp add: upt_conv_Cons del: upt_Suc)
  with "2.IH" [OF refl r(1) refl refl _ r(2)] r(3,4) engine_start_runs [OF r(1)] show ?case by simp
qed auto

definition engines :: "('b, 'o, 'v, 'd) sk_core \<Rightarrow> ('b, 'o, 'v, 'd) sk_engine list" where
  "engines c = (case co_master c of None \<Rightarrow> [] | Some m \<Rightarrow> [m]) @ co_workers c @ co_bio c"

definition start_events :: "string \<Rightarrow> nat \<Rightarrow> ('b, 'o, 'v, 'd) sk_engine list \<Rightarrow> core_event list" where
  "start_events fmt i es =
     map2 (\<lambda>e k. Start_engine (eg_addr e) (snprintf_s SK_ENV_NAME_LEN (fmt @ nat_dec k))) es [i ..< i + length es]"

lemma start_threads_spec:
  assumes "start_threads C c = Inr c'"
  shows "c' = c\<lparr>co_w := co_w c', co_workers := co_workers c', co_bio := co_bio c',
      co_trace := co_trace c @ start_events ''worker-'' 0 (co_workers c) @ start_events ''bio-'' 1 (co_bio c)\<rparr> \<and>
    list_all engine_running (co_workers c' @ co_bio c')"
  using assms
  by (auto simp: start_threads_def res_simps start_events_def dest!: start_engines_spec)

lemma start_master_spec:
  assumes "start_master c = Inr c'"
  shows "\<exists>m m' w. co_master c = Some m \<and> engine_running m' \<and>
    c' = c\<lparr>co_w := w, co_master := Some m', co_trace := co_trace c @ [Start_engine (eg_addr m) ''master'']\<rparr>"
proof -
  obtain m w m' r where m: "co_master c = Some m" "sk_engine_start 0 (co_w c) m ''master'' False = Inr (w, m', r)"
    "c' = trace (Start_engine (eg_addr m') ''master'') (c\<lparr>co_w := w, co_master := Some m'\<rparr>)"
    using assms by (auto simp: start_master_def res_simps)
  have "r = 0" using m(2) by (auto simp: sk_engine_start_def Let_def res_simps)
  with m engine_start_runs show ?thesis by (fastforce simp: trace_def)
qed

lemma core_start_spec:
  assumes "sk_core_start C c = Inr c'"
  shows "\<exists>m. co_master c = Some m \<and>
    co_trace c' = co_trace c @ map (\<lambda>(n, _). Init_module n) (co_unique_modules c) @
      map (\<lambda>(n, _). Init_service n) (co_services c) @ start_events ''worker-'' 0 (co_workers c) @
      start_events ''bio-'' 1 (co_bio c) @ map Run_driver (in_order (ce_fifo C) (co_drivers c)) @
      [Start_engine (eg_addr m) ''master''] \<and>
    co_status c' = SK_CORE_RUNNING \<and> list_all engine_running (engines c')"
proof -
  obtain c1 c2 c3 m c4 where r: "module_init C (co_unique_modules c) (c\<lparr>co_status := SK_CORE_STARTING\<rparr>) = Inr c1"
    "service_init C (co_services c1) c1 = Inr c2" "start_threads C c2 = Inr c3" "co_master c3 = Some m"
    "run_drivers C (eg_addr m) (in_order (ce_fifo C) (co_drivers c3)) c3 = Inr c4"
    "start_master (c4\<lparr>co_status := SK_CORE_RUNNING, co_starttime := ce_now C\<rparr>) = Inr c'"
    using assms by (auto simp: sk_core_start_def res_simps)
  obtain w1 where 1: "c1 = c\<lparr>co_status := SK_CORE_STARTING, co_w := w1,
      co_trace := co_trace c @ map (\<lambda>(n, _). Init_module n) (co_unique_modules c)\<rparr>"
    using module_init_trace [OF r(1)] by (auto simp: same_but_world_def)
  obtain w2 where 2: "c2 = c1\<lparr>co_w := w2, co_trace := co_trace c1 @ map (\<lambda>(n, _). Init_service n) (co_services c1)\<rparr>"
    using service_init_trace [OF r(2)] by (auto simp: same_but_world_def)
  obtain w3 ws bs where 3: "c3 = c2\<lparr>co_w := w3, co_workers := ws, co_bio := bs,
      co_trace := co_trace c2 @ start_events ''worker-'' 0 (co_workers c2) @ start_events ''bio-'' 1 (co_bio c2)\<rparr>"
    "list_all engine_running (ws @ bs)"
    using start_threads_spec [OF r(3)] by (metis sk_core.select_convs sk_core.update_convs)
  obtain w4 where 4: "c4 = c3\<lparr>co_w := w4, co_trace := co_trace c3 @ map Run_driver (in_order (ce_fifo C) (co_drivers c3))\<rparr>"
    using run_drivers_trace [OF r(5)] by (auto simp: same_but_world_def)
  obtain m1 m' w5 where 5: "co_master c4 = Some m1" "engine_running m'"
    "c' = c4\<lparr>co_status := SK_CORE_RUNNING, co_starttime := ce_now C, co_w := w5, co_master := Some m',
       co_trace := co_trace c4 @ [Start_engine (eg_addr m1) ''master'']\<rparr>"
    using start_master_spec [OF r(6)] by auto
  have "co_master c = Some m1" using 5(1) by (simp add: 1 2 3(1) 4)
  moreover have "list_all engine_running (engines c')" using 3(2) 5(2) by (simp add: 5(3) 4 3(1) engines_def)
  ultimately show ?thesis by (simp add: 5(3) 4 3(1) 2 1)
qed

text \<open>
  C31: the order of the start. A start that succeeds initialises every module once, then every service once, then starts the threads of the
  workers and of the background engines, then activates the drivers, and the loop of the master last: no request can
  arrive before the code of the user is initialised and the threads that serve it run.
\<close>
theorem core_start_order:
  assumes "sk_core_start C c = Inr c'"
  shows "\<exists>m. co_master c = Some m \<and>
    co_trace c' = co_trace c @ map (\<lambda>(n, _). Init_module n) (co_unique_modules c) @
      map (\<lambda>(n, _). Init_service n) (co_services c) @ start_events ''worker-'' 0 (co_workers c) @
      start_events ''bio-'' 1 (co_bio c) @ map Run_driver (in_order (ce_fifo C) (co_drivers c)) @
      [Start_engine (eg_addr m) ''master'']"
  using core_start_spec [OF assms] by blast

text \<open>
  C32: stopping. Once the server has been stopped, the loop of every engine runs its current round to the end and
  returns. But a stop that comes before the start has got so far, as a signal can, is lost: the start marks
  every scheduler as running again, the server counts as running, and the loop of no engine ever returns unless another
  stop comes.
\<close>
theorem core_stop_lost:
  fixes c :: "('b, 'o, 'v, 'd) sk_core" and S :: "('b, 'o, 'v) sched_outside"
  assumes "keeps_running S"
  shows "(\<forall>e \<in> set (engines (sk_core_stop c)). \<forall>k n w.
      sched_loop S (Suc k) n w (eg_addr e) (eg_sched e) = sched_round S n w (eg_addr e) (eg_sched e)) \<and>
   (\<forall>C c'. sk_core_start C (sk_core_stop c) = Inr c' \<longrightarrow> co_status c' = SK_CORE_RUNNING \<and> engines c' \<noteq> [] \<and>
      (\<forall>e \<in> set (engines c'). \<forall>k n w w' sd'. sched_loop S k n w (eg_addr e) (eg_sched e) = Inr (w', sd') \<longrightarrow>
         so_stop S w' (eg_addr e)))"
proof (intro conjI allI impI)
  have "\<forall>e \<in> set (engines (sk_core_stop c)). \<not> sd_running (eg_sched e)"
    by (auto simp: engines_def sk_core_stop_def sk_engine_stop_def sk_sched_stop_def split: option.split)
  then show "\<forall>e \<in> set (engines (sk_core_stop c)). \<forall>k n w.
      sched_loop S (Suc k) n w (eg_addr e) (eg_sched e) = sched_round S n w (eg_addr e) (eg_sched e)"
    using loop_stopped [OF assms] by blast
next
  fix C c' assume c': "sk_core_start C (sk_core_stop c) = Inr c'"
  then show "engines c' \<noteq> []"
    using start_master_spec by (fastforce simp: sk_core_start_def res_simps engines_def)
  show "co_status c' = SK_CORE_RUNNING" using core_start_spec [OF c'] by blast
  have "\<forall>e \<in> set (engines c'). sd_running (eg_sched e)"
    using core_start_spec [OF c'] by (auto simp: list_all_iff engine_running_def)
  then show "\<forall>e \<in> set (engines c'). \<forall>k n w w' sd'. sched_loop S k n w (eg_addr e) (eg_sched e) = Inr (w', sd') \<longrightarrow>
      so_stop S w' (eg_addr e)"
    using loop_needs_stop [OF assms] by blast
qed

text \<open>A server with a module, a worker and no background engine, before its start.\<close>

definition demo_engine :: "sk_engine_type \<Rightarrow> addr \<Rightarrow> (sk_srv_task cellbuf, u8 cellbuf, sk_event cellbuf, int) sk_engine" where
  "demo_engine ty a = \<lparr>eg_type = ty, eg_addr = a, eg_sched = \<lparr>sd_entity_mgr = 0, sd_io_tbl = [], sd_bridge_tbl = [],
     sd_last_delivery_idx = 0, sd_running = False, sd_flags = 0\<rparr>, eg_entity_mgr = 0, eg_mon = sk_mon_create 0,
     eg_pool = demo_two_eps, eg_env = None\<rparr>"

definition demo_ready :: "(sk_srv_task cellbuf, u8 cellbuf, sk_event cellbuf, int) sk_core" where
  "demo_ready = (core_zero (sk_timersvc_create empty_world 5))\<lparr>co_master := Some (demo_engine SK_ENGINE_MASTER 5),
     co_workers := [demo_engine SK_ENGINE_WORKER 6], co_unique_modules := [(''a'', demo_module 1)]\<rparr>"

lemmas demo_start_simps = sk_core_start_def demo_ready_def core_zero_def demo_engine_def demo_core_env_def start_threads_def
  sk_engine_start_def sk_engine_thread_def start_master_def trace_def engine_create_timer_def sk_entity_create_def Let_def
  sk_timersvc_timer_create_def sk_timersvc_create_def with_tmsvc_def set_tmsvc_def set_timer_def sk_core_stop_def sk_engine_stop_def

lemma demo_starts: "\<exists>c'. sk_core_start demo_core_env demo_ready = Inr c'" "\<exists>c'. sk_core_start demo_core_env (sk_core_stop demo_ready) = Inr c'"
  by (simp_all add: demo_start_simps)

theorem core_start_order_witness:
  "\<exists>c. sk_core_start demo_core_env demo_ready = Inr c \<and>
     co_trace c = [Init_module ''a'', Start_engine 6 ''worker-0'', Start_engine 5 ''master'']"
proof -
  obtain c where c: "sk_core_start demo_core_env demo_ready = Inr c" using demo_starts(1) by blast
  have "snprintf_s SK_ENV_NAME_LEN (''worker-'' @ nat_dec 0) = ''worker-0''" by code_simp
  then have "co_trace c = [Init_module ''a'', Start_engine 6 ''worker-0'', Start_engine 5 ''master'']"
    using core_start_order [OF c] by (auto simp: demo_ready_def core_zero_def demo_engine_def start_events_def)
  then show ?thesis by (intro exI [of _ c] conjI c)
qed

text \<open>Nothing happens outside, and no stop comes.\<close>

definition demo_outside :: "(sk_srv_task cellbuf, u8 cellbuf, sk_event cellbuf) sched_outside" where
  "demo_outside = \<lparr>so_F = cellbuf_ops SK_EVENT_SZ, so_E = demo_env, so_flags = (\<lambda>_. 0), so_expired = (\<lambda>_ _. []),
     so_remaining = (\<lambda>_ _. None), so_dispatch = (\<lambda>_ w _ sd. Inr (w, sd)), so_stop = (\<lambda>_ _. False)\<rparr>"

theorem core_stop_lost_witness:
  "\<exists>c. sk_core_start demo_core_env (sk_core_stop demo_ready) = Inr c \<and> engines c \<noteq> [] \<and>
     (\<forall>e \<in> set (engines c). \<forall>k n w w' sd'. sched_loop demo_outside k n w (eg_addr e) (eg_sched e) \<noteq> Inr (w', sd'))"
proof -
  have k: "keeps_running demo_outside" and s: "\<not> so_stop demo_outside w a" for w a
    by (simp_all add: keeps_running_def demo_outside_def)
  obtain c where c: "sk_core_start demo_core_env (sk_core_stop demo_ready) = Inr c" using demo_starts(2) by blast
  have "engines c \<noteq> [] \<and> (\<forall>e \<in> set (engines c). \<forall>k n w w' sd'.
      sched_loop demo_outside k n w (eg_addr e) (eg_sched e) = Inr (w', sd') \<longrightarrow> so_stop demo_outside w' (eg_addr e))"
    by (rule core_stop_lost [OF k, of demo_ready, THEN conjunct2, THEN spec, THEN spec, THEN mp, OF c, THEN conjunct2])
  with c s show ?thesis by (intro exI [of _ c]) simp
qed

lemma destroy_engines_trace:
  "destroy_engines C keys es c = Inr c' \<Longrightarrow> same_but_world c (map (\<lambda>e. Destroy_engine (eg_addr e)) es) c'"
  by (induction C keys es c rule: destroy_engines.induct) (auto simp: res_simps intro: same_but_world_step)

lemma module_destroy_trace:
  "module_destroy C mt ms c = Inr c' \<Longrightarrow> same_but_world c (map (\<lambda>(n, _). Release_module n) ms) c'"
  by (induction C mt ms c rule: module_destroy.induct) (auto simp: res_simps intro: same_but_world_trace)

lemma service_destroy_trace:
  "service_destroy C ss c = Inr c' \<Longrightarrow> same_but_world c (map (\<lambda>(n, _). Release_service n) ss) c'"
proof (induction ss arbitrary: c)
  case (Cons p ss)
  obtain name opt where p: "p = (name, opt)" by fastforce
  then have "service_destroy C ss (trace (Release_service name)
      (c\<lparr>co_w := (co_w c)\<lparr>w_svcs := (w_svcs (co_w c))(name := None)\<rparr>\<rparr>)) = Inr c'"
    using Cons.prems by (auto simp: with_svc_def res_simps split: option.splits)
  from same_but_world_step [OF Cons.IH [OF this]] p show ?case by simp
qed simp

text \<open>
  C33: the order of the end. Destroying the server closes every driver first, then destroys the workers, the
  background engines and the master, and only then releases every module once and every service once, and the languages last: the code of
  the user is not released while an engine could still call it.
\<close>
theorem core_destroy_order:
  assumes "sk_core_destroy C keys mtype libs c = Inr c'"
  shows "\<exists>t. co_user_libs c = Some t \<and> co_trace c' = co_trace c @
      map Stop_driver (in_order (en_fifo (ce_E C)) (co_drivers c)) @
      map (\<lambda>e. Destroy_engine (eg_addr e)) (co_workers c @ co_bio c @ (case co_master c of None \<Rightarrow> [] | Some m \<Rightarrow> [m])) @
      map (\<lambda>(n, _). Release_module n) (co_unique_modules c) @ map (\<lambda>(n, _). Release_service n) (co_services c) @
      map Unload_api (filter (\<lambda>l. t l \<noteq> None) libs) \<and>
    engines c' = [] \<and> co_drivers c' = [] \<and> co_unique_modules c' = [] \<and> co_services c' = []"
proof -
  let ?c = "c\<lparr>co_status := SK_CORE_DESTROYING,
    co_trace := co_trace c @ map Stop_driver (in_order (en_fifo (ce_E C)) (co_drivers c)), co_drivers := []\<rparr>"
  obtain c1 c2 c3 where r:
    "destroy_engines C keys (co_workers c @ co_bio c @ (case co_master c of None \<Rightarrow> [] | Some m \<Rightarrow> [m])) ?c = Inr c1"
    "module_destroy C mtype (co_unique_modules c1) (c1\<lparr>co_workers := [], co_bio := [], co_master := None\<rparr>) = Inr c2"
    "service_destroy C (co_services c2) c2 = Inr c3"
    "userlib_unload libs (c3\<lparr>co_unique_modules := [], co_services := [], co_workflows := [], co_admin_wf := None\<rparr>) = Inr c'"
    using assms by (auto simp: sk_core_destroy_def sk_engines_destroy_def Let_def res_simps)
  obtain w1 where 1: "c1 = ?c\<lparr>co_w := w1, co_trace := co_trace ?c @
      map (\<lambda>e. Destroy_engine (eg_addr e)) (co_workers c @ co_bio c @ (case co_master c of None \<Rightarrow> [] | Some m \<Rightarrow> [m]))\<rparr>"
    using destroy_engines_trace [OF r(1)] unfolding same_but_world_def by blast
  obtain w2 where 2: "c2 = c1\<lparr>co_workers := [], co_bio := [], co_master := None, co_w := w2,
      co_trace := co_trace c1 @ map (\<lambda>(n, _). Release_module n) (co_unique_modules c1)\<rparr>"
    using module_destroy_trace [OF r(2)] by (auto simp: same_but_world_def)
  obtain w3 where 3: "c3 = c2\<lparr>co_w := w3, co_trace := co_trace c2 @ map (\<lambda>(n, _). Release_service n) (co_services c2)\<rparr>"
    using service_destroy_trace [OF r(3)] by (auto simp: same_but_world_def)
  show ?thesis using r(4) by (auto simp: userlib_unload_def res_simps 3 2 1 engines_def)
qed

definition demo_down :: "(sk_srv_task cellbuf, u8 cellbuf, sk_event cellbuf, int) sk_core" where
  "demo_down = (core_zero empty_world)\<lparr>co_unique_modules := [(''a'', demo_module 1)], co_user_libs := Some [''l'' \<mapsto> 1]\<rparr>"

theorem core_destroy_order_witness:
  "\<exists>c. sk_core_destroy demo_core_env (\<lambda>_. ([], [])) (\<lambda>_. Some ''cpp'') [''l''] demo_down = Inr c \<and>
     co_trace c = [Release_module ''a'', Unload_api ''l'']"
proof -
  have "\<exists>c. sk_core_destroy demo_core_env (\<lambda>_. ([], [])) (\<lambda>_. Some ''cpp'') [''l''] demo_down = Inr c"
    by (simp add: sk_core_destroy_def sk_engines_destroy_def Let_def demo_down_def core_zero_def demo_core_env_def
        sk_module_unload_def loader_tbl_get_def demo_mloader_def userlib_unload_def trace_def)
  then obtain c where c: "sk_core_destroy demo_core_env (\<lambda>_. ([], [])) (\<lambda>_. Some ''cpp'') [''l''] demo_down = Inr c" by blast
  have "co_trace c = [Release_module ''a'', Unload_api ''l'']"
    using core_destroy_order [OF c] by (auto simp: demo_down_def core_zero_def)
  then show ?thesis by (intro exI [of _ c] conjI c)
qed

end
