(* ===== verification/User_C.thy ===== *)
theory User_C
  imports Ep_Reach Service_Pto
begin

text \<open>
  The C interface for services and modules: \<^verbatim>\<open>src/src/user-c/src\<close> (\<^verbatim>\<open>service.c\<close>, \<^verbatim>\<open>ep.c\<close>,
  \<^verbatim>\<open>srv_executor.c\<close>, \<^verbatim>\<open>txn.c\<close>, \<^verbatim>\<open>txn_helper.c\<close>, \<^verbatim>\<open>service_loader.c\<close>).

  A service gets a handle, a \<open>skull_service\<close>: the service, and the transaction and the task it works
  for. Through it the code of the service reads and writes the data of the service and of the call, creates jobs and sends
  requests to other servers. A job or request is \<^emph>\<open>pending\<close> when the call must wait for its callback: it is counted in the data of the task,
  and the last one reports to the module.

  The code of services is a parameter, given as programs over this interface (\<open>sprog\<close>). The pool of
  end points records the callbacks it makes (theory \<open>Ep_Pool\<close>); \<open>ep_cb\<close> is what runs then.
\<close>

section \<open>Data\<close>

text \<open>\<open>ss_task\<close> points into the table of tasks of a transaction.\<close>

record skull_service =
  ss_service :: string
  ss_txn :: "addr option"
  ss_task :: "tdref option"
  ss_freezed :: bool

datatype skull_job_rw = SKULL_JOB_READ | SKULL_JOB_WRITE

datatype skull_job_ret =
  SKULL_JOB_OK | SKULL_JOB_ERROR_ENV | SKULL_JOB_ERROR_NOCB | SKULL_JOB_ERROR_BIO | SKULL_JOB_ERROR_BUSY

text \<open>\<^verbatim>\<open>svc_job_type_t\<close>; \<^verbatim>\<open>ep.c\<close> has the same type as \<^verbatim>\<open>ep_job_type_t\<close>.\<close>

datatype svc_job_type = PENDING | NOPENDING

record job_data =
  uj_svc :: skull_service
  uj_type :: svc_job_type
  uj_rw :: skull_job_rw
  uj_cb :: "addr option"
  uj_destroyer :: "addr option"
  uj_ud :: addr

text \<open>The handler of a user has the layout of \<open>sk_ep_handler\<close>; the code copies it with \<^verbatim>\<open>memcpy\<close>.\<close>

record ep_job =
  ej_handler :: sk_ep_handler
  ej_service :: skull_service
  ej_type :: svc_job_type
  ej_cb :: addr
  ej_ud :: addr

text \<open>Calls of functions of the user.\<close>

datatype user_effect =
    Job_call addr skull_job_ret          \<comment> \<open>the callback of a job\<close>
  | Udfree addr addr                     \<comment> \<open>the destructor and the data of the user\<close>
  | Ep_call addr sk_ep_status            \<comment> \<open>the callback of a request\<close>
  | User_release addr addr

record ('b, 'o) user_world =
  us_pool :: "('b, 'o) ep_pool"
  us_jobs :: "addr \<rightharpoonup> job_data"
  us_epjobs :: "addr \<rightharpoonup> ep_job"
  us_log :: "user_effect list"

text \<open>The code of a service: the calls it makes, one after the other.\<close>

datatype sprog =
    Done int
  | Job_create u32 skull_job_rw "addr option" addr "addr option" "skull_job_ret \<Rightarrow> sprog"
  | Job_create_np u32 u32 skull_job_rw "addr option" addr "addr option" int "skull_job_ret \<Rightarrow> sprog"
  | Ep_send sk_ep_handler "u8 list" addr addr "sk_ep_status \<Rightarrow> sprog"
  | Ep_send_np sk_ep_handler "u8 list" addr addr "sk_ep_status \<Rightarrow> sprog"
  | Apidata_set int "u8 list" "int \<Rightarrow> sprog"
  | Apidata int "u8 list option \<Rightarrow> sprog"
  | Data_set addr sprog
  | Data "addr option \<Rightarrow> sprog"
  | Data_const "addr \<Rightarrow> sprog"

text \<open>The programs get the counter \<open>w_tick\<close>, the function that is called, and its arguments.\<close>

record ('b, 'o) user_env =
  ue_X :: "('b, 'o) ep_env"
  ue_init :: "nat \<Rightarrow> string \<Rightarrow> sprog"
  ue_release :: "nat \<Rightarrow> string \<Rightarrow> sprog"
  ue_iocall :: "nat \<Rightarrow> string \<Rightarrow> string \<Rightarrow> sprog"
  ue_job :: "nat \<Rightarrow> addr \<Rightarrow> skull_job_ret \<Rightarrow> addr \<Rightarrow> u8 list \<Rightarrow> u8 list \<Rightarrow> sprog"
  ue_job_np :: "nat \<Rightarrow> addr \<Rightarrow> skull_job_ret \<Rightarrow> addr \<Rightarrow> sprog"
  ue_ep_cb :: "nat \<Rightarrow> addr \<Rightarrow> sk_ep_status \<Rightarrow> u8 list \<Rightarrow> addr \<Rightarrow> u8 list \<Rightarrow> u8 list \<Rightarrow> sprog"
  ue_ep_np_cb :: "nat \<Rightarrow> addr \<Rightarrow> sk_ep_status \<Rightarrow> u8 list \<Rightarrow> addr \<Rightarrow> sprog"
  ue_unpack :: "nat \<Rightarrow> addr \<Rightarrow> addr \<Rightarrow> u8 list \<Rightarrow> int"

section \<open>Access\<close>

abbreviation uw :: "('b, 'o) user_world \<Rightarrow> ('b, 'o) world" where
  "uw u \<equiv> pw (us_pool u)"

abbreviation ue_E :: "('b, 'o) user_env \<Rightarrow> ('b, 'o) sk_env" where
  "ue_E U \<equiv> xe_E (ue_X U)"

definition set_uw :: "('b, 'o) user_world \<Rightarrow> ('b, 'o) world \<Rightarrow> ('b, 'o) user_world" where
  "set_uw u w = u\<lparr>us_pool := (us_pool u)\<lparr>pw := w\<rparr>\<rparr>"

definition ulog :: "('b, 'o) user_world \<Rightarrow> user_effect list \<Rightarrow> ('b, 'o) user_world" where
  "ulog u es = u\<lparr>us_log := us_log u @ es\<rparr>"

definition utick :: "('b, 'o) user_world \<Rightarrow> ('b, 'o) user_world" where
  "utick u = set_uw u (tick (uw u))"

text \<open>Memory for an object.\<close>

definition ualloc :: "('b, 'o) user_world \<Rightarrow> ('b, 'o) user_world \<times> addr" where
  "ualloc u = (set_uw u ((uw u)\<lparr>w_next := Suc (w_next (uw u))\<rparr>), w_next (uw u))"

definition with_td :: "('b, 'o) user_world \<Rightarrow> tdref \<Rightarrow> (sk_txn_taskdata_t \<Rightarrow> 'a res) \<Rightarrow> 'a res" where
  "with_td u td k = with_txn (uw u) (fst td) (\<lambda>txn. get_task txn (snd td) (\<lambda>task. k (tk_data task)))"

definition set_td :: "('b, 'o) user_world \<Rightarrow> tdref \<Rightarrow> (sk_txn_taskdata_t \<Rightarrow> sk_txn_taskdata_t) \<Rightarrow> ('b, 'o) user_world res" where
  "set_td u td f = with_txn (uw u) (fst td) (\<lambda>txn. get_task txn (snd td) (\<lambda>task.
     Inr (set_uw u (set_txn (uw u) (fst td)
       (txn\<lparr>tx_task_tbl := (tx_task_tbl txn)(snd td \<mapsto> task\<lparr>tk_data := f (tk_data task)\<rparr>)\<rparr>)))))"

section \<open>The data of a service and of a call\<close>

definition skull_service_data_set :: "('b, 'o) user_world \<Rightarrow> skull_service \<Rightarrow> addr \<Rightarrow> ('b, 'o) user_world res" where
  "skull_service_data_set u h d =
     (if ss_freezed h then Inr u
      else with_svc (uw u) (ss_service h) (\<lambda>sv.
        rbind (sk_service_data_set sv d) (\<lambda>sv. Inr (set_uw u (set_svc (uw u) (ss_service h) sv)))))"

definition skull_service_data :: "('b, 'o) user_world \<Rightarrow> skull_service \<Rightarrow> addr option res" where
  "skull_service_data u h =
     (if ss_freezed h then Inr None
      else with_svc (uw u) (ss_service h) (\<lambda>sv. rbind (sk_service_data sv) (\<lambda>d. Inr (Some d))))"

definition skull_service_data_const :: "('b, 'o) user_world \<Rightarrow> skull_service \<Rightarrow> addr res" where
  "skull_service_data_const u h = with_svc (uw u) (ss_service h) (\<lambda>sv. Inr (sk_service_data_const sv))"

definition SKULL_API_REQ :: int where "SKULL_API_REQ = 0"

definition skull_service_apidata_set ::
  "('b, 'o) user_world \<Rightarrow> skull_service \<Rightarrow> int \<Rightarrow> u8 list \<Rightarrow> (('b, 'o) user_world \<times> int) res" where
  "skull_service_apidata_set u h ty data = (case ss_task h of
     None \<Rightarrow> Inr (u, 1)
   | Some td \<Rightarrow>
       rbind (set_td u td (\<lambda>d. if ty = SKULL_API_REQ then d\<lparr>td_request := data\<rparr> else d\<lparr>td_response := data\<rparr>)) (\<lambda>u.
         Inr (u, 0)))"

definition skull_service_apidata :: "('b, 'o) user_world \<Rightarrow> skull_service \<Rightarrow> int \<Rightarrow> u8 list option res" where
  "skull_service_apidata u h ty = (case ss_task h of
     None \<Rightarrow> Inr None
   | Some td \<Rightarrow> with_td u td (\<lambda>d. Inr (Some (if ty = SKULL_API_REQ then td_request d else td_response d))))"

definition skull_service_apiname :: "('b, 'o) user_world \<Rightarrow> skull_service \<Rightarrow> string option res" where
  "skull_service_apiname u h = (case ss_task h of
     None \<Rightarrow> Inr None | Some td \<Rightarrow> with_td u td (\<lambda>d. Inr (Some (td_api_name d))))"

definition skull_service_name :: "('b, 'o) user_world \<Rightarrow> skull_service \<Rightarrow> string res" where
  "skull_service_name u h = with_svc (uw u) (ss_service h) (\<lambda>sv. Inr (sv_name sv))"

section \<open>Creating jobs\<close>

text \<open>The address of \<^verbatim>\<open>_job_cb\<close>.\<close>

definition JOB_CB :: addr where "JOB_CB = 5"

text \<open>The object around the data of a job is kept at the address of the data.\<close>

definition job_data_destroy :: "('b, 'o) user_world \<Rightarrow> addr \<Rightarrow> ('b, 'o) user_world res" where
  "job_data_destroy u obj = live (us_jobs u obj) (\<lambda>j.
     let u = (case uj_destroyer j of Some f \<Rightarrow> ulog u [Udfree f (uj_ud j)] | None \<Rightarrow> u)
     in Inr (u\<lparr>us_jobs := (us_jobs u)(obj := None)\<rparr>))"

text \<open>
  \<open>cur\<close> and \<open>emgr\<close> are the scheduler and the entity manager of the running engine, \<open>pos\<close> is
  \<^verbatim>\<open>SK_ENV_POS\<close>.
\<close>

definition create_job ::
  "('b, 'o) user_env \<Rightarrow> ('b, 'o) user_world \<Rightarrow> addr \<Rightarrow> addr \<Rightarrow> sk_env_pos \<Rightarrow> string \<Rightarrow> u32 \<Rightarrow> u32 \<Rightarrow> sk_service_job_rw \<Rightarrow>
   addr \<Rightarrow> addr \<Rightarrow> int \<Rightarrow> (('b, 'o) user_world \<times> sk_service_job_ret) res" where
  "create_job U u cur emgr pos name delayed interval rw job arg bidx =
     sk_assert (pos = SK_ENV_POS_SERVICE \<or> pos = SK_ENV_POS_CORE)
       (rbind (sk_service_job_create (ue_E U) (uw u) cur emgr name delayed interval rw job arg bidx) (\<lambda>(w, ret).
        rbind (if ret \<noteq> SK_SRV_JOB_OK then job_data_destroy (set_uw u w) arg else Inr (set_uw u w)) (\<lambda>u.
          Inr (u, ret))))"

definition skull_udfree :: "('b, 'o) user_world \<Rightarrow> addr option \<Rightarrow> addr \<Rightarrow> ('b, 'o) user_world" where
  "skull_udfree u udfree ud = (case udfree of Some f \<Rightarrow> ulog u [Udfree f ud] | None \<Rightarrow> u)"

text \<open>The error path returns 1, which is \<open>SKULL_JOB_ERROR_ENV\<close>.\<close>

definition skull_service_job_create ::
  "('b, 'o) user_env \<Rightarrow> ('b, 'o) user_world \<Rightarrow> addr \<Rightarrow> addr \<Rightarrow> sk_env_pos \<Rightarrow> skull_service \<Rightarrow> u32 \<Rightarrow> skull_job_rw \<Rightarrow>
   addr option \<Rightarrow> addr \<Rightarrow> addr option \<Rightarrow> (('b, 'o) user_world \<times> skull_job_ret) res" where
  "skull_service_job_create U u cur emgr pos h delayed ty job ud udfree =
     (case ss_task h of
        None \<Rightarrow> Inr (skull_udfree u udfree ud, SKULL_JOB_ERROR_ENV)
      | Some td \<Rightarrow>
          if ss_txn h = None \<or> job = None then Inr (skull_udfree u udfree ud, SKULL_JOB_ERROR_ENV)
          else
            (let (u, obj) = ualloc u;
                 j = \<lparr>uj_svc = h, uj_type = PENDING, uj_rw = ty, uj_cb = job, uj_destroyer = udfree, uj_ud = ud\<rparr>;
                 job_rw = (if ty = SKULL_JOB_READ then SK_SRV_JOB_READ else SK_SRV_JOB_WRITE)
             in rbind (create_job U (u\<lparr>us_jobs := (us_jobs u)(obj \<mapsto> j)\<rparr>) cur emgr pos (ss_service h) delayed 0 job_rw
                        JOB_CB obj 0) (\<lambda>(u, sret).
                  if sret \<noteq> SK_SRV_JOB_OK then Inr (u, SKULL_JOB_ERROR_BIO)
                  else rbind (set_td u td (\<lambda>d. d\<lparr>td_pendings := td_pendings d + 1\<rparr>)) (\<lambda>u. Inr (u, SKULL_JOB_OK)))))"

definition skull_service_job_create_np ::
  "('b, 'o) user_env \<Rightarrow> ('b, 'o) user_world \<Rightarrow> addr \<Rightarrow> addr \<Rightarrow> sk_env_pos \<Rightarrow> skull_service \<Rightarrow> u32 \<Rightarrow> u32 \<Rightarrow> skull_job_rw \<Rightarrow>
   addr option \<Rightarrow> addr \<Rightarrow> addr option \<Rightarrow> int \<Rightarrow> (('b, 'o) user_world \<times> skull_job_ret) res" where
  "skull_service_job_create_np U u cur emgr pos h delayed interval ty job ud udfree bidx =
     (if job = None then Inr (skull_udfree u udfree ud, SKULL_JOB_ERROR_NOCB)
      else
        (let (u, obj) = ualloc u;
             j = \<lparr>uj_svc = h, uj_type = NOPENDING, uj_rw = ty, uj_cb = job, uj_destroyer = udfree, uj_ud = ud\<rparr>;
             job_rw = (if ty = SKULL_JOB_READ then SK_SRV_JOB_READ else SK_SRV_JOB_WRITE)
         in rbind (create_job U (u\<lparr>us_jobs := (us_jobs u)(obj \<mapsto> j)\<rparr>) cur emgr pos (ss_service h) delayed interval job_rw
                    JOB_CB obj bidx) (\<lambda>(u, sret).
              Inr (u, if sret \<noteq> SK_SRV_JOB_OK then SKULL_JOB_ERROR_BIO else SKULL_JOB_OK))))"

section \<open>Requests to other servers\<close>

text \<open>The addresses of \<^verbatim>\<open>_unpack\<close>, \<^verbatim>\<open>_release\<close> and \<^verbatim>\<open>_ep_cb\<close>.\<close>

definition EP_UNPACK :: addr where "EP_UNPACK = 6"
definition EP_RELEASE :: addr where "EP_RELEASE = 7"
definition EP_CB :: addr where "EP_CB = 8"

definition ep_unpack :: "('b, 'o) user_env \<Rightarrow> ('b, 'o) user_world \<Rightarrow> addr \<Rightarrow> u8 list \<Rightarrow> int res" where
  "ep_unpack U u ud data = live (us_epjobs u ud) (\<lambda>j. deref (eh_unpack (ej_handler j)) (\<lambda>f.
     Inr (ue_unpack U (w_tick (uw u)) f (ej_ud j) data)))"

definition ep_release :: "('b, 'o) user_world \<Rightarrow> addr \<Rightarrow> ('b, 'o) user_world res" where
  "ep_release u ud =
     (if ud = 0 then Inr u
      else live (us_epjobs u ud) (\<lambda>j.
        let u = (case eh_release (ej_handler j) of Some f \<Rightarrow> ulog u [User_release f (ej_ud j)] | None \<Rightarrow> u)
        in Inr (u\<lparr>us_epjobs := (us_epjobs u)(ud := None)\<rparr>)))"

definition ep_job_create ::
  "('b, 'o) user_world \<Rightarrow> skull_service \<Rightarrow> sk_ep_handler \<Rightarrow> svc_job_type \<Rightarrow> addr \<Rightarrow> addr \<Rightarrow>
   ('b, 'o) user_world \<times> addr \<times> sk_ep_handler" where
  "ep_job_create u h handler ty cb ud =
     (let (u, a) = ualloc u;
          j = \<lparr>ej_handler = handler, ej_service = h, ej_type = ty, ej_cb = cb, ej_ud = ud\<rparr>;
          sk_handler = handler\<lparr>eh_unpack := map_option (\<lambda>_. EP_UNPACK) (eh_unpack handler),
                               eh_release := Some EP_RELEASE, eh_flags := 0\<rparr>
      in (u\<lparr>us_epjobs := (us_epjobs u)(a \<mapsto> j)\<rparr>, a, sk_handler))"

text \<open>What the two functions share: the entity of the transaction, the request, and the release of the job when it is refused.\<close>

definition send_job ::
  "('b, 'o) user_env \<Rightarrow> ('b, 'o) user_world \<Rightarrow> skull_service \<Rightarrow> sk_ep_handler \<Rightarrow> svc_job_type \<Rightarrow> u8 list \<Rightarrow> addr \<Rightarrow> addr \<Rightarrow>
   (('b, 'o) user_world \<times> sk_ep_status) res" where
  "send_job U u h handler ty data cb ud =
     (let (u, job, sk_handler) = ep_job_create u h handler ty cb ud
      in rbind (case ss_txn h of None \<Rightarrow> Inr 0 | Some t \<Rightarrow> with_txn (uw u) t (\<lambda>txn. Inr (tx_entity txn))) (\<lambda>ett.
         rbind (sk_ep_send (ue_X U) (us_pool u) (ss_service h) ett sk_handler data (Some EP_CB) job) (\<lambda>(p, ret).
         rbind (if ret \<noteq> SK_EP_OK then ep_release (u\<lparr>us_pool := p\<rparr>) job else Inr (u\<lparr>us_pool := p\<rparr>)) (\<lambda>u.
           Inr (u, ret)))))"

definition skull_ep_send ::
  "('b, 'o) user_env \<Rightarrow> ('b, 'o) user_world \<Rightarrow> skull_service \<Rightarrow> sk_ep_handler \<Rightarrow> u8 list \<Rightarrow> addr \<Rightarrow> addr \<Rightarrow>
   (('b, 'o) user_world \<times> sk_ep_status) res" where
  "skull_ep_send U u h handler data cb ud = (case ss_task h of
     None \<Rightarrow> Inr (case eh_release handler of Some f \<Rightarrow> ulog u [User_release f ud] | None \<Rightarrow> u, SK_EP_ERROR)
   | Some td \<Rightarrow>
       rbind (send_job U u h handler PENDING data cb ud) (\<lambda>(u, ret).
       rbind (if ret = SK_EP_OK then set_td u td (\<lambda>d. d\<lparr>td_pendings := td_pendings d + 1\<rparr>) else Inr u) (\<lambda>u.
         Inr (u, ret))))"

definition skull_ep_send_np ::
  "('b, 'o) user_env \<Rightarrow> ('b, 'o) user_world \<Rightarrow> skull_service \<Rightarrow> sk_ep_handler \<Rightarrow> u8 list \<Rightarrow> addr \<Rightarrow> addr \<Rightarrow>
   (('b, 'o) user_world \<times> sk_ep_status) res" where
  "skull_ep_send_np U u h handler data cb ud = send_job U u h handler NOPENDING data cb ud"

section \<open>Running code of a service\<close>

primrec run_sprog ::
  "('b, 'o) user_env \<Rightarrow> addr \<Rightarrow> addr \<Rightarrow> sk_env_pos \<Rightarrow> skull_service \<Rightarrow> sprog \<Rightarrow> ('b, 'o) user_world \<Rightarrow>
   (('b, 'o) user_world \<times> int) res" where
  "run_sprog U cur emgr pos h (Done r) u = Inr (u, r)"
| "run_sprog U cur emgr pos h (Job_create d ty job ud f k) u =
     rbind (skull_service_job_create U u cur emgr pos h d ty job ud f) (\<lambda>(u, r). run_sprog U cur emgr pos h (k r) u)"
| "run_sprog U cur emgr pos h (Job_create_np d iv ty job ud f bidx k) u =
     rbind (skull_service_job_create_np U u cur emgr pos h d iv ty job ud f bidx) (\<lambda>(u, r).
       run_sprog U cur emgr pos h (k r) u)"
| "run_sprog U cur emgr pos h (Ep_send handler data cb ud k) u =
     rbind (skull_ep_send U u h handler data cb ud) (\<lambda>(u, r). run_sprog U cur emgr pos h (k r) u)"
| "run_sprog U cur emgr pos h (Ep_send_np handler data cb ud k) u =
     rbind (skull_ep_send_np U u h handler data cb ud) (\<lambda>(u, r). run_sprog U cur emgr pos h (k r) u)"
| "run_sprog U cur emgr pos h (Apidata_set ty data k) u =
     rbind (skull_service_apidata_set u h ty data) (\<lambda>(u, r). run_sprog U cur emgr pos h (k r) u)"
| "run_sprog U cur emgr pos h (Apidata ty k) u =
     rbind (skull_service_apidata u h ty) (\<lambda>r. run_sprog U cur emgr pos h (k r) u)"
| "run_sprog U cur emgr pos h (Data_set d p) u =
     rbind (skull_service_data_set u h d) (\<lambda>u. run_sprog U cur emgr pos h p u)"
| "run_sprog U cur emgr pos h (Data k) u =
     rbind (skull_service_data u h) (\<lambda>r. run_sprog U cur emgr pos h (k r) u)"
| "run_sprog U cur emgr pos h (Data_const k) u =
     rbind (skull_service_data_const u h) (\<lambda>r. run_sprog U cur emgr pos h (k r) u)"

section \<open>The code of a service is called\<close>

text \<open>Initialisation and release have no task, so they can neither create pending jobs nor send pending requests.\<close>

definition skull_srv_init ::
  "('b, 'o) user_env \<Rightarrow> ('b, 'o) user_world \<Rightarrow> addr \<Rightarrow> addr \<Rightarrow> sk_env_pos \<Rightarrow> string \<Rightarrow> (('b, 'o) user_world \<times> int) res" where
  "skull_srv_init U u cur emgr pos name =
     run_sprog U cur emgr pos \<lparr>ss_service = name, ss_txn = None, ss_task = None, ss_freezed = False\<rparr>
       (ue_init U (w_tick (uw u)) name) (utick u)"

definition skull_srv_release ::
  "('b, 'o) user_env \<Rightarrow> ('b, 'o) user_world \<Rightarrow> addr \<Rightarrow> addr \<Rightarrow> sk_env_pos \<Rightarrow> string \<Rightarrow> ('b, 'o) user_world res" where
  "skull_srv_release U u cur emgr pos name =
     rbind (run_sprog U cur emgr pos \<lparr>ss_service = name, ss_txn = None, ss_task = None, ss_freezed = False\<rparr>
       (ue_release U (w_tick (uw u)) name) (utick u)) (\<lambda>(u, _). Inr u)"

definition skull_srv_iocall ::
  "('b, 'o) user_env \<Rightarrow> ('b, 'o) user_world \<Rightarrow> addr \<Rightarrow> addr \<Rightarrow> string \<Rightarrow> addr \<Rightarrow> tdref \<Rightarrow> string \<Rightarrow>
   (('b, 'o) user_world \<times> int) res" where
  "skull_srv_iocall U u cur emgr name t td apiname = with_svc (uw u) name (\<lambda>sv.
     if sk_service_api sv apiname = None then Inr (u, 1)
     else run_sprog U cur emgr SK_ENV_POS_SERVICE
            \<lparr>ss_service = name, ss_txn = Some t, ss_task = Some td, ss_freezed = False\<rparr>
            (ue_iocall U (w_tick (uw u)) name apiname) (utick u))"

text \<open>The handler of \<^verbatim>\<open>SK_PTO_SVC_TASK_RUN\<close> (theory \<open>Service_Pto\<close>) for a service written in C.\<close>

definition user_task_run ::
  "('b, 'o) user_env \<Rightarrow> ('b, 'o) user_world \<Rightarrow> addr \<Rightarrow> addr \<Rightarrow> addr \<Rightarrow> addr \<Rightarrow> addr \<Rightarrow> string \<Rightarrow> string \<Rightarrow> addr \<Rightarrow> tdref \<Rightarrow>
   (('b, 'o) user_world \<times> int) res" where
  "user_task_run U u cur emgr src a t name apiname api_caller td =
     sk_assert (src = en_master (ue_E U)) (with_svc (uw u) name (\<lambda>_.
       rbind (skull_srv_iocall U u cur emgr name t td apiname) (\<lambda>(u, ret).
       sk_assert (ret = 0)
         (with_td u td (\<lambda>d. with_svc (uw u) name (\<lambda>sv. deref (sk_service_api sv apiname) (\<lambda>api.
            let txn_status = (if sk_txn_task_done d then SK_TXN_TASK_DONE else SK_TXN_TASK_PENDING)
            in Inr (set_uw u (fx (send (uw u) cur (Some api_caller) a (Some t)
                         (Svc_task_cb td name (api_name api) txn_status True))
                      [Metric ''worker.srv_iocall_execute'', Metric ''global.srv_iocall_execute'']), 0))))))))"

text \<open>
  \<^verbatim>\<open>sk_service_api_complete\<close> with the world of this theory.
\<close>

definition api_complete ::
  "('b, 'o) user_env \<Rightarrow> ('b, 'o) user_world \<Rightarrow> addr \<Rightarrow> string \<Rightarrow> tdref \<Rightarrow> string \<Rightarrow> ('b, 'o) user_world res" where
  "api_complete U u cur name td apiname =
     rbind (sk_service_api_complete (ue_E U) (uw u) cur name (fst td) (snd td) apiname) (\<lambda>w. Inr (set_uw u w))"

text \<open>The callback of a pending job or request has returned: it counts no more, and the last one completes the call.\<close>

definition pending_done ::
  "('b, 'o) user_env \<Rightarrow> ('b, 'o) user_world \<Rightarrow> addr \<Rightarrow> string \<Rightarrow> tdref \<Rightarrow> ('b, 'o) user_world res" where
  "pending_done U u cur name td =
     rbind (set_td u td (\<lambda>d. d\<lparr>td_pendings := td_pendings d - 1\<rparr>)) (\<lambda>u.
     with_td u td (\<lambda>d. api_complete U u cur name td (td_api_name d)))"

text \<open>\<^verbatim>\<open>_job_cb\<close>, which the handler of \<^verbatim>\<open>SK_PTO_SVC_TIMER_RUN\<close> calls in the position of the service.\<close>

definition job_cb ::
  "('b, 'o) user_env \<Rightarrow> ('b, 'o) user_world \<Rightarrow> addr \<Rightarrow> addr \<Rightarrow> string \<Rightarrow> sk_service_job_ret \<Rightarrow> addr \<Rightarrow> bool \<Rightarrow>
   ('b, 'o) user_world res" where
  "job_cb U u cur emgr sk_svc ret obj valid = live (us_jobs u obj) (\<lambda>j.
     sk_assert valid (sk_assert (ret = SK_SRV_JOB_OK \<or> ret = SK_SRV_JOB_ERROR_BUSY)
       (sk_assert (ss_service (uj_svc j) = sk_svc)
         (let skull_ret = (if ret \<noteq> SK_SRV_JOB_OK then SKULL_JOB_ERROR_BUSY else SKULL_JOB_OK);
              h = (uj_svc j)\<lparr>ss_freezed := ret \<noteq> SK_SRV_JOB_OK \<or> uj_rw j = SKULL_JOB_READ\<rparr>;
              tick = w_tick (uw u); u' = utick (ulog u [Job_call obj skull_ret])
          in case uj_type j of
               PENDING \<Rightarrow> (case ss_task h of
                   None \<Rightarrow> Inl Assert
                 | Some td \<Rightarrow> sk_assert (ss_txn h \<noteq> None)
                     (rbind (case uj_cb j of
                               None \<Rightarrow> Inr u
                             | Some f \<Rightarrow> with_td u td (\<lambda>d.
                                 rbind (run_sprog U cur emgr SK_ENV_POS_SERVICE h
                                          (ue_job U tick f skull_ret (uj_ud j) (td_request d) (td_response d)) u') (\<lambda>(u, _).
                                   Inr u))) (\<lambda>u.
                      pending_done U u cur sk_svc td)))
             | NOPENDING \<Rightarrow> deref (uj_cb j) (\<lambda>f.
                 rbind (run_sprog U cur emgr SK_ENV_POS_SERVICE (h\<lparr>ss_task := None, ss_txn := None\<rparr>)
                          (ue_job_np U tick f skull_ret (uj_ud j)) u') (\<lambda>(u, _). Inr u))))))"

text \<open>
  \<^verbatim>\<open>_ep_cb\<close>. The handle is always frozen: the callback may run on several threads at once.
\<close>

definition ep_cb ::
  "('b, 'o) user_env \<Rightarrow> ('b, 'o) user_world \<Rightarrow> addr \<Rightarrow> addr \<Rightarrow> sk_ep_status \<Rightarrow> u8 list \<Rightarrow> addr \<Rightarrow> ('b, 'o) user_world res" where
  "ep_cb U u cur emgr ret response ud = live (us_epjobs u ud) (\<lambda>j.
     let h = (ej_service j)\<lparr>ss_freezed := True\<rparr>; tick = w_tick (uw u); u' = utick (ulog u [Ep_call ud ret])
     in case ej_type j of
          PENDING \<Rightarrow> (case ss_task h of
              None \<Rightarrow> Inl Assert
            | Some td \<Rightarrow> sk_assert (ss_txn h \<noteq> None) (with_td u td (\<lambda>d.
                rbind (run_sprog U cur emgr SK_ENV_POS_SERVICE h
                         (ue_ep_cb U tick (ej_cb j) ret response (ej_ud j) (td_request d) (td_response d)) u') (\<lambda>(u, _).
                  pending_done U u cur (ss_service h) td))))
        | NOPENDING \<Rightarrow>
            rbind (run_sprog U cur emgr SK_ENV_POS_SERVICE (h\<lparr>ss_task := None, ss_txn := None\<rparr>)
                     (ue_ep_np_cb U tick (ej_cb j) ret response (ej_ud j)) u') (\<lambda>(u, _). Inr u))"

section \<open>Modules\<close>

text \<open>
  The handle of a module is its transaction; \<^verbatim>\<open>skull_txn_init\<close> only looks up a name and
  \<^verbatim>\<open>skull_txn_release\<close> is empty, so running a module is running its program (\<open>run_uprog\<close>).
\<close>

definition skull_txn_setdata :: "('b, 'o) world \<Rightarrow> addr \<Rightarrow> addr \<Rightarrow> ('b, 'o) world res" where
  "skull_txn_setdata w t data = with_txn w t (\<lambda>txn. Inr (set_txn w t (sk_txn_setudata txn data)))"

definition skull_txn_data :: "('b, 'o) world \<Rightarrow> addr \<Rightarrow> addr res" where
  "skull_txn_data w t = with_txn w t (\<lambda>txn. Inr (tx_udata txn))"

datatype skull_txn_status_t = SKULL_TXN_OK | SKULL_TXN_ERROR | SKULL_TXN_TIMEOUT

definition skull_txn_status :: "('b, 'o) world \<Rightarrow> addr \<Rightarrow> skull_txn_status_t res" where
  "skull_txn_status w t = with_txn w t (\<lambda>txn. sk_assert (tx_state txn \<noteq> SK_TXN_DESTROYED)
     (Inr (if tx_state txn = SK_TXN_ERROR then SKULL_TXN_ERROR
           else if tx_state txn = SK_TXN_TIMEOUT then SKULL_TXN_TIMEOUT else SKULL_TXN_OK)))"

datatype skull_txn_peer_type =
    SKULL_TXN_PEER_T_NONE | SKULL_TXN_PEER_T_STD | SKULL_TXN_PEER_T_TCPV4 | SKULL_TXN_PEER_T_TCPV6
  | SKULL_TXN_PEER_T_UDPV4 | SKULL_TXN_PEER_T_UDPV6

fun peer_type_of :: "sk_entity_type \<Rightarrow> skull_txn_peer_type" where
  "peer_type_of SK_ENTITY_STD = SKULL_TXN_PEER_T_STD"
| "peer_type_of SK_ENTITY_SOCK_V4TCP = SKULL_TXN_PEER_T_TCPV4"
| "peer_type_of SK_ENTITY_SOCK_V6TCP = SKULL_TXN_PEER_T_TCPV6"
| "peer_type_of SK_ENTITY_SOCK_V4UDP = SKULL_TXN_PEER_T_UDPV4"
| "peer_type_of SK_ENTITY_SOCK_V6UDP = SKULL_TXN_PEER_T_UDPV6"
| "peer_type_of _ = SKULL_TXN_PEER_T_NONE"

definition skull_txn_peertype :: "('b, 'o) world \<Rightarrow> addr \<Rightarrow> skull_txn_peer_type res" where
  "skull_txn_peertype w t = with_txn w t (\<lambda>txn. with_ent w (tx_entity txn) (\<lambda>e. Inr (peer_type_of (e_type e))))"

text \<open>
  \<^verbatim>\<open>skull_module_unpack\<close>: a transaction whose data is set already must not be unpacked again. \<open>unpack\<close> is the code of the module.
\<close>

definition skull_module_unpack ::
  "('b, 'o) sk_env \<Rightarrow> ('b, 'o) world \<Rightarrow> addr \<Rightarrow> addr \<Rightarrow> (u8 list \<Rightarrow> int \<times> uprog) \<Rightarrow> u8 list \<Rightarrow> (('b, 'o) world \<times> int) res" where
  "skull_module_unpack E w cur t unpack data = with_txn w t (\<lambda>txn. sk_assert (tx_udata txn = 0)
     (let (consumed, prog) = unpack data in rbind (run_uprog E w cur t prog) (\<lambda>(w, _). Inr (w, consumed))))"

section \<open>Registration\<close>

datatype skull_service_api_type = SKULL_SVC_API_READ | SKULL_SVC_API_WRITE

definition skull_service_api_register ::
  "('b, 'o) user_world \<Rightarrow> skull_service \<Rightarrow> string \<Rightarrow> skull_service_api_type \<Rightarrow> ('b, 'o) user_world res" where
  "skull_service_api_register u h name ty = with_svc (uw u) (ss_service h) (\<lambda>sv.
     Inr (set_uw u (set_svc (uw u) (ss_service h)
       (sk_service_api_register sv name (if ty = SKULL_SVC_API_READ then SK_SRV_API_READ else SK_SRV_API_WRITE)))))"

end
