(* ===== verification/User_C_Proofs.thy ===== *)
theory User_C_Proofs
  imports User_C
begin

text \<open>
  The accounting of pending jobs and requests: a call of a service reports that it is done exactly once, when
  nothing is outstanding. And a request that could not be written: its job is freed, but the pool still uses it.
\<close>

section \<open>What does not complete a call\<close>

text \<open>The message that tells the module that the task is done.\<close>

fun done_report :: "tdref \<Rightarrow> pto_msg \<Rightarrow> bool" where
  "done_report td (Svc_task_cb td' _ _ st _) \<longleftrightarrow> td' = td \<and> st = SK_TXN_TASK_DONE"
| "done_report td _ \<longleftrightarrow> False"

definition reports :: "tdref \<Rightarrow> ('b, 'o) world \<Rightarrow> sk_event list" where
  "reports td w = filter (\<lambda>ev. done_report td (ev_msg ev)) (w_sends w)"

text \<open>
  \<open>mild w w'\<close>: transactions may have been destroyed, but none was changed; no report was sent; no address was given back.
\<close>

definition mild :: "('b, 'o) world \<Rightarrow> ('b, 'o) world \<Rightarrow> bool" where
  "mild w w' \<longleftrightarrow> w_txns w' \<subseteq>\<^sub>m w_txns w \<and> (\<forall>td. reports td w' = reports td w) \<and> w_next w \<le> w_next w'"

lemma mildD: "mild w w' \<Longrightarrow> reports td w' = reports td w" "mild w w' \<Longrightarrow> w_next w \<le> w_next w'"
  by (simp_all add: mild_def del: split_paired_All)

lemma mild_refl [simp]: "mild w w"
  by (simp add: mild_def)

lemma mild_trans: "mild w w' \<Longrightarrow> mild w' w'' \<Longrightarrow> mild w w''"
  by (auto simp: mild_def intro: map_le_trans)

lemma mild_upd [simp]:
  "mild w0 (fx w es) = mild w0 w" "mild w0 (tick w) = mild w0 w" "mild w0 (set_ent w a e) = mild w0 w"
  "mild w0 (set_mgr w a m) = mild w0 w" "mild w0 (set_timer w a tm) = mild w0 w" "mild w0 (set_tmsvc w a v) = mild w0 w"
  "mild w0 (set_svc w n sv) = mild w0 w"
  "mild w0 (w\<lparr>w_timers := T\<rparr>) = mild w0 w" "mild w0 (w\<lparr>w_jobs := J\<rparr>) = mild w0 w" "mild w0 (w\<lparr>w_ents := D\<rparr>) = mild w0 w"
  "mild w0 (w\<lparr>w_mgrs := M\<rparr>) = mild w0 w"
  by (simp_all add: mild_def reports_def world_acc set_timer_def set_tmsvc_def)

lemma mild_send: "(\<And>td. \<not> done_report td m) \<Longrightarrow> mild w0 (send w s d a t m) = mild w0 w"
  by (simp add: mild_def reports_def send_def)

lemma mild_next: "mild w0 w \<Longrightarrow> w_next w \<le> n \<Longrightarrow> mild w0 (w\<lparr>w_next := n\<rparr>)"
  by (simp add: mild_def reports_def)

lemma mild_del: "mild w0 w \<Longrightarrow> mild w0 (w\<lparr>w_txns := (w_txns w)(t := None)\<rparr>)"
  by (auto simp: mild_def reports_def map_le_def)

lemma safe_any: "(\<And>x. safe (f x) Q) \<Longrightarrow> safe (rbind m f) Q"
  by (auto simp: safe_def res_simps)

named_theorems milds \<open>operations of the world that complete no call\<close>

lemma cancel_mild [milds]: "mild w0 w \<Longrightarrow> safe (sk_timer_cancel w tm) (mild w0)"
  by (auto simp: sk_timer_cancel_def with_timer_def mild_send)

lemma timer_create_mild [milds]: "mild w0 w \<Longrightarrow> safe (sk_timersvc_timer_create w sv a d i f u) (\<lambda>(w, _). mild w0 w)"
  by (auto simp: sk_timersvc_timer_create_def with_tmsvc_def Let_def intro!: mild_next)

lemma write_mild [milds]: "mild w0 w \<Longrightarrow> safe (sk_entity_write E w a bs) (\<lambda>(w, _). mild w0 w)"
  by (auto simp: sk_entity_write_def with_ent_def split: opt_fn.split)

lemma tcp_create_mild [milds]: "mild w0 w \<Longrightarrow> safe (sk_entity_tcp_create w a u) (mild w0)"
  by (auto simp: sk_entity_tcp_create_def sk_entity_evb_create_def with_ent_def)

lemma txn_destroy_mild: "mild w0 w \<Longrightarrow> safe (sk_txn_destroy w t) (mild w0)"
  by (auto simp: sk_txn_destroy_def sk_entity_txndel_def with_txn_def with_ent_def Let_def safe_def res_simps intro!: mild_del)

lemma destroy_txns_mild: "mild w0 w \<Longrightarrow> safe (destroy_txns w ts) (mild w0)"
proof (induction ts arbitrary: w)
  case (Cons t ts)
  then show ?case by (auto intro!: safe_bind [OF txn_destroy_mild])
qed simp

lemma iqueue_pop_mild: "mild w0 w \<Longrightarrow> safe (sk_entity_iqueue_pop E w a) (\<lambda>(w, _). mild w0 w)"
  by (auto simp: sk_entity_iqueue_pop_def with_ent_def Let_def case_prod_unfold)

lemma drain_mild: "mild w0 w \<Longrightarrow> safe (drain_iqueue E n w a) (mild w0)"
proof (induction n arbitrary: w)
  case (Suc n)
  then show ?case by (auto intro!: safe_bind [OF iqueue_pop_mild] safe_bind [OF txn_destroy_mild] split: option.split)
qed simp

lemma ent_destroy_mild: "mild w0 w \<Longrightarrow> safe (sk_entity_destroy E w a) (mild w0)"
  by (auto simp: sk_entity_destroy_def with_ent_def Let_def intro!: safe_bind [OF destroy_txns_mild] safe_bind [OF drain_mild])

lemma mark_mild: "mild w0 w \<Longrightarrow> safe (sk_entity_mark w a st) (mild w0)"
  by (auto simp: sk_entity_mark_def with_ent_def Let_def)

lemma mgr_add_mild [milds]: "mild w0 w \<Longrightarrow> safe (sk_entity_mgr_add w m a) (mild w0)"
  by (auto simp: sk_entity_mgr_add_def with_ent_def with_mgr_def Let_def intro!: safe_any)

lemma mgr_del_mild [milds]: "mild w0 w \<Longrightarrow> safe (sk_entity_mgr_del E w m a) (mild w0)"
  by (auto simp: sk_entity_mgr_del_def with_ent_def with_mgr_def Let_def intro!: safe_bind [OF mark_mild] safe_bind [OF ent_destroy_mild])

lemma cleanup_one_mild: "mild w0 w \<Longrightarrow> safe (cleanup_one E f w m mgr) (mild w0)"
  by (auto simp: cleanup_one_def with_ent_def Let_def case_prod_unfold intro!: safe_bind [OF ent_destroy_mild] ent_destroy_mild)

lemma cleanup_loop_mild: "mild w0 w \<Longrightarrow> safe (cleanup_loop E f n w m) (mild w0)"
proof (induction n arbitrary: w)
  case (Suc n)
  then show ?case by (auto simp: with_mgr_def intro!: safe_bind [OF cleanup_one_mild])
qed simp

lemma clean_dead_mild [milds]: "mild w0 w \<Longrightarrow> safe (sk_entity_mgr_clean_dead E w m) (mild w0)"
  by (auto simp: sk_entity_mgr_clean_dead_def cleanup_dead_entities_def with_mgr_def Let_def intro!: safe_bind [OF cleanup_loop_mild])

lemma ent_create_mild: "mild w0 w \<Longrightarrow> mild w0 (fst (sk_entity_create w flow ty))"
  by (auto simp: sk_entity_create_def Let_def intro!: mild_next)

section \<open>The pool of end points completes no call\<close>

lemma pool_upd [simp]:
  "pw (set_ep p x ep) = pw p" "pw (set_node p n d) = pw p" "pw (plog p es) = pw p" "pw (put_mgr p r m) = pw p"
  by (simp_all add: set_ep_def set_node_def plog_def put_mgr_def split: mgr_ref.split)

lemma metric2_mild [simp]: "mild w0 (pw (metric2 p s)) = mild w0 (pw p)"
  by (simp add: metric2_def)

lemma in_world_mild: "safe m (mild w0) \<Longrightarrow> safe (in_world p m) (\<lambda>p. mild w0 (pw p))"
  by (auto simp: in_world_def safe_def res_simps)

lemma cancelt_mild: "mild w0 (pw p) \<Longrightarrow> safe (cancel_timer p t) (\<lambda>p. mild w0 (pw p))"
  by (auto simp: cancel_timer_def split: option.split intro!: in_world_mild milds)

lemma create_timer_mild: "mild w0 (pw p) \<Longrightarrow> safe (create_timer p ty tg f t) (\<lambda>(p, _). mild w0 (pw p))"
  by (auto simp: create_timer_def Let_def case_prod_unfold intro!: safe_bind [OF timer_create_mild] mild_next ent_create_mild)

lemma shutdown_timer_mild: "mild w0 (pw p) \<Longrightarrow> safe (ep_create_shutdown_timer p x e) (\<lambda>p. mild w0 (pw p))"
  unfolding ep_create_shutdown_timer_def access safe_simps
  by (intro allI impI safe_bind [where P = "\<lambda>(p, _). mild w0 (pw p)"])
    (auto simp: timer_defs access split: option.split intro!: safe_reset safe_bind [OF cancelt_mild] safe_bind [OF create_timer_mild])

lemma time_mild:
  "mild w0 (pw p) \<Longrightarrow> mild w0 (pw (fst (sk_ep_txn_time_left X p d)))"
  "mild w0 (pw p) \<Longrightarrow> mild w0 (pw (fst (sk_ep_timeout X p d)))"
  by (simp_all add: sk_ep_txn_time_left_def sk_ep_timeout_def time_ms_def Let_def)

lemma send_timers_mild: "mild w0 (pw p) \<Longrightarrow> safe (ep_send_timers X p n d) (\<lambda>p. mild w0 (pw p))"
  by (auto simp: ep_send_timers_def Let_def case_prod_unfold timer_defs access
      intro!: safe_bind [OF shutdown_timer_mild] shutdown_timer_mild safe_bind [OF create_timer_mild] time_mild)

lemma ep_write_mild: "mild w0 (pw p) \<Longrightarrow> safe (ep_send X p n data) (\<lambda>(p, _). mild w0 (pw p))"
  by (auto simp: ep_send_def Let_def access intro!: safe_bind [OF write_mild] safe_bind [OF send_timers_mild])

lemma node_destroy_mild: "mild w0 (pw p) \<Longrightarrow> safe (ep_node_destroy p n rel) (\<lambda>p. mild w0 (pw p))"
  by (auto simp: ep_node_destroy_def ep_data_release_def access Let_def
      intro!: safe_bind [where P = "\<lambda>p. mild w0 (pw p)"] safe_bind [OF cancelt_mild])

lemma destroy_nodes_mild: "mild w0 (pw p) \<Longrightarrow> safe (destroy_nodes p ns) (\<lambda>p. mild w0 (pw p))"
proof (induction ns arbitrary: p)
  case (Cons n ns)
  then show ?case by (auto intro!: safe_bind [OF node_destroy_mild])
qed simp

lemma ep_destroy_mild: "mild w0 (pw p) \<Longrightarrow> safe (ep_destroy X p x) (\<lambda>p. mild w0 (pw p))"
  by (auto simp: ep_destroy_def access Let_def metric2_def
      intro!: safe_bind [OF cancelt_mild] safe_bind [OF destroy_nodes_mild])

lemma ep_mgr_del_mild: "mild w0 (pw p) \<Longrightarrow> safe (ep_mgr_del X p r x) (\<lambda>p. mild w0 (pw p))"
  by (auto simp: ep_mgr_del_def access with_ent_def Let_def split: option.split
      intro!: safe_bind [OF in_world_mild [OF mgr_del_mild]] safe_bind [OF in_world_mild [OF clean_dead_mild]] ep_destroy_mild)

lemma attach_mild: "mild w0 (pw p) \<Longrightarrow> safe (attach_tcp p a fd) (\<lambda>p. mild w0 (pw p))"
  by (auto simp: attach_tcp_def Let_def intro!: in_world_mild tcp_create_mild mild_next)

lemma conn_timer_mild: "mild w0 (pw p) \<Longrightarrow> safe (start_conn_timer X p x ep d) (\<lambda>p. mild w0 (pw p))"
  by (auto simp: start_conn_timer_def Let_def case_prod_unfold timer_defs intro!: safe_bind [OF create_timer_mild] time_mild)

lemma create_tcp_mild: "mild w0 (pw p) \<Longrightarrow> safe (create_entity_tcp X p h x n) (\<lambda>(p, _). mild w0 (pw p))"
  by (auto simp: create_entity_tcp_def tcp_connecting_def access Let_def case_prod_unfold
      intro!: safe_bind [OF attach_mild] safe_bind [OF cancelt_mild] safe_bind [OF conn_timer_mild] time_mild)

lemma create_udp_mild: "mild w0 (pw p) \<Longrightarrow> safe (create_entity_udp X p h x n) (\<lambda>(p, _). mild w0 (pw p))"
  by (auto simp: create_entity_udp_def access Let_def case_prod_unfold intro!: safe_bind [OF attach_mild])

lemma ep_create_mild: "mild w0 (pw p) \<Longrightarrow> mild w0 (pw (fst (ep_create X p r h ip ekey ipkey)))"
  by (auto simp: ep_create_def Let_def case_prod_unfold time_ms_def intro!: ent_create_mild mild_next)

lemma get_ep_mild: "mild w0 (pw p) \<Longrightarrow> safe (get_ep X p r entity h) (\<lambda>(p, _). mild w0 (pw p))"
  by (auto simp: get_ep_def access Let_def case_prod_unfold split: option.split
      intro!: safe_any [of _ _ "find_ep _ _ _ _"] safe_bind [OF in_world_mild [OF mgr_add_mild]] ep_create_mild)

lemma get_or_create_mild: "mild w0 (pw p) \<Longrightarrow> safe (ep_mgr_get_or_create X p r service entity h start cb ud data) (\<lambda>(p, _). mild w0 (pw p))"
  unfolding ep_mgr_get_or_create_def
  by (rule safe_bind [OF get_ep_mild])
    (auto simp: access add_request_def Let_def case_prod_unfold
      intro!: safe_bind [OF create_tcp_mild] safe_bind [OF create_udp_mild] safe_bind [OF node_destroy_mild] safe_bind [OF ep_mgr_del_mild] mild_next)

lemma sk_ep_send_mild: "safe (sk_ep_send X p service entity h data cb ud) (\<lambda>(p', _). mild (pw p) (pw p'))"
  by (auto simp: sk_ep_send_def ep_send_via_def ep_error_def time_ms_def Let_def split: option.split
      intro!: safe_bind [OF get_or_create_mild] ep_write_mild)

section \<open>What a call waits for\<close>

definition objs_ok :: "('b, 'o) user_world \<Rightarrow> bool" where
  "objs_ok u \<longleftrightarrow> 0 < w_next (uw u) \<and> (\<forall>a \<ge> w_next (uw u). us_jobs u a = None \<and> us_epjobs u a = None) \<and>
     (\<forall>a. us_jobs u a = None \<or> us_epjobs u a = None)"

text \<open>The objects of the pending jobs and requests of a task, and its counter; \<open>None\<close> when the task is gone.\<close>

definition owed :: "tdref \<Rightarrow> ('b, 'o) user_world \<Rightarrow> addr set" where
  "owed td u = {a. (\<exists>j. us_jobs u a = Some j \<and> uj_type j = PENDING \<and> ss_task (uj_svc j) = Some td) \<or>
     (\<exists>j. us_epjobs u a = Some j \<and> ej_type j = PENDING \<and> ss_task (ej_service j) = Some td)}"

definition pend :: "tdref \<Rightarrow> ('b, 'o) user_world \<Rightarrow> u32 option" where
  "pend td u = (case w_txns (uw u) (fst td) of None \<Rightarrow> None
     | Some x \<Rightarrow> map_option (\<lambda>t. td_pendings (tk_data t)) (tx_task_tbl x (snd td)))"

text \<open>\<open>grows td u0 u\<close>: from \<open>u0\<close> to \<open>u\<close> the counter of the task has grown by the objects created for it, and no report was sent.\<close>

definition grows :: "tdref \<Rightarrow> ('b, 'o) user_world \<Rightarrow> ('b, 'o) user_world \<Rightarrow> bool" where
  "grows td u0 u \<longleftrightarrow> objs_ok u \<and> w_next (uw u0) \<le> w_next (uw u) \<and> reports td (uw u) = reports td (uw u0) \<and>
     owed td u0 \<subseteq> owed td u \<and> finite (owed td u - owed td u0) \<and>
     (pend td u = None \<or> (\<exists>n. pend td u0 = Some n \<and> pend td u = Some (n + of_nat (card (owed td u - owed td u0)))))"

lemma grows_refl: "objs_ok u \<Longrightarrow> grows td u u"
  by (cases "pend td u") (auto simp: grows_def)

lemma grows_step:
  assumes g: "grows td u0 u" and u': "objs_ok u'" "w_next (uw u) \<le> w_next (uw u')" "reports td (uw u') = reports td (uw u)"
    and c: "owed td u' = owed td u \<and> (pend td u' = None \<or> pend td u' = pend td u) \<or>
      (\<exists>a. a \<notin> owed td u \<and> owed td u' = insert a (owed td u) \<and>
        (pend td u' = None \<or> (\<exists>n. pend td u = Some n \<and> pend td u' = Some (n + 1))))"
  shows "grows td u0 u'"
  using c
proof
  assume "\<exists>a. a \<notin> owed td u \<and> owed td u' = insert a (owed td u) \<and>
        (pend td u' = None \<or> (\<exists>n. pend td u = Some n \<and> pend td u' = Some (n + 1)))"
  then obtain a where a: "a \<notin> owed td u" "owed td u' = insert a (owed td u)"
    "pend td u' = None \<or> (\<exists>n. pend td u = Some n \<and> pend td u' = Some (n + 1))" by blast
  have d: "owed td u' - owed td u0 = insert a (owed td u - owed td u0)" "a \<notin> owed td u - owed td u0"
    using a g by (auto simp: grows_def)
  have "card (owed td u' - owed td u0) = Suc (card (owed td u - owed td u0))"
    unfolding d(1) using d(2) g by (simp add: grows_def)
  with a d g u' show ?thesis by (auto simp: grows_def add_ac)
qed (use g u' in \<open>auto simp: grows_def\<close>)

lemma uw_set [simp]: "uw (set_uw u w) = w" "us_jobs (set_uw u w) = us_jobs u" "us_epjobs (set_uw u w) = us_epjobs u"
  "us_log (set_uw u w) = us_log u"
  by (simp_all add: set_uw_def)

lemma ulog_sel [simp]: "us_pool (ulog u es) = us_pool u" "us_jobs (ulog u es) = us_jobs u" "us_epjobs (ulog u es) = us_epjobs u"
  by (simp_all add: ulog_def)

lemma pend_mild: "w_txns (uw u') \<subseteq>\<^sub>m w_txns (uw u) \<Longrightarrow> pend td u' = None \<or> pend td u' = pend td u"
  unfolding map_le_def pend_def by (cases "w_txns (uw u') (fst td)") (auto dest!: bspec [of _ _ "fst td"])

text \<open>A step that changes no object.\<close>

lemma grows_same:
  assumes "grows td u0 u" "mild (uw u) (uw u')" "us_jobs u' = us_jobs u" "us_epjobs u' = us_epjobs u"
  shows "grows td u0 u'"
proof (rule grows_step [OF assms(1)])
  show "objs_ok u'" using assms by (fastforce simp: grows_def objs_ok_def mild_def)
  have "pend td u' = None \<or> pend td u' = pend td u" using assms(2) by (intro pend_mild) (simp add: mild_def)
  then show "owed td u' = owed td u \<and> (pend td u' = None \<or> pend td u' = pend td u) \<or>
      (\<exists>a. a \<notin> owed td u \<and> owed td u' = insert a (owed td u) \<and>
        (pend td u' = None \<or> (\<exists>n. pend td u = Some n \<and> pend td u' = Some (n + 1))))"
    using assms(3,4) by (simp add: owed_def)
qed (simp_all add: mildD [OF assms(2)])

lemma set_td_effect:
  assumes "set_td u td' f = Inr u'" "\<And>d. td_pendings (f d) = g (td_pendings d)"
  shows "pend td u' = (if td = td' then map_option g (pend td u) else pend td u)" "us_jobs u' = us_jobs u"
    "us_epjobs u' = us_epjobs u" "reports td (uw u') = reports td (uw u)" "w_next (uw u') = w_next (uw u)" "pend td' u \<noteq> None"
  using assms
  by (auto simp: set_td_def with_txn_def get_task_def res_simps pend_def reports_def prod_eq_iff
      split: option.splits if_split_asm)

text \<open>A new object: one of another task, or one that the counter of this task is raised for.\<close>

lemma grows_new:
  assumes g: "grows td u0 u" and n: "us_jobs u a = None" "us_epjobs u a = None" "w_next (uw u) \<le> a" "a < w_next (uw u1)"
    and m: "mild (uw u) (uw u1)"
    and o: "us_jobs u1 = (us_jobs u)(a \<mapsto> j) \<and> us_epjobs u1 = us_epjobs u \<and> own = (uj_type j = PENDING \<and> ss_task (uj_svc j) = Some td) \<or>
      us_jobs u1 = us_jobs u \<and> us_epjobs u1 = (us_epjobs u)(a \<mapsto> e) \<and> own = (ej_type e = PENDING \<and> ss_task (ej_service e) = Some td)"
    and s: "us_jobs u2 = us_jobs u1" "us_epjobs u2 = us_epjobs u1" "w_next (uw u2) = w_next (uw u1)"
      "reports td (uw u2) = reports td (uw u1)" "pend td u2 = (if own then map_option (\<lambda>n. n + 1) (pend td u1) else pend td u1)"
  shows "grows td u0 u2"
proof (rule grows_step [OF g])
  have ok: "objs_ok u" using g by (simp add: grows_def)
  show "objs_ok u2" using ok n mildD(2) [OF m] o s
    by (auto simp: objs_ok_def split: if_split_asm) (metis option.distinct(1))+
  show "w_next (uw u) \<le> w_next (uw u2)" "reports td (uw u2) = reports td (uw u)"
    using s(3,4) mildD [OF m] by simp_all
  have p: "pend td u1 = None \<or> pend td u1 = pend td u" using m by (intro pend_mild) (simp add: mild_def)
  have "a \<notin> owed td u" using n(1,2) by (simp add: owed_def)
  moreover have "owed td u2 = (if own then insert a (owed td u) else owed td u)"
  proof (rule set_eqI)
    fix x show "x \<in> owed td u2 \<longleftrightarrow> x \<in> (if own then insert a (owed td u) else owed td u)"
      using n(1,2) o s(1,2) by (cases "x = a") (auto simp: owed_def)
  qed
  ultimately show "owed td u2 = owed td u \<and> (pend td u2 = None \<or> pend td u2 = pend td u) \<or>
      (\<exists>a. a \<notin> owed td u \<and> owed td u2 = insert a (owed td u) \<and>
        (pend td u2 = None \<or> (\<exists>n. pend td u = Some n \<and> pend td u2 = Some (n + 1))))"
    using p s(5) by (cases own; cases "pend td u1") auto
qed

lemma timeradd_mild: "mild w0 w \<Longrightarrow> safe (sk_entity_timeradd w a ud) (mild w0)"
  by (auto simp: sk_entity_timeradd_def with_ent_def)

lemma service_job_mild:
  "mild w0 w \<Longrightarrow> safe (sk_service_job_create E w cur emgr name d iv rw job ud b) (\<lambda>(w, _). mild w0 w)"
  by (auto simp: sk_service_job_create_def Let_def case_prod_unfold
      intro!: safe_bind [OF mgr_add_mild] safe_bind [OF timeradd_mild] safe_bind [OF timer_create_mild] mild_next ent_create_mild)

lemma objs_free: "objs_ok u \<Longrightarrow> us_jobs u (w_next (uw u)) = None \<and> us_epjobs u (w_next (uw u)) = None"
  by (simp add: objs_ok_def)

text \<open>Creating a job with the object \<open>j\<close>; when it fails the object is destroyed again.\<close>

lemma create_job_grows:
  assumes g: "grows td u0 u" and c: "create_job U ((set_uw u ((uw u)\<lparr>w_next := Suc (w_next (uw u))\<rparr>))\<lparr>us_jobs := (us_jobs u)(w_next (uw u) \<mapsto> j)\<rparr>)
      cur emgr pos name d iv rw job (w_next (uw u)) b = Inr (u1, ret)"
  shows "ret \<noteq> SK_SRV_JOB_OK \<and> grows td u0 u1 \<or>
    ret = SK_SRV_JOB_OK \<and> us_jobs u1 = (us_jobs u)(w_next (uw u) \<mapsto> j) \<and> us_epjobs u1 = us_epjobs u \<and> mild (uw u) (uw u1) \<and>
      w_next (uw u) < w_next (uw u1)"
proof -
  have free: "us_jobs u (w_next (uw u)) = None" using objs_free [of u] g by (simp add: grows_def)
  let ?w = "(uw u)\<lparr>w_next := Suc (w_next (uw u))\<rparr>"
  obtain w where w: "sk_service_job_create (ue_E U) ?w cur emgr name d iv rw job (w_next (uw u)) b = Inr (w, ret)"
    and u1: "rbind (if ret \<noteq> SK_SRV_JOB_OK
        then job_data_destroy (set_uw ((set_uw u ?w)\<lparr>us_jobs := (us_jobs u)(w_next (uw u) \<mapsto> j)\<rparr>) w) (w_next (uw u))
        else Inr (set_uw ((set_uw u ?w)\<lparr>us_jobs := (us_jobs u)(w_next (uw u) \<mapsto> j)\<rparr>) w)) (\<lambda>u. Inr (u, ret)) = Inr (u1, ret)"
    using c by (auto simp: create_job_def res_simps)
  have "mild ?w w" using safeD [OF service_job_mild [OF mild_refl] w] by simp
  then have m: "mild (uw u) w" "w_next (uw u) < w_next w"
    using mild_trans [OF mild_next [OF mild_refl, of "uw u" "Suc (w_next (uw u))"]] by (auto simp: mild_def)
  show ?thesis
  proof (cases "ret = SK_SRV_JOB_OK")
    case True
    then show ?thesis using u1 m by (auto simp: set_uw_def)
  next
    case False
    then have "uw u1 = w" "us_jobs u1 = us_jobs u" "us_epjobs u1 = us_epjobs u"
      using u1 free by (auto simp: job_data_destroy_def set_uw_def ulog_def fun_upd_idem Let_def split: option.splits)
    then show ?thesis using False grows_same [OF g, of u1] m by simp
  qed
qed

lemma udfree_grows: "grows td u0 u \<Longrightarrow> grows td u0 (skull_udfree u f ud)"
  by (cases f) (simp_all add: skull_udfree_def grows_same [of td u0 u])

lemma job_create_grows:
  assumes g: "grows td u0 u"
  shows "safe (skull_service_job_create U u cur emgr pos h d ty job ud f) (\<lambda>(u, _). grows td u0 u)"
proof (cases "ss_task h = None \<or> ss_txn h = None \<or> job = None")
  case True
  then have "skull_service_job_create U u cur emgr pos h d ty job ud f = Inr (skull_udfree u f ud, SKULL_JOB_ERROR_ENV)"
    by (cases "ss_task h") (simp_all add: skull_service_job_create_def)
  then show ?thesis using udfree_grows [OF g] by simp
next
  case False
  then obtain td' where td': "ss_task h = Some td'" by (cases "ss_task h") auto
  let ?j = "\<lparr>uj_svc = h, uj_type = PENDING, uj_rw = ty, uj_cb = job, uj_destroyer = f, uj_ud = ud\<rparr>"
  let ?u = "(set_uw u ((uw u)\<lparr>w_next := Suc (w_next (uw u))\<rparr>))\<lparr>us_jobs := (us_jobs u)(w_next (uw u) \<mapsto> ?j)\<rparr>"
  have *: "safe (rbind (create_job U ?u cur emgr pos name d 0 rw JOB_CB (w_next (uw u)) 0) (\<lambda>(u, sret).
      if sret \<noteq> SK_SRV_JOB_OK then Inr (u, SKULL_JOB_ERROR_BIO)
      else rbind (set_td u td' (\<lambda>d. d\<lparr>td_pendings := td_pendings d + 1\<rparr>)) (\<lambda>u. Inr (u, SKULL_JOB_OK)))) (\<lambda>(u, _). grows td u0 u)"
    for name rw
  proof (rule safe_self, clarify)
    fix u1 ret assume "create_job U ?u cur emgr pos name d 0 rw JOB_CB (w_next (uw u)) 0 = Inr (u1, ret)"
    note c = create_job_grows [OF g this]
    have "grows td u0 u2" if s: "set_td u1 td' (\<lambda>d. d\<lparr>td_pendings := td_pendings d + 1\<rparr>) = Inr u2" and r: "ret = SK_SRV_JOB_OK" for u2
    proof -
      note e = set_td_effect [OF s, of "\<lambda>n. n + 1", simplified]
      show ?thesis
        using c r objs_free [of u] g td' e(1) [of td] e(4) [of td] e(2,3,5)
        by (intro grows_new [OF g, of "w_next (uw u)" u1 ?j "td = td'" undefined u2]) (auto simp: grows_def)
    qed
    then show "safe (if ret \<noteq> SK_SRV_JOB_OK then Inr (u1, SKULL_JOB_ERROR_BIO)
      else rbind (set_td u1 td' (\<lambda>d. d\<lparr>td_pendings := td_pendings d + 1\<rparr>)) (\<lambda>u. Inr (u, SKULL_JOB_OK))) (\<lambda>(u, _). grows td u0 u)"
      using c by (cases "ret = SK_SRV_JOB_OK") (simp_all add: safe_def res_simps)
  qed
  have n: "\<not> (ss_txn h = None \<or> job = None)" using False by blast
  show ?thesis
    unfolding skull_service_job_create_def td' option.case if_not_P [OF n] ualloc_def Let_def prod.case uw_set by (rule *)
qed

lemma job_create_np_grows:
  assumes g: "grows td u0 u"
  shows "safe (skull_service_job_create_np U u cur emgr pos h d iv ty job ud f b) (\<lambda>(u, _). grows td u0 u)"
proof (cases "job = None")
  case True
  then show ?thesis using udfree_grows [OF g] by (simp add: skull_service_job_create_np_def)
next
  case False
  let ?j = "\<lparr>uj_svc = h, uj_type = NOPENDING, uj_rw = ty, uj_cb = job, uj_destroyer = f, uj_ud = ud\<rparr>"
  have *: "grows td u0 u1"
    if c: "create_job U ((set_uw u ((uw u)\<lparr>w_next := Suc (w_next (uw u))\<rparr>))\<lparr>us_jobs := (us_jobs u)(w_next (uw u) \<mapsto> ?j)\<rparr>)
      cur emgr pos name d iv rw JOB_CB (w_next (uw u)) b = Inr (u1, ret)" for u1 name rw ret
    using create_job_grows [OF g c]
  proof
    assume "ret = SK_SRV_JOB_OK \<and> us_jobs u1 = (us_jobs u)(w_next (uw u) \<mapsto> ?j) \<and> us_epjobs u1 = us_epjobs u \<and>
      mild (uw u) (uw u1) \<and> w_next (uw u) < w_next (uw u1)"
    then show ?thesis
      using objs_free [of u] g by (intro grows_new [OF g, of "w_next (uw u)" u1 ?j False undefined u1]) (auto simp: grows_def)
  qed simp
  show ?thesis
    using False * by (auto simp: skull_service_job_create_np_def ualloc_def Let_def safe_def res_simps)
qed

text \<open>A request; its job is released again when the request is refused.\<close>

lemma send_job_grows:
  assumes g: "grows td u0 u" and c: "send_job U u h handler ty data cb ud = Inr (u1, ret)"
  shows "ret \<noteq> SK_EP_OK \<and> grows td u0 u1 \<or>
    ret = SK_EP_OK \<and> us_jobs u1 = us_jobs u \<and>
      us_epjobs u1 = (us_epjobs u)(w_next (uw u) \<mapsto> \<lparr>ej_handler = handler, ej_service = h, ej_type = ty, ej_cb = cb, ej_ud = ud\<rparr>) \<and>
      mild (uw u) (uw u1) \<and> w_next (uw u) < w_next (uw u1)"
proof -
  let ?e = "\<lparr>ej_handler = handler, ej_service = h, ej_type = ty, ej_cb = cb, ej_ud = ud\<rparr>"
  let ?w = "(uw u)\<lparr>w_next := Suc (w_next (uw u))\<rparr>"
  let ?u = "(set_uw u ?w)\<lparr>us_epjobs := (us_epjobs u)(w_next (uw u) \<mapsto> ?e)\<rparr>"
  have free: "us_epjobs u (w_next (uw u)) = None" using objs_free [of u] g by (simp add: grows_def)
  obtain ett sh p where p: "sk_ep_send (ue_X U) (us_pool ?u) (ss_service h) ett sh data (Some EP_CB) (w_next (uw u)) = Inr (p, ret)"
    and u1: "(if ret \<noteq> SK_EP_OK then ep_release (?u\<lparr>us_pool := p\<rparr>) (w_next (uw u)) else Inr (?u\<lparr>us_pool := p\<rparr>)) = Inr u1"
    using c unfolding send_job_def ep_job_create_def ualloc_def Let_def prod.case uw_set by (auto simp: res_simps simp del: not_None_eq)
  have "mild ?w (pw p)" using safeD [OF sk_ep_send_mild p] by simp
  then have m: "mild (uw u) (pw p)" "w_next (uw u) < w_next (pw p)"
    using mild_trans [OF mild_next [OF mild_refl, of "uw u" "Suc (w_next (uw u))"]] mildD(2) [of ?w "pw p"] by auto
  show ?thesis
  proof (cases "ret = SK_EP_OK")
    case True
    then show ?thesis using u1 m by auto
  next
    case False
    have r: "ep_release (?u\<lparr>us_pool := p\<rparr>) (w_next (uw u)) = Inr u1" using u1 False by simp
    show ?thesis
    proof -
      have "w_next (uw u) \<noteq> 0" using g by (simp add: grows_def objs_ok_def)
      then have "uw u1 = pw p" "us_jobs u1 = us_jobs u" "us_epjobs u1 = us_epjobs u"
        using r free by (auto simp: ep_release_def set_uw_def ulog_def fun_upd_idem Let_def split: option.splits)
      then show ?thesis using False grows_same [OF g, of u1] m by simp
    qed
  qed
qed

lemma ep_send_grows:
  assumes g: "grows td u0 u"
  shows "safe (skull_ep_send U u h handler data cb ud) (\<lambda>(u, _). grows td u0 u)"
proof (cases "ss_task h")
  case None
  have "grows td u0 (ulog u es)" for es by (rule grows_same [OF g]) simp_all
  then show ?thesis using g None by (simp add: skull_ep_send_def split: option.split)
next
  case (Some td')
  have "grows td u0 u2" if s: "send_job U u h handler PENDING data cb ud = Inr (u1, ret)"
    and t: "(if ret = SK_EP_OK then set_td u1 td' (\<lambda>d. d\<lparr>td_pendings := td_pendings d + 1\<rparr>) else Inr u1) = Inr u2" for u1 u2 ret
  proof (cases "ret = SK_EP_OK")
    case True
    then have t: "set_td u1 td' (\<lambda>d. d\<lparr>td_pendings := td_pendings d + 1\<rparr>) = Inr u2" using t by simp
    note e = set_td_effect [OF t, of "\<lambda>n. n + 1", simplified]
    let ?e = "\<lparr>ej_handler = handler, ej_service = h, ej_type = PENDING, ej_cb = cb, ej_ud = ud\<rparr>"
    show ?thesis
      using send_job_grows [OF g s] True objs_free [of u] g Some e(1) [of td] e(4) [of td] e(2,3,5)
      by (intro grows_new [OF g, of "w_next (uw u)" u1 undefined "td = td'" ?e u2]) (auto simp: grows_def)
  next
    case False
    then show ?thesis using send_job_grows [OF g s] t by simp
  qed
  then show ?thesis
    unfolding skull_ep_send_def Some option.case by (intro safe_self) (auto intro: safe_self)
qed

lemma ep_send_np_grows:
  assumes g: "grows td u0 u"
  shows "safe (skull_ep_send_np U u h handler data cb ud) (\<lambda>(u, _). grows td u0 u)"
  unfolding skull_ep_send_np_def safe_def
proof (intro allI impI, clarify)
  fix u1 ret assume s: "send_job U u h handler NOPENDING data cb ud = Inr (u1, ret)"
  let ?e = "\<lparr>ej_handler = handler, ej_service = h, ej_type = NOPENDING, ej_cb = cb, ej_ud = ud\<rparr>"
  show "grows td u0 u1"
    using send_job_grows [OF g s]
  proof
    assume "ret = SK_EP_OK \<and> us_jobs u1 = us_jobs u \<and> us_epjobs u1 = (us_epjobs u)(w_next (uw u) \<mapsto> ?e) \<and>
      mild (uw u) (uw u1) \<and> w_next (uw u) < w_next (uw u1)"
    then show ?thesis
      using objs_free [of u] g by (intro grows_new [OF g, of "w_next (uw u)" u1 undefined False ?e u1]) (auto simp: grows_def)
  qed simp
qed

lemma apidata_set_grows:
  assumes g: "grows td u0 u"
  shows "safe (skull_service_apidata_set u h ty data) (\<lambda>(u, _). grows td u0 u)"
proof (cases "ss_task h")
  case (Some td')
  have "grows td u0 u'"
    if s: "set_td u td' (\<lambda>d. if ty = SKULL_API_REQ then d\<lparr>td_request := data\<rparr> else d\<lparr>td_response := data\<rparr>) = Inr u'" for u'
  proof -
    note e = set_td_effect [OF s, of "\<lambda>n. n", simplified]
    have "objs_ok u'" using g e(2,3,5) by (simp add: grows_def objs_ok_def)
    moreover have "pend td u' = pend td u" using e(1) [of td] by (simp add: option.map_ident)
    ultimately show ?thesis using e by (intro grows_step [OF g]) (simp_all add: owed_def)
  qed
  then show ?thesis using Some by (auto simp: skull_service_apidata_set_def intro!: safe_self)
qed (use g in \<open>simp add: skull_service_apidata_set_def\<close>)

lemma data_set_grows:
  assumes g: "grows td u0 u"
  shows "safe (skull_service_data_set u h d) (grows td u0)"
proof -
  have "grows td u0 (set_uw u (set_svc (uw u) n sv))" for n sv by (rule grows_same [OF g]) simp_all
  then show ?thesis using g by (auto simp: skull_service_data_set_def with_svc_def intro!: safe_any split: option.split)
qed

lemma run_sprog_grows: "grows td u0 u \<Longrightarrow> safe (run_sprog U cur emgr pos h p u) (\<lambda>(u, _). grows td u0 u)"
proof (induction p arbitrary: u)
  case (Job_create d ty job ud f k)
  then show ?case by (auto intro!: safe_bind [OF job_create_grows])
next
  case (Job_create_np d iv ty job ud f bidx k)
  then show ?case by (auto intro!: safe_bind [OF job_create_np_grows])
next
  case (Ep_send handler data cb ud k)
  then show ?case by (auto intro!: safe_bind [OF ep_send_grows])
next
  case (Ep_send_np handler data cb ud k)
  then show ?case by (auto intro!: safe_bind [OF ep_send_np_grows])
next
  case (Apidata_set ty data k)
  then show ?case by (auto intro!: safe_bind [OF apidata_set_grows])
next
  case (Data_set d p)
  then show ?case by (auto intro!: safe_bind [OF data_set_grows])
qed (auto intro!: safe_any)

lemma with_td_Inr: "with_td u td k = Inr y \<Longrightarrow> \<exists>d. k d = Inr y"
  by (cases "w_txns (uw u) (fst td)") (auto simp: with_td_def with_txn_def get_task_def split: option.split_asm)

text \<open>The end of a callback: one less to wait for, and a report if it was the last.\<close>

lemma pending_done_effect:
  assumes "pending_done U u cur name td = Inr u'"
  shows "\<exists>n. pend td u = Some n \<and> pend td u' = Some (n - 1) \<and> us_jobs u' = us_jobs u \<and> us_epjobs u' = us_epjobs u \<and>
    w_next (uw u') = w_next (uw u) \<and>
    length (reports td (uw u')) = length (reports td (uw u)) + (if n - 1 = 0 then 1 else 0)"
proof -
  obtain u1 where s: "set_td u td (\<lambda>d. d\<lparr>td_pendings := td_pendings d - 1\<rparr>) = Inr u1"
    and w: "with_td u1 td (\<lambda>d. api_complete U u1 cur name td (td_api_name d)) = Inr u'"
    using assms by (auto simp: pending_done_def res_simps)
  from with_td_Inr [OF w] obtain d :: sk_txn_taskdata_t where c: "api_complete U u1 cur name td (td_api_name d) = Inr u'" ..
  note e = set_td_effect [OF s, of "\<lambda>n. n - 1", simplified]
  then obtain n where n: "pend td u = Some n" "pend td u1 = Some (n - 1)" by auto
  obtain w where w: "sk_service_api_complete (ue_E U) (uw u1) cur name (fst td) (snd td) (td_api_name d) = Inr w" "u' = set_uw u1 w"
    using c by (auto simp: api_complete_def res_simps)
  have "w_txns w = w_txns (uw u1) \<and> w_next w = w_next (uw u1) \<and>
    length (reports td w) = length (reports td (uw u1)) + (if n - 1 = 0 then 1 else 0)"
    using w(1) n(2)
    by (auto simp: sk_service_api_complete_def with_txn_def with_svc_def get_task_def res_simps pend_def sk_txn_task_done_def
        word_greater_zero_iff reports_def send_def split: option.split_asm if_split_asm)
  with e n w(2) show ?thesis by (auto simp: pend_def)
qed

definition ends_one :: "tdref \<Rightarrow> ('b, 'o) user_world \<Rightarrow> ('b, 'o) user_world \<Rightarrow> bool" where
  "ends_one td u u' \<longleftrightarrow> (\<exists>n. pend td u = Some n \<and> pend td u' = Some (n - 1) \<and> us_jobs u' = us_jobs u \<and> us_epjobs u' = us_epjobs u \<and>
     w_next (uw u') = w_next (uw u) \<and>
     length (reports td (uw u')) = length (reports td (uw u)) + (if n - 1 = 0 then 1 else 0))"

lemma task_freezed: "ss_task (h\<lparr>ss_freezed := b\<rparr>) = ss_task h"
  by simp

lemma safe_with_td: "(\<And>d. safe (k d) Q) \<Longrightarrow> safe (with_td u td k) Q"
  by (auto simp: with_td_def with_txn_def get_task_def split: option.split)

lemma pending_done_safe: "safe (pending_done U u cur name td) (ends_one td u)"
  unfolding safe_def ends_one_def using pending_done_effect by blast

lemma log_grows: "objs_ok u \<Longrightarrow> grows td u (utick (ulog u es))"
  by (rule grows_same [OF grows_refl]) (simp_all add: utick_def)

lemma job_body_grows:
  "objs_ok u \<Longrightarrow> safe (case cb of None \<Rightarrow> Inr u | Some f \<Rightarrow> with_td u td (\<lambda>d.
     rbind (run_sprog U cur emgr pos h (p f d) (utick (ulog u es))) (\<lambda>(u, _). Inr u))) (grows td u)"
  by (auto simp: grows_refl split: option.split intro!: safe_with_td safe_bind [OF run_sprog_grows [OF log_grows]])

lemma job_cb_effect:
  assumes "objs_ok u" "us_jobs u obj = Some j" "uj_type j = PENDING" "ss_task (uj_svc j) = Some td"
  shows "safe (job_cb U u cur emgr name ret obj valid) (\<lambda>u'. \<exists>u1. grows td u u1 \<and> ends_one td u1 u')"
  unfolding job_cb_def assms(2) live_simps safe_simps Let_def assms(3) svc_job_type.case task_freezed assms(4) option.case
  by (intro impI safe_bind [OF job_body_grows [OF assms(1)]] safe_mono [OF pending_done_safe]) blast

lemma ep_cb_effect:
  assumes "objs_ok u" "us_epjobs u obj = Some j" "ej_type j = PENDING" "ss_task (ej_service j) = Some td"
  shows "safe (ep_cb U u cur emgr ret response obj) (\<lambda>u'. \<exists>u1. grows td u u1 \<and> ends_one td u1 u')"
proof -
  have "safe (case r of (u, _) \<Rightarrow> pending_done U u cur n td) (\<lambda>u'. \<exists>u1. grows td u u1 \<and> ends_one td u1 u')"
    if "case r of (u1, _) \<Rightarrow> grows td u u1" for r n
    using that by (auto intro!: safe_mono [OF pending_done_safe])
  then show ?thesis
    unfolding ep_cb_def assms(2) live_simps Let_def assms(3) svc_job_type.case task_freezed assms(4) option.case safe_simps
    by (intro impI safe_with_td safe_bind [OF run_sprog_grows [OF log_grows [OF assms(1)]]])
qed

section \<open>Every order of callbacks\<close>

text \<open>
  What happens to a call: the state, and the objects whose callbacks have still to run. The pool and the timers run each callback once
  (\<open>ep_callback_once\<close>, \<open>timer_job_fires_once\<close>). Everything else leaves the counter of the task alone, sends no report for it and
  creates no object for it; objects whose callback has run may be freed.
\<close>

inductive call_step :: "('b, 'o) user_env \<Rightarrow> tdref \<Rightarrow> ('b, 'o) user_world \<times> addr set \<Rightarrow> ('b, 'o) user_world \<times> addr set \<Rightarrow> bool"
  for U td where
  Job: "obj \<in> out \<Longrightarrow> us_jobs u obj \<noteq> None \<Longrightarrow> job_cb U u cur emgr name ret obj valid = Inr u' \<Longrightarrow>
    out' = (out - {obj}) \<union> (owed td u' - owed td u) \<Longrightarrow> card out' < 2 ^ 32 \<Longrightarrow> call_step U td (u, out) (u', out')"
| Answer: "obj \<in> out \<Longrightarrow> us_epjobs u obj \<noteq> None \<Longrightarrow> ep_cb U u cur emgr st response obj = Inr u' \<Longrightarrow>
    out' = (out - {obj}) \<union> (owed td u' - owed td u) \<Longrightarrow> card out' < 2 ^ 32 \<Longrightarrow> call_step U td (u, out) (u', out')"
| Other: "objs_ok u' \<Longrightarrow> w_next (uw u) \<le> w_next (uw u') \<Longrightarrow> pend td u' = None \<or> pend td u' = pend td u \<Longrightarrow>
    reports td (uw u') = reports td (uw u) \<Longrightarrow> out \<subseteq> owed td u' \<Longrightarrow> owed td u' \<subseteq> owed td u \<Longrightarrow>
    call_step U td (u, out) (u', out)"

definition call_inv :: "tdref \<Rightarrow> ('b, 'o) user_world \<times> addr set \<Rightarrow> bool" where
  "call_inv td s \<longleftrightarrow> (case s of (u, out) \<Rightarrow> objs_ok u \<and> finite out \<and> out \<subseteq> owed td u \<and> card out < 2 ^ 32 \<and>
     (pend td u = None \<or> pend td u = Some (of_nat (card out))) \<and> length (reports td (uw u)) = (if out = {} then 1 else 0))"

lemma of_nat_u32_0: "n < 2 ^ 32 \<Longrightarrow> (of_nat n = (0 :: u32)) = (n = 0)"
  by (auto simp: word_of_nat_eq_0_iff dest: dvd_imp_le)

lemma callback_inv:
  assumes i: "call_inv td (u, out)" and o: "obj \<in> out" and g: "grows td u u1" and e: "ends_one td u1 u'"
    and out': "out' = (out - {obj}) \<union> (owed td u' - owed td u)" "card out' < 2 ^ 32"
  shows "call_inv td (u', out')"
proof -
  let ?A = "owed td u1 - owed td u"
  have A: "owed td u' = owed td u1" using e by (auto simp: ends_one_def owed_def)
  have fin: "finite out" "finite ?A" "out \<subseteq> owed td u" "owed td u \<subseteq> owed td u1" using i g by (auto simp: call_inv_def grows_def)
  then have "card out' = card out - 1 + card ?A"
    using o unfolding out' A by (subst card_Un_disjoint) auto
  moreover have "0 < card out" using fin(1) o by (auto simp: card_gt_0_iff)
  ultimately have c: "card out + card ?A = Suc (card out')" by simp
  obtain n where n: "pend td u1 = Some n" "pend td u' = Some (n - 1)"
      "length (reports td (uw u')) = length (reports td (uw u1)) + (if n - 1 = 0 then 1 else 0)"
    using e by (auto simp: ends_one_def)
  with g obtain m where "pend td u = Some m" "n = m + of_nat (card ?A)" by (auto simp: grows_def)
  with i have "n = of_nat (card out + card ?A)" by (simp add: call_inv_def)
  then have n': "n - 1 = of_nat (card out')" using c by simp
  have "objs_ok u'" using g e by (auto simp: grows_def ends_one_def objs_ok_def)
  moreover have "out' \<subseteq> owed td u'" "finite out'" using fin unfolding out' A by auto
  moreover have "length (reports td (uw u1)) = 0" using i o g by (auto simp: call_inv_def grows_def)
  moreover have "(n - 1 = 0) = (out' = {})" using n' of_nat_u32_0 [OF out'(2)] \<open>finite out'\<close> by auto
  ultimately show ?thesis using n n' out'(2) by (simp add: call_inv_def)
qed

lemma call_step_inv: "call_step U td s s' \<Longrightarrow> call_inv td s \<Longrightarrow> call_inv td s'"
proof (induction rule: call_step.induct)
  case (Job obj out u cur emgr name ret valid u' out')
  then have ok: "objs_ok u" and "obj \<in> owed td u" by (auto simp: call_inv_def)
  then obtain j where j: "us_jobs u obj = Some j" "uj_type j = PENDING" "ss_task (uj_svc j) = Some td"
    using Job.hyps(2) unfolding owed_def objs_ok_def by (auto dest!: spec [of _ obj])
  from safeD [OF job_cb_effect [OF ok j] Job.hyps(3)] obtain u1 where "grows td u u1" "ends_one td u1 u'" by blast
  then show ?case by (rule callback_inv [OF Job.prems Job.hyps(1) _ _ Job.hyps(4,5)])
next
  case (Answer obj out u cur emgr st response u' out')
  then have ok: "objs_ok u" and "obj \<in> owed td u" by (auto simp: call_inv_def)
  then obtain j where j: "us_epjobs u obj = Some j" "ej_type j = PENDING" "ss_task (ej_service j) = Some td"
    using Answer.hyps(2) unfolding owed_def objs_ok_def by (auto dest!: spec [of _ obj])
  from safeD [OF ep_cb_effect [OF ok j] Answer.hyps(3)] obtain u1 where "grows td u u1" "ends_one td u1 u'" by blast
  then show ?case by (rule callback_inv [OF Answer.prems Answer.hyps(1) _ _ Answer.hyps(4,5)])
qed (auto simp: call_inv_def)

lemma iocall_grows: "grows td u0 u \<Longrightarrow> safe (skull_srv_iocall U u cur emgr name t td' apiname) (\<lambda>(u, _). grows td u0 u)"
  by (auto simp: skull_srv_iocall_def with_svc_def utick_def split: option.split intro!: run_sprog_grows intro: grows_same [of td u0 u])

lemma task_run_inv:
  assumes "objs_ok u0" "pend td u0 = Some 0" "owed td u0 = {}" "reports td (uw u0) = []" "card (owed td u1) < 2 ^ 32"
    and r: "user_task_run U u0 cur emgr src a t name apiname api_caller td = Inr (u1, ret)"
  shows "call_inv td (u1, owed td u1)"
proof -
  obtain u r' where i: "skull_srv_iocall U u0 cur emgr name t td apiname = Inr (u, r')" and
    w: "with_td u td (\<lambda>d. with_svc (uw u) name (\<lambda>sv. deref (sk_service_api sv apiname) (\<lambda>api.
            let txn_status = (if sk_txn_task_done d then SK_TXN_TASK_DONE else SK_TXN_TASK_PENDING)
            in Inr (set_uw u (fx (send (uw u) cur (Some api_caller) a (Some t)
                         (Svc_task_cb td name (api_name api) txn_status True))
                      [Metric ''worker.srv_iocall_execute'', Metric ''global.srv_iocall_execute'']), 0)))) = Inr (u1, ret)"
    using r by (auto simp: user_task_run_def with_svc_def res_simps split: option.split_asm)
  have g: "grows td u0 u" using safeD [OF iocall_grows [OF grows_refl [OF assms(1)]] i] by simp
  obtain x and k :: sk_txn_task where k: "w_txns (uw u) (fst td) = Some x" "tx_task_tbl x (snd td) = Some k" and
    v: "with_svc (uw u) name (\<lambda>sv. deref (sk_service_api sv apiname) (\<lambda>api.
            let txn_status = (if sk_txn_task_done (tk_data k) then SK_TXN_TASK_DONE else SK_TXN_TASK_PENDING)
            in Inr (set_uw u (fx (send (uw u) cur (Some api_caller) a (Some t)
                         (Svc_task_cb td name (api_name api) txn_status True))
                      [Metric ''worker.srv_iocall_execute'', Metric ''global.srv_iocall_execute'']), 0))) = Inr (u1, ret)"
    using w unfolding with_td_def with_txn_def get_task_def by (auto simp: live_Inr_iff split: option.split_asm)
  obtain api st where u1: "u1 = set_uw u (fx (send (uw u) cur (Some api_caller) a (Some t) (Svc_task_cb td name api st True))
      [Metric ''worker.srv_iocall_execute'', Metric ''global.srv_iocall_execute''])"
    and st: "st = SK_TXN_TASK_DONE \<longleftrightarrow> td_pendings (tk_data k) = 0"
    using v by (auto simp: with_svc_def deref_Inr_iff Let_def sk_txn_task_done_def word_greater_zero_iff split: option.split_asm)
  have p: "pend td u1 = pend td u" "owed td u1 = owed td u" "w_next (uw u1) = w_next (uw u)" "us_jobs u1 = us_jobs u"
    "us_epjobs u1 = us_epjobs u" "length (reports td (uw u1)) = length (reports td (uw u)) + (if pend td u = Some 0 then 1 else 0)"
    "pend td u \<noteq> None"
    using k st by (simp_all add: u1 pend_def owed_def reports_def send_def)
  have "finite (owed td u)" "pend td u = Some (of_nat (card (owed td u)))" "reports td (uw u) = []"
    using g assms(2-4) p(7) by (auto simp: grows_def)
  then show ?thesis
    using g p assms(5) of_nat_u32_0 [OF assms(5)] by (auto simp: call_inv_def grows_def objs_ok_def)
qed

text \<open>
  C34: a call of a service is reported as done exactly once, whatever jobs and requests its code creates, also from their callbacks, and in
  whatever order these callbacks run: as long as callbacks are outstanding nothing is reported, and after the last one the module has been
  told. Until then the counter of the task is the number of outstanding callbacks. So a module never waits forever for a call whose
  callbacks all run, and never sees the answer of a call that is still at work.
\<close>
theorem call_reports_once:
  assumes "objs_ok u0" "pend td u0 = Some 0" "owed td u0 = {}" "reports td (uw u0) = []" "card (owed td u1) < 2 ^ 32"
    and "user_task_run U u0 cur emgr src a t name apiname api_caller td = Inr (u1, ret)"
    and "(call_step U td)\<^sup>*\<^sup>* (u1, owed td u1) (u, out)"
  shows "length (reports td (uw u)) = (if out = {} then 1 else 0) \<and> finite out \<and> out \<subseteq> owed td u \<and>
    (pend td u = None \<or> pend td u = Some (of_nat (card out)))"
proof -
  from assms(7) have "call_inv td (u, out)"
    by (induction rule: rtranclp_induct2) (use task_run_inv [OF assms(1-6)] in \<open>auto dest: call_step_inv\<close>)
  then show ?thesis by (simp add: call_inv_def)
qed

text \<open>A service that creates one job.\<close>

definition demo_user_env :: "(sk_srv_task cellbuf, u8 cellbuf) user_env" where
  "demo_user_env = \<lparr>ue_X = demo_ep_env, ue_init = (\<lambda>_ _. Done 0), ue_release = (\<lambda>_ _. Done 0),
     ue_iocall = (\<lambda>_ _ _. Job_create 1 SKULL_JOB_READ (Some 9) 4 None (\<lambda>_. Done 0)),
     ue_job = (\<lambda>_ _ _ _ _ _. Apidata_set 1 [7] (\<lambda>_. Done 0)), ue_job_np = (\<lambda>_ _ _ _. Done 0),
     ue_ep_cb = (\<lambda>_ _ _ _ _ _ _. Done 0), ue_ep_np_cb = (\<lambda>_ _ _ _ _. Done 0), ue_unpack = (\<lambda>_ _ _ _. 1)\<rparr>"

definition demo_w0 :: "(sk_srv_task cellbuf, u8 cellbuf) world" where
  "demo_w0 = sk_timersvc_create (demo_call\<lparr>w_next := 50\<rparr>) 100"

lemma demo_job:
  "\<exists>w1 m. sk_service_job_create demo_env (tick demo_w0\<lparr>w_next := 51\<rparr>) 100 10 ''s'' 1 0 SK_SRV_JOB_READ JOB_CB 50 0 = Inr (w1, SK_SRV_JOB_OK) \<and>
     w_txns w1 = w_txns demo_call \<and> w_svcs w1 = w_svcs demo_call \<and> w_sends w1 = [] \<and> w_ents w1 (Suc 0) = w_ents demo_call 1 \<and> w_mgrs w1 10 = Some m"
proof -
  let ?w = "tick demo_w0\<lparr>w_next := 51\<rparr>"
  have "fresh ?w"
    by (auto simp: fresh_def demo_w0_def sk_timersvc_create_def demo_call_def demo_world_def empty_world_def tick_def)
  moreover have "Sk_Entity.mgr_ok ?w 10 demo_mgr"
    by (rule mgr_ok_intro) (auto simp: demo_w0_def sk_timersvc_create_def demo_call_def tick_def demo_world_def demo_mgr_def demo_entity_def
        ent_ok_def ent_type_at_def demo_txn_entity demo_txn1_eq)
  moreover have "w_tmsvcs ?w 100 = Some \<lparr>tv_timer_alive = 0, tv_timers = []\<rparr>" "validate_bidx demo_env 0" "w_sends ?w = []"
    by (simp_all add: demo_w0_def sk_timersvc_create_def demo_call_def demo_world_def empty_world_def tick_def validate_bidx_def)
  ultimately obtain w1 mgr' where w1: "sk_service_job_create demo_env ?w 100 10 ''s'' 1 0 SK_SRV_JOB_READ JOB_CB 50 0 = Inr (w1, SK_SRV_JOB_OK)"
    "job_built ?w 100 10 \<lparr>tv_timer_alive = 0, tv_timers = []\<rparr> (jobdata_of ''s'' 51 JOB_CB 50 0 SK_SRV_JOB_READ 0) 0 w1" "Sk_Entity.mgr_ok w1 10 mgr'"
    using job_create_ok [of ?w demo_env 0 10 demo_mgr 100 _ "''s''" 1 0 SK_SRV_JOB_READ JOB_CB 50] by fastforce
  then show ?thesis
    by (intro exI [of _ w1] exI [of _ mgr'])
      (auto simp: job_built_def Let_def Sk_Entity.mgr_ok_def mgr_inv_def demo_w0_def sk_timersvc_create_def tick_def demo_call_def demo_world_def empty_world_def)
qed

definition demo_user :: "(sk_srv_task cellbuf, u8 cellbuf) user_world" where
  "demo_user = \<lparr>us_pool = demo_pool\<lparr>pw := demo_w0\<rparr>, us_jobs = Map.empty, us_epjobs = Map.empty, us_log = []\<rparr>"

definition demo_job_data :: job_data where
  "demo_job_data = \<lparr>uj_svc = \<lparr>ss_service = ''s'', ss_txn = Some 5, ss_task = Some (5, 0), ss_freezed = False\<rparr>, uj_type = PENDING,
     uj_rw = SKULL_JOB_READ, uj_cb = Some 9, uj_destroyer = None, uj_ud = 4\<rparr>"

lemma demo_call_sel: "w_svcs demo_call ''s'' = Some (demo_svc\<lparr>sv_apis := [''get'' \<mapsto> demo_api]\<rparr>)" "w_txns demo_call 5 = Some demo_txn1"
  "w_ents demo_call (Suc 0) = Some demo_home" "e_owner demo_home = Some 10"
  by (simp_all add: demo_call_def demo_world_def demo_entity_def)

lemma demo_w0_sel: "w_svcs demo_w0 = w_svcs demo_call" "w_txns demo_w0 = w_txns demo_call" "w_next demo_w0 = 50" "w_sends demo_w0 = []"
  by (simp_all add: demo_w0_def sk_timersvc_create_def demo_call_def demo_world_def empty_world_def)

definition demo_task1 :: "u32 \<Rightarrow> sk_txn_taskdata_t \<Rightarrow> sk_txn_task" where
  "demo_task1 n d = \<lparr>tk_id = 0, tk_start = 7, tk_end = 0, tk_data = d\<lparr>td_pendings := n\<rparr>, tk_status = SK_TXN_TASK_RUNNING\<rparr>"

lemma demo_user_run:
  "\<exists>u1 m. user_task_run demo_user_env demo_user 100 10 100 1 5 ''s'' ''get'' 100 (5, 0) = Inr (u1, 0) \<and>
     us_jobs u1 = [50 \<mapsto> demo_job_data] \<and> us_epjobs u1 = Map.empty \<and>
     w_txns (uw u1) 5 = Some (demo_txn1\<lparr>tx_task_tbl := [0 \<mapsto> demo_task1 1 demo_taskdata]\<rparr>) \<and> 
     w_svcs (uw u1) = w_svcs demo_call \<and> w_ents (uw u1) (Suc 0) = Some demo_home \<and> w_mgrs (uw u1) 10 = Some m"
proof -
  obtain w1 m where w1: "sk_service_job_create demo_env (tick demo_w0\<lparr>w_next := 51\<rparr>) 100 10 ''s'' 1 0 SK_SRV_JOB_READ JOB_CB 50 0 = Inr (w1, SK_SRV_JOB_OK)"
     "w_txns w1 = w_txns demo_call" "w_svcs w1 = w_svcs demo_call" "w_sends w1 = []" "w_ents w1 (Suc 0) = w_ents demo_call 1" "w_mgrs w1 10 = Some m"
    using demo_job by blast
  have E: "xe_E demo_ep_env = demo_env" "en_master demo_env = 100" by (simp_all add: demo_ep_env_def demo_env_def)
  show ?thesis
    by (simp add: user_task_run_def demo_user_env_def E with_svc_def demo_user_def demo_call_sel demo_w0_sel skull_srv_iocall_def sk_service_api_def
      skull_service_job_create_def ualloc_def Let_def create_job_def utick_def set_uw_def w1 set_td_def with_txn_def get_task_def demo_txn1_eq with_td_def demo_job_data_def
      demo_task1_def demo_taskdata_def)
qed

lemma demo_user_cb:
  assumes "us_jobs u1 = [50 \<mapsto> demo_job_data]" "w_txns (uw u1) 5 = Some (demo_txn1\<lparr>tx_task_tbl := [0 \<mapsto> demo_task1 1 demo_taskdata]\<rparr>)"
     "w_svcs (uw u1) = w_svcs demo_call" "w_ents (uw u1) (Suc 0) = Some demo_home" "w_mgrs (uw u1) 10 = Some m"
  shows "\<exists>u2. job_cb demo_user_env u1 100 10 ''s'' SK_SRV_JOB_OK 50 True = Inr u2 \<and> us_jobs u2 = us_jobs u1 \<and> us_epjobs u2 = us_epjobs u1"
  using assms
  by (simp add: job_cb_def demo_job_data_def demo_user_env_def Let_def with_td_def with_txn_def get_task_def demo_txn1_eq
      utick_def ulog_def set_uw_def skull_service_apidata_set_def set_td_def SKULL_API_REQ_def pending_done_def api_complete_def sk_service_api_complete_def
      sk_txn_task_done_def demo_task1_def sk_entity_sched_def with_ent_def with_mgr_def with_svc_def demo_call_sel sk_service_api_def demo_taskdata_def
      demo_api_def pend_def demo_txn_entity)

theorem call_reports_once_witness:
  "\<exists>u1 u2. user_task_run demo_user_env demo_user 100 10 100 1 5 ''s'' ''get'' 100 (5, 0) = Inr (u1, 0) \<and>
     job_cb demo_user_env u1 100 10 ''s'' SK_SRV_JOB_OK 50 True = Inr u2 \<and>
     length (reports (5, 0) (uw u1)) = 0 \<and> length (reports (5, 0) (uw u2)) = 1"
proof -
  obtain u1 m where u1: "user_task_run demo_user_env demo_user 100 10 100 1 5 ''s'' ''get'' 100 (5, 0) = Inr (u1, 0)"
    "us_jobs u1 = [50 \<mapsto> demo_job_data]" "us_epjobs u1 = Map.empty"
    "w_txns (uw u1) 5 = Some (demo_txn1\<lparr>tx_task_tbl := [0 \<mapsto> demo_task1 1 demo_taskdata]\<rparr>)"
    "w_svcs (uw u1) = w_svcs demo_call" "w_ents (uw u1) (Suc 0) = Some demo_home" "w_mgrs (uw u1) 10 = Some m"
    using demo_user_run by blast
  obtain u2 where u2: "job_cb demo_user_env u1 100 10 ''s'' SK_SRV_JOB_OK 50 True = Inr u2" "us_jobs u2 = us_jobs u1"
    "us_epjobs u2 = us_epjobs u1"
    using demo_user_cb [OF u1(2,4-7)] by blast
  have o: "owed (5, 0) u1 = {50}" "owed (5, 0) u2 = {50}" using u1(2,3) u2(2,3) by (auto simp: owed_def demo_job_data_def split: if_splits)
  have c: "card (owed (5, 0) u1) < 2 ^ 32" by (simp add: o)
  have init: "objs_ok demo_user" "pend (5, 0) demo_user = Some 0" "owed (5, 0) demo_user = {}" "reports (5, 0) (uw demo_user) = []"
    by (simp_all add: objs_ok_def pend_def owed_def reports_def demo_user_def demo_w0_sel demo_call_sel demo_txn1_eq demo_taskdata_def)
  have "call_step demo_user_env (5, 0) (u1, {50}) (u2, {})"
    using o u1(2) u2(1) by (intro call_step.Job [of 50]) auto
  then have "(call_step demo_user_env (5, 0))\<^sup>*\<^sup>* (u1, owed (5, 0) u1) (u2, {})" by (simp add: o)
  from call_reports_once [OF init c u1(1) this] call_reports_once [OF init c u1(1) rtranclp.rtrancl_refl] u1(1) u2(1) o
  show ?thesis by auto
qed

section \<open>A request that cannot be written\<close>

lemma refused_request_kept:
  assumes "ss_task h = Some td" "ss_txn h = Some t" "w_txns (uw u) t = Some txn" "objs_ok u"
    and "eh_type handler = SK_EP_TCP" "eh_ip handler = Some ip" "eh_port handler \<noteq> 0" "eh_unpack handler = Some f" "data \<noteq> []"
    and "em_nep (pl_tcp (us_pool u)) \<noteq> em_max (pl_tcp (us_pool u))"
    and "em_ee (pl_tcp (us_pool u)) (0, ip_key ip (eh_port handler)) = [x]" "pl_eps (us_pool u) x = Some ep" "ep_status ep = SK_EP_ST_CONNECTED"
      "ep_flags ep = 0" "ep_txns ep = []" "ep_ntxn ep = 0" "ep_entity ep = Some a"
    and "w_ents (uw u) a = Some e" "opt_write (e_opt e) = Some (Fn g)" "\<And>k. en_write (ue_E U) k a data < 0"
  shows "\<exists>u'. skull_ep_send U u h handler data cb ud = Inr (u', SK_EP_ERROR) \<and>
    pl_eps (us_pool u') x = Some (ep\<lparr>ep_txns := [Suc (w_next (uw u))], ep_ntxn := 1\<rparr>) \<and>
    pl_nodes (us_pool u') (Suc (w_next (uw u))) = Some \<lparr>ed_owner = x, ed_service = ss_service h,
       ed_handler = handler\<lparr>eh_unpack := Some EP_UNPACK, eh_release := Some EP_RELEASE, eh_flags := 0\<rparr>, ed_cb = Some EP_CB,
       ed_ud = w_next (uw u), ed_start = xe_ms (ue_X U) (w_tick (uw u)), ed_e = tx_entity txn, ed_recv_timer = None,
       ed_data = data, ed_status = SK_EP_NST_INIT\<rparr> \<and>
    us_epjobs u' (w_next (uw u)) = None"
  using assms
  by (cases "eh_release handler")
    (simp_all add: sk_entity_write_def with_ent_def set_ep_def set_node_def ep_release_def objs_ok_def ulog_def skull_ep_send_def
      send_job_def ep_job_create_def ualloc_def Let_def with_txn_def sk_ep_send_def time_ms_def ep_send_via_def get_mgr_def
      ep_mgr_get_or_create_def get_ep_def find_ep_def in_order_def access ep_usable_def add_request_def ep_send_def set_uw_def)

text \<open>
  C35: when a request goes to an idle connection and the write fails, \<^verbatim>\<open>skull_ep_send\<close> answers with an error and frees the job, but
  the pool keeps the request in the end point. The next bytes that arrive on the connection are given to the unpack function of that request,
  which reads the freed job.
\<close>
theorem refused_request_dangles:
  assumes "ss_task h = Some td" "ss_txn h = Some t" "w_txns (uw u) t = Some txn" "objs_ok u"
    and "eh_type handler = SK_EP_TCP" "eh_ip handler = Some ip" "eh_port handler \<noteq> 0" "eh_unpack handler = Some f" "data \<noteq> []"
    and "em_nep (pl_tcp (us_pool u)) \<noteq> em_max (pl_tcp (us_pool u))"
    and "em_ee (pl_tcp (us_pool u)) (0, ip_key ip (eh_port handler)) = [x]" "pl_eps (us_pool u) x = Some ep" "ep_status ep = SK_EP_ST_CONNECTED"
      "ep_flags ep = 0" "ep_txns ep = []" "ep_ntxn ep = 0" "ep_entity ep = Some a"
    and "w_ents (uw u) a = Some e" "opt_write (e_opt e) = Some (Fn g)" "\<And>k. en_write (ue_E U) k a data < 0"
  shows "\<exists>u' n d ep'. skull_ep_send U u h handler data cb ud = Inr (u', SK_EP_ERROR) \<and>
    pl_eps (us_pool u') x = Some ep' \<and> ep_txns ep' = [n] \<and> ep_status ep' = SK_EP_ST_CONNECTED \<and> pl_nodes (us_pool u') n = Some d \<and>
    eh_unpack (ed_handler d) = Some EP_UNPACK \<and>
    (\<exists>q r. unpack_loop (ue_X U) (us_pool u') (in_order (xe_fifo (ue_X U)) (ep_txns ep')) bytes = Inr (q, r) \<and>
       pl_log q = pl_log (us_pool u') @ [Ep_unpack n]) \<and>
    ep_unpack U u' (ed_ud d) bytes = Inl Freed"
proof -
  obtain u' where u': "skull_ep_send U u h handler data cb ud = Inr (u', SK_EP_ERROR)"
    "pl_eps (us_pool u') x = Some (ep\<lparr>ep_txns := [Suc (w_next (uw u))], ep_ntxn := 1\<rparr>)"
    "pl_nodes (us_pool u') (Suc (w_next (uw u))) = Some \<lparr>ed_owner = x, ed_service = ss_service h,
       ed_handler = handler\<lparr>eh_unpack := Some EP_UNPACK, eh_release := Some EP_RELEASE, eh_flags := 0\<rparr>, ed_cb = Some EP_CB,
       ed_ud = w_next (uw u), ed_start = xe_ms (ue_X U) (w_tick (uw u)), ed_e = tx_entity txn, ed_recv_timer = None,
       ed_data = data, ed_status = SK_EP_NST_INIT\<rparr>"
    "us_epjobs u' (w_next (uw u)) = None"
    using refused_request_kept [OF assms] by blast
  have "\<exists>q r. unpack_loop (ue_X U) (us_pool u') (in_order (xe_fifo (ue_X U)) [Suc (w_next (uw u))]) bytes = Inr (q, r) \<and>
       pl_log q = pl_log (us_pool u') @ [Ep_unpack (Suc (w_next (uw u)))]"
    using u'(3) by (simp add: in_order_def try_unpack_def access cancel_timer_def plog_def set_node_def Let_def)
  then show ?thesis
    using u' assms(13)
    by (intro exI [of _ u'] exI [of _ "Suc (w_next (uw u))"] exI [of _ "ep\<lparr>ep_txns := [Suc (w_next (uw u))], ep_ntxn := 1\<rparr>"]
        exI [of _ "\<lparr>ed_owner = x, ed_service = ss_service h,
          ed_handler = handler\<lparr>eh_unpack := Some EP_UNPACK, eh_release := Some EP_RELEASE, eh_flags := 0\<rparr>, ed_cb = Some EP_CB,
          ed_ud = w_next (uw u), ed_start = xe_ms (ue_X U) (w_tick (uw u)), ed_e = tx_entity txn, ed_recv_timer = None,
          ed_data = data, ed_status = SK_EP_NST_INIT\<rparr>"] conjI) (simp_all add: ep_unpack_def)
qed

definition demo_broken_env :: "(sk_srv_task cellbuf, u8 cellbuf) user_env" where
  "demo_broken_env = demo_user_env\<lparr>ue_X := demo_ep_env\<lparr>xe_E := demo_env\<lparr>en_write := (\<lambda>_ _ _. - 1)\<rparr>\<rparr>\<rparr>"

definition demo_idle :: "(sk_srv_task cellbuf, u8 cellbuf) user_world" where
  "demo_idle = demo_user\<lparr>us_pool := (us_pool demo_user)\<lparr>
     pw := set_ent demo_w0 1 (sk_entity_setopt demo_home sk_entity_evb_ops 7),
     pl_tcp := (pl_tcp demo_pool)\<lparr>em_ee := (\<lambda>k. if k = (0, ip_key ''a'' 1) then [6] else []), em_nep := 1\<rparr>,
     pl_eps := [6 \<mapsto> demo_ep\<lparr>ep_txns := [], ep_ntxn := 0, ep_entity := Some 1, ep_status := SK_EP_ST_CONNECTED, ep_flags := 0\<rparr>]\<rparr>\<rparr>"

theorem refused_request_dangles_witness:
  "\<exists>u' n d. skull_ep_send demo_broken_env demo_idle \<lparr>ss_service = ''s'', ss_txn = Some 5, ss_task = Some (5, 0), ss_freezed = False\<rparr>
       demo_handler [1] 2 3 = Inr (u', SK_EP_ERROR) \<and>
     pl_nodes (us_pool u') n = Some d \<and> eh_unpack (ed_handler d) = Some EP_UNPACK \<and> ep_unpack demo_broken_env u' (ed_ud d) [9] = Inl Freed"
proof -
  let ?h = "\<lparr>ss_service = ''s'', ss_txn = Some 5, ss_task = Some (5, 0), ss_freezed = False\<rparr>"
  let ?ep = "demo_ep\<lparr>ep_txns := [], ep_ntxn := 0, ep_entity := Some 1, ep_status := SK_EP_ST_CONNECTED, ep_flags := 0\<rparr>"
  have w: "uw demo_idle = set_ent demo_w0 1 (sk_entity_setopt demo_home sk_entity_evb_ops 7)" by (simp add: demo_idle_def)
  have "objs_ok demo_idle" by (simp add: demo_idle_def demo_user_def objs_ok_def demo_w0_sel)
  moreover have "w_txns (uw demo_idle) 5 = Some demo_txn1" by (simp add: w demo_w0_sel demo_call_sel)
  moreover have "em_nep (pl_tcp (us_pool demo_idle)) \<noteq> em_max (pl_tcp (us_pool demo_idle))"
    by (simp add: demo_idle_def demo_pool_def sk_ep_pool_create_def sk_ep_mgr_create_def Let_def case_prod_unfold)
  moreover have "em_ee (pl_tcp (us_pool demo_idle)) (0, ip_key ''a'' (eh_port demo_handler)) = [6]"
    by (simp add: demo_idle_def demo_handler_def)
  moreover have "w_ents (uw demo_idle) 1 = Some (sk_entity_setopt demo_home sk_entity_evb_ops 7)" by (simp add: w)
  moreover have "opt_write (e_opt (sk_entity_setopt demo_home sk_entity_evb_ops 7)) = Some (Fn 2)"
    by (simp add: sk_entity_setopt_def sk_entity_evb_ops_def or_default_def default_opt_def)
  moreover have "pl_eps (us_pool demo_idle) 6 = Some ?ep" by (simp add: demo_idle_def)
  moreover have "en_write (ue_E demo_broken_env) k 1 [1] < 0" for k by (simp add: demo_broken_env_def)
  moreover have "eh_type demo_handler = SK_EP_TCP" "eh_ip demo_handler = Some ''a''" "eh_port demo_handler \<noteq> 0"
    "eh_unpack demo_handler = Some 4"
    by (simp_all add: demo_handler_def)
  ultimately have "\<exists>u' n d ep'. skull_ep_send demo_broken_env demo_idle ?h demo_handler [1] 2 3 = Inr (u', SK_EP_ERROR) \<and>
    pl_eps (us_pool u') 6 = Some ep' \<and> ep_txns ep' = [n] \<and> ep_status ep' = SK_EP_ST_CONNECTED \<and> pl_nodes (us_pool u') n = Some d \<and>
    eh_unpack (ed_handler d) = Some EP_UNPACK \<and>
    (\<exists>q r. unpack_loop (ue_X demo_broken_env) (us_pool u') (in_order (xe_fifo (ue_X demo_broken_env)) (ep_txns ep')) [9] = Inr (q, r) \<and>
       pl_log q = pl_log (us_pool u') @ [Ep_unpack n]) \<and>
    ep_unpack demo_broken_env u' (ed_ud d) [9] = Inl Freed"
    by (intro refused_request_dangles [of ?h "(5, 0)" 5 demo_idle demo_txn1 demo_handler "''a''" 4 "[1]" 6 ?ep 1
          "sk_entity_setopt demo_home sk_entity_evb_ops 7" 2]) simp_all
  then show ?thesis by blast
qed

end
