(* ===== verification/Sk_Malloc.thy ===== *)
theory Sk_Malloc
  imports Sk_Service
begin

text \<open>
  The memory tracer: \<^verbatim>\<open>src/src/common/sk_malloc.c\<close>. The program puts its own \<^verbatim>\<open>malloc\<close>, \<^verbatim>\<open>free\<close> and so on in front of
  the allocator and counts, for each module, service and for itself, the bytes that go in and out.

  The allocator is a parameter: what it answers, and the size of a block that it reports
  (\<^verbatim>\<open>malloc_usable_size\<close>). Atomic updates of different threads are a sequence. How the
  symbols of the allocator are found, and the text of the traces, are left out.
\<close>

section \<open>Data\<close>

record sk_mem_stat =
  ms_nmalloc :: int
  ms_nfree :: int
  ms_ncalloc :: int
  ms_nrealloc :: int
  ms_nposix_memalign :: int
  ms_naligned_alloc :: int
  ms_alloc_sz :: size_t
  ms_dalloc_sz :: size_t
  ms_peak_sz :: size_t

definition mem_stat0 :: sk_mem_stat where
  "mem_stat0 = \<lparr>ms_nmalloc = 0, ms_nfree = 0, ms_ncalloc = 0, ms_nrealloc = 0, ms_nposix_memalign = 0, ms_naligned_alloc = 0,
     ms_alloc_sz = 0, ms_dalloc_sz = 0, ms_peak_sz = 0\<rparr>"

record sk_mem =
  im_tracing_level :: int
  im_init :: sk_mem_stat
  im_core :: sk_mem_stat
  im_mstats :: "string \<rightharpoonup> sk_mem_stat"
  im_sstats :: "string \<rightharpoonup> sk_mem_stat"
  im_logger :: bool

text \<open>The structure is static, so all of it is zero at first; \<^verbatim>\<open>sk_mem_init\<close> makes the two tables.\<close>

definition sk_mem_init :: sk_mem where
  "sk_mem_init = \<lparr>im_tracing_level = 0, im_init = mem_stat0, im_core = mem_stat0, im_mstats = Map.empty, im_sstats = Map.empty,
     im_logger = False\<rparr>"

definition sk_mem_init_log :: "sk_mem \<Rightarrow> sk_mem" where
  "sk_mem_init_log m = m\<lparr>im_logger := True\<rparr>"

definition sk_mem_destroy :: "sk_mem \<Rightarrow> sk_mem" where
  "sk_mem_destroy m = m\<lparr>im_tracing_level := 0, im_mstats := Map.empty, im_sstats := Map.empty, im_logger := False\<rparr>"

definition sk_mem_allocated :: "sk_mem_stat \<Rightarrow> size_t" where
  "sk_mem_allocated s = (if ms_dalloc_sz s < ms_alloc_sz s then ms_alloc_sz s - ms_dalloc_sz s else 0)"

definition sk_mem_stat_module_register :: "sk_mem \<Rightarrow> string \<Rightarrow> sk_mem" where
  "sk_mem_stat_module_register m name = m\<lparr>im_mstats := (im_mstats m)(name \<mapsto> mem_stat0)\<rparr>"

definition sk_mem_stat_service_register :: "sk_mem \<Rightarrow> string \<Rightarrow> sk_mem" where
  "sk_mem_stat_service_register m name = m\<lparr>im_sstats := (im_sstats m)(name \<mapsto> mem_stat0)\<rparr>"

definition sk_mem_stat_module :: "sk_mem \<Rightarrow> string \<Rightarrow> sk_mem_stat option" where
  "sk_mem_stat_module m name = im_mstats m name"

definition sk_mem_stat_service :: "sk_mem \<Rightarrow> string \<Rightarrow> sk_mem_stat option" where
  "sk_mem_stat_service m name = im_sstats m name"

definition SK_MAX_FRAME :: int where "SK_MAX_FRAME = 11"

definition sk_mem_trace :: "sk_mem \<Rightarrow> int \<Rightarrow> sk_mem" where
  "sk_mem_trace m level =
     m\<lparr>im_tracing_level := if level < 0 then 0 else if level < SK_MAX_FRAME then level else SK_MAX_FRAME - 1\<rparr>"

definition sk_mem_trace_enabled :: "sk_mem \<Rightarrow> bool" where
  "sk_mem_trace_enabled m \<longleftrightarrow> im_tracing_level m \<noteq> 0 \<and> im_logger m"

section \<open>Who is charged\<close>

text \<open>
  \<^verbatim>\<open>_get_stat\<close>: \<open>ready\<close> says whether the environment of the thread is set up, \<open>pos\<close> and \<open>current\<close> are
  \<^verbatim>\<open>SK_ENV_POS\<close> and the name of \<^verbatim>\<open>SK_ENV_CURRENT\<close>.
\<close>

datatype mem_owner = Owner_init | Owner_core | Owner_module string | Owner_service string

definition get_stat :: "bool \<Rightarrow> sk_env_pos \<Rightarrow> string \<Rightarrow> mem_owner" where
  "get_stat ready pos current =
     (if \<not> ready then Owner_init
      else case pos of
             SK_ENV_POS_MODULE \<Rightarrow> Owner_module current
           | SK_ENV_POS_SERVICE \<Rightarrow> Owner_service current
           | SK_ENV_POS_CORE \<Rightarrow> Owner_core)"

fun stat_of :: "sk_mem \<Rightarrow> mem_owner \<Rightarrow> sk_mem_stat option" where
  "stat_of m Owner_init = Some (im_init m)"
| "stat_of m Owner_core = Some (im_core m)"
| "stat_of m (Owner_module n) = sk_mem_stat_module m n"
| "stat_of m (Owner_service n) = sk_mem_stat_service m n"

fun set_stat :: "sk_mem \<Rightarrow> mem_owner \<Rightarrow> sk_mem_stat \<Rightarrow> sk_mem" where
  "set_stat m Owner_init s = m\<lparr>im_init := s\<rparr>"
| "set_stat m Owner_core s = m\<lparr>im_core := s\<rparr>"
| "set_stat m (Owner_module n) s = m\<lparr>im_mstats := (im_mstats m)(n \<mapsto> s)\<rparr>"
| "set_stat m (Owner_service n) s = m\<lparr>im_sstats := (im_sstats m)(n \<mapsto> s)\<rparr>"

text \<open>\<^verbatim>\<open>SK_ATOMIC_UPDATE_PEAKSZ\<close>: nobody comes between the load and the exchange, so the loop has one turn.\<close>

definition update_peaksz :: "sk_mem_stat \<Rightarrow> sk_mem_stat" where
  "update_peaksz s = (let used = sk_mem_allocated s
     in if ms_peak_sz s = used then s else s\<lparr>ms_peak_sz := max (ms_peak_sz s) used\<rparr>)"

text \<open>The part that the functions share: nothing is counted for a component that is not registered.\<close>

definition charge :: "sk_mem \<Rightarrow> mem_owner \<Rightarrow> (sk_mem_stat \<Rightarrow> sk_mem_stat) \<Rightarrow> sk_mem" where
  "charge m who f = (case stat_of m who of None \<Rightarrow> m | Some s \<Rightarrow> set_stat m who (update_peaksz (f s)))"

section \<open>The functions of the allocator\<close>

text \<open>The blocks of the allocator, with the size that it reports; the size of \<^verbatim>\<open>NULL\<close> is 0.\<close>

type_synonym heap = "addr \<rightharpoonup> size_t"

definition malloc_sz :: "heap \<Rightarrow> addr option \<Rightarrow> size_t" where
  "malloc_sz h p = (case p of None \<Rightarrow> 0 | Some a \<Rightarrow> (case h a of None \<Rightarrow> 0 | Some z \<Rightarrow> z))"

text \<open>What the allocator answers: the block and its size, or \<^verbatim>\<open>NULL\<close>.\<close>

type_synonym answer = "(addr \<times> size_t) option"

definition take_block :: "heap \<Rightarrow> answer \<Rightarrow> heap \<times> addr option" where
  "take_block h r = (case r of None \<Rightarrow> (h, None) | Some (a, z) \<Rightarrow> (h(a \<mapsto> z), Some a))"

definition mem_malloc :: "sk_mem \<times> heap \<Rightarrow> mem_owner \<Rightarrow> answer \<Rightarrow> (sk_mem \<times> heap) \<times> addr option" where
  "mem_malloc s who r = (case s of (m, h) \<Rightarrow> let (h, ptr) = take_block h r
     in ((charge m who (\<lambda>st. st\<lparr>ms_nmalloc := ms_nmalloc st + 1, ms_alloc_sz := ms_alloc_sz st + malloc_sz h ptr\<rparr>), h), ptr))"

definition mem_calloc :: "sk_mem \<times> heap \<Rightarrow> mem_owner \<Rightarrow> answer \<Rightarrow> (sk_mem \<times> heap) \<times> addr option" where
  "mem_calloc s who r = (case s of (m, h) \<Rightarrow> let (h, ptr) = take_block h r
     in ((charge m who (\<lambda>st. st\<lparr>ms_ncalloc := ms_ncalloc st + 1, ms_alloc_sz := ms_alloc_sz st + malloc_sz h ptr\<rparr>), h), ptr))"

definition mem_aligned_alloc :: "sk_mem \<times> heap \<Rightarrow> mem_owner \<Rightarrow> answer \<Rightarrow> (sk_mem \<times> heap) \<times> addr option" where
  "mem_aligned_alloc s who r = (case s of (m, h) \<Rightarrow> let (h, ptr) = take_block h r
     in ((charge m who (\<lambda>st. st\<lparr>ms_naligned_alloc := ms_naligned_alloc st + 1, ms_alloc_sz := ms_alloc_sz st + malloc_sz h ptr\<rparr>), h), ptr))"

text \<open>A call of \<^verbatim>\<open>posix_memalign\<close> that fails leaves the pointer alone and is not counted.\<close>

definition mem_posix_memalign :: "sk_mem \<times> heap \<Rightarrow> mem_owner \<Rightarrow> answer \<Rightarrow> (sk_mem \<times> heap) \<times> addr option" where
  "mem_posix_memalign s who r = (case s of (m, h) \<Rightarrow> let (h, ptr) = take_block h r
     in ((if ptr = None then m
          else charge m who (\<lambda>st. st\<lparr>ms_nposix_memalign := ms_nposix_memalign st + 1,
                                     ms_alloc_sz := ms_alloc_sz st + malloc_sz h ptr\<rparr>), h), ptr))"

definition mem_free :: "sk_mem \<times> heap \<Rightarrow> mem_owner \<Rightarrow> addr option \<Rightarrow> sk_mem \<times> heap" where
  "mem_free s who ptr = (case s of (m, h) \<Rightarrow>
     (charge m who (\<lambda>st. st\<lparr>ms_nfree := ms_nfree st + 1, ms_dalloc_sz := ms_dalloc_sz st + malloc_sz h ptr\<rparr>),
      case ptr of None \<Rightarrow> h | Some a \<Rightarrow> h(a := None)))"

text \<open>
  The blocks after \<^verbatim>\<open>realloc\<close>: a block that is given back is gone, one of size 0 is freed, and when the allocator fails the
  old block stays.
\<close>

definition realloc_heap :: "heap \<Rightarrow> addr option \<Rightarrow> size_t \<Rightarrow> answer \<Rightarrow> heap" where
  "realloc_heap h ptr sz r = (case r of
     Some (a, z) \<Rightarrow> (case ptr of None \<Rightarrow> h | Some p \<Rightarrow> h(p := None))(a \<mapsto> z)
   | None \<Rightarrow> (case ptr of Some p \<Rightarrow> if sz = 0 then h(p := None) else h | None \<Rightarrow> h))"

definition mem_realloc :: "sk_mem \<times> heap \<Rightarrow> mem_owner \<Rightarrow> addr option \<Rightarrow> size_t \<Rightarrow> answer \<Rightarrow> (sk_mem \<times> heap) \<times> addr option" where
  "mem_realloc s who ptr sz r = (case s of (m, h) \<Rightarrow>
     let old_sz = malloc_sz h ptr; h = realloc_heap h ptr sz r; nptr = map_option fst r; new_sz = malloc_sz h nptr
     in ((charge m who (\<lambda>st. let st = st\<lparr>ms_nrealloc := ms_nrealloc st + 1\<rparr>
           in if ptr = None then st\<lparr>ms_alloc_sz := ms_alloc_sz st + new_sz\<rparr>
              else if sz = 0 then st\<lparr>ms_dalloc_sz := ms_dalloc_sz st + old_sz\<rparr>
              else if ptr \<noteq> nptr then st\<lparr>ms_alloc_sz := ms_alloc_sz st + new_sz, ms_dalloc_sz := ms_dalloc_sz st + old_sz\<rparr>
              else if old_sz < new_sz then st\<lparr>ms_alloc_sz := ms_alloc_sz st + (new_sz - old_sz)\<rparr>
              else st), h), nptr))"

section \<open>The summary\<close>

text \<open>
  \<^verbatim>\<open>_stats_dump_to_string\<close> without its text: the entries in the order of the table, and their sum.
\<close>

fun stats_dump :: "string list \<Rightarrow> (string \<rightharpoonup> sk_mem_stat) \<Rightarrow> (string \<times> size_t) list \<times> size_t" where
  "stats_dump [] tbl = ([], 0)"
| "stats_dump (n # ns) tbl = (let (es, usage) = stats_dump ns tbl
     in case tbl n of None \<Rightarrow> (es, usage) | Some s \<Rightarrow> ((n, sk_mem_allocated s) # es, sk_mem_allocated s + usage))"

text \<open>\<^verbatim>\<open>sk_mem_dump\<close>: total, before the start, core, modules, services.\<close>

definition sk_mem_dump ::
  "string list \<Rightarrow> string list \<Rightarrow> sk_mem \<Rightarrow> size_t \<times> size_t \<times> size_t \<times> (string \<times> size_t) list \<times> (string \<times> size_t) list" where
  "sk_mem_dump mods srvs m =
     (let init_sz = sk_mem_allocated (im_init m); core_sz = sk_mem_allocated (im_core m);
          (ms, mu) = stats_dump mods (im_mstats m); (ss, su) = stats_dump srvs (im_sstats m)
      in (init_sz + core_sz + mu + su, init_sz, core_sz, ms, ss))"

section \<open>What the counters add up to\<close>

text \<open>The calls of the program, with what the allocator answers.\<close>

datatype mem_call =
    C_malloc answer | C_calloc answer | C_aligned_alloc answer | C_posix_memalign answer
  | C_free "addr option" | C_realloc "addr option" size_t answer

fun mem_step :: "sk_mem \<times> heap \<Rightarrow> mem_owner \<times> mem_call \<Rightarrow> sk_mem \<times> heap" where
  "mem_step s (who, C_malloc r) = fst (mem_malloc s who r)"
| "mem_step s (who, C_calloc r) = fst (mem_calloc s who r)"
| "mem_step s (who, C_aligned_alloc r) = fst (mem_aligned_alloc s who r)"
| "mem_step s (who, C_posix_memalign r) = fst (mem_posix_memalign s who r)"
| "mem_step s (who, C_free p) = mem_free s who p"
| "mem_step s (who, C_realloc p sz r) = fst (mem_realloc s who p sz r)"

text \<open>
  The documented behaviour of the allocator: a new block is none of the live ones (for \<^verbatim>\<open>realloc\<close>, it may be the old one), \<^verbatim>\<open>realloc\<close> to 0
  frees the block and gives nothing. The program frees only live blocks.
\<close>

fun allocator_ok :: "heap \<Rightarrow> mem_call \<Rightarrow> bool" where
  "allocator_ok h (C_realloc p sz r) \<longleftrightarrow> (case p of None \<Rightarrow> True | Some a \<Rightarrow> h a \<noteq> None) \<and>
     (case r of None \<Rightarrow> True | Some (a, z) \<Rightarrow> (p = Some a \<or> h a = None) \<and> (p = None \<or> sz \<noteq> 0))"
| "allocator_ok h (C_free p) \<longleftrightarrow> (case p of None \<Rightarrow> True | Some a \<Rightarrow> h a \<noteq> None)"
| "allocator_ok h (C_malloc r) \<longleftrightarrow> (case r of None \<Rightarrow> True | Some (a, _) \<Rightarrow> h a = None)"
| "allocator_ok h (C_calloc r) \<longleftrightarrow> (case r of None \<Rightarrow> True | Some (a, _) \<Rightarrow> h a = None)"
| "allocator_ok h (C_aligned_alloc r) \<longleftrightarrow> (case r of None \<Rightarrow> True | Some (a, _) \<Rightarrow> h a = None)"
| "allocator_ok h (C_posix_memalign r) \<longleftrightarrow> (case r of None \<Rightarrow> True | Some (a, _) \<Rightarrow> h a = None)"

text \<open>
  What a call makes the counters wrong by: a block that shrinks where it is keeps its old size in the books, and one
  that cannot be enlarged is taken out of them although it is still there.
\<close>

fun drift :: "heap \<Rightarrow> mem_call \<Rightarrow> size_t" where
  "drift h (C_realloc (Some p) sz r) =
     (if sz = 0 then 0
      else case r of
        Some (a, z) \<Rightarrow> if a = p \<and> z < malloc_sz h (Some p) then malloc_sz h (Some p) - z else 0
      | None \<Rightarrow> - malloc_sz h (Some p))"
| "drift h _ = 0"

inductive mem_run :: "sk_mem \<times> heap \<Rightarrow> sk_mem \<times> heap \<Rightarrow> size_t \<Rightarrow> bool" where
  Refl: "mem_run s s 0"
| Call: "mem_run s (m, h) d \<Longrightarrow> stat_of m who \<noteq> None \<Longrightarrow> allocator_ok h c \<Longrightarrow> mem_run s (mem_step (m, h) (who, c)) (d + drift h c)"

definition balance :: "sk_mem_stat \<Rightarrow> size_t" where
  "balance s = ms_alloc_sz s - ms_dalloc_sz s"

definition tbl_sum :: "('k \<rightharpoonup> 'v) \<Rightarrow> ('v \<Rightarrow> size_t) \<Rightarrow> size_t" where
  "tbl_sum t f = (\<Sum>k \<in> dom t. f (the (t k)))"

definition total :: "sk_mem \<Rightarrow> size_t" where
  "total m = balance (im_init m) + balance (im_core m) + tbl_sum (im_mstats m) balance + tbl_sum (im_sstats m) balance"

definition live_bytes :: "heap \<Rightarrow> size_t" where
  "live_bytes h = tbl_sum h id"

text \<open>The modules and services of the configuration are registered before anything is counted for them.\<close>

definition mem_registered :: "string list \<Rightarrow> string list \<Rightarrow> sk_mem" where
  "mem_registered mods srvs =
     fold (\<lambda>n m. sk_mem_stat_service_register m n) srvs (fold (\<lambda>n m. sk_mem_stat_module_register m n) mods sk_mem_init)"

section \<open>Sums over a table\<close>

lemma tbl_sum_upd:
  assumes "finite (dom t)"
  shows "tbl_sum (t(k \<mapsto> v)) f = tbl_sum t f - (case t k of None \<Rightarrow> 0 | Some w \<Rightarrow> f w) + f v"
proof -
  have rest: "(\<Sum>j \<in> dom t - {k}. f (the ((t(k \<mapsto> v)) j))) = (\<Sum>j \<in> dom t - {k}. f (the (t j)))"
    by (rule sum.cong) auto
  have "tbl_sum (t(k \<mapsto> v)) f = f v + (\<Sum>j \<in> dom t - {k}. f (the (t j)))"
    using assms by (simp add: tbl_sum_def sum.insert_remove rest del: sum.insert)
  moreover have "tbl_sum t f = (case t k of None \<Rightarrow> 0 | Some w \<Rightarrow> f w) + (\<Sum>j \<in> dom t - {k}. f (the (t j)))"
  proof (cases "t k")
    case None
    then have "dom t - {k} = dom t" by auto
    then show ?thesis using None by (simp add: tbl_sum_def)
  next
    case (Some w)
    then have "k \<in> dom t" by auto
    from sum.remove [OF assms this, of "\<lambda>j. f (the (t j))"] Some show ?thesis by (simp add: tbl_sum_def)
  qed
  ultimately show ?thesis by simp
qed

lemma tbl_sum_del:
  assumes "finite (dom t)"
  shows "tbl_sum (t(k := None)) f = tbl_sum t f - (case t k of None \<Rightarrow> 0 | Some w \<Rightarrow> f w)"
proof (cases "t k")
  case None
  then have "t(k := None) = t" by (rule fun_upd_idem)
  then show ?thesis using None by simp
next
  case (Some w)
  have "tbl_sum ((t(k := None))(k \<mapsto> w)) f = tbl_sum (t(k := None)) f + f w"
    using assms by (subst tbl_sum_upd) auto
  moreover have "(t(k := None))(k \<mapsto> w) = t" using Some by auto
  ultimately show ?thesis using Some by simp
qed

lemma live_upd: "finite (dom h) \<Longrightarrow> live_bytes (h(a \<mapsto> z)) = live_bytes h - malloc_sz h (Some a) + z"
  by (auto simp: live_bytes_def tbl_sum_upd malloc_sz_def split: option.splits)

lemma live_del: "finite (dom h) \<Longrightarrow> live_bytes (h(a := None)) = live_bytes h - malloc_sz h (Some a)"
  by (auto simp: live_bytes_def tbl_sum_del malloc_sz_def split: option.splits)

section \<open>One call\<close>

definition mem_fin :: "sk_mem \<Rightarrow> bool" where
  "mem_fin m \<longleftrightarrow> finite (dom (im_mstats m)) \<and> finite (dom (im_sstats m))"

lemma balance_peak [simp]: "balance (update_peaksz s) = balance s"
  by (simp add: update_peaksz_def balance_def Let_def)

lemma allocated_le_peak: "sk_mem_allocated (update_peaksz s) \<le> ms_peak_sz (update_peaksz s)"
  by (simp add: update_peaksz_def Let_def sk_mem_allocated_def)

lemma charge_total:
  assumes "stat_of m who = Some s" "mem_fin m"
  shows "total (charge m who f) = total m - balance s + balance (f s)"
  using assms by (cases who)
    (simp_all add: charge_def total_def mem_fin_def sk_mem_stat_module_def sk_mem_stat_service_def tbl_sum_upd)

lemma charge_fin: "mem_fin m \<Longrightarrow> mem_fin (charge m who f)"
  by (cases who) (auto simp: charge_def mem_fin_def split: option.splits)

definition peaks_ok :: "sk_mem \<Rightarrow> bool" where
  "peaks_ok m \<longleftrightarrow> (\<forall>who s. stat_of m who = Some s \<longrightarrow> sk_mem_allocated s \<le> ms_peak_sz s)"

lemma stat_of_set: "stat_of (set_stat m who s) w = (if w = who then Some s else stat_of m w)"
  by (cases who; cases w) (auto simp: sk_mem_stat_module_def sk_mem_stat_service_def)

lemma charge_peaks: "peaks_ok m \<Longrightarrow> peaks_ok (charge m who f)"
  by (auto simp: charge_def peaks_ok_def stat_of_set allocated_le_peak split: option.splits)

lemmas mem_calls = mem_malloc_def mem_calloc_def mem_aligned_alloc_def mem_posix_memalign_def mem_free_def mem_realloc_def

lemma mem_step_heap: "finite (dom h) \<Longrightarrow> finite (dom (snd (mem_step (m, h) (who, c))))"
  by (cases c) (auto simp: mem_calls take_block_def realloc_heap_def Let_def split: option.splits)

lemma mem_step_fin: "mem_fin m \<Longrightarrow> mem_fin (fst (mem_step (m, h) (who, c)))"
  by (cases c) (auto simp: mem_calls Let_def charge_fin split: prod.splits)

lemma mem_step_peaks: "peaks_ok m \<Longrightarrow> peaks_ok (fst (mem_step (m, h) (who, c)))"
  by (cases c) (auto simp: mem_calls Let_def charge_peaks split: prod.splits)

lemma take_block_live:
  assumes "finite (dom h)" "\<forall>a z. r = Some (a, z) \<longrightarrow> h a = None" "take_block h r = (h', p)"
  shows "live_bytes h' = live_bytes h + malloc_sz h' p"
  using assms by (auto simp: take_block_def live_upd malloc_sz_def split: option.splits)

lemma mem_step_total:
  assumes fin: "mem_fin m" "finite (dom h)" and reg: "stat_of m who = Some s" and ok: "allocator_ok h c"
  shows "total (fst (mem_step (m, h) (who, c))) = total m + (live_bytes (snd (mem_step (m, h) (who, c))) - live_bytes h) + drift h c"
proof (cases c)
  case (C_malloc r)
  obtain h' p where t: "take_block h r = (h', p)" by (metis surj_pair)
  from take_block_live [OF fin(2) _ t] ok C_malloc show ?thesis
    by (auto simp: mem_calls t charge_total [OF reg fin(1)] balance_def split: option.splits)
next
  case (C_calloc r)
  obtain h' p where t: "take_block h r = (h', p)" by (metis surj_pair)
  from take_block_live [OF fin(2) _ t] ok C_calloc show ?thesis
    by (auto simp: mem_calls t charge_total [OF reg fin(1)] balance_def split: option.splits)
next
  case (C_aligned_alloc r)
  obtain h' p where t: "take_block h r = (h', p)" by (metis surj_pair)
  from take_block_live [OF fin(2) _ t] ok C_aligned_alloc show ?thesis
    by (auto simp: mem_calls t charge_total [OF reg fin(1)] balance_def split: option.splits)
next
  case (C_posix_memalign r)
  obtain h' p where t: "take_block h r = (h', p)" by (metis surj_pair)
  from take_block_live [OF fin(2) _ t] ok C_posix_memalign show ?thesis
    by (auto simp: mem_calls t charge_total [OF reg fin(1)] balance_def malloc_sz_def split: option.splits)
next
  case (C_free p)
  then show ?thesis
    by (cases p) (auto simp: mem_calls charge_total [OF reg fin(1)] balance_def live_del fin malloc_sz_def)
next
  case (C_realloc p sz r)
  note [simp] = mem_calls charge_total [OF reg fin(1)] balance_def realloc_heap_def Let_def
  show ?thesis
  proof (cases p)
    case None
    with C_realloc ok fin show ?thesis by (cases r) (auto simp: live_upd malloc_sz_def)
  next
    case (Some a)
    with C_realloc ok fin show ?thesis
      by (cases r) (auto simp: live_upd live_del malloc_sz_def)
  qed
qed

section \<open>The property\<close>

lemma mem_run_inv:
  assumes "mem_run s0 s d" "mem_fin (fst s0)" "finite (dom (snd s0))" "peaks_ok (fst s0)"
  shows "mem_fin (fst s) \<and> finite (dom (snd s)) \<and> peaks_ok (fst s) \<and>
    total (fst s) - live_bytes (snd s) = total (fst s0) - live_bytes (snd s0) + d"
  using assms
proof (induction rule: mem_run.induct)
  case (Refl s)
  then show ?case by simp
next
  case (Call s m h d who c)
  from Call.hyps(2) obtain st where st: "stat_of m who = Some st" by auto
  from Call.IH [OF Call.prems] have *: "mem_fin m" "finite (dom h)" "peaks_ok m"
    "total m - live_bytes h = total (fst s) - live_bytes (snd s) + d" by simp_all
  have "total (fst (mem_step (m, h) (who, c))) - live_bytes (snd (mem_step (m, h) (who, c))) = (total m - live_bytes h) + drift h c"
    by (simp add: mem_step_total [OF *(1,2) st Call.hyps(3)])
  then show ?case
    using mem_step_fin [OF *(1)] mem_step_heap [OF *(2)] mem_step_peaks [OF *(3)] *(4) by (simp add: add.assoc)
qed

lemma mem_run_call:
  "mem_run s0 s d \<Longrightarrow> stat_of (fst s) who \<noteq> None \<Longrightarrow> allocator_ok (snd s) c \<Longrightarrow> d' = d + drift (snd s) c \<Longrightarrow>
     mem_run s0 (mem_step s (who, c)) d'"
  using Call [of s0 "fst s" "snd s"] by simp

lemma registered_zero:
  "mem_fin (mem_registered mods srvs)" (is ?A)
  "\<forall>who s. stat_of (mem_registered mods srvs) who = Some s \<longrightarrow> s = mem_stat0" (is ?B)
  "total (mem_registered mods srvs) = 0" (is ?C)
proof -
  define zero where "zero m \<longleftrightarrow> mem_fin m \<and> (\<forall>who s. stat_of m who = Some s \<longrightarrow> s = mem_stat0)" for m
  have reg: "zero (sk_mem_stat_module_register m n)" "zero (sk_mem_stat_service_register m n)" if z: "zero m" for m n
  proof -
    have stat: "stat_of (sk_mem_stat_module_register m n) w = (if w = Owner_module n then Some mem_stat0 else stat_of m w)"
      "stat_of (sk_mem_stat_service_register m n) w = (if w = Owner_service n then Some mem_stat0 else stat_of m w)" for w
      by (cases w; simp add: sk_mem_stat_module_register_def sk_mem_stat_service_register_def sk_mem_stat_module_def
            sk_mem_stat_service_def)+
    have "mem_fin (sk_mem_stat_module_register m n)" "mem_fin (sk_mem_stat_service_register m n)"
      using z by (simp_all add: zero_def mem_fin_def sk_mem_stat_module_register_def sk_mem_stat_service_register_def)
    then show "zero (sk_mem_stat_module_register m n)" "zero (sk_mem_stat_service_register m n)"
      using z unfolding zero_def stat by auto
  qed
  have folds: "zero m \<Longrightarrow> zero (fold (\<lambda>n m. sk_mem_stat_module_register m n) ns m)"
    "zero m \<Longrightarrow> zero (fold (\<lambda>n m. sk_mem_stat_service_register m n) ns m)" for ns m
    by (induction ns arbitrary: m) (simp_all add: reg)
  have "zero sk_mem_init"
    unfolding zero_def
  proof (intro conjI allI impI)
    show "mem_fin sk_mem_init" by (simp add: mem_fin_def sk_mem_init_def)
    show "s = mem_stat0" if "stat_of sk_mem_init who = Some s" for who s
      using that by (cases who) (simp_all add: sk_mem_init_def sk_mem_stat_module_def sk_mem_stat_service_def)
  qed
  then have z: "zero (mem_registered mods srvs)" unfolding mem_registered_def by (intro folds)
  then show ?A and ?B by (auto simp: zero_def)
  have one: "stat_of (mem_registered mods srvs) w = Some s \<Longrightarrow> balance s = 0" for w s
    using z unfolding zero_def by (fastforce simp: balance_def mem_stat0_def)
  have "tbl_sum (im_mstats (mem_registered mods srvs)) balance = 0"
    unfolding tbl_sum_def using one [of "Owner_module _"] by (intro sum.neutral) (auto simp: sk_mem_stat_module_def)
  moreover have "tbl_sum (im_sstats (mem_registered mods srvs)) balance = 0"
    unfolding tbl_sum_def using one [of "Owner_service _"] by (intro sum.neutral) (auto simp: sk_mem_stat_service_def)
  ultimately show ?C using one [of Owner_init] one [of Owner_core] by (simp add: total_def)
qed

text \<open>
  C36: memory accounting. Start with the modules and services registered and no block. After any sequence of calls,
  charged to anyone who is registered, the bytes counted as allocated less those counted as freed are, over all owners
  and modulo the word, the bytes of the live blocks plus the drift of the calls of \<^verbatim>\<open>realloc\<close>: a block that shrinks
  in place stays in the books with its old size, and a block that could not be enlarged is taken out of them
  although it is still there. The peak of every owner is at least what it has now.
\<close>

theorem mem_accounting:
  assumes run: "mem_run (mem_registered mods srvs, Map.empty) (m, h) d"
  shows "total m = live_bytes h + d \<and> (\<forall>who s. stat_of m who = Some s \<longrightarrow> sk_mem_allocated s \<le> ms_peak_sz s)"
proof -
  have "peaks_ok (mem_registered mods srvs)"
    unfolding peaks_ok_def
  proof (intro allI impI)
    fix who s
    assume "stat_of (mem_registered mods srvs) who = Some s"
    with registered_zero(2) [of mods srvs] have "s = mem_stat0" by blast
    then show "sk_mem_allocated s \<le> ms_peak_sz s" by (simp add: mem_stat0_def sk_mem_allocated_def)
  qed
  moreover have "live_bytes Map.empty = 0" by (simp add: live_bytes_def tbl_sum_def)
  ultimately have "mem_fin m \<and> finite (dom h) \<and> peaks_ok m \<and> total m - live_bytes h = d"
    using mem_run_inv [OF run] registered_zero(1,3) by simp
  then show ?thesis by (auto simp: peaks_ok_def algebra_simps)
qed

text \<open>The core allocates 100 bytes and a module 50; the core shrinks its block to 40 where it is, and 60 bytes stay in the books.\<close>

theorem mem_accounting_witness:
  "\<exists>m h. total m = live_bytes h + 60 \<and> h 1 = Some 40 \<and> h 2 = Some 50 \<and>
     (\<forall>s. stat_of m (Owner_module ''m'') = Some s \<longrightarrow> sk_mem_allocated s \<le> ms_peak_sz s)"
proof -
  let ?s0 = "(mem_registered [''m''] [], Map.empty :: heap)"
  let ?s1 = "mem_step ?s0 (Owner_core, C_malloc (Some (1, 100)))"
  let ?s2 = "mem_step ?s1 (Owner_module ''m'', C_malloc (Some (2, 50)))"
  let ?s3 = "mem_step ?s2 (Owner_core, C_realloc (Some 1) 40 (Some (1, 40)))"
  note [simp] = mem_calls charge_def take_block_def malloc_sz_def mem_registered_def sk_mem_stat_module_register_def
    sk_mem_stat_module_def
  have "mem_run ?s0 ?s1 0" by (rule mem_run_call [OF Refl]) simp_all
  then have "mem_run ?s0 ?s2 0" by (rule mem_run_call) simp_all
  then have "mem_run ?s0 ?s3 60" by (rule mem_run_call) simp_all
  then have run: "mem_run ?s0 (fst ?s3, snd ?s3) 60" by simp
  have blocks: "snd ?s3 1 = Some 40" "snd ?s3 2 = Some 50" by (simp_all add: realloc_heap_def Let_def)
  show ?thesis
    by (rule exI [of _ "fst ?s3"], rule exI [of _ "snd ?s3"], intro conjI)
      (use mem_accounting [OF run] blocks in blast)+
qed

end
