(* ===== verification/Admin_Run.thy ===== *)
theory Admin_Run
  imports Core_Run Sk_Malloc Config_Proofs
begin

text \<open>
  The commands of the administration port, \<^verbatim>\<open>_admin_run\<close> of \<^verbatim>\<open>src/src/components/sk_admin.c\<close>: help, the counters, the state of the
  server and its memory.

  Parameters: the calendar of the system, the text of a floating-point number, the order of a table of counters, and
  of the status the part that repeats what the system and the build say (\<open>ax_system\<close>: versions, paths, clocks, resources).
  How often each module has run is counted elsewhere and comes as the argument \<open>mstat\<close>.
\<close>

section \<open>Formats\<close>

definition pad_left :: "nat \<Rightarrow> string \<Rightarrow> string" where
  "pad_left n s = replicate (n - length s) CHR '' '' @ s"

definition pad_right :: "nat \<Rightarrow> string \<Rightarrow> string" where
  "pad_right n s = s @ replicate (n - length s) CHR '' ''"

definition pad_zero :: "nat \<Rightarrow> int \<Rightarrow> string" where
  "pad_zero n i = (let s = int_dec i in replicate (n - length s) CHR ''0'' @ s)"

text \<open>\<^verbatim>\<open>IFMT\<close>, \<^verbatim>\<open>CFMT\<close> and \<^verbatim>\<open>MEM_FMT\<close>\<close>

definition ifmt :: "string \<Rightarrow> string \<Rightarrow> string" where
  "ifmt k v = pad_right 30 k @ '': '' @ v"

definition cfmt :: "string \<Rightarrow> string \<Rightarrow> string" where
  "cfmt name v = pad_right 55 name @ '' '' @ v @ [LF]"

definition mem_fmt :: "string \<Rightarrow> string \<Rightarrow> string \<Rightarrow> int \<Rightarrow> string" where
  "mem_fmt t n metrics v = pad_left 7 t @ '' '' @ pad_left 20 n @ '' '' @ pad_left 16 metrics @ '': '' @ int_dec v @ [LF]"

definition line :: "string \<Rightarrow> string" where
  "line s = s @ [LF]"

fun append_all :: "('o, u8) fmbuf_ops \<Rightarrow> 'o sk_admin_data \<Rightarrow> string list \<Rightarrow> 'o sk_admin_data res" where
  "append_all F ad [] = Inr ad"
| "append_all F ad (t # ts) = rbind (append_response F ad t) (\<lambda>ad. append_all F ad ts)"

record 'd admin_env =
  ax_einval :: bool
  ax_now :: int
  ax_gmtime :: "int \<Rightarrow> int \<times> int \<times> int \<times> int \<times> int \<times> int"   \<comment> \<open>\<^verbatim>\<open>tm_year\<close>, \<^verbatim>\<open>tm_mon\<close>, \<^verbatim>\<open>tm_mday\<close>, \<^verbatim>\<open>tm_hour\<close>, \<^verbatim>\<open>tm_min\<close>, \<^verbatim>\<open>tm_sec\<close>\<close>
  ax_float :: "'d \<Rightarrow> string"
  ax_keys :: "'d sk_mon_snapshot \<Rightarrow> string list"
  ax_system :: "string list"

section \<open>Help and counters\<close>

definition ADMIN_CMD_HELP_CONTENT :: string where
  "ADMIN_CMD_HELP_CONTENT = concat (map line
     [''commands:'', '' - help'', '' - counter | metrics'', '' - last'', '' - info | status'', '' - memory [detail|full|trace=n]''])"

definition process_help :: "('o, u8) fmbuf_ops \<Rightarrow> 'o sk_admin_data \<Rightarrow> 'o sk_admin_data res" where
  "process_help F ad = append_response F ad ADMIN_CMD_HELP_CONTENT"

definition fill_data_string :: "('o, u8) fmbuf_ops \<Rightarrow> 'd admin_env \<Rightarrow> 'o sk_admin_data \<Rightarrow> int \<Rightarrow> 'o sk_admin_data res" where
  "fill_data_string F A ad time = (case ax_gmtime A time of (year, mon, mday, hour, mi, sec) \<Rightarrow>
     append_response F ad (take 19
       (pad_zero 4 (year + 1900) @ '':'' @ pad_zero 2 (mon + 1) @ '':'' @ pad_zero 2 mday @ ''_'' @
        pad_zero 2 hour @ '':'' @ pad_zero 2 mi @ '':'' @ pad_zero 2 sec)))"

definition fill_first_line ::
  "('o, u8) fmbuf_ops \<Rightarrow> 'd admin_env \<Rightarrow> 'o sk_admin_data \<Rightarrow> 'd sk_mon_snapshot \<Rightarrow> 'o sk_admin_data res" where
  "fill_first_line F A ad ss =
     rbind (fill_data_string F A ad (ss_start ss)) (\<lambda>ad.
     rbind (append_response F ad '' to '') (\<lambda>ad.
     rbind (fill_data_string F A ad (ss_end ss)) (\<lambda>ad.
     append_response F ad [LF])))"

definition transport_mon_snapshot ::
  "('o, u8) fmbuf_ops \<Rightarrow> 'd admin_env \<Rightarrow> 'd sk_mon_snapshot \<Rightarrow> 'o sk_admin_data \<Rightarrow> 'o sk_admin_data res" where
  "transport_mon_snapshot F A ss ad =
     sk_mon_snapshot_foreach (ax_keys A ss) ss (\<lambda>name v ad. rbind ad (\<lambda>ad. mon_cb F ad (cfmt name (ax_float A v)))) (Inr ad)"

text \<open>One of the blocks of \<^verbatim>\<open>_process_metrics\<close>, and the loops over the engines.\<close>

definition metrics_of ::
  "('o, u8) fmbuf_ops \<Rightarrow> 'd admin_env \<Rightarrow> int \<Rightarrow> 'd sk_mon \<Rightarrow> 'o sk_admin_data \<Rightarrow> 'o sk_admin_data res" where
  "metrics_of F A loc mon ad = deref (sk_mon_snapshot_at (ax_now A) mon loc) (\<lambda>ss.
     rbind (transport_mon_snapshot F A ss ad) (\<lambda>ad. append_response F ad [LF]))"

fun metrics_engines ::
  "('o, u8) fmbuf_ops \<Rightarrow> 'd admin_env \<Rightarrow> int \<Rightarrow> ('b, 'o, 'v, 'd) sk_engine list \<Rightarrow> 'o sk_admin_data \<Rightarrow> 'o sk_admin_data res" where
  "metrics_engines F A loc [] ad = Inr ad"
| "metrics_engines F A loc (e # es) ad = rbind (metrics_of F A loc (eg_mon e) ad) (\<lambda>ad. metrics_engines F A loc es ad)"

definition process_metrics ::
  "('o, u8) fmbuf_ops \<Rightarrow> 'd admin_env \<Rightarrow> ('b, 'o, 'v, 'd) sk_core \<Rightarrow> 'o sk_admin_data \<Rightarrow> int \<Rightarrow> 'o sk_admin_data res" where
  "process_metrics F A core ad loc = (case sk_mon_snapshot_at (ax_now A) (co_mon core) loc of
     None \<Rightarrow> Inr ad
   | Some global \<Rightarrow>
       rbind (fill_first_line F A ad global) (\<lambda>ad.
       rbind (append_response F ad [LF]) (\<lambda>ad.
       rbind (transport_mon_snapshot F A global ad) (\<lambda>ad.
       rbind (append_response F ad [LF]) (\<lambda>ad.
       deref (co_master core) (\<lambda>master.
       rbind (metrics_of F A loc (eg_mon master) ad) (\<lambda>ad.
       rbind (metrics_engines F A loc (co_workers core) ad) (\<lambda>ad.
       rbind (metrics_engines F A loc (co_bio core) ad) (\<lambda>ad.
       deref (sk_mon_snapshot_at (ax_now A) (co_umon core) loc) (\<lambda>user.
       rbind (transport_mon_snapshot F A user ad) (\<lambda>ad.
       rbind (append_response F ad [LF]) (\<lambda>ad.
       fill_first_line F A ad global))))))))))))"

section \<open>Status\<close>

definition status_workflow ::
  "('o, u8) fmbuf_ops \<Rightarrow> ('b, 'o, 'v, 'd) sk_core \<Rightarrow> 'o sk_admin_data \<Rightarrow> 'o sk_admin_data res" where
  "status_workflow F core ad = append_response F ad (ifmt ''workflows'' (line (nat_dec (length (co_workflows core)))))"

definition status_module ::
  "('o, u8) fmbuf_ops \<Rightarrow> (string \<Rightarrow> size_t \<times> size_t \<times> size_t) \<Rightarrow> ('b, 'o, 'v, 'd) sk_core \<Rightarrow> 'o sk_admin_data \<Rightarrow>
     'o sk_admin_data res" where
  "status_module F mstat core ad = append_all F ad
     ([ifmt ''modules'' (line (nat_dec (length (co_unique_modules core)))), ifmt ''module_stat'' []] @
      map (\<lambda>(_, m). case mstat (m_name m) of (unpacking_cnt, running_cnt, packing_cnt) \<Rightarrow>
        m_name m @ '' unpack:'' @ nat_dec (unat unpacking_cnt) @ '' run:'' @ nat_dec (unat running_cnt) @
        '' pack:'' @ nat_dec (unat packing_cnt) @ ''; '') (co_unique_modules core) @
      [[LF]])"

fun status_services :: "('o, u8) fmbuf_ops \<Rightarrow> ('b, 'o) world \<Rightarrow> string list \<Rightarrow> 'o sk_admin_data \<Rightarrow> 'o sk_admin_data res" where
  "status_services F w [] ad = Inr ad"
| "status_services F w (n # ns) ad = with_svc w n (\<lambda>sv.
     rbind (append_response F ad (sv_name sv @ '' tasks:'' @ int_dec (sv_running_task_cnt sv) @ ''; '')) (\<lambda>ad.
     status_services F w ns ad))"

definition status_service ::
  "('o, u8) fmbuf_ops \<Rightarrow> ('b, 'o, 'v, 'd) sk_core \<Rightarrow> 'o sk_admin_data \<Rightarrow> 'o sk_admin_data res" where
  "status_service F core ad =
     rbind (append_all F ad [ifmt ''services'' (line (nat_dec (length (co_services core)))), ifmt ''service_stat'' []]) (\<lambda>ad.
     rbind (status_services F (co_w core) (map fst (co_services core)) ad) (\<lambda>ad.
     append_response F ad [LF]))"

text \<open>\<^verbatim>\<open>_merge_one_stat\<close> adds eleven of the thirteen counters: \<^verbatim>\<open>entity_std\<close> and \<^verbatim>\<open>entity_ep_timer\<close> are not in it.\<close>

definition merged_types :: "sk_entity_type list" where
  "merged_types = [SK_ENTITY_NONE, SK_ENTITY_SOCK_V4TCP, SK_ENTITY_SOCK_V4UDP, SK_ENTITY_SOCK_V6TCP, SK_ENTITY_SOCK_V6UDP,
     SK_ENTITY_TIMER, SK_ENTITY_EP_V4TCP, SK_ENTITY_EP_V4UDP, SK_ENTITY_EP_V6TCP, SK_ENTITY_EP_V6UDP, SK_ENTITY_EP_TXN_TIMER]"

definition merge_one_stat :: "sk_entity_mgr_stat \<Rightarrow> sk_entity_mgr_stat \<Rightarrow> sk_entity_mgr_stat" where
  "merge_one_stat target stat = target\<lparr>st_total := st_total target + st_total stat,
     st_inactive := st_inactive target + st_inactive stat,
     st_by_type := (\<lambda>t. if t \<in> set merged_types then st_by_type target t + st_by_type stat t else st_by_type target t)\<rparr>"

text \<open>The managers of an engine: its own, and those of the two managers of its end points.\<close>

definition engine_mgrs :: "('b, 'o, 'v, 'd) sk_engine \<Rightarrow> addr list" where
  "engine_mgrs e = [eg_entity_mgr e, em_eps (pl_tcp (eg_pool e)), em_eps (pl_udp (eg_pool e))]"

fun merge_stats :: "('b, 'o) world \<Rightarrow> sk_entity_mgr_stat \<Rightarrow> addr list \<Rightarrow> sk_entity_mgr_stat res" where
  "merge_stats w target [] = Inr target"
| "merge_stats w target (m # ms) = with_mgr w m (\<lambda>mgr. merge_stats w (merge_one_stat target (mg_stat mgr)) ms)"

definition merge_stat :: "('b, 'o) world \<Rightarrow> sk_entity_mgr_stat \<Rightarrow> ('b, 'o, 'v, 'd) sk_engine \<Rightarrow> sk_entity_mgr_stat res" where
  "merge_stat w target e = merge_stats w target (engine_mgrs e)"

fun merge_engines ::
  "('b, 'o) world \<Rightarrow> sk_entity_mgr_stat \<Rightarrow> ('b, 'o, 'v, 'd) sk_engine list \<Rightarrow> sk_entity_mgr_stat res" where
  "merge_engines w target [] = Inr target"
| "merge_engines w target (e # es) = rbind (merge_stat w target e) (\<lambda>target. merge_engines w target es)"

definition entity_stat0 :: sk_entity_mgr_stat where
  "entity_stat0 = \<lparr>st_total = 0, st_inactive = 0, st_by_type = (\<lambda>_. 0)\<rparr>"

definition entities_text :: "sk_entity_mgr_stat \<Rightarrow> string" where
  "entities_text st = ifmt ''entities'' (line
     (''total:'' @ int_dec (st_total st) @ '' inactive:'' @ int_dec (st_inactive st) @ ''; '' @
      ''none:'' @ int_dec (st_by_type st SK_ENTITY_NONE) @ '' std:'' @ int_dec (st_by_type st SK_ENTITY_STD) @
      '' v4tcp:'' @ int_dec (st_by_type st SK_ENTITY_SOCK_V4TCP) @ '' v4udp:'' @ int_dec (st_by_type st SK_ENTITY_SOCK_V4UDP) @
      '' v6tcp:'' @ int_dec (st_by_type st SK_ENTITY_SOCK_V6TCP) @ '' v6udp:'' @ int_dec (st_by_type st SK_ENTITY_SOCK_V6UDP) @
      '' timer:'' @ int_dec (st_by_type st SK_ENTITY_TIMER) @
      '' ep_v4tcp:'' @ int_dec (st_by_type st SK_ENTITY_EP_V4TCP) @ '' ep_v4udp:'' @ int_dec (st_by_type st SK_ENTITY_EP_V4UDP) @
      '' ep_v6tcp:'' @ int_dec (st_by_type st SK_ENTITY_EP_V6TCP) @ '' ep_v6udp:'' @ int_dec (st_by_type st SK_ENTITY_EP_V6UDP) @
      '' ep_timer:'' @ int_dec (st_by_type st SK_ENTITY_EP_TIMER) @
      '' ep_txn_timer:'' @ int_dec (st_by_type st SK_ENTITY_EP_TXN_TIMER)))"

definition status_entity ::
  "('o, u8) fmbuf_ops \<Rightarrow> ('b, 'o, 'v, 'd) sk_core \<Rightarrow> 'o sk_admin_data \<Rightarrow> 'o sk_admin_data res" where
  "status_entity F core ad = deref (co_master core) (\<lambda>master.
     rbind (merge_stat (co_w core) entity_stat0 master) (\<lambda>st.
     rbind (merge_engines (co_w core) st (co_workers core)) (\<lambda>st.
     rbind (merge_engines (co_w core) st (co_bio core)) (\<lambda>st.
     append_response F ad (entities_text st)))))"

text \<open>\<^verbatim>\<open>_process_status\<close>: the lines about the system come first.\<close>

definition process_status ::
  "('o, u8) fmbuf_ops \<Rightarrow> 'd admin_env \<Rightarrow> (string \<Rightarrow> size_t \<times> size_t \<times> size_t) \<Rightarrow> ('b, 'o, 'v, 'd) sk_core \<Rightarrow> 'o sk_admin_data \<Rightarrow>
     'o sk_admin_data res" where
  "process_status F A mstat core ad =
     rbind (append_all F ad (ax_system A)) (\<lambda>ad.
     rbind (status_workflow F core ad) (\<lambda>ad.
     rbind (status_module F mstat core ad) (\<lambda>ad.
     rbind (status_service F core ad) (\<lambda>ad.
     status_entity F core ad))))"

section \<open>Memory\<close>

definition append_mem_stat ::
  "('o, u8) fmbuf_ops \<Rightarrow> 'o sk_admin_data \<Rightarrow> string \<Rightarrow> string \<Rightarrow> sk_mem_stat \<Rightarrow> bool \<Rightarrow> 'o sk_admin_data res" where
  "append_mem_stat F ad t n st detail =
     rbind (append_response F ad (mem_fmt t n ''used'' (uint (sk_mem_allocated st)))) (\<lambda>ad.
       if \<not> detail then Inr ad
       else append_all F ad
         [mem_fmt t n ''nmalloc'' (ms_nmalloc st), mem_fmt t n ''nfree'' (ms_nfree st), mem_fmt t n ''ncalloc'' (ms_ncalloc st),
          mem_fmt t n ''nrealloc'' (ms_nrealloc st), mem_fmt t n ''nposix_memalign'' (ms_nposix_memalign st),
          mem_fmt t n ''naligned_alloc'' (ms_naligned_alloc st), mem_fmt t n ''alloc_sz'' (uint (ms_alloc_sz st)),
          mem_fmt t n ''dalloc_sz'' (uint (ms_dalloc_sz st)), mem_fmt t n ''peak_sz'' (uint (ms_peak_sz st)), [LF]])"

text \<open>The rows of \<^verbatim>\<open>_process_memory_info\<close>, with the two totals.\<close>

fun mem_rows ::
  "('o, u8) fmbuf_ops \<Rightarrow> bool \<Rightarrow> (string \<times> string \<times> sk_mem_stat option) list \<Rightarrow> 'o sk_admin_data \<times> size_t \<times> size_t \<Rightarrow>
     ('o sk_admin_data \<times> size_t \<times> size_t) res" where
  "mem_rows F detail [] s = Inr s"
| "mem_rows F detail ((t, n, stat) # rows) (ad, total_allocated, peak) = deref stat (\<lambda>st.
     rbind (append_mem_stat F ad t n st detail) (\<lambda>ad.
     mem_rows F detail rows (ad, total_allocated + sk_mem_allocated st, peak + ms_peak_sz st)))"

definition mem_info_rows :: "('b, 'o, 'v, 'd) sk_core \<Rightarrow> sk_mem \<Rightarrow> (string \<times> string \<times> sk_mem_stat option) list" where
  "mem_info_rows core m =
     [(''.'', ''init'', Some (im_init m)), (''.'', ''core'', Some (im_core m)),
      (''module'', m_name sk_admin_module, sk_mem_stat_module m (m_name sk_admin_module))] @
     map (\<lambda>(_, md). (''module'', m_name md, sk_mem_stat_module m (m_name md))) (co_unique_modules core) @
     map (\<lambda>(n, _). (''service'', n, sk_mem_stat_service m n)) (co_services core)"

definition process_memory_info ::
  "('o, u8) fmbuf_ops \<Rightarrow> ('b, 'o, 'v, 'd) sk_core \<Rightarrow> sk_mem \<Rightarrow> 'o sk_admin_data \<Rightarrow> bool \<Rightarrow> 'o sk_admin_data res" where
  "process_memory_info F core m ad detail =
     rbind (append_response F ad (line ''========== Skull Memory Measurement =========='')) (\<lambda>ad.
     rbind (mem_rows F detail (mem_info_rows core m) (ad, 0, 0)) (\<lambda>(ad, total_allocated, peak).
     append_all F ad
       [LF # line ''================== Summary ==================='',
        line (''Total Allocated:    '' @ nat_dec (unat total_allocated)),
        line (''Overall Peak Usage: '' @ nat_dec (unat peak)),
        line (''Tracing Level:      '' @ int_dec (im_tracing_level m)) @ [LF]]))"

definition process_memory_allocator :: "('o, u8) fmbuf_ops \<Rightarrow> 'o sk_admin_data \<Rightarrow> 'o sk_admin_data res" where
  "process_memory_allocator F ad = append_response F ad (''Jemalloc Stat Not Available'' @ [CR, LF])"

definition parse_tracing_level :: "bool \<Rightarrow> string \<Rightarrow> int res" where
  "parse_tracing_level einval subcmd = deref (snd (strsep CHR ''='' subcmd)) (\<lambda>rest.
     let (lv, errno) = strtol einval (fst (strsep CHR ''='' rest))
     in Inr (if errno \<noteq> E_OK then - 1 else long_to_int lv))"

definition process_memory_tracing ::
  "('o, u8) fmbuf_ops \<Rightarrow> bool \<Rightarrow> 'o sk_admin_data \<Rightarrow> sk_mem \<Rightarrow> string \<Rightarrow> ('o sk_admin_data \<times> sk_mem) res" where
  "process_memory_tracing F einval ad m subcmd = rbind (parse_tracing_level einval subcmd) (\<lambda>lv.
     if lv < 0 then rbind (append_response F ad (line ''Error: Invalid tracing level'' @ [LF])) (\<lambda>ad. Inr (ad, m))
     else Inr (ad, sk_mem_trace m lv))"

definition process_memory ::
  "('o, u8) fmbuf_ops \<Rightarrow> bool \<Rightarrow> ('b, 'o, 'v, 'd) sk_core \<Rightarrow> 'o sk_admin_data \<Rightarrow> sk_mem \<Rightarrow> ('o sk_admin_data \<times> sk_mem) res" where
  "process_memory F einval core ad m =
     (let subcommand = (if length (ad_command ad) = 1 then ''info'' else ad_command ad ! 1)
      in if strcaseeq ''info'' subcommand then rbind (process_memory_info F core m ad False) (\<lambda>ad. Inr (ad, m))
         else if strcaseeq ''detail'' subcommand then rbind (process_memory_info F core m ad True) (\<lambda>ad. Inr (ad, m))
         else if strcaseeq ''trace='' (take 6 subcommand) then
           rbind (process_memory_tracing F einval ad m subcommand) (\<lambda>(ad, m).
           rbind (process_memory_info F core m ad False) (\<lambda>ad. Inr (ad, m)))
         else if strcaseeq ''full'' subcommand then
           rbind (process_memory_info F core m ad True) (\<lambda>ad.
           rbind (process_memory_allocator F ad) (\<lambda>ad. Inr (ad, m)))
         else rbind (process_help F ad) (\<lambda>ad. Inr (ad, m)))"

section \<open>The commands\<close>

definition admin_run ::
  "('o, u8) fmbuf_ops \<Rightarrow> 'd admin_env \<Rightarrow> (string \<Rightarrow> size_t \<times> size_t \<times> size_t) \<Rightarrow> ('b, 'o, 'v, 'd) sk_core \<Rightarrow>
     'o sk_admin_data \<times> sk_mem \<Rightarrow> ('o sk_admin_data \<times> sk_mem) res" where
  "admin_run F A mstat core s = (case s of (ad, m) \<Rightarrow>
     if ad_ignore ad then Inr (ad, m)
     else case ad_command ad of [] \<Rightarrow> Inl NullDeref | command # _ \<Rightarrow>
       (let keep = (\<lambda>r. rbind r (\<lambda>ad. Inr (ad, m)))
        in if strcaseeq ''help'' command then keep (process_help F ad)
           else if strcaseeq ''metrics'' command \<or> strcaseeq ''counter'' command then keep (process_metrics F A core ad 0)
           else if strcaseeq ''last'' command then keep (process_metrics F A core ad 1)
           else if strcaseeq ''status'' command \<or> strcaseeq ''info'' command then keep (process_status F A mstat core ad)
           else if strcaseeq ''memory'' command then process_memory F (ax_einval A) core ad m
           else keep (process_help F ad)))"

section \<open>What the status says of the entities\<close>

definition ents_of :: "('b, 'o) world \<Rightarrow> addr list \<Rightarrow> addr list" where
  "ents_of w ms = concat (map (\<lambda>m. case w_mgrs w m of Some mgr \<Rightarrow> mg_entities mgr | None \<Rightarrow> []) ms)"

definition dead_at :: "('b, 'o) world \<Rightarrow> addr \<Rightarrow> bool" where
  "dead_at w a \<longleftrightarrow> map_option e_status (w_ents w a) = Some SK_ENTITY_DEAD"

definition mgrs_ok :: "('b, 'o) world \<Rightarrow> addr list \<Rightarrow> bool" where
  "mgrs_ok w ms \<longleftrightarrow> (\<forall>m \<in> set ms. \<exists>mgr. Sk_Entity.mgr_ok w m mgr)"

text \<open>The counters of \<open>st'\<close> are those of \<open>st\<close> and the entities of \<open>as\<close>, less the two kinds that are left out.\<close>

definition counts :: "('b, 'o) world \<Rightarrow> sk_entity_mgr_stat \<Rightarrow> addr list \<Rightarrow> sk_entity_mgr_stat \<Rightarrow> bool" where
  "counts w st as st' \<longleftrightarrow> st_total st' = st_total st + int (length as) \<and>
     st_inactive st' = st_inactive st + int (length (filter (dead_at w) as)) \<and>
     (\<forall>t. st_by_type st' t = st_by_type st t +
        (if t = SK_ENTITY_STD \<or> t = SK_ENTITY_EP_TIMER then 0 else int (length (filter (ent_type_at w t) as))))"

lemma counts_Nil: "counts w st [] st"
  by (simp add: counts_def)

lemma counts_trans: "counts w st as st' \<Longrightarrow> counts w st' bs st'' \<Longrightarrow> counts w st (as @ bs) st''"
  by (auto simp: counts_def)

lemma merged_types_all: "t \<in> set merged_types \<longleftrightarrow> t \<noteq> SK_ENTITY_STD \<and> t \<noteq> SK_ENTITY_EP_TIMER"
  by (cases t) (simp_all add: merged_types_def)

lemma filter_same_length:
  assumes "distinct xs" "distinct ys" "set ys \<subseteq> set xs" "\<forall>x \<in> set xs. P x \<longleftrightarrow> x \<in> set ys"
  shows "length (filter P xs) = length ys"
proof -
  have "set (filter P xs) = set ys" using assms by auto
  then show ?thesis using assms by (metis distinct_card distinct_filter)
qed

lemma merge_one_counts:
  assumes "Sk_Entity.mgr_ok w m mgr"
  shows "counts w st (mg_entities mgr) (merge_one_stat st (mg_stat mgr))"
proof -
  from assms have ok: "distinct (mg_entities mgr)" "distinct (mg_inactive mgr)" "set (mg_inactive mgr) \<subseteq> set (mg_entities mgr)"
    "\<forall>a \<in> set (mg_entities mgr). \<exists>e. w_ents w a = Some e \<and> (e_status e = SK_ENTITY_DEAD \<longleftrightarrow> a \<in> set (mg_inactive mgr))"
    "st_total (mg_stat mgr) = int (length (mg_entities mgr))" "st_inactive (mg_stat mgr) = int (length (mg_inactive mgr))"
    "\<forall>t. st_by_type (mg_stat mgr) t = int (length (filter (ent_type_at w t) (mg_entities mgr)))"
    by (auto simp: Sk_Entity.mgr_ok_def mgr_inv_def)
  have "\<forall>a \<in> set (mg_entities mgr). dead_at w a \<longleftrightarrow> a \<in> set (mg_inactive mgr)"
    using ok(4) by (fastforce simp: dead_at_def)
  from filter_same_length [OF ok(1-3) this] ok show ?thesis
    by (simp add: counts_def merge_one_stat_def merged_types_all)
qed

lemma merge_stats_counts:
  "mgrs_ok w ms \<Longrightarrow> \<exists>st'. merge_stats w st ms = Inr st' \<and> counts w st (ents_of w ms) st'"
proof (induction ms arbitrary: st)
  case Nil
  then show ?case by (simp add: ents_of_def counts_Nil)
next
  case (Cons m ms)
  then obtain mgr where mgr: "Sk_Entity.mgr_ok w m mgr" and ms: "mgrs_ok w ms" by (auto simp: mgrs_ok_def)
  then have m: "w_mgrs w m = Some mgr" by (simp add: Sk_Entity.mgr_ok_def mgr_inv_def)
  from Cons.IH [OF ms, of "merge_one_stat st (mg_stat mgr)"] counts_trans [OF merge_one_counts [OF mgr]]
  show ?case by (fastforce simp: m with_mgr_def ents_of_def)
qed

lemma merge_engines_counts:
  "mgrs_ok w (concat (map engine_mgrs es)) \<Longrightarrow>
     \<exists>st'. merge_engines w st es = Inr st' \<and> counts w st (ents_of w (concat (map engine_mgrs es))) st'"
proof (induction es arbitrary: st)
  case Nil
  then show ?case by (simp add: ents_of_def counts_Nil)
next
  case (Cons e es)
  then have e: "mgrs_ok w (engine_mgrs e)" and es: "mgrs_ok w (concat (map engine_mgrs es))" by (auto simp: mgrs_ok_def)
  from merge_stats_counts [OF e] obtain st1 where
    "merge_stat w st e = Inr st1" "counts w st (ents_of w (engine_mgrs e)) st1" by (auto simp: merge_stat_def)
  moreover from Cons.IH [OF es] obtain st2 where
    "merge_engines w st1 es = Inr st2" "counts w st1 (ents_of w (concat (map engine_mgrs es))) st2" by blast
  ultimately show ?case by (auto simp: ents_of_def intro: counts_trans)
qed

definition core_mgrs :: "('b, 'o, 'v, 'd) sk_core \<Rightarrow> addr list" where
  "core_mgrs core = concat (map engine_mgrs
     ((case co_master core of Some e \<Rightarrow> [e] | None \<Rightarrow> []) @ co_workers core @ co_bio core))"

text \<open>
  C37: the entities of the status. When the managers of all engines are well-formed, the status reports over the master, the
  workers and the background engines how many entities there are, how many of them are dead, and how many of each
  kind, except that the standard input and the timers of end points are always reported as 0 although they are in the total.
\<close>

theorem status_entity_counts:
  fixes core :: "('b, 'o, 'v, 'd) sk_core"
  assumes master: "co_master core \<noteq> None" and ok: "mgrs_ok (co_w core) (core_mgrs core)"
  defines "as \<equiv> ents_of (co_w core) (core_mgrs core)"
  shows "\<exists>st. status_entity F core ad = append_response F ad (entities_text st) \<and>
     st_total st = int (length as) \<and> st_inactive st = int (length (filter (dead_at (co_w core)) as)) \<and>
     st_by_type st SK_ENTITY_STD = 0 \<and> st_by_type st SK_ENTITY_EP_TIMER = 0 \<and>
     (\<forall>t. t \<noteq> SK_ENTITY_STD \<and> t \<noteq> SK_ENTITY_EP_TIMER \<longrightarrow>
        st_by_type st t = int (length (filter (ent_type_at (co_w core) t) as)))"
proof -
  let ?w = "co_w core"
  let ?es = "\<lambda>es. ents_of ?w (concat (map engine_mgrs es))"
  from master obtain e where e: "co_master core = Some e" by auto
  have oks: "mgrs_ok ?w (engine_mgrs e)" "mgrs_ok ?w (concat (map engine_mgrs (co_workers core)))"
    "mgrs_ok ?w (concat (map engine_mgrs (co_bio core)))"
    using ok by (auto simp: mgrs_ok_def core_mgrs_def e)
  from merge_stats_counts [OF oks(1)] obtain s1 where
    s1: "merge_stat ?w entity_stat0 e = Inr s1" "counts ?w entity_stat0 (ents_of ?w (engine_mgrs e)) s1"
    by (auto simp: merge_stat_def)
  from merge_engines_counts [OF oks(2)] obtain s2 where
    s2: "merge_engines ?w s1 (co_workers core) = Inr s2" "counts ?w s1 (?es (co_workers core)) s2" by blast
  from merge_engines_counts [OF oks(3)] obtain s3 where
    s3: "merge_engines ?w s2 (co_bio core) = Inr s3" "counts ?w s2 (?es (co_bio core)) s3" by blast
  have "counts ?w entity_stat0 as s3"
    using counts_trans [OF counts_trans [OF s1(2) s2(2)] s3(2)] by (simp add: as_def core_mgrs_def e ents_of_def)
  moreover have "status_entity F core ad = append_response F ad (entities_text s3)"
    by (simp add: status_entity_def e s1 s2 s3)
  ultimately show ?thesis by (intro exI [of _ s3]) (simp add: counts_def entity_stat0_def)
qed

text \<open>A master that has the standard input and a connection: the total is 2, the standard input is not reported.\<close>

definition admin_world :: "(sk_srv_task cellbuf, u8 cellbuf) world" where
  "admin_world = empty_world\<lparr>
     w_mgrs := (\<lambda>_. Some \<lparr>mg_entities = [], mg_inactive = [], mg_tmp = [], mg_owner_sched = Some 100,
                          mg_stat = entity_stat0\<rparr>)
       (10 \<mapsto> \<lparr>mg_entities = [1, 2], mg_inactive = [], mg_tmp = [], mg_owner_sched = Some 100,
               mg_stat = \<lparr>st_total = 2, st_inactive = 0, st_by_type = (\<lambda>_. 0)(SK_ENTITY_STD := 1, SK_ENTITY_SOCK_V4TCP := 1)\<rparr>\<rparr>),
     w_ents := [1 \<mapsto> (demo_entity (Some 10) SK_ENTITY_ACTIVE [] [])\<lparr>e_type := SK_ENTITY_STD\<rparr>,
                2 \<mapsto> demo_entity (Some 10) SK_ENTITY_ACTIVE [] []]\<rparr>"

definition admin_engine :: "(sk_srv_task cellbuf, u8 cellbuf, sk_event cellbuf, int) sk_engine" where
  "admin_engine = \<lparr>eg_type = SK_ENGINE_MASTER, eg_addr = 100, eg_sched = sched_init (cellbuf_ops SK_EVENT_SZ) 10 0,
     eg_entity_mgr = 10, eg_mon = sk_mon_create 0, eg_pool = sk_ep_pool_create (empty_world\<lparr>w_next := 11\<rparr>) 100 8, eg_env = None\<rparr>"

definition admin_core :: "(sk_srv_task cellbuf, u8 cellbuf, sk_event cellbuf, int) sk_core" where
  "admin_core = (core_zero admin_world)\<lparr>co_master := Some admin_engine\<rparr>"

lemma admin_mgrs: "core_mgrs admin_core = [10, 11, 12]"
  by (simp add: core_mgrs_def admin_core_def core_zero_def engine_mgrs_def admin_engine_def sk_ep_pool_create_def
      sk_ep_mgr_create_def sk_entity_mgr_create_def Let_def)

lemma admin_mgrs_ok: "mgrs_ok admin_world [10, 11, 12]"
proof -
  have "\<exists>mgr. Sk_Entity.mgr_ok admin_world m mgr" for m
    by (rule exI [of _ "the (w_mgrs admin_world m)"], rule Sk_Entity.mgr_ok_intro)
      (auto simp: admin_world_def demo_entity_def ent_ok_def ent_type_at_def entity_stat0_def split: if_splits)
  then show ?thesis by (simp add: mgrs_ok_def)
qed

theorem status_entity_counts_witness:
  "\<exists>st. status_entity (cellbuf_ops 1) admin_core (sk_admin_data_create (cellbuf_ops 1)) =
       append_response (cellbuf_ops 1) (sk_admin_data_create (cellbuf_ops 1)) (entities_text st) \<and>
     st_total st = 2 \<and> st_by_type st SK_ENTITY_STD = 0 \<and> st_by_type st SK_ENTITY_SOCK_V4TCP = 1"
proof -
  have w: "co_w admin_core = admin_world" "co_master admin_core \<noteq> None" by (simp_all add: admin_core_def core_zero_def)
  have as: "ents_of admin_world [10, 11, 12] = [1, 2]" by (simp add: ents_of_def admin_world_def)
  have n: "length (filter (ent_type_at admin_world SK_ENTITY_SOCK_V4TCP) [1, 2]) = 1"
    by (simp add: ent_type_at_def admin_world_def demo_entity_def)
  show ?thesis
    using status_entity_counts [OF w(2), of "cellbuf_ops 1" "sk_admin_data_create (cellbuf_ops 1)"] admin_mgrs_ok n by (fastforce simp: admin_mgrs w as)
qed

section \<open>The tracing level\<close>

lemma strsep_trace: "strsep CHR ''='' (''trace='' @ s) = (''trace'', Some s)"
  by (simp add: strsep_def)

lemma int_dec_no_eq: "CHR ''='' \<notin> set (int_dec i)"
  using nat_dec_digits [of "nat i"] nat_dec_digits [of "nat (- i)"] by (auto simp: int_dec_def isdigit_def)

text \<open>
  \<^verbatim>\<open>memory trace=n\<close> with a decimal number of 32 bits: a negative one is refused and changes nothing, any other sets the level, at most 10.
\<close>

lemma memory_trace_level:
  assumes "- (2 ^ 31) \<le> i" "i < 2 ^ 31"
  shows "process_memory_tracing F einval ad m (''trace='' @ int_dec i) =
    (if i < 0 then rbind (append_response F ad (line ''Error: Invalid tracing level'' @ [LF])) (\<lambda>ad. Inr (ad, m))
     else Inr (ad, m\<lparr>im_tracing_level := min i 10\<rparr>))"
proof -
  have "strtol einval (int_dec i) = (i, E_OK)"
    using strtol_dec [of "[]" einval i] assms by (simp add: clamp_long_def LONG_MAX_def LONG_MIN_def)
  moreover have "strsep CHR ''='' (int_dec i) = (int_dec i, None)" by (rule strsep_end [OF int_dec_no_eq])
  ultimately have "parse_tracing_level einval (''trace='' @ int_dec i) = Inr i"
    using assms unfolding parse_tracing_level_def strsep_trace by (simp add: long_to_int_id)
  then show ?thesis by (auto simp: process_memory_tracing_def sk_mem_trace_def SK_MAX_FRAME_def min_def)
qed

end
