(* ===== verification/User_Config.thy ===== *)
theory User_Config
  imports Core Config_Proofs
begin

text \<open>
  The rest of the C interface for services and modules: \<^verbatim>\<open>config.c\<close>, \<^verbatim>\<open>metrics_utils.c\<close>,
  \<^verbatim>\<open>module_loader.c\<close> and \<^verbatim>\<open>service_loader.c\<close> of \<^verbatim>\<open>src/src/user-c/src\<close>. They hand over to the configuration (theory
  \<open>Config\<close>), to the counters of the user (\<open>co_umon\<close>) and to the tables of loaders (theory \<open>Loaders\<close>).
\<close>

section \<open>Configurations of the user\<close>

record skull_config =
  kc_config_file_name :: string
  kc_config :: sk_cfg_node

text \<open>\<open>yaml\<close> gives the parsed documents of a file; one that cannot be opened fails an assertion like one that does not parse.\<close>

definition skull_config_create ::
  "nat \<Rightarrow> sk_cfg_node hset \<Rightarrow> (string \<Rightarrow> yaml_doc option list) \<Rightarrow> string option \<Rightarrow> skull_config option res" where
  "skull_config_create n hset yaml config_file_name = (case config_file_name of
     None \<Rightarrow> Inr None
   | Some name \<Rightarrow> rbind (sk_config_load n hset (yaml name)) (\<lambda>cfg. case cfg of
       None \<Rightarrow> Inr None
     | Some cfg \<Rightarrow> Inr (Some \<lparr>kc_config_file_name = name, kc_config = cfg\<rparr>)))"

text \<open>What the functions that read a value share: the root must be a mapping; no key gives 0, a key that is not there the default.\<close>

definition config_value ::
  "skull_config \<Rightarrow> string option \<Rightarrow> 'a \<Rightarrow> 'a \<Rightarrow> (sk_cfg_node \<Rightarrow> 'a res) \<Rightarrow> 'a res" where
  "config_value config key_name zero default_value get = (case kc_config config of
     Cfg_mapping m \<Rightarrow>
       (case key_name of
         None \<Rightarrow> Inr zero
       | Some key \<Rightarrow> (case map_of m key of None \<Rightarrow> Inr default_value | Some node \<Rightarrow> get node))
   | _ \<Rightarrow> Inl Assert)"

definition skull_config_getbool :: "skull_config \<Rightarrow> string option \<Rightarrow> int \<Rightarrow> int res" where
  "skull_config_getbool config key_name default_value = config_value config key_name 0 default_value
     (\<lambda>node. rbind (sk_config_getbool node) (\<lambda>b. Inr (if b then 1 else 0)))"

definition skull_config_getint :: "bool \<Rightarrow> skull_config \<Rightarrow> string option \<Rightarrow> int \<Rightarrow> int res" where
  "skull_config_getint einval config key_name default_value = config_value config key_name 0 default_value
     (sk_config_getint einval)"

text \<open>The text may be \<^verbatim>\<open>NULL\<close>: without a key.\<close>

definition skull_config_getstring :: "skull_config \<Rightarrow> string option \<Rightarrow> string option res" where
  "skull_config_getstring config key_name = config_value config key_name None (Some [])
     (\<lambda>node. rbind (sk_config_getstring node) (\<lambda>s. Inr (Some s)))"

section \<open>Counters of the user\<close>

definition skull_metric_inc ::
  "('b, 'o, 'v, 'd :: {zero, plus}) sk_core \<Rightarrow> string \<Rightarrow> 'd \<Rightarrow> ('b, 'o, 'v, 'd) sk_core res" where
  "skull_metric_inc core name v = rbind (sk_mon_inc (co_umon core) name v) (\<lambda>mon. Inr (core\<lparr>co_umon := mon\<rparr>))"

definition skull_metric_get :: "('b, 'o, 'v, 'd :: zero) sk_core \<Rightarrow> string \<Rightarrow> 'd res" where
  "skull_metric_get core name = sk_mon_get (co_umon core) name"

section \<open>Loaders of a language\<close>

text \<open>A language gives functions that open a module or service of its own, here an address.\<close>

record skull_module_loader =
  kl_name :: "string \<Rightarrow> string"
  kl_conf_name :: "string \<Rightarrow> string"
  kl_open :: "string \<Rightarrow> addr option"
  kl_load_config :: "addr \<Rightarrow> string \<Rightarrow> int"
  kl_close :: "addr \<Rightarrow> int"

text \<open>\<^verbatim>\<open>_module_open\<close>: every module gets a pack and an unpack function.\<close>

definition module_open :: "skull_module_loader \<Rightarrow> string \<Rightarrow> sk_module option" where
  "module_open loader filename = (case kl_open loader filename of
     None \<Rightarrow> None
   | Some u_module \<Rightarrow> Some \<lparr>m_addr = u_module, m_name = [], m_pack = True, m_unpack = True\<rparr>)"

definition module_close :: "skull_module_loader \<Rightarrow> sk_module \<Rightarrow> int" where
  "module_close loader module = kl_close loader (m_addr module)"

definition module_load_config :: "skull_module_loader \<Rightarrow> sk_module \<Rightarrow> string option \<Rightarrow> int" where
  "module_load_config loader module filename = (case filename of
     None \<Rightarrow> 1 | Some f \<Rightarrow> kl_load_config loader (m_addr module) f)"

definition skull_module_loader_register ::
  "sk_module_loader loader_tbl \<Rightarrow> string \<Rightarrow> skull_module_loader \<Rightarrow> sk_module_loader loader_tbl" where
  "skull_module_loader_register tbl type loader = loader_register tbl type
     \<lparr>ml_name = kl_name loader, ml_conf_name = kl_conf_name loader, ml_open = module_open loader,
      ml_load_config = (\<lambda>module f. module_load_config loader module (Some f)), ml_close = module_close loader\<rparr>"

definition skull_module_loader_unregister ::
  "sk_module_loader loader_tbl \<Rightarrow> string option \<Rightarrow> sk_module_loader loader_tbl res" where
  "skull_module_loader_unregister tbl type = rbind (loader_unregister tbl type) (\<lambda>(tbl, loader). Inr tbl)"

record skull_service_loader =
  kv_name :: "string \<Rightarrow> string"
  kv_conf_name :: "string \<Rightarrow> string"
  kv_open :: "string \<Rightarrow> addr \<Rightarrow> int"
  kv_load_config :: "addr \<Rightarrow> string \<Rightarrow> int"
  kv_close :: "addr \<Rightarrow> int"

text \<open>\<^verbatim>\<open>_srv_open\<close>: \<open>u_opt\<close> is the structure that is allocated for the functions of the service.\<close>

definition srv_open :: "skull_service_loader \<Rightarrow> addr \<Rightarrow> string \<Rightarrow> addr \<times> int" where
  "srv_open loader u_opt filename = (u_opt, kv_open loader filename u_opt)"

definition srv_close :: "skull_service_loader \<Rightarrow> addr \<Rightarrow> int" where
  "srv_close loader srv_data = kv_close loader srv_data"

definition srv_load_config :: "skull_service_loader \<Rightarrow> addr \<Rightarrow> string option \<Rightarrow> int" where
  "srv_load_config loader srv_data filename = (case filename of None \<Rightarrow> 1 | Some f \<Rightarrow> kv_load_config loader srv_data f)"

text \<open>\<open>alloc\<close> gives the structure for a file, \<open>opt_of\<close> the one that a service has.\<close>

definition skull_service_loader_register ::
  "sk_service_loader loader_tbl \<Rightarrow> string \<Rightarrow> skull_service_loader \<Rightarrow> (string \<Rightarrow> addr) \<Rightarrow> (string \<Rightarrow> addr) \<Rightarrow>
     sk_service_loader loader_tbl" where
  "skull_service_loader_register tbl type loader alloc opt_of = loader_register tbl type
     \<lparr>sl_name = kv_name loader, sl_conf_name = kv_conf_name loader, sl_open = (\<lambda>f. srv_open loader (alloc f) f),
      sl_load_config = (\<lambda>service f. srv_load_config loader (opt_of service) (Some f)),
      sl_close = (\<lambda>service. srv_close loader (opt_of service))\<rparr>"

definition skull_service_loader_unregister ::
  "sk_service_loader loader_tbl \<Rightarrow> string option \<Rightarrow> sk_service_loader loader_tbl res" where
  "skull_service_loader_unregister tbl type = rbind (loader_unregister tbl type) (\<lambda>(tbl, loader). Inr tbl)"

section \<open>Facts\<close>

text \<open>A number that was written in decimal is read, a key that is missing gives the default.\<close>

lemma skull_config_getint_written:
  assumes "kc_config config = Cfg_mapping m"
  shows "map_of m key = Some (Cfg_value (int_dec i)) \<Longrightarrow> - (2 ^ 31) \<le> i \<Longrightarrow> i < 2 ^ 31 \<Longrightarrow>
      skull_config_getint einval config (Some key) v = Inr i"
    and "map_of m key = None \<Longrightarrow> skull_config_getint einval config (Some key) v = Inr v"
  using assms strtol_dec [of "[]" einval i]
  by (simp_all add: skull_config_getint_def config_value_def sk_config_getint_def clamp_long_def LONG_MAX_def
      LONG_MIN_def long_to_int_id)

text \<open>The first loader of a type is kept; a module of that type is then opened by it and gets the name of the configuration.\<close>

lemma skull_module_loader_first:
  "loader_register (skull_module_loader_register None type loader) type l = skull_module_loader_register None type loader"
  by (simp add: skull_module_loader_register_def loader_register_def)

lemma skull_module_loaded:
  assumes "mc_type cfg = Some type" "mc_name cfg = Some name" "kl_open loader (kl_name loader name) = Some u"
    and "kl_load_config loader u (kl_conf_name loader name) = 0"
  shows "sk_module_load (skull_module_loader_register None type loader) cfg None =
    Inr (Some \<lparr>m_addr = u, m_name = name, m_pack = True, m_unpack = True\<rparr>)"
  using assms by (simp add: skull_module_loader_register_def loader_register_def sk_module_load_def loader_tbl_get_def
      module_open_def module_load_config_def Let_def)

text \<open>What was counted is read back.\<close>

lemma skull_metric_get_inc:
  fixes v :: "'d :: monoid_add"
  assumes "skull_metric_inc core name v = Inr core'" "skull_metric_get core name = Inr x"
  shows "skull_metric_get core' name = Inr (x + v)"
  using assms by (auto simp: skull_metric_inc_def skull_metric_get_def sk_mon_inc_def sk_mon_get_def raw_value_def res_simps
      split: if_splits)

end
