(* ===== verification/Spec2Isabelle.thy ===== *)
theory Spec2Isabelle
  imports Sched_Run Sched_Proofs Double_Resume Unpack_Proofs Ep_Reach Config_Proofs Core_Proofs User_C_Proofs Admin_Run User_Config
begin

text \<open>
  \<^bold>\<open>A verification development for skull\<close>, an event-driven server framework in C.

  \<^bold>\<open>The program.\<close> A process has a master scheduler, worker schedulers and background I/O (bio)
  schedulers, each an event loop in its own thread. Schedulers exchange messages (protocols,
  \<^verbatim>\<open>sk_pto\<close>) over bridges. A driver turns what arrives on a port into an entity and unpacks its bytes
  into transactions. A transaction passes through the modules of its workflow; a module calls
  services, whose tasks wait in a queue with a policy for readers and writers and run on workers or bios. Timers
  run jobs of services, and services talk to other servers through a pool of end points. User
  code (modules and services) is called through tables of function pointers.

  \<^bold>\<open>How it is modelled.\<close> Code is translated into total functions. An operation that can fail an
  assertion, follow a null pointer, use freed memory or run out of fuel returns a value of \<open>'a res\<close>
  (theory \<open>Prelude\<close>), with a constructor of the error type for each. The objects live in the
  record \<open>world\<close> (theory \<open>World\<close>): maps from addresses to transactions, entities, managers, timers; a map
  from names to services; the counter \<open>w_next\<close> of fresh addresses; the log \<open>w_fx\<close> of effects on the outside
  and the list \<open>w_sends\<close> of the messages sent. The record \<open>sk_env\<close> holds what is not in the sources or not ours to define: the
  buffer library \<^verbatim>\<open>flibs\<close>, the clock, the code of the user, the sockets. Sizes and the unsigned counters and
  identifiers have the width they have in C (\<open>u16\<close>, \<open>u32\<close>, \<open>u64\<close>, \<open>size_t\<close>). What C declares as \<^verbatim>\<open>int\<close> and
  counts things that exist at the same time (the tasks of a transaction, the running tasks and timer jobs of a service, the
  entities of a status) is an unbounded \<open>int\<close>, as are times: overflow of these is not modelled.

  \<^bold>\<open>The theories\<close>, each with the sources under \<^verbatim>\<open>src/src\<close> that it models.

    \<^item> \<open>Prelude\<close>: results, errors, word lemmas, the collections of simplification rules.
    \<^item> \<open>Fmbuf\<close>: the byte ring buffer of the library as a locale \<open>fmbuf\<close>, with its documented behaviour as the
      assumptions, and an instance, \<open>cellbuf_ops\<close>, that shows that they can hold.
    \<^item> \<open>Sk_Queue\<close> (\<^verbatim>\<open>common/sk_queue.c\<close>): the task queue in its three modes; it refines a list with a pull policy.
    \<^item> \<open>Sk_Io\<close> (\<^verbatim>\<open>common/sk_io.c\<close>, \<^verbatim>\<open>common/sk_mbuf.c\<close>): the event queues are FIFO; the byte buffer.
    \<^item> \<open>Sk_Pto\<close> (\<^verbatim>\<open>pto/sk_pto.c\<close>): the table of protocols, packing, checksums.
    \<^item> \<open>Sk_Txn\<close> (\<^verbatim>\<open>common/sk_txn.c\<close>, \<^verbatim>\<open>common/sk_workflow.c\<close>): transactions, their tasks and counters.
    \<^item> \<open>World\<close>: the state shared by the components, messages, events.
    \<^item> \<open>Sk_Entity\<close> (\<^verbatim>\<open>entities/sk_entity.c\<close>, \<^verbatim>\<open>components/sk_entity_mgr.c\<close>): the life of an entity, managers and their counters.
    \<^item> \<open>Rw_Queue\<close>: a locale with the contract of a queue with readers and writers, which \<open>Sk_Queue\<close> interprets.
    \<^item> \<open>Sk_Service\<close> (\<^verbatim>\<open>components/sk_service.c\<close>): the scheduling of tasks; the invariant of mutual exclusion over all reachable
      states of a service, and the progress of the scheduling loop.
    \<^item> \<open>Workflow_Run\<close>, \<open>Workflow_Proofs\<close> (\<^verbatim>\<open>pto/sk_pto_workflow_run.c\<close>, \<^verbatim>\<open>drivers/sk_driver_utils.c\<close>): the state machine of a transaction.
    \<^item> \<open>Service_Pto\<close> (\<^verbatim>\<open>pto/sk_pto_service_*.c\<close>): the messages of a service call; \<open>Double_Resume\<close> composes them
      with the workflow, for two calls whose replies cross.
    \<^item> \<open>Sk_Timer\<close> (\<^verbatim>\<open>common/sk_timer_service.c\<close>, \<^verbatim>\<open>pto/sk_pto_timer_*.c\<close>, \<^verbatim>\<open>pto/sk_pto_service_timer_*.c\<close>): timers and timer jobs.
    \<^item> \<open>Drivers\<close>, \<open>Unpack_Proofs\<close> (\<^verbatim>\<open>drivers\<close>, \<^verbatim>\<open>entities/sk_entity_udp.c\<close> and its siblings, \<^verbatim>\<open>pto/sk_pto_tcp_accept.c\<close>): drivers, concrete
      entities, the assembly of requests from the bytes that arrive.
    \<^item> \<open>Sk_Sched\<close>, \<open>Sched_Run\<close>, \<open>Sched_Proofs\<close> (\<^verbatim>\<open>components/sk_sched.c\<close>): bridges, routing, delivery, the rounds of event processing, and the
      loop of \<^verbatim>\<open>sk_sched_start\<close> over a record \<open>sched_outside\<close> (expired timers, the poll of the event loop, stops from other threads); the
      dispatch of a message to its handler is \<open>pto_run\<close>, which calls the handlers of the theories above.
    \<^item> \<open>Ep_Pool\<close>, \<open>Ep_Proofs\<close>, \<open>Ep_Reach\<close> (\<^verbatim>\<open>components/sk_ep_pool.c\<close>): outgoing connections, requests and their timers.
    \<^item> \<open>Config\<close>, \<open>Config_Proofs\<close> (\<^verbatim>\<open>common/sk_config_loader.c\<close>, \<^verbatim>\<open>components/sk_config.c\<close>): the tree of a YAML file and the configuration picked out of it.
    \<^item> \<open>Sk_Mon\<close> (\<^verbatim>\<open>common/sk_mon.c\<close>): counters and the window of their snapshots.
    \<^item> \<open>Loaders\<close> (\<^verbatim>\<open>common/sk_loader.c\<close>, \<^verbatim>\<open>common/sk_srv_loader.c\<close>, \<^verbatim>\<open>common/sk_user_loader.c\<close>): the tables of loaders, loading and unloading.
    \<^item> \<open>Admin\<close>, \<open>Admin_Run\<close> (\<^verbatim>\<open>components/sk_admin.c\<close>): the command line of the administration port and the commands.
    \<^item> \<open>Core\<close>, \<open>Core_Run\<close>, \<open>Core_Proofs\<close> (\<^verbatim>\<open>components/sk_engine.c\<close>, \<^verbatim>\<open>components/sk_core.c\<close>, \<^verbatim>\<open>main.c\<close>): engines, set-up, start, stop and
      destruction of the server. The record \<open>sk_core\<close> holds the world and the engines, \<open>co_trace\<close> the order in which user code, threads
      and drivers start and stop.
    \<^item> \<open>User_C\<close>, \<open>User_C_Proofs\<close>, \<open>User_Config\<close> (\<^verbatim>\<open>user-c/src\<close>): the interface for services and modules written in C. The code of a service is a program
      over this interface (\<open>sprog\<close>), so the theorems hold for every service.
    \<^item> \<open>Sk_Malloc\<close> (\<^verbatim>\<open>common/sk_malloc.c\<close>): the memory tracer, over an allocator that is a parameter.

  \<^bold>\<open>What is shown\<close>, by component: queues refine lists and keep their order; readers and writers of a service
  exclude each other and no task is lost; the counters of transactions, entities and services are exact
  in every state; a transaction runs each module once and is packed and destroyed once; the handler of a
  workflow event terminates; events reach their receiver once and in order; the search for a bridge is a
  round robin; a timer job fires once, cancelled or not; a package that arrives in pieces
  becomes one request, as the module decides; a stop ends the loop of every engine; a datagram is read without running past its end; messages survive
  packing, and which corruptions the checksum detects; in every reachable state of the pool of end points requests and connections
  point to each other, the limits hold and no callback runs twice; a configuration that loads is valid. The engines form a star
  around the master, which hands work without a receiver to workers only; a module is given to the first workflow that names
  it; user code, threads and drivers start and end in a fixed order; the snapshots show what the counters added up to in
  their periods; a service call is reported done once, in whatever order its callbacks come; the memory
  tracer is right up to the drift of \<^verbatim>\<open>realloc\<close>; and what the status says of the entities. Several theorems state behaviour that the code has and surely does not
  mean to have; they are named in the list of findings of the manifest.

  \<^bold>\<open>Bounds and fuel.\<close> Loops over data are structural recursion. The loops that drain a buffer take fuel, one more than the number of
  bytes or elements in it; the theorems about them show that the result is never \<open>Fuel\<close>. The
  loop of a scheduler and its inner loop over events may run forever: \<open>sched_loop\<close> takes the number of turns and \<open>process_events\<close> the number of
  rounds, and the theorem about them says which event ends the loop, not that one comes. The handler of a workflow event is
  a \<open>function\<close> with a termination proof (a measure on the state of the transaction). Hypotheses that bound sizes
  by a power of two rule out wrap-around of \<^verbatim>\<open>size_t\<close>.

  \<^bold>\<open>Not modelled.\<close> Threads are modelled by the order of the steps: two schedulers share no step. The memory returned by
  the allocator is fresh by construction, except in \<open>Sk_Malloc\<close>, where the allocator is a parameter. Left out are the text of log
  lines and traces, the lines of the status about the build and the process, the environment of a thread,
  clocks and the event loop (system calls, parameters where they matter), signals and becoming a daemon,
  the mock of the engine for unit tests (\<^verbatim>\<open>user-c/src/unittest.c\<close>), and the bindings for C++ and Python, which are not C.
\<close>

end
